(* ===== verification/Prelude.thy ===== *)
theory Prelude
  imports Main "HOL-Library.Monad_Syntax" "HOL-Library.Signed_Division"
begin

text \<open>
  What every component of the car's firmware shares: the C integer conversions, indexed
  access to a C array, the counted loops of the source, and a small calculus of
  ``this computation does not trap, and its result satisfies Q''.

  A computation that can index outside an array is a value of an \<open>option\<close> type: \<open>None\<close> is
  the trap (undefined behaviour in C), \<open>Some\<close> the result.  Sequencing is \<open>Option.bind\<close> in
  do-notation.  A value of a C integer type is an \<open>int\<close>; every store into a narrower object
  goes through the conversion of that type (\<open>i16\<close>, \<open>u8\<close>, ...), so wrap-around is written
  where the source has it.
\<close>

section \<open>Collections\<close>

named_theorems runs_simps \<open>weakest preconditions of the primitive steps\<close>
named_theorems cint_simps \<open>C integer conversions on values in range\<close>

section \<open>C integer conversions\<close>

definition i16 :: "int \<Rightarrow> int" where
  "i16 x = (x + 32768) mod 65536 - 32768"

definition i32 :: "int \<Rightarrow> int" where
  "i32 x = (x + 2147483648) mod 4294967296 - 2147483648"

definition u8 :: "int \<Rightarrow> int" where
  "u8 x = x mod 256"

definition u16 :: "int \<Rightarrow> int" where
  "u16 x = x mod 65536"

definition u32 :: "int \<Rightarrow> int" where
  "u32 x = x mod 4294967296"

lemma i16_id [cint_simps, simp]: "- 32768 \<le> x \<Longrightarrow> x \<le> 32767 \<Longrightarrow> i16 x = x"
  by (simp add: i16_def)

lemma i32_id [cint_simps, simp]: "- 2147483648 \<le> x \<Longrightarrow> x \<le> 2147483647 \<Longrightarrow> i32 x = x"
  by (simp add: i32_def)

lemma u8_id [cint_simps, simp]: "0 \<le> x \<Longrightarrow> x \<le> 255 \<Longrightarrow> u8 x = x"
  by (simp add: u8_def)

lemma u16_id [cint_simps, simp]: "0 \<le> x \<Longrightarrow> x \<le> 65535 \<Longrightarrow> u16 x = x"
  by (simp add: u16_def)

lemma u32_id [cint_simps, simp]: "0 \<le> x \<Longrightarrow> x \<le> 4294967295 \<Longrightarrow> u32 x = x"
  by (simp add: u32_def)

lemma i16_range [simp]: "- 32768 \<le> i16 x" "i16 x \<le> 32767"
  by (simp_all add: i16_def)

lemma u8_range [simp]: "0 \<le> u8 x" "u8 x \<le> 255"
  by (simp_all add: u8_def)

lemma u32_range [simp]: "0 \<le> u32 x" "u32 x \<le> 4294967295"
  by (simp_all add: u32_def)

lemma i16_idem [simp]: "i16 (i16 x) = i16 x"
  by simp

subsection \<open>C integer division truncates towards zero\<close>

lemma sdiv_pos: "0 \<le> a \<Longrightarrow> 0 \<le> b \<Longrightarrow> a sdiv b = a div (b::int)"
  by (simp add: signed_divide_int_def abs_mult sgn_if)

lemma sdiv_bounds:
  assumes "l \<le> 0" "0 \<le> h" "l \<le> a" "a \<le> h" "0 < (b::int)"
  shows "l \<le> a sdiv b" and "a sdiv b \<le> h"
proof -
  have q: "\<bar>a\<bar> div b \<le> \<bar>a\<bar>" "0 \<le> \<bar>a\<bar> div b"
    using assms(5) zdiv_mono2 [of "\<bar>a\<bar>" 1 b] by (simp_all add: pos_imp_zdiv_nonneg_iff)
  have "a sdiv b = (if 0 \<le> a then \<bar>a\<bar> div b else - (\<bar>a\<bar> div b))"
    using assms(5) by (simp add: signed_divide_int_def sgn_if)
  then show "l \<le> a sdiv b" and "a sdiv b \<le> h"
    using q assms(1-4) by (auto split: if_splits)
qed

section \<open>Computations that may trap\<close>

definition runs :: "'a option \<Rightarrow> ('a \<Rightarrow> bool) \<Rightarrow> bool" where
  "runs m Q = (case m of None \<Rightarrow> False | Some x \<Rightarrow> Q x)"

lemma runs_Some [runs_simps, simp]: "runs (Some x) Q = Q x"
  by (simp add: runs_def)

lemma runs_None [runs_simps, simp]: "\<not> runs None Q"
  by (simp add: runs_def)

lemma runs_bind [runs_simps]: "runs (Option.bind m f) Q = runs m (\<lambda>x. runs (f x) Q)"
  by (cases m) simp_all

lemma runs_if [runs_simps]: "runs (if c then a else b) Q = (if c then runs a Q else runs b Q)"
  by simp

lemma runs_iff: "runs m Q \<longleftrightarrow> (\<exists>x. m = Some x \<and> Q x)"
  by (cases m) simp_all

lemma runsI: "m = Some x \<Longrightarrow> Q x \<Longrightarrow> runs m Q"
  by simp

lemma runsE:
  assumes "runs m Q"
  obtains x where "m = Some x" and "Q x"
  using assms by (auto simp: runs_iff)

lemma runs_mono: "runs m P \<Longrightarrow> (\<And>x. P x \<Longrightarrow> Q x) \<Longrightarrow> runs m Q"
  by (cases m) simp_all

lemma runs_conj: "runs m P \<Longrightarrow> runs m Q \<Longrightarrow> runs m (\<lambda>x. P x \<and> Q x)"
  by (cases m) simp_all

lemma runs_bindI: "runs m P \<Longrightarrow> (\<And>x. P x \<Longrightarrow> runs (f x) Q) \<Longrightarrow> runs (Option.bind m f) Q"
  by (cases m) simp_all

section \<open>Array cells\<close>

definition c_get :: "'a list \<Rightarrow> int \<Rightarrow> 'a option" where
  "c_get xs i = (if 0 \<le> i \<and> i < int (length xs) then Some (xs ! nat i) else None)"

definition c_put :: "'a list \<Rightarrow> int \<Rightarrow> 'a \<Rightarrow> 'a list option" where
  "c_put xs i v = (if 0 \<le> i \<and> i < int (length xs) then Some (xs[nat i := v]) else None)"

lemma c_get_Some [simp]: "0 \<le> i \<Longrightarrow> i < int (length xs) \<Longrightarrow> c_get xs i = Some (xs ! nat i)"
  by (simp add: c_get_def)

lemma c_put_Some [simp]: "0 \<le> i \<Longrightarrow> i < int (length xs) \<Longrightarrow> c_put xs i v = Some (xs[nat i := v])"
  by (simp add: c_put_def)

lemma c_get_None: "i < 0 \<or> int (length xs) \<le> i \<Longrightarrow> c_get xs i = None"
  by (auto simp: c_get_def)

lemma c_put_None: "i < 0 \<or> int (length xs) \<le> i \<Longrightarrow> c_put xs i v = None"
  by (auto simp: c_put_def)

lemma runs_c_get [runs_simps]:
  "runs (c_get xs i) Q \<longleftrightarrow> 0 \<le> i \<and> i < int (length xs) \<and> Q (xs ! nat i)"
  by (auto simp: c_get_def)

lemma runs_c_put [runs_simps]:
  "runs (c_put xs i v) Q \<longleftrightarrow> 0 \<le> i \<and> i < int (length xs) \<and> Q (xs[nat i := v])"
  by (auto simp: c_put_def)

section \<open>Conditions\<close>

text \<open>
  A C condition that reads array cells is a \<open>bool option\<close>; \<open>&&\<close> and \<open>||\<close> do not evaluate
  their right operands when the left one decides.
\<close>

fun all_c :: "bool option list \<Rightarrow> bool option" where
  "all_c [] = Some True"
| "all_c (c # cs) = (case c of None \<Rightarrow> None | Some b \<Rightarrow> if b then all_c cs else Some False)"

fun any_c :: "bool option list \<Rightarrow> bool option" where
  "any_c [] = Some False"
| "any_c (c # cs) = (case c of None \<Rightarrow> None | Some b \<Rightarrow> if b then Some True else any_c cs)"

definition lift2 :: "('a \<Rightarrow> 'b \<Rightarrow> 'c) \<Rightarrow> 'a option \<Rightarrow> 'b option \<Rightarrow> 'c option" where
  "lift2 r a b = do { x \<leftarrow> a; y \<leftarrow> b; Some (r x y) }"

abbreviation eq_c :: "'a option \<Rightarrow> 'a \<Rightarrow> bool option" where
  "eq_c a v \<equiv> lift2 (=) a (Some v)"

abbreviation neq_c :: "'a option \<Rightarrow> 'a \<Rightarrow> bool option" where
  "neq_c a v \<equiv> lift2 (\<noteq>) a (Some v)"

text \<open>\<open>if (c1 && c2 && ...) a else b\<close>\<close>

definition when_c :: "bool option list \<Rightarrow> 'a option \<Rightarrow> 'a option \<Rightarrow> 'a option" where
  "when_c cs a b = do { t \<leftarrow> all_c cs; if t then a else b }"

lemma lift2_Some [simp]: "lift2 r (Some x) (Some y) = Some (r x y)"
  by (simp add: lift2_def)

lemma runs_lift2 [runs_simps]: "runs (lift2 r a b) Q = runs a (\<lambda>x. runs b (\<lambda>y. Q (r x y)))"
  by (simp add: lift2_def runs_bind)

lemma runs_all_c_Nil [runs_simps]: "runs (all_c []) Q = Q True"
  by simp

lemma runs_all_c_Cons [runs_simps]:
  "runs (all_c (c # cs)) Q = runs c (\<lambda>b. if b then runs (all_c cs) Q else Q False)"
  by (cases c) simp_all

text \<open>The two ways to reason about a condition: by its value, or only that it does not trap.\<close>

lemma runs_when_c: "runs (when_c cs a b) Q = runs (all_c cs) (\<lambda>t. if t then runs a Q else runs b Q)"
  by (simp add: when_c_def runs_bind runs_if)

lemma runs_whenI:
  assumes "runs (all_c cs) (\<lambda>_. True)" and "runs a Q" and "runs b Q"
  shows "runs (when_c cs a b) Q"
  unfolding runs_when_c by (rule runs_mono [OF assms(1)]) (simp add: assms)

lemma runs_any_c_Nil [runs_simps]: "runs (any_c []) Q = Q False"
  by simp

lemma runs_any_c_Cons [runs_simps]:
  "runs (any_c (c # cs)) Q = runs c (\<lambda>b. if b then Q True else runs (any_c cs) Q)"
  by (cases c) simp_all

lemma all_c_Some [simp]: "all_c (Some b # cs) = (if b then all_c cs else Some False)"
  by simp

lemma any_c_Some [simp]: "any_c (Some b # cs) = (if b then Some True else any_c cs)"
  by simp

declare all_c.simps(2) [simp del] any_c.simps(2) [simp del]

section \<open>Counted loops\<close>

text \<open>
  \<open>for (i = hi; i > lo; i--)\<close> and \<open>for (i = lo; i < hi; i++)\<close>.  The body gets the counter
  and the state; it ends with \<open>Next\<close> (fall through or \<open>continue\<close>) or \<open>Break\<close>.
\<close>

datatype 's flow = Next 's | Break 's

function for_down :: "(int \<Rightarrow> 's \<Rightarrow> 's flow option) \<Rightarrow> int \<Rightarrow> int \<Rightarrow> 's \<Rightarrow> 's option" where
  "for_down body i lo s =
     (if lo < i then
        (case body i s of
           None \<Rightarrow> None
         | Some (Next s') \<Rightarrow> for_down body (i - 1) lo s'
         | Some (Break s') \<Rightarrow> Some s')
      else Some s)"
  by pat_completeness auto
termination
  by (relation "measure (\<lambda>(body, i, lo, s). nat (i - lo))") auto

function for_up :: "(int \<Rightarrow> 's \<Rightarrow> 's flow option) \<Rightarrow> int \<Rightarrow> int \<Rightarrow> 's \<Rightarrow> 's option" where
  "for_up body i hi s =
     (if i < hi then
        (case body i s of
           None \<Rightarrow> None
         | Some (Next s') \<Rightarrow> for_up body (i + 1) hi s'
         | Some (Break s') \<Rightarrow> Some s')
      else Some s)"
  by pat_completeness auto
termination
  by (relation "measure (\<lambda>(body, i, hi, s). nat (hi - i))") auto

declare for_down.simps [simp del] for_up.simps [simp del]

lemma for_down_done: "i \<le> lo \<Longrightarrow> for_down body i lo s = Some s"
  by (simp add: for_down.simps)

lemma for_down_next: "lo < i \<Longrightarrow> body i s = Some (Next s') \<Longrightarrow>
    for_down body i lo s = for_down body (i - 1) lo s'"
  by (subst for_down.simps) simp

lemma for_down_break: "lo < i \<Longrightarrow> body i s = Some (Break s') \<Longrightarrow> for_down body i lo s = Some s'"
  by (subst for_down.simps) simp

lemma for_up_done: "hi \<le> i \<Longrightarrow> for_up body i hi s = Some s"
  by (simp add: for_up.simps)

lemma for_up_next: "i < hi \<Longrightarrow> body i s = Some (Next s') \<Longrightarrow>
    for_up body i hi s = for_up body (i + 1) hi s'"
  by (subst for_up.simps) simp

text \<open>The loop rule: an invariant indexed by the counter, and a postcondition for \<open>break\<close>.\<close>

definition flow_post :: "('s \<Rightarrow> bool) \<Rightarrow> ('s \<Rightarrow> bool) \<Rightarrow> 's flow \<Rightarrow> bool" where
  "flow_post N B r = (case r of Next s \<Rightarrow> N s | Break s \<Rightarrow> B s)"

lemma flow_post_simps [simp]: "flow_post N B (Next s) = N s" "flow_post N B (Break s) = B s"
  by (simp_all add: flow_post_def)

theorem for_down_rule:
  assumes start: "I hi s"
    and step: "\<And>i s. lo < i \<Longrightarrow> i \<le> hi \<Longrightarrow> I i s \<Longrightarrow> runs (body i s) (flow_post (I (i - 1)) Q)"
    and stop: "\<And>s. I (min hi lo) s \<Longrightarrow> Q s"
  shows "runs (for_down body hi lo s) Q"
proof -
  have "runs (for_down body i lo s) Q" if "i \<le> hi" "min hi lo \<le> i" "I i s" for i s
    using that
  proof (induction "nat (i - lo)" arbitrary: i s rule: less_induct)
    case less
    show ?case
    proof (cases "lo < i")
      case True
      from step [OF True less.prems(1,3)] obtain r where r: "body i s = Some r"
        and p: "flow_post (I (i - 1)) Q r" by (rule runsE)
      show ?thesis
      proof (cases r)
        case (Next s')
        have "runs (for_down body (i - 1) lo s') Q"
          by (rule less.hyps) (use True less.prems(1) p Next in auto)
        then show ?thesis using r Next True by (simp add: for_down_next)
      next
        case (Break s')
        then show ?thesis using r p True by (simp add: for_down_break)
      qed
    next
      case False
      with less.prems have "i = min hi lo" by simp
      with less.prems(3) stop have "Q s" by simp
      with False show ?thesis by (simp add: for_down_done)
    qed
  qed
  from this [of hi s] start show ?thesis by simp
qed

theorem for_up_rule:
  assumes start: "I lo s"
    and step: "\<And>i s. lo \<le> i \<Longrightarrow> i < hi \<Longrightarrow> I i s \<Longrightarrow> runs (body i s) (flow_post (I (i + 1)) Q)"
    and stop: "\<And>s. I (max lo hi) s \<Longrightarrow> Q s"
  shows "runs (for_up body lo hi s) Q"
proof -
  have "runs (for_up body i hi s) Q" if "lo \<le> i" "i \<le> max lo hi" "I i s" for i s
    using that
  proof (induction "nat (hi - i)" arbitrary: i s rule: less_induct)
    case less
    show ?case
    proof (cases "i < hi")
      case True
      from step [OF less.prems(1) True less.prems(3)] obtain r where r: "body i s = Some r"
        and p: "flow_post (I (i + 1)) Q r" by (rule runsE)
      show ?thesis
      proof (cases r)
        case (Next s')
        have "runs (for_up body (i + 1) hi s') Q"
          by (rule less.hyps) (use True less.prems(1) p Next in auto)
        then show ?thesis using r Next True by (simp add: for_up_next)
      next
        case (Break s')
        then show ?thesis using r p True by (simp add: for_up.simps)
      qed
    next
      case False
      with less.prems have "i = max lo hi" by simp
      with less.prems(3) stop have "Q s" by simp
      with False show ?thesis by (simp add: for_up_done)
    qed
  qed
  from this [of lo s] start show ?thesis by simp
qed

text \<open>A loop that keeps one predicate throughout, whether or not it breaks.\<close>

corollary for_down_inv:
  assumes "P s" and "\<And>i s. lo < i \<Longrightarrow> i \<le> hi \<Longrightarrow> P s \<Longrightarrow> runs (body i s) (flow_post P P)"
  shows "runs (for_down body hi lo s) P"
  by (rule for_down_rule [where I = "\<lambda>_. P"]) (use assms in auto)

corollary for_up_inv:
  assumes "P s" and "\<And>i s. lo \<le> i \<Longrightarrow> i < hi \<Longrightarrow> P s \<Longrightarrow> runs (body i s) (flow_post P P)"
  shows "runs (for_up body lo hi s) P"
  by (rule for_up_rule [where I = "\<lambda>_. P"]) (use assms in auto)

text \<open>
  A loop whose body only searches: it leaves the state alone until a condition on the
  counter holds, then changes it and breaks.
\<close>

definition search_down :: "(int \<Rightarrow> bool) \<Rightarrow> int \<Rightarrow> int \<Rightarrow> int option" where
  "search_down P hi lo = find P (rev [lo + 1..hi])"

definition search_up :: "(int \<Rightarrow> bool) \<Rightarrow> int \<Rightarrow> int \<Rightarrow> int option" where
  "search_up P lo hi = find P [lo..hi - 1]"

lemma search_down_rec:
  "search_down P hi lo = (if lo < hi then if P hi then Some hi else search_down P (hi - 1) lo else None)"
  by (cases "lo < hi") (simp_all add: search_down_def upto_rec2)

lemma search_up_rec:
  "search_up P lo hi = (if lo < hi then if P lo then Some lo else search_up P (lo + 1) hi else None)"
  by (simp add: search_up_def upto.simps [of lo])

lemma search_down_Some:
  "search_down P hi lo = Some j \<longleftrightarrow> lo < j \<and> j \<le> hi \<and> P j \<and> (\<forall>k. j < k \<and> k \<le> hi \<longrightarrow> \<not> P k)"
proof (induction "nat (hi - lo)" arbitrary: hi)
  case 0
  then show ?case by (subst search_down_rec) auto
next
  case (Suc n)
  then have "n = nat (hi - 1 - lo)" and lt: "lo < hi" by linarith+
  from Suc.hyps(1) [OF this(1)] lt show ?case
    by (subst search_down_rec) (auto dest: antisym_conv2 simp: int_one_le_iff_zero_less le_less)
qed

lemma search_down_None: "search_down P hi lo = None \<longleftrightarrow> (\<forall>k. lo < k \<and> k \<le> hi \<longrightarrow> \<not> P k)"
  by (auto simp: search_down_def find_None_iff)

lemma search_up_Some:
  "search_up P lo hi = Some j \<longleftrightarrow> lo \<le> j \<and> j < hi \<and> P j \<and> (\<forall>k. lo \<le> k \<and> k < j \<longrightarrow> \<not> P k)"
proof (induction "nat (hi - lo)" arbitrary: lo)
  case 0
  then show ?case by (subst search_up_rec) auto
next
  case (Suc n)
  then have "n = nat (hi - (lo + 1))" and lt: "lo < hi" by linarith+
  have "lo \<le> k \<longleftrightarrow> k = lo \<or> lo + 1 \<le> k" for k by linarith
  with Suc.hyps(1) [OF \<open>n = nat (hi - (lo + 1))\<close>] lt show ?case
    by (subst search_up_rec) auto
qed

lemma search_up_None: "search_up P lo hi = None \<longleftrightarrow> (\<forall>k. lo \<le> k \<and> k < hi \<longrightarrow> \<not> P k)"
  by (auto simp: search_up_def find_None_iff)

theorem for_down_search:
  assumes "\<And>i. lo < i \<Longrightarrow> i \<le> hi \<Longrightarrow> body i s = Some (if P i then Break (g i) else Next s)"
  shows "for_down body hi lo s = Some (case search_down P hi lo of None \<Rightarrow> s | Some i \<Rightarrow> g i)"
  using assms
proof (induction "nat (hi - lo)" arbitrary: hi)
  case 0
  then show ?case by (subst search_down_rec) (simp add: for_down_done)
next
  case (Suc n)
  then have n: "n = nat (hi - 1 - lo)" and lt: "lo < hi" by linarith+
  have "for_down body (hi - 1) lo s = Some (case search_down P (hi - 1) lo of None \<Rightarrow> s | Some i \<Rightarrow> g i)"
    by (rule Suc.hyps(1) [OF n]) (use Suc.prems in auto)
  then show ?case using lt Suc.prems [of hi]
    by (subst for_down.simps, subst search_down_rec) simp
qed

theorem for_up_search:
  assumes "\<And>i. lo \<le> i \<Longrightarrow> i < hi \<Longrightarrow> body i s = Some (if P i then Break (g i) else Next s)"
  shows "for_up body lo hi s = Some (case search_up P lo hi of None \<Rightarrow> s | Some i \<Rightarrow> g i)"
  using assms
proof (induction "nat (hi - lo)" arbitrary: lo)
  case 0
  then show ?case by (subst search_up_rec) (simp add: for_up_done)
next
  case (Suc n)
  then have n: "n = nat (hi - (lo + 1))" and lt: "lo < hi" by linarith+
  have "for_up body (lo + 1) hi s = Some (case search_up P (lo + 1) hi of None \<Rightarrow> s | Some i \<Rightarrow> g i)"
    by (rule Suc.hyps(1) [OF n]) (use Suc.prems in auto)
  then show ?case using lt Suc.prems [of lo]
    by (subst for_up.simps, subst search_up_rec) simp
qed

end
