(* ===== verification/FloatModel.thy ===== *)
theory FloatModel
  imports Complex_Main Prelude
begin

text \<open>
  IEEE 754 arithmetic as the target's FPU performs it: \<open>float\<close> is binary32, \<open>double\<close>
  binary64, every operation rounds its exact result to nearest, ties to even.  A finite
  value is the rational number it denotes; infinities and NaN are constructors.  The sign
  of a zero is not kept: no expression of the modelled code divides by a value that can
  be a negative zero.  Comparisons with a NaN are false.  Converting to an integer type
  truncates towards zero, and is a trap when the value does not fit (C11 6.3.1.4).
\<close>

datatype fl = Fin rat | PInf | NInf | NaN

section \<open>Binary logarithm of a positive rational\<close>

function nlog2 :: "int \<Rightarrow> nat" where
  "nlog2 n = (if n < 2 then 0 else Suc (nlog2 (n div 2)))"
  by pat_completeness auto
termination
  by (relation "measure nat") auto

declare nlog2.simps [simp del]

lemma nlog2_bounds: "0 < n \<Longrightarrow> 2 ^ nlog2 n \<le> n \<and> n < 2 ^ Suc (nlog2 n)"
proof (induction n rule: nlog2.induct)
  case (1 n)
  show ?case
  proof (cases "n < 2")
    case True
    with "1.prems" show ?thesis by (simp add: nlog2.simps)
  next
    case False
    with 1 have "2 ^ nlog2 (n div 2) \<le> n div 2 \<and> n div 2 < 2 ^ Suc (nlog2 (n div 2))" by simp
    then have "2 * 2 ^ nlog2 (n div 2) \<le> n \<and> n < 2 * 2 ^ Suc (nlog2 (n div 2))" by linarith
    with False show ?thesis by (simp add: nlog2.simps [of n])
  qed
qed

lemma nlog2_rat:
  assumes "0 < a"
  shows "(2::rat) ^ nlog2 a \<le> of_int a" and "of_int a < (2::rat) ^ Suc (nlog2 a)"
proof -
  have n: "2 ^ nlog2 a \<le> a" "a < 2 ^ Suc (nlog2 a)"
    using nlog2_bounds [of a] assms by simp_all
  from n(1) have "(of_int (2 ^ nlog2 a) :: rat) \<le> of_int a" by (simp only: of_int_le_iff)
  then show "(2::rat) ^ nlog2 a \<le> of_int a" by simp
  from n(2) have "(of_int a :: rat) < of_int (2 ^ Suc (nlog2 a))"
    by (simp only: of_int_less_iff)
  then show "of_int a < (2::rat) ^ Suc (nlog2 a)" by simp
qed

definition ilog2 :: "rat \<Rightarrow> int" where
  "ilog2 x = (let (a, b) = quotient_of x; k = int (nlog2 a) - int (nlog2 b)
              in if 2 powi k \<le> x then k else k - 1)"

lemma pow2_mono: "a \<le> b \<Longrightarrow> (2::rat) powi a \<le> 2 powi b"
  by (rule power_int_increasing) simp_all

lemma pow2_pos [simp]: "0 < (2::rat) powi k"
  by (rule zero_less_power_int) simp

lemma pow2_add: "(2::rat) powi (a + b) = 2 powi a * 2 powi b"
  by (simp add: power_int_add)

lemma pow2_diff: "(2::rat) powi (a - b) = 2 powi a / 2 powi b"
  by (simp add: power_int_diff)

lemma pow2_nat: "(2::rat) powi (int n) = 2 ^ n"
  by simp

lemma pow2_less_cancel: "(2::rat) powi a < 2 powi b \<Longrightarrow> a < b"
  by (rule ccontr) (use pow2_mono [of b a] in simp)

lemma of_int_le_pow2: "n \<le> 2 ^ p \<Longrightarrow> (of_int n :: rat) \<le> 2 ^ p"
  using of_int_le_iff [of n "2 ^ p", where ?'a = rat] by simp

lemma pow2_Suc: "(2::rat) powi (a + 1) = 2 * 2 powi a"
  by (simp add: pow2_add)

lemma ilog2_bounds:
  assumes "0 < x"
  shows "2 powi (ilog2 x) \<le> x" and "x < 2 powi (ilog2 x + 1)"
proof -
  obtain a b where q: "quotient_of x = (a, b)" by force
  from quotient_of_denom_pos [OF q] have b: "0 < b" .
  from quotient_of_div [OF q] have x: "x = of_int a / of_int b" .
  with assms b have a: "0 < a" by (simp add: zero_less_divide_iff)
  define m where "m = nlog2 a"
  define n where "n = nlog2 b"
  define k where "k = int m - int n"
  note A = nlog2_rat [OF a, folded m_def] and B = nlog2_rat [OF b, folded n_def]
  have B0: "0 < (of_int b :: rat)" using b by simp
  have up: "x < 2 powi (k + 1)"
  proof -
    have "x < 2 ^ Suc m / 2 ^ n"
      unfolding x using A(2) B(1) B0
      by (intro frac_less) (use a in auto)
    also have "\<dots> = 2 powi (k + 1)"
      unfolding k_def by (simp add: power_int_diff power_int_add)
    finally show ?thesis .
  qed
  have lo: "2 powi (k - 1) < x"
  proof -
    have "2 powi (k - 1) = 2 ^ m / (2 ^ Suc n :: rat)"
      unfolding k_def by (simp add: power_int_diff)
    also have "\<dots> < x"
      unfolding x using A(1) B(2) B0 a by (intro frac_less2) auto
    finally show ?thesis .
  qed
  have i: "ilog2 x = (if 2 powi k \<le> x then k else k - 1)"
    by (simp add: ilog2_def q k_def m_def n_def)
  show "2 powi (ilog2 x) \<le> x" and "x < 2 powi (ilog2 x + 1)"
    using up lo by (auto simp: i)
qed

lemma ilog2_mono:
  assumes "0 < x" "x \<le> y"
  shows "ilog2 x \<le> ilog2 y"
proof -
  have "2 powi (ilog2 x) \<le> x" by (rule ilog2_bounds(1) [OF assms(1)])
  also have "x \<le> y" by fact
  also have "y < 2 powi (ilog2 y + 1)" using assms by (intro ilog2_bounds(2)) simp
  finally have "ilog2 x < ilog2 y + 1" by (rule pow2_less_cancel)
  then show ?thesis by simp
qed

section \<open>Rounding\<close>

text \<open>Nearest integer, ties to the even one.\<close>

definition rhe :: "rat \<Rightarrow> int" where
  "rhe x = (let f = \<lfloor>x\<rfloor>; d = x - of_int f
            in if d < 1 / 2 then f else if 1 / 2 < d then f + 1 else if even f then f else f + 1)"

lemma rhe_of_int [simp]: "rhe (of_int n) = n"
  by (simp add: rhe_def)

lemma rhe_minus: "rhe (- x) = - rhe x"
proof (cases "x = of_int \<lfloor>x\<rfloor>")
  case True
  then have "rhe (- x) = rhe (of_int (- \<lfloor>x\<rfloor>))" by (metis of_int_minus)
  also have "\<dots> = - \<lfloor>x\<rfloor>" by (rule rhe_of_int)
  also have "\<lfloor>x\<rfloor> = rhe x" by (metis True rhe_of_int)
  finally show ?thesis .
next
  case False
  have f: "\<lfloor>- x\<rfloor> = - \<lfloor>x\<rfloor> - 1"
    using False by (simp add: floor_minus ceiling_altdef)
  then show ?thesis by (auto simp: rhe_def Let_def)
qed

lemma rhe_bounds: "of_int (rhe x) - x \<le> 1 / 2" "x - of_int (rhe x) \<le> 1 / 2"
  by (auto simp: rhe_def Let_def) linarith+

lemma rhe_mono:
  assumes "x \<le> y"
  shows "rhe x \<le> rhe y"
proof (cases "\<lfloor>x\<rfloor> = \<lfloor>y\<rfloor>")
  case True
  then show ?thesis using assms by (auto simp: rhe_def Let_def)
next
  case False
  with floor_mono [OF assms] have "\<lfloor>x\<rfloor> + 1 \<le> \<lfloor>y\<rfloor>" by simp
  moreover have "rhe x \<le> \<lfloor>x\<rfloor> + 1" "\<lfloor>y\<rfloor> \<le> rhe y" by (simp_all add: rhe_def Let_def)
  ultimately show ?thesis by simp
qed

text \<open>Rounding to \<open>p\<close> significant bits, with \<open>emin\<close> the exponent of the last subnormal bit.\<close>

definition rexp :: "nat \<Rightarrow> int \<Rightarrow> rat \<Rightarrow> int" where
  "rexp p emin x = max (ilog2 \<bar>x\<bar> + 1 - int p) emin"

definition rnd :: "nat \<Rightarrow> int \<Rightarrow> rat \<Rightarrow> rat" where
  "rnd p emin x = (if x = 0 then 0
     else let u = 2 powi (rexp p emin x) in of_int (rhe (x / u)) * u)"

lemma rnd_0 [simp]: "rnd p emin 0 = 0"
  by (simp add: rnd_def)

lemma rnd_minus: "rnd p emin (- x) = - rnd p emin x"
  by (simp add: rnd_def rexp_def Let_def rhe_minus)

lemma rnd_nonneg: "0 \<le> x \<Longrightarrow> 0 \<le> rnd p emin x"
proof -
  assume x: "0 \<le> x"
  have "rhe 0 \<le> rhe (x / 2 powi (rexp p emin x))"
    by (rule rhe_mono) (simp add: x)
  then show ?thesis using rhe_of_int [of 0] by (simp add: rnd_def Let_def)
qed

lemma rnd_exact:
  assumes "x = of_int m * 2 powi e" "\<bar>m\<bar> \<le> 2 ^ p" "emin \<le> e" "0 < p"
  shows "rnd p emin x = x"
proof (cases "x = 0")
  case True
  then show ?thesis by simp
next
  case False
  define u where "u = rexp p emin x"
  have ax: "\<bar>x\<bar> = of_int \<bar>m\<bar> * 2 powi e" by (simp add: assms(1) abs_mult)
  have key: "\<exists>n. x = of_int n * 2 powi u"
  proof (cases "u \<le> e")
    case True
    have "2 powi e = (2::rat) ^ nat (e - u) * 2 powi u"
      using True by (simp flip: pow2_nat pow2_add)
    then have "x = of_int (m * 2 ^ nat (e - u)) * 2 powi u" by (simp add: assms(1))
    then show ?thesis ..
  next
    case False
    then have ul: "u = ilog2 \<bar>x\<bar> + 1 - int p" using assms(3) by (auto simp: u_def rexp_def)
    have lo: "2 powi (ilog2 \<bar>x\<bar>) \<le> \<bar>x\<bar>" using \<open>x \<noteq> 0\<close> by (intro ilog2_bounds) simp
    have m: "(of_int \<bar>m\<bar> :: rat) \<le> 2 ^ p" by (rule of_int_le_pow2) (rule assms(2))
    have hi: "\<bar>x\<bar> \<le> 2 powi (int p + e)"
      unfolding ax pow2_add pow2_nat by (rule mult_right_mono [OF m]) (rule less_imp_le [OF pow2_pos])
    from lo hi have "2 powi (ilog2 \<bar>x\<bar>) \<le> (2::rat) powi (int p + e)" by (rule order_trans)
    also have "\<dots> < 2 powi (int p + e + 1)" unfolding pow2_Suc using pow2_pos by simp
    finally have "ilog2 \<bar>x\<bar> < int p + e + 1" by (rule pow2_less_cancel)
    then have "ilog2 \<bar>x\<bar> \<le> int p + e" by simp
    with ul False have ue: "u = e + 1" and l: "ilog2 \<bar>x\<bar> = int p + e" by simp_all
    from hi lo [unfolded l] have "\<bar>x\<bar> = 2 powi (int p + e)" by (rule antisym)
    also have "int p + e = int (p - 1) + u" using assms(4) by (simp add: ue)
    also have "2 powi (int (p - 1) + u) = of_int (2 ^ (p - 1)) * (2::rat) powi u"
      unfolding pow2_add pow2_nat by simp
    finally have "x = of_int (2 ^ (p - 1)) * 2 powi u \<or> x = of_int (- (2 ^ (p - 1))) * 2 powi u"
      by (auto simp: abs_if split: if_splits)
    then show ?thesis by blast
  qed
  then obtain n where n: "x = of_int n * 2 powi u" ..
  then have "x / 2 powi u = of_int n" by (simp add: less_imp_neq [OF pow2_pos, symmetric])
  then have "rnd p emin x = of_int n * 2 powi u"
    using False by (simp add: rnd_def Let_def flip: u_def)
  then show ?thesis by (simp only: n)
qed

lemma rnd_mono_pos:
  assumes "0 < x" "x \<le> y" "0 < p"
  shows "rnd p emin x \<le> rnd p emin y"
proof -
  define a where "a = rexp p emin x"
  define b where "b = rexp p emin y"
  have y: "0 < y" using assms by simp
  have ab: "a \<le> b" using ilog2_mono [OF assms(1,2)] assms(1) y by (simp add: a_def b_def rexp_def)
  have rx: "rnd p emin x = of_int (rhe (x / 2 powi a)) * 2 powi a"
    and ry: "rnd p emin y = of_int (rhe (y / 2 powi b)) * 2 powi b"
    using assms(1) y by (simp_all add: rnd_def Let_def a_def b_def)
  show ?thesis
  proof (cases "a = b")
    case True
    have "rhe (x / 2 powi a) \<le> rhe (y / 2 powi a)"
      by (rule rhe_mono) (simp add: divide_right_mono less_imp_le assms(2))
    then show ?thesis using True by (simp add: rx ry)
  next
    case False
    with ab have lt: "a < b" by simp
    have be: "b = ilog2 y + 1 - int p"
      using lt y by (auto simp: a_def b_def rexp_def split: if_splits)
    have "x < 2 powi (ilog2 x + 1)" by (rule ilog2_bounds [OF assms(1)])
    also have "\<dots> \<le> 2 powi (a + int p)" by (rule pow2_mono) (simp add: a_def rexp_def max_def abs_of_pos [OF assms(1)])
    finally have "x / 2 powi a \<le> of_int (2 ^ p)" by (simp add: pow2_add field_simps)
    then have "rhe (x / 2 powi a) \<le> 2 ^ p" using rhe_mono rhe_of_int by metis
    then have "rnd p emin x \<le> 2 ^ p * 2 powi a"
      unfolding rx by (intro mult_right_mono of_int_le_pow2) (simp_all add: less_imp_le)
    also have "\<dots> = 2 powi (int p + a)" by (simp add: pow2_add)
    also have "\<dots> \<le> 2 powi (int (p - 1) + b)" using lt assms(3) by (intro pow2_mono) linarith
    also have "\<dots> = of_int (2 ^ (p - 1)) * 2 powi b" by (simp add: pow2_add)
    also have "\<dots> \<le> rnd p emin y"
    proof -
      have "2 powi (int (p - 1) + b) \<le> y"
        using ilog2_bounds(1) [OF y] assms(3) by (simp add: be of_nat_diff)
      then have "of_int (2 ^ (p - 1)) \<le> y / 2 powi b" by (simp add: pow2_add field_simps)
      then have "2 ^ (p - 1) \<le> rhe (y / 2 powi b)" using rhe_mono rhe_of_int by metis
      then show ?thesis unfolding ry
        by (intro mult_right_mono) (simp_all only: of_int_le_iff less_imp_le [OF pow2_pos])
    qed
    finally show ?thesis .
  qed
qed

theorem rnd_mono:
  assumes "x \<le> y" "0 < p"
  shows "rnd p emin x \<le> rnd p emin y"
proof -
  consider "0 < x" | "x \<le> 0" "0 \<le> y" | "y < 0" by linarith
  then show ?thesis
  proof cases
    case 1
    then show ?thesis using assms by (rule rnd_mono_pos)
  next
    case 2
    have "rnd p emin x \<le> 0" using rnd_nonneg [of "- x" p emin] 2 by (simp add: rnd_minus)
    with rnd_nonneg [OF 2(2), of p emin] show ?thesis by simp
  next
    case 3
    have "rnd p emin (- y) \<le> rnd p emin (- x)"
      by (rule rnd_mono_pos) (use 3 assms in auto)
    then show ?thesis by (simp add: rnd_minus)
  qed
qed

section \<open>The two formats\<close>

definition to_fl :: "nat \<Rightarrow> int \<Rightarrow> int \<Rightarrow> rat \<Rightarrow> fl" where
  "to_fl p emin emax x = (let r = rnd p emin x in
     if 2 powi emax \<le> r then PInf else if r \<le> - (2 powi emax) then NInf else Fin r)"

definition rd32 :: "rat \<Rightarrow> fl" where
  "rd32 x = to_fl 24 (-149) 128 x"

definition rd64 :: "rat \<Rightarrow> fl" where
  "rd64 x = to_fl 53 (-1074) 1024 x"

text \<open>The value of a float as the \<open>double\<close> or \<open>float\<close> nearest to it.\<close>

fun fl_map :: "(rat \<Rightarrow> fl) \<Rightarrow> fl \<Rightarrow> fl" where
  "fl_map rd (Fin x) = rd x"
| "fl_map rd PInf = PInf"
| "fl_map rd NInf = NInf"
| "fl_map rd NaN = NaN"

section \<open>Operations\<close>

fun fl_neg :: "fl \<Rightarrow> fl" where
  "fl_neg (Fin x) = Fin (- x)"
| "fl_neg PInf = NInf"
| "fl_neg NInf = PInf"
| "fl_neg NaN = NaN"

definition fl_inf :: "bool \<Rightarrow> fl" where
  "fl_inf pos = (if pos then PInf else NInf)"

fun fl_add :: "(rat \<Rightarrow> fl) \<Rightarrow> fl \<Rightarrow> fl \<Rightarrow> fl" where
  "fl_add rd (Fin x) (Fin y) = rd (x + y)"
| "fl_add rd NaN y = NaN"
| "fl_add rd x NaN = NaN"
| "fl_add rd PInf NInf = NaN"
| "fl_add rd NInf PInf = NaN"
| "fl_add rd PInf y = PInf"
| "fl_add rd x PInf = PInf"
| "fl_add rd NInf y = NInf"
| "fl_add rd x NInf = NInf"

definition fl_sub :: "(rat \<Rightarrow> fl) \<Rightarrow> fl \<Rightarrow> fl \<Rightarrow> fl" where
  "fl_sub rd x y = fl_add rd x (fl_neg y)"

fun fl_sgn :: "fl \<Rightarrow> int" where
  "fl_sgn (Fin x) = (if 0 < x then 1 else if x < 0 then -1 else 0)"
| "fl_sgn PInf = 1"
| "fl_sgn NInf = -1"
| "fl_sgn NaN = 0"

fun fl_mul :: "(rat \<Rightarrow> fl) \<Rightarrow> fl \<Rightarrow> fl \<Rightarrow> fl" where
  "fl_mul rd (Fin x) (Fin y) = rd (x * y)"
| "fl_mul rd NaN y = NaN"
| "fl_mul rd x NaN = NaN"
| "fl_mul rd x y = (if fl_sgn x * fl_sgn y = 0 then NaN else fl_inf (0 < fl_sgn x * fl_sgn y))"

fun fl_div :: "(rat \<Rightarrow> fl) \<Rightarrow> fl \<Rightarrow> fl \<Rightarrow> fl" where
  "fl_div rd (Fin x) (Fin y) = (if y = 0 then (if x = 0 then NaN else fl_inf (0 < x)) else rd (x / y))"
| "fl_div rd NaN y = NaN"
| "fl_div rd x NaN = NaN"
| "fl_div rd (Fin x) y = Fin 0"
| "fl_div rd x (Fin y) = fl_inf (if y < 0 then fl_sgn x < 0 else 0 < fl_sgn x)"
| "fl_div rd x y = NaN"

fun fl_lt :: "fl \<Rightarrow> fl \<Rightarrow> bool" where
  "fl_lt NaN y = False"
| "fl_lt x NaN = False"
| "fl_lt (Fin x) (Fin y) = (x < y)"
| "fl_lt x PInf = (x \<noteq> PInf)"
| "fl_lt NInf x = (x \<noteq> NInf)"
| "fl_lt x y = False"

lemma fl_lt_NaN [simp]: "\<not> fl_lt x NaN"
  by (cases x) simp_all

definition fl_eq :: "fl \<Rightarrow> fl \<Rightarrow> bool" where
  "fl_eq x y = (x \<noteq> NaN \<and> x = y)"

definition fl_le :: "fl \<Rightarrow> fl \<Rightarrow> bool" where
  "fl_le x y = (fl_lt x y \<or> fl_eq x y)"

definition fl_to_int :: "int \<Rightarrow> int \<Rightarrow> fl \<Rightarrow> int option" where
  "fl_to_int lo hi x = (case x of
      Fin r \<Rightarrow> (let t = (if 0 \<le> r then \<lfloor>r\<rfloor> else \<lceil>r\<rceil>) in if lo \<le> t \<and> t \<le> hi then Some t else None)
    | _ \<Rightarrow> None)"

section \<open>Bounds\<close>

definition fl_in :: "rat \<Rightarrow> rat \<Rightarrow> fl \<Rightarrow> bool" where
  "fl_in lo hi v = (case v of Fin r \<Rightarrow> lo \<le> r \<and> r \<le> hi | _ \<Rightarrow> False)"

lemma fl_in_Fin [simp]: "fl_in lo hi (Fin r) \<longleftrightarrow> lo \<le> r \<and> r \<le> hi"
  by (simp add: fl_in_def)

lemma fl_in_iff: "fl_in lo hi v \<longleftrightarrow> (\<exists>r. v = Fin r \<and> lo \<le> r \<and> r \<le> hi)"
  by (cases v) (auto simp: fl_in_def)

lemma to_fl_exact:
  assumes "x = of_int m * 2 powi e" "\<bar>m\<bar> \<le> 2 ^ p" "emin \<le> e" "0 < p" "\<bar>x\<bar> < 2 powi emax"
  shows "to_fl p emin emax x = Fin x"
  using rnd_exact [OF assms(1-4)] assms(5) by (auto simp: to_fl_def abs_less_iff)

lemma to_fl_in:
  assumes "lo \<le> x" "x \<le> hi" "to_fl p emin emax lo = Fin lo" "to_fl p emin emax hi = Fin hi" "0 < p"
  shows "fl_in lo hi (to_fl p emin emax x)"
proof -
  have lo: "rnd p emin lo = lo" "- (2 powi emax) < lo" and hi: "rnd p emin hi = hi" "hi < 2 powi emax"
    using assms(3,4) by (auto simp: to_fl_def Let_def split: if_splits)
  have "lo \<le> rnd p emin x" using rnd_mono [OF assms(1,5), of emin] lo by simp
  moreover have "rnd p emin x \<le> hi" using rnd_mono [OF assms(2,5), of emin] hi by simp
  ultimately show ?thesis using lo hi by (auto simp: to_fl_def Let_def)
qed

lemma rd32_int: "\<bar>m\<bar> \<le> 2 ^ 24 \<Longrightarrow> rd32 (of_int m) = Fin (of_int m)"
  unfolding rd32_def
proof (rule to_fl_exact [where m = m and e = 0])
  assume m: "\<bar>m\<bar> \<le> 2 ^ 24"
  have "(of_int \<bar>m\<bar> :: rat) \<le> 2 ^ 24" by (rule of_int_le_pow2) (rule m)
  also have "\<dots> < 2 powi 128" using power_strict_increasing [of 24 128 "2::rat"] by simp
  finally show "\<bar>of_int m\<bar> < (2::rat) powi 128" by simp
qed simp_all

lemma rd64_int: "\<bar>m\<bar> \<le> 2 ^ 53 \<Longrightarrow> rd64 (of_int m) = Fin (of_int m)"
  unfolding rd64_def
proof (rule to_fl_exact [where m = m and e = 0])
  assume m: "\<bar>m\<bar> \<le> 2 ^ 53"
  have "(of_int \<bar>m\<bar> :: rat) \<le> 2 ^ 53" by (rule of_int_le_pow2) (rule m)
  also have "\<dots> < 2 ^ 1024" by (rule power_strict_increasing) simp_all
  finally show "\<bar>of_int m\<bar> < (2::rat) powi 1024" by simp
qed simp_all

lemma rd32_in: "lo \<le> x \<Longrightarrow> x \<le> hi \<Longrightarrow> rd32 lo = Fin lo \<Longrightarrow> rd32 hi = Fin hi \<Longrightarrow> fl_in lo hi (rd32 x)"
  unfolding rd32_def by (rule to_fl_in) simp_all

lemma rd64_in: "lo \<le> x \<Longrightarrow> x \<le> hi \<Longrightarrow> rd64 lo = Fin lo \<Longrightarrow> rd64 hi = Fin hi \<Longrightarrow> fl_in lo hi (rd64 x)"
  unfolding rd64_def by (rule to_fl_in) simp_all

lemma rd32_in_int:
  "of_int a \<le> x \<Longrightarrow> x \<le> of_int b \<Longrightarrow> \<bar>a\<bar> \<le> 2 ^ 24 \<Longrightarrow> \<bar>b\<bar> \<le> 2 ^ 24 \<Longrightarrow> fl_in (of_int a) (of_int b) (rd32 x)"
  by (rule rd32_in) (simp_all add: rd32_int)

lemma rd64_in_int:
  "of_int a \<le> x \<Longrightarrow> x \<le> of_int b \<Longrightarrow> \<bar>a\<bar> \<le> 2 ^ 53 \<Longrightarrow> \<bar>b\<bar> \<le> 2 ^ 53 \<Longrightarrow> fl_in (of_int a) (of_int b) (rd64 x)"
  by (rule rd64_in) (simp_all add: rd64_int)

lemma fl_to_int_in:
  assumes "fl_in (of_int a) (of_int b) v" "a \<le> 0" "0 \<le> b" "lo \<le> a" "b \<le> hi"
  shows "runs (fl_to_int lo hi v) (\<lambda>n. a \<le> n \<and> n \<le> b)"
proof -
  from assms(1) obtain r where r: "v = Fin r" "of_int a \<le> r" "r \<le> of_int b" by (auto simp: fl_in_iff)
  define t where "t = (if 0 \<le> r then \<lfloor>r\<rfloor> else \<lceil>r\<rceil>)"
  have "a \<le> t" "t \<le> b"
    using r assms by (auto simp: t_def le_floor_iff floor_le_iff le_ceiling_iff ceiling_le_iff intro: order_trans)
  then show ?thesis using assms r by (simp add: fl_to_int_def Let_def flip: t_def)
qed

lemma fl_to_int_of_int: "lo \<le> n \<Longrightarrow> n \<le> hi \<Longrightarrow> fl_to_int lo hi (Fin (of_int n)) = Some n"
  by (simp add: fl_to_int_def)

text \<open>Dyadic fractions with few enough bits are representable.\<close>

lemma dyadic_below: "\<bar>m\<bar> \<le> 2 ^ p \<Longrightarrow> \<bar>of_int m / 2 ^ k\<bar> \<le> (2::rat) ^ p"
proof -
  assume "\<bar>m\<bar> \<le> 2 ^ p"
  then have "(of_int \<bar>m\<bar> :: rat) \<le> 2 ^ p" by (rule of_int_le_pow2)
  moreover have "of_int \<bar>m\<bar> / (2::rat) ^ k \<le> of_int \<bar>m\<bar> / 1"
    by (rule divide_left_mono) simp_all
  ultimately show ?thesis by simp
qed

lemma dyadic_powi: "of_int m / (2::rat) ^ k = of_int m * 2 powi (- int k)"
  by (simp add: power_int_minus divide_inverse)

lemma rd32_dyadic:
  assumes "\<bar>m\<bar> \<le> 2 ^ 24" "k \<le> 149"
  shows "rd32 (of_int m / 2 ^ k) = Fin (of_int m / 2 ^ k)"
  unfolding rd32_def
proof (rule to_fl_exact [where m = m and e = "- int k"])
  show "of_int m / (2::rat) ^ k = of_int m * 2 powi (- int k)" by (rule dyadic_powi)
  have "(2::rat) ^ 24 < 2 powi 128" using power_strict_increasing [of 24 128 "2::rat"] by simp
  with dyadic_below [OF assms(1), of k] show "\<bar>of_int m / 2 ^ k\<bar> < (2::rat) powi 128" by linarith
qed (use assms in simp_all)

lemma rd64_dyadic:
  assumes "\<bar>m\<bar> \<le> 2 ^ 53" "k \<le> 1074"
  shows "rd64 (of_int m / 2 ^ k) = Fin (of_int m / 2 ^ k)"
  unfolding rd64_def
proof (rule to_fl_exact [where m = m and e = "- int k"])
  show "of_int m / (2::rat) ^ k = of_int m * 2 powi (- int k)" by (rule dyadic_powi)
  have "(2::rat) ^ 53 < 2 ^ 1024" by (rule power_strict_increasing) simp_all
  with dyadic_below [OF assms(1), of k] show "\<bar>of_int m / 2 ^ k\<bar> < (2::rat) powi 1024" by simp
qed (use assms in simp_all)

text \<open>Enclosures between dyadic fractions.\<close>

lemma rd32_in_dyadic:
  "of_int a / 2 ^ k \<le> x \<Longrightarrow> x \<le> of_int b / 2 ^ k \<Longrightarrow> \<bar>a\<bar> \<le> 2 ^ 24 \<Longrightarrow> \<bar>b\<bar> \<le> 2 ^ 24 \<Longrightarrow> k \<le> 149
   \<Longrightarrow> fl_in (of_int a / 2 ^ k) (of_int b / 2 ^ k) (rd32 x)"
  by (rule rd32_in) (simp_all add: rd32_dyadic)

lemma rd64_in_dyadic:
  "of_int a / 2 ^ k \<le> x \<Longrightarrow> x \<le> of_int b / 2 ^ k \<Longrightarrow> \<bar>a\<bar> \<le> 2 ^ 53 \<Longrightarrow> \<bar>b\<bar> \<le> 2 ^ 53 \<Longrightarrow> k \<le> 1074
   \<Longrightarrow> fl_in (of_int a / 2 ^ k) (of_int b / 2 ^ k) (rd64 x)"
  by (rule rd64_in) (simp_all add: rd64_dyadic)

end
