(* ===== verification/FindLines.thy ===== *)
theory FindLines
  imports FloatModel "HOL-Library.Word"
begin

text \<open>
  The data of \<open>findLines.c\<close>: the per-row arrays \<open>f1\<close>, the flags \<open>f2\<close> and the file's
  other globals, as one state record; and \<open>findline1\<close> with \<open>find_toppoint\<close>.

  \<open>Image\<close> is \<open>BinImage[120][160]\<close>, read by row and column.  The memory around it is part
  of the model: an image is a function from byte offsets, \<open>Image[i][j]\<close> is the byte at
  \<open>160 * i + j\<close>, and offsets outside 0..19199 are other objects.  The arrays of \<open>f1\<close> are
  lists of 120 cells, and an index outside them is a trap.
\<close>

section \<open>Data\<close>

type_synonym image = "int \<Rightarrow> 8 word"

definition px :: "image \<Rightarrow> int \<Rightarrow> int \<Rightarrow> int" where
  "px im i j = uint (im (i * 160 + j))"

record Findline1 =
  midline :: "int list"
  leftline :: "int list"
  rightline :: "int list"
  leftlineflag :: "int list"
  rightlineflag :: "int list"

record Findline2 =
  leftturnflag :: int
  rightturnflag :: int
  leftturn_row :: int
  rightturn_row :: int
  leftguai_column :: int
  leftguai_row :: int
  leftguaiflag :: int
  rightguaiflag :: int
  rightguai_column :: int
  rightguai_row :: int
  leftguaiflag_up :: int
  leftguai_column_up :: int
  leftguai_row_up :: int
  rightguaiflag_up :: int
  rightguai_column_up :: int
  rightguai_row_up :: int
  toppoint :: int
  toppoint_flag :: int
  shiziflag0 :: int
  shiziflag1 :: int
  huan :: int
  huanrightflag :: int
  huanleftflag :: int
  lefthuanguai_row :: int
  lefthuanguai_column :: int
  lefthuanguaiflag :: int
  righthuanguai_row :: int
  righthuanguai_column :: int
  righthuanguaiflag :: int

record lines =
  f1 :: Findline1
  f2 :: Findline2
  column_start :: int
  line_L :: int
  line_R :: int
  both_line :: int
  HL :: int
  HR :: int
  cnt_n :: int
  js1 :: int
  js2 :: int
  js3 :: int
  js4 :: int
  js5 :: int
  js6 :: int
  js7 :: int
  js8 :: int
  js11 :: int
  js12 :: int
  shizi_distance :: fl

definition half_width :: "int list" where
  "half_width =
    [4, 4, 4, 5, 5, 5, 6, 6, 7, 7,
     8, 9, 10, 11, 12, 13, 14, 15, 16, 17,
     17, 18, 18, 19, 20, 20, 21, 22, 22, 23,
     23, 24, 24, 25, 25, 26, 26, 27, 28, 29,
     30, 30, 30, 31, 31, 32, 32, 33, 34, 34,
     34, 35, 36, 36, 37, 37, 38, 38, 39, 39,
     40, 40, 41, 41, 42, 43, 43, 44, 44, 45,
     46, 46, 47, 47, 48, 48, 49, 49, 50, 50,
     51, 51, 52, 52, 53, 53, 54, 55, 55, 56,
     56, 57, 57, 58, 58, 59, 60, 60, 61, 61,
     62, 62, 63, 63, 64, 65, 65, 66, 67, 67,
     68, 68, 69, 69, 70, 70, 71, 71, 72, 72]"

lemma length_half_width [simp]: "length half_width = 120"
  by (simp add: half_width_def)

subsection \<open>Cells of the row arrays\<close>

definition cell :: "(Findline1 \<Rightarrow> int list) \<Rightarrow> lines \<Rightarrow> int \<Rightarrow> int option" where
  "cell fld s i = c_get (fld (f1 s)) i"

definition set_midline :: "int \<Rightarrow> int \<Rightarrow> lines \<Rightarrow> lines option" where
  "set_midline i v s = do {
     xs \<leftarrow> c_put (midline (f1 s)) i (i16 v);
     Some (s\<lparr>f1 := (f1 s)\<lparr>midline := xs\<rparr>\<rparr>) }"

definition set_leftline :: "int \<Rightarrow> int \<Rightarrow> lines \<Rightarrow> lines option" where
  "set_leftline i v s = do {
     xs \<leftarrow> c_put (leftline (f1 s)) i (i16 v);
     Some (s\<lparr>f1 := (f1 s)\<lparr>leftline := xs\<rparr>\<rparr>) }"

definition set_rightline :: "int \<Rightarrow> int \<Rightarrow> lines \<Rightarrow> lines option" where
  "set_rightline i v s = do {
     xs \<leftarrow> c_put (rightline (f1 s)) i (i16 v);
     Some (s\<lparr>f1 := (f1 s)\<lparr>rightline := xs\<rparr>\<rparr>) }"

definition set_leftlineflag :: "int \<Rightarrow> int \<Rightarrow> lines \<Rightarrow> lines option" where
  "set_leftlineflag i v s = do {
     xs \<leftarrow> c_put (leftlineflag (f1 s)) i (i16 v);
     Some (s\<lparr>f1 := (f1 s)\<lparr>leftlineflag := xs\<rparr>\<rparr>) }"

definition set_rightlineflag :: "int \<Rightarrow> int \<Rightarrow> lines \<Rightarrow> lines option" where
  "set_rightlineflag i v s = do {
     xs \<leftarrow> c_put (rightlineflag (f1 s)) i (i16 v);
     Some (s\<lparr>f1 := (f1 s)\<lparr>rightlineflag := xs\<rparr>\<rparr>) }"

lemmas set_cell_defs = set_midline_def set_leftline_def set_rightline_def
  set_leftlineflag_def set_rightlineflag_def

section \<open>The track's vertex\<close>

text \<open>
  \<open>find_toppoint\<close>: the first loop looks from row 100 up for a white pixel on the middle
  line with black one, three or five rows above; when no vertex is known the second
  loop takes the first row whose middle line is near an edge of the image.
\<close>

definition toppoint_scan :: "image \<Rightarrow> int \<Rightarrow> lines \<Rightarrow> lines flow option" where
  "toppoint_scan im i s = do {
     j \<leftarrow> cell midline s i;
     if px im i j \<noteq> 0 \<and> (px im (i - 1) j = 0 \<or> px im (i - 3) j = 0 \<or> px im (i - 5) j = 0)
     then Some (Break (s\<lparr>f2 := (f2 s)\<lparr>toppoint := i, toppoint_flag := 1\<rparr>\<rparr>))
     else Some (Next s) }"

definition toppoint_edge :: "int \<Rightarrow> lines \<Rightarrow> lines flow option" where
  "toppoint_edge i s = do {
     j \<leftarrow> cell midline s i;
     if j > 150 \<or> j < 10
     then Some (Break (s\<lparr>f2 := (f2 s)\<lparr>toppoint := i, toppoint_flag := 1\<rparr>\<rparr>))
     else Some (Next s) }"

definition find_toppoint :: "image \<Rightarrow> lines \<Rightarrow> lines option" where
  "find_toppoint im s = do {
     s \<leftarrow> for_down (toppoint_scan im) 100 5 s;
     if toppoint_flag (f2 s) = 0 then for_down toppoint_edge 118 2 s else Some s }"

section \<open>Line extraction\<close>

text \<open>The two scans for a white-white-black transition, leftwards and rightwards.\<close>

definition left_scan :: "image \<Rightarrow> int \<Rightarrow> int \<Rightarrow> lines \<Rightarrow> lines flow option" where
  "left_scan im i j s =
     (if px im i j \<noteq> 0 \<and> px im i (j - 1) \<noteq> 0 \<and> px im i (j - 2) = 0 then do {
        s \<leftarrow> set_leftline i (j - 1) s;
        s \<leftarrow> set_leftlineflag i 1 s;
        Some (Break s) }
      else Some (Next s))"

definition right_scan :: "image \<Rightarrow> int \<Rightarrow> int \<Rightarrow> lines \<Rightarrow> lines flow option" where
  "right_scan im i j s =
     (if px im i j \<noteq> 0 \<and> px im i (j + 1) \<noteq> 0 \<and> px im i (j + 2) = 0 then do {
        s \<leftarrow> set_rightline i (j + 1) s;
        s \<leftarrow> set_rightlineflag i 1 s;
        Some (Break s) }
      else Some (Next s))"

definition clamp_midline :: "int \<Rightarrow> lines \<Rightarrow> lines option" where
  "clamp_midline i s = do {
     m \<leftarrow> cell midline s i;
     s \<leftarrow> set_midline i (if m > 159 then 159 else m) s;
     m \<leftarrow> cell midline s i;
     set_midline i (if m < 0 then 0 else m) s }"

definition centre_midline :: "int \<Rightarrow> lines \<Rightarrow> lines option" where
  "centre_midline i s = do {
     l \<leftarrow> cell leftline s i;
     r \<leftarrow> cell rightline s i;
     set_midline i ((l + r) sdiv 2) s }"

definition copy_midline :: "int \<Rightarrow> lines \<Rightarrow> lines option" where
  "copy_midline i s = do {
     m \<leftarrow> cell midline s (i + 1);
     set_midline i m s }"

definition row_edges :: "image \<Rightarrow> int \<Rightarrow> lines \<Rightarrow> lines option" where
  "row_edges im i s = do {
     let k = column_start s;
     s \<leftarrow> set_leftline i 0 s;
     s \<leftarrow> set_leftlineflag i 0 s;
     s \<leftarrow> set_midline i 80 s;
     s \<leftarrow> set_rightline i 159 s;
     s \<leftarrow> set_rightlineflag i 0 s;
     s \<leftarrow> for_down (left_scan im i) k 2 s;
     for_up (right_scan im i) k 157 s }"

definition row_lost_left :: "int \<Rightarrow> lines \<Rightarrow> lines option" where
  "row_lost_left i s = do {
     s \<leftarrow> set_leftline i 0 s;
     s \<leftarrow> centre_midline i s;
     s \<leftarrow> when_c [Some (i < 99), lift2 (\<le>) (cell rightline s i) (cell rightline s (i + 1)),
                  eq_c (cell leftlineflag s (i + 15)) 0, eq_c (cell rightlineflag s (i + 15)) 0]
            (copy_midline i s) (Some s);
     clamp_midline i s }"

definition row_lost_right :: "int \<Rightarrow> lines \<Rightarrow> lines option" where
  "row_lost_right i s = do {
     s \<leftarrow> set_rightline i 159 s;
     s \<leftarrow> centre_midline i s;
     s \<leftarrow> when_c [Some (i < 99), lift2 (\<ge>) (cell leftline s i) (cell leftline s (i + 1)),
                  eq_c (cell leftlineflag s (i + 15)) 0, eq_c (cell rightlineflag s (i + 15)) 0]
            (copy_midline i s) (Some s);
     clamp_midline i s }"

definition row_lost_both :: "int \<Rightarrow> lines \<Rightarrow> lines option" where
  "row_lost_both i s = do {
     s \<leftarrow> set_leftline i 0 s;
     s \<leftarrow> set_rightline i 159 s;
     s \<leftarrow> (if i = 118 then set_midline i 80 s else copy_midline i s);
     clamp_midline i s }"

definition row_centre :: "int \<Rightarrow> lines \<Rightarrow> lines option" where
  "row_centre i s =
     when_c [eq_c (cell leftlineflag s i) 1, eq_c (cell rightlineflag s i) 1]
       (do { s \<leftarrow> centre_midline i s; clamp_midline i s })
    (when_c [eq_c (cell leftlineflag s i) 0, eq_c (cell rightlineflag s i) 1] (row_lost_left i s)
    (when_c [eq_c (cell leftlineflag s i) 1, eq_c (cell rightlineflag s i) 0] (row_lost_right i s)
    (when_c [eq_c (cell leftlineflag s i) 0, eq_c (cell rightlineflag s i) 0] (row_lost_both i s)
       (Some s))))"

definition findline1_row :: "image \<Rightarrow> int \<Rightarrow> lines \<Rightarrow> lines option" where
  "findline1_row im i s = do {
     s \<leftarrow> row_edges im i s;
     s \<leftarrow> row_centre i s;
     m \<leftarrow> cell midline s i;
     Some (s\<lparr>column_start := m\<rparr>) }"

definition findline1 :: "image \<Rightarrow> lines \<Rightarrow> lines option" where
  "findline1 im s = do {
     let s = s\<lparr>f2 := (f2 s)\<lparr>toppoint := 0, toppoint_flag := 0\<rparr>\<rparr>;
     s \<leftarrow> for_down (\<lambda>i s. do { s \<leftarrow> findline1_row im i s; Some (Next s) }) 118 10 s;
     m \<leftarrow> cell midline s 118;
     let s = s\<lparr>column_start := m\<rparr>;
     if toppoint_flag (f2 s) = 0 then find_toppoint im s else Some s }"

section \<open>Well-formed arrays\<close>

definition f1_ok :: "Findline1 \<Rightarrow> bool" where
  "f1_ok f \<longleftrightarrow> length (midline f) = 120 \<and> length (leftline f) = 120 \<and> length (rightline f) = 120
     \<and> length (leftlineflag f) = 120 \<and> length (rightlineflag f) = 120"

lemma f1_ok_update [simp]:
  assumes "f1_ok f" "length xs = 120"
  shows "f1_ok (f\<lparr>midline := xs\<rparr>)" "f1_ok (f\<lparr>leftline := xs\<rparr>)" "f1_ok (f\<lparr>rightline := xs\<rparr>)"
    "f1_ok (f\<lparr>leftlineflag := xs\<rparr>)" "f1_ok (f\<lparr>rightlineflag := xs\<rparr>)"
  using assms by (simp_all add: f1_ok_def)

lemma f1_ok_lengths [simp]:
  assumes "f1_ok f"
  shows "length (midline f) = 120" "length (leftline f) = 120" "length (rightline f) = 120"
    "length (leftlineflag f) = 120" "length (rightlineflag f) = 120"
  using assms by (simp_all add: f1_ok_def)

section \<open>What one row of findline1 computes\<close>

text \<open>
  The reference: the nearest white-white-black transition on either side of the start
  column, and the middle line as a function of the two edges, of the row below and of
  the row fifteen below.
\<close>

definition left_edge :: "image \<Rightarrow> int \<Rightarrow> int \<Rightarrow> int option" where
  "left_edge im i k =
     search_down (\<lambda>j. px im i j \<noteq> 0 \<and> px im i (j - 1) \<noteq> 0 \<and> px im i (j - 2) = 0) k 2"

definition right_edge :: "image \<Rightarrow> int \<Rightarrow> int \<Rightarrow> int option" where
  "right_edge im i k =
     search_up (\<lambda>j. px im i j \<noteq> 0 \<and> px im i (j + 1) \<noteq> 0 \<and> px im i (j + 2) = 0) k 157"

definition edge_flag :: "int option \<Rightarrow> int" where
  "edge_flag e = (if e = None then 0 else 1)"

definition left_of :: "int option \<Rightarrow> int" where
  "left_of e = (case e of None \<Rightarrow> 0 | Some j \<Rightarrow> j - 1)"

definition right_of :: "int option \<Rightarrow> int" where
  "right_of e = (case e of None \<Rightarrow> 159 | Some j \<Rightarrow> j + 1)"

definition row_mid :: "Findline1 \<Rightarrow> int \<Rightarrow> int option \<Rightarrow> int option \<Rightarrow> int" where
  "row_mid f i e e' = (let l = left_of e; r = right_of e'; m = (l + r) div 2 in
     if e \<noteq> None \<and> e' \<noteq> None then m
     else if e' \<noteq> None then
       if i < 99 \<and> r \<le> rightline f ! nat (i + 1)
         \<and> leftlineflag f ! nat (i + 15) = 0 \<and> rightlineflag f ! nat (i + 15) = 0
       then midline f ! nat (i + 1) else m
     else if e \<noteq> None then
       if i < 99 \<and> leftline f ! nat (i + 1) \<le> l
         \<and> leftlineflag f ! nat (i + 15) = 0 \<and> rightlineflag f ! nat (i + 15) = 0
       then midline f ! nat (i + 1) else m
     else if i = 118 then 80 else midline f ! nat (i + 1))"

definition put_row :: "int \<Rightarrow> int \<Rightarrow> int option \<Rightarrow> int option \<Rightarrow> Findline1 \<Rightarrow> Findline1" where
  "put_row i m e e' f = f\<lparr>leftline := (leftline f)[nat i := left_of e],
     leftlineflag := (leftlineflag f)[nat i := edge_flag e],
     midline := (midline f)[nat i := m],
     rightline := (rightline f)[nat i := right_of e'],
     rightlineflag := (rightlineflag f)[nat i := edge_flag e']\<rparr>"

lemma left_edge_range: "left_edge im i k = Some j \<Longrightarrow> 2 < j \<and> j \<le> k"
  unfolding left_edge_def search_down_Some by blast

lemma right_edge_range: "right_edge im i k = Some j \<Longrightarrow> k \<le> j \<and> j < 157"
  unfolding right_edge_def search_up_Some by blast

lemma left_of_range:
  assumes "0 \<le> k" "k \<le> 159"
  shows "0 \<le> left_of (left_edge im i k)" "left_of (left_edge im i k) \<le> 158"
    "left_of (left_edge im i k) \<le> k"
  using assms left_edge_range [of im i k] by (auto simp: left_of_def split: option.split)

lemma right_of_range:
  assumes "0 \<le> k" "k \<le> 159"
  shows "1 \<le> right_of (right_edge im i k)" "right_of (right_edge im i k) \<le> 159"
    "k \<le> right_of (right_edge im i k)"
  using assms right_edge_range [of im i k] by (auto simp: right_of_def split: option.split)

lemma left_right_less:
  assumes "0 \<le> k" "k \<le> 159"
  shows "left_of (left_edge im i k) < right_of (right_edge im i k)"
  using assms left_edge_range [of im i k] right_edge_range [of im i k]
  by (auto simp: left_of_def right_of_def split: option.split)

lemma left_loop:
  assumes "f1_ok (f1 s)" "0 \<le> i" "i < 120" "k \<le> 159"
  shows "for_down (left_scan im i) k 2 s = Some (case left_edge im i k of None \<Rightarrow> s
    | Some j \<Rightarrow> s\<lparr>f1 := (f1 s)\<lparr>leftline := (leftline (f1 s))[nat i := j - 1],
                              leftlineflag := (leftlineflag (f1 s))[nat i := 1]\<rparr>\<rparr>)"
  unfolding left_edge_def
  by (rule for_down_search) (use assms in \<open>simp add: left_scan_def set_cell_defs\<close>)

lemma right_loop:
  assumes "f1_ok (f1 s)" "0 \<le> i" "i < 120" "0 \<le> k"
  shows "for_up (right_scan im i) k 157 s = Some (case right_edge im i k of None \<Rightarrow> s
    | Some j \<Rightarrow> s\<lparr>f1 := (f1 s)\<lparr>rightline := (rightline (f1 s))[nat i := j + 1],
                              rightlineflag := (rightlineflag (f1 s))[nat i := 1]\<rparr>\<rparr>)"
  unfolding right_edge_def
  by (rule for_up_search) (use assms in \<open>simp add: right_scan_def set_cell_defs\<close>)

lemma clamp_midline_eq:
  assumes "f1_ok (f1 s)" "0 \<le> i" "i < 120" "0 \<le> midline (f1 s) ! nat i" "midline (f1 s) ! nat i \<le> 159"
  shows "clamp_midline i s = Some s"
proof -
  have "s\<lparr>f1 := f1 s\<lparr>midline := (midline (f1 s))[nat i := midline (f1 s) ! nat i]\<rparr>\<rparr> = s" by simp
  then show ?thesis using assms by (simp add: clamp_midline_def cell_def set_midline_def)
qed

lemma all_c_eval [simp]: "when_c (Some b # cs) x y = (if b then when_c cs x y else y)"
  by (simp add: when_c_def)

lemma when_c_Nil [simp]: "when_c [] x y = x"
  by (simp add: when_c_def)

lemma half_range:
  assumes "0 \<le> a" "a \<le> 159" "0 \<le> b" "b \<le> 159"
  shows "(a + b) sdiv 2 = (a + b) div 2" "0 \<le> (a + b) div 2" "(a + b) div 2 \<le> (159::int)"
  using assms by (auto simp: sdiv_pos)

definition put_midline :: "int \<Rightarrow> int \<Rightarrow> lines \<Rightarrow> lines" where
  "put_midline i m s = s\<lparr>f1 := (f1 s)\<lparr>midline := (midline (f1 s))[nat i := m]\<rparr>\<rparr>"

lemma put_midline_simps [simp]:
  "midline (f1 (put_midline i m s)) = (midline (f1 s))[nat i := m]"
  "leftline (f1 (put_midline i m s)) = leftline (f1 s)"
  "rightline (f1 (put_midline i m s)) = rightline (f1 s)"
  "leftlineflag (f1 (put_midline i m s)) = leftlineflag (f1 s)"
  "rightlineflag (f1 (put_midline i m s)) = rightlineflag (f1 s)"
  "f1_ok (f1 s) \<Longrightarrow> f1_ok (f1 (put_midline i m s))"
  "put_midline i m (put_midline i m' s) = put_midline i m s"
  by (simp_all add: put_midline_def)

lemma set_midline_put:
  "f1_ok (f1 s) \<Longrightarrow> 0 \<le> i \<Longrightarrow> i < 120 \<Longrightarrow> 0 \<le> m \<Longrightarrow> m \<le> 159 \<Longrightarrow> set_midline i m s = Some (put_midline i m s)"
  by (simp add: set_midline_def put_midline_def)

lemma centre_midline_put:
  assumes "f1_ok (f1 s)" "0 \<le> i" "i < 120" "leftline (f1 s) ! nat i = a" "rightline (f1 s) ! nat i = b"
    "0 \<le> a" "a \<le> 159" "0 \<le> b" "b \<le> 159"
  shows "centre_midline i s = Some (put_midline i ((a + b) div 2) s)"
  using assms half_range [OF assms(6-9)] by (simp add: centre_midline_def cell_def set_midline_put)

lemma clamp_midline_put:
  assumes "f1_ok (f1 s)" "0 \<le> i" "i < 120" "0 \<le> m" "m \<le> 159"
  shows "clamp_midline i (put_midline i m s) = Some (put_midline i m s)"
  using assms by (intro clamp_midline_eq) simp_all

lemma set_same:
  assumes "f1_ok (f1 s)" "0 \<le> i" "i < 120"
  shows "leftline (f1 s) ! nat i = i16 v \<Longrightarrow> set_leftline i v s = Some s"
    and "rightline (f1 s) ! nat i = i16 v \<Longrightarrow> set_rightline i v s = Some s"
  using assms list_update_id [of "leftline (f1 s)" "nat i"] list_update_id [of "rightline (f1 s)" "nat i"]
  by (simp_all add: set_leftline_def set_rightline_def)

lemma copy_midline_put:
  assumes "f1_ok (f1 s)" "0 \<le> i" "i < 119" "0 \<le> midline (f1 s) ! nat (i + 1)" "midline (f1 s) ! nat (i + 1) \<le> 159"
  shows "copy_midline i s = Some (put_midline i (midline (f1 s) ! nat (i + 1)) s)"
  using assms by (simp add: copy_midline_def cell_def set_midline_put)

lemma row_lost_left_eq:
  assumes ok: "f1_ok (f1 s)" and i: "10 < i" "i \<le> 118"
    and below: "i < 99 \<Longrightarrow> 0 \<le> midline (f1 s) ! nat (i + 1)" "i < 99 \<Longrightarrow> midline (f1 s) ! nat (i + 1) \<le> 159"
    and l: "leftline (f1 s) ! nat i = 0"
    and r: "rightline (f1 s) ! nat i = right_of e" "0 \<le> right_of e" "right_of e \<le> 159" and e: "e \<noteq> None"
  shows "row_lost_left i s = Some (put_midline i (row_mid (f1 s) i None e) s)"
proof -
  define m where "m = (0 + right_of e) div 2"
  define s' where "s' = put_midline i m s"
  have m: "0 \<le> m" "m \<le> 159" using r by (simp_all add: m_def)
  have i0: "0 \<le> i" "i < 120" "i < 119" using i by simp_all
  have a: "set_leftline i 0 s = Some s" by (rule set_same) (use ok i l in simp_all)
  have b: "centre_midline i s = Some s'"
    unfolding s'_def m_def by (rule centre_midline_put [OF ok i0(1,2) l r(1)]) (use r in simp_all)
  have c: "all_c [Some (i < 99), lift2 (\<le>) (cell rightline s' i) (cell rightline s' (i + 1)),
             eq_c (cell leftlineflag s' (i + 15)) 0, eq_c (cell rightlineflag s' (i + 15)) 0]
    = Some (i < 99 \<and> right_of e \<le> rightline (f1 s) ! nat (i + 1)
         \<and> leftlineflag (f1 s) ! nat (i + 15) = 0 \<and> rightlineflag (f1 s) ! nat (i + 15) = 0)" (is "_ = Some ?c")
    using ok i r(1) by (simp add: cell_def s'_def)
  show ?thesis
  proof (cases ?c)
    case True
    then have "i < 99" by simp
    have n: "midline (f1 s') ! nat (i + 1) = midline (f1 s) ! nat (i + 1)" using i by (simp add: s'_def)
    have "copy_midline i s' = Some (put_midline i (midline (f1 s) ! nat (i + 1)) s)"
      using copy_midline_put [of s' i] ok i0 below [OF \<open>i < 99\<close>] n by (simp add: s'_def)
    moreover have "row_mid (f1 s) i None e = midline (f1 s) ! nat (i + 1)"
      using True e by (simp add: row_mid_def)
    ultimately show ?thesis using True c
      by (simp add: row_lost_left_def a b when_c_def clamp_midline_put ok i0 below [OF \<open>i < 99\<close>])
  next
    case False
    then have "row_mid (f1 s) i None e = m"
      using e by (auto simp: row_mid_def m_def left_of_def)
    with False c show ?thesis
      by (simp only: row_lost_left_def a b when_c_def bind.bind_lunit if_False s'_def
          clamp_midline_put [OF ok i0(1,2) m])
  qed
qed

lemma row_lost_right_eq:
  assumes ok: "f1_ok (f1 s)" and i: "10 < i" "i \<le> 118"
    and below: "i < 99 \<Longrightarrow> 0 \<le> midline (f1 s) ! nat (i + 1)" "i < 99 \<Longrightarrow> midline (f1 s) ! nat (i + 1) \<le> 159"
    and r: "rightline (f1 s) ! nat i = 159"
    and l: "leftline (f1 s) ! nat i = left_of e" "0 \<le> left_of e" "left_of e \<le> 159" and e: "e \<noteq> None"
  shows "row_lost_right i s = Some (put_midline i (row_mid (f1 s) i e None) s)"
proof -
  define m where "m = (left_of e + 159) div 2"
  define s' where "s' = put_midline i m s"
  have m: "0 \<le> m" "m \<le> 159" using l by (simp_all add: m_def)
  have i0: "0 \<le> i" "i < 120" "i < 119" using i by simp_all
  have a: "set_rightline i 159 s = Some s" by (rule set_same) (use ok i r in simp_all)
  have b: "centre_midline i s = Some s'"
    unfolding s'_def m_def by (rule centre_midline_put [OF ok i0(1,2) l(1) r]) (use l in simp_all)
  have c: "all_c [Some (i < 99), lift2 (\<ge>) (cell leftline s' i) (cell leftline s' (i + 1)),
             eq_c (cell leftlineflag s' (i + 15)) 0, eq_c (cell rightlineflag s' (i + 15)) 0]
    = Some (i < 99 \<and> leftline (f1 s) ! nat (i + 1) \<le> left_of e
         \<and> leftlineflag (f1 s) ! nat (i + 15) = 0 \<and> rightlineflag (f1 s) ! nat (i + 15) = 0)" (is "_ = Some ?c")
    using ok i l(1) by (simp add: cell_def s'_def)
  show ?thesis
  proof (cases ?c)
    case True
    then have "i < 99" by simp
    have n: "midline (f1 s') ! nat (i + 1) = midline (f1 s) ! nat (i + 1)" using i by (simp add: s'_def)
    have "copy_midline i s' = Some (put_midline i (midline (f1 s) ! nat (i + 1)) s)"
      using copy_midline_put [of s' i] ok i0 below [OF \<open>i < 99\<close>] n by (simp add: s'_def)
    moreover have "row_mid (f1 s) i e None = midline (f1 s) ! nat (i + 1)"
      using True e by (simp add: row_mid_def)
    ultimately show ?thesis using True c
      by (simp add: row_lost_right_def a b when_c_def clamp_midline_put ok i0 below [OF \<open>i < 99\<close>])
  next
    case False
    then have "row_mid (f1 s) i e None = m"
      using e by (auto simp: row_mid_def m_def right_of_def)
    with False c show ?thesis
      by (simp only: row_lost_right_def a b when_c_def bind.bind_lunit if_False s'_def
          clamp_midline_put [OF ok i0(1,2) m])
  qed
qed

lemma row_lost_both_eq:
  assumes ok: "f1_ok (f1 s)" and i: "10 < i" "i \<le> 118"
    and below: "i < 118 \<Longrightarrow> 0 \<le> midline (f1 s) ! nat (i + 1)" "i < 118 \<Longrightarrow> midline (f1 s) ! nat (i + 1) \<le> 159"
    and l: "leftline (f1 s) ! nat i = 0" and r: "rightline (f1 s) ! nat i = 159"
  shows "row_lost_both i s = Some (put_midline i (row_mid (f1 s) i None None) s)"
proof -
  have i0: "0 \<le> i" "i < 120" "i < 119" using i by simp_all
  have a: "set_leftline i 0 s = Some s" "set_rightline i 159 s = Some s"
    by (rule set_same; use ok i l r in simp)+
  show ?thesis
  proof (cases "i = 118")
    case True
    then show ?thesis using ok
      by (simp add: row_lost_both_def a [unfolded True] row_mid_def set_midline_put clamp_midline_put)
  next
    case False
    then have "i < 118" using i by simp
    then show ?thesis using ok i0 below False
      by (simp add: row_lost_both_def a row_mid_def copy_midline_put clamp_midline_put)
  qed
qed

lemma row_centre_eq:
  assumes ok: "f1_ok (f1 s)" and i: "10 < i" "i \<le> 118"
    and below: "i < 118 \<Longrightarrow> 0 \<le> midline (f1 s) ! nat (i + 1)" "i < 118 \<Longrightarrow> midline (f1 s) ! nat (i + 1) \<le> 159"
    and l: "leftline (f1 s) ! nat i = left_of e" "0 \<le> left_of e" "left_of e \<le> 159"
    and r: "rightline (f1 s) ! nat i = right_of e'" "0 \<le> right_of e'" "right_of e' \<le> 159"
    and f: "leftlineflag (f1 s) ! nat i = edge_flag e" "rightlineflag (f1 s) ! nat i = edge_flag e'"
  shows "row_centre i s = Some (put_midline i (row_mid (f1 s) i e e') s)"
proof -
  have i0: "0 \<le> i" "i < 120" "i < 119" using i by simp_all
  have c: "cell leftlineflag s i = Some (edge_flag e)" "cell rightlineflag s i = Some (edge_flag e')"
    using ok i f by (simp_all add: cell_def)
  have b: "i < 99 \<Longrightarrow> 0 \<le> midline (f1 s) ! nat (i + 1)" "i < 99 \<Longrightarrow> midline (f1 s) ! nat (i + 1) \<le> 159"
    using below by simp_all
  consider (lr) "e \<noteq> None" "e' \<noteq> None" | (r) "e = None" "e' \<noteq> None" | (l) "e \<noteq> None" "e' = None"
    | (n) "e = None" "e' = None" by blast
  then show ?thesis
  proof cases
    case lr
    have "row_centre i s = do { s \<leftarrow> centre_midline i s; clamp_midline i s }"
      using lr by (simp add: row_centre_def when_c_def c edge_flag_def del: not_None_eq)
    also have "\<dots> = Some (put_midline i ((left_of e + right_of e') div 2) s)"
      using half_range [OF l(2,3) r(2,3)]
      by (simp add: centre_midline_put [OF ok i0(1,2) l(1) r(1) l(2,3) r(2,3)] clamp_midline_put ok i0)
    also have "(left_of e + right_of e') div 2 = row_mid (f1 s) i e e'"
      using lr by (simp add: row_mid_def del: not_None_eq)
    finally show ?thesis .
  next
    case r
    then have "row_centre i s = row_lost_left i s"
      by (simp add: row_centre_def when_c_def c edge_flag_def del: not_None_eq)
    then show ?thesis
      using r assms(6-8) row_lost_left_eq [OF ok i b _ assms(9-11)]
      by (simp add: left_of_def del: not_None_eq)
  next
    case l
    then have "row_centre i s = row_lost_right i s"
      by (simp add: row_centre_def when_c_def c edge_flag_def del: not_None_eq)
    then show ?thesis
      using l assms(9-11) row_lost_right_eq [OF ok i b _ assms(6-8)]
      by (simp add: right_of_def del: not_None_eq)
  next
    case n
    then have "row_centre i s = row_lost_both i s"
      by (simp add: row_centre_def when_c_def c edge_flag_def)
    then show ?thesis
      using n assms(6-11) row_lost_both_eq [OF ok i below]
      by (simp add: left_of_def right_of_def)
  qed
qed

lemma row_edges_eq:
  assumes ok: "f1_ok (f1 s)" and i: "10 < i" "i \<le> 118"
    and k: "0 \<le> column_start s" "column_start s \<le> 159"
  shows "row_edges im i s = Some (s\<lparr>f1 := put_row i 80 (left_edge im i (column_start s))
    (right_edge im i (column_start s)) (f1 s)\<rparr>)"
proof -
  have i0: "0 \<le> i" "i < 120" using i by simp_all
  define s0 where "s0 = s\<lparr>f1 := put_row i 80 None None (f1 s)\<rparr>"
  define s1 where "s1 = s\<lparr>f1 := put_row i 80 (left_edge im i (column_start s)) None (f1 s)\<rparr>"
  have f: "f1_ok (put_row i m e e' (f1 s))" for m e e' using ok by (simp add: put_row_def)
  have "row_edges im i s = do {
      s \<leftarrow> for_down (left_scan im i) (column_start s) 2 s0;
      for_up (right_scan im i) (column_start s0) 157 s }"
    using ok i0 by (simp add: row_edges_def set_cell_defs s0_def put_row_def left_of_def right_of_def edge_flag_def Let_def)
  also have "for_down (left_scan im i) (column_start s) 2 s0 = Some s1"
  proof -
    have "f1_ok (f1 s0)" by (simp add: s0_def f)
    from left_loop [OF this i0 k(2), of im] show ?thesis
      by (cases "left_edge im i (column_start s)")
        (simp_all add: s0_def s1_def put_row_def left_of_def right_of_def edge_flag_def)
  qed
  also have "Option.bind (Some s1) (\<lambda>s. for_up (right_scan im i) (column_start s0) 157 s)
     = Some (s\<lparr>f1 := put_row i 80 (left_edge im i (column_start s)) (right_edge im i (column_start s)) (f1 s)\<rparr>)"
  proof -
    have "f1_ok (f1 s1)" and c: "column_start s0 = column_start s" by (simp_all add: s0_def s1_def f)
    from right_loop [OF this(1) i0 k(1), of im] show ?thesis unfolding c
      by (cases "right_edge im i (column_start s)")
        (simp_all add: s1_def put_row_def right_of_def edge_flag_def)
  qed
  finally show ?thesis .
qed

theorem findline1_row_eq:
  assumes ok: "f1_ok (f1 s)" and i: "10 < i" "i \<le> 118"
    and k: "0 \<le> column_start s" "column_start s \<le> 159"
    and below: "i < 118 \<Longrightarrow> 0 \<le> midline (f1 s) ! nat (i + 1)" "i < 118 \<Longrightarrow> midline (f1 s) ! nat (i + 1) \<le> 159"
    and e: "e = left_edge im i (column_start s)" and e': "e' = right_edge im i (column_start s)"
    and m: "m = row_mid (f1 s) i e e'"
  shows "findline1_row im i s = Some (s\<lparr>f1 := put_row i m e e' (f1 s), column_start := m\<rparr>)"
proof -
  have i0: "0 \<le> i" "i < 120" using i by simp_all
  have j: "nat (i + 1) \<noteq> nat i" "nat i \<noteq> nat (i + 1)" "nat i \<noteq> nat (i + 15)"
    using i by simp_all
  define s' where "s' = s\<lparr>f1 := put_row i 80 e e' (f1 s)\<rparr>"
  have f': "f1 s' = put_row i 80 e e' (f1 s)" by (simp add: s'_def)
  have rm: "row_mid (f1 s') i e e' = m"
    using j by (simp add: f' m row_mid_def put_row_def Let_def)
  have "row_centre i s' = Some (put_midline i (row_mid (f1 s') i e e') s')"
  proof (rule row_centre_eq [OF _ i])
    show "f1_ok (f1 s')" using ok by (simp add: f' put_row_def)
  qed (use ok i0 j below left_of_range [OF k, of im i] right_of_range [OF k, of im i] in
        \<open>simp_all add: f' put_row_def e e'\<close>)
  moreover have "row_edges im i s = Some s'"
    using row_edges_eq [OF ok i k] by (simp add: s'_def e e')
  ultimately show ?thesis
    using ok i0 by (simp add: findline1_row_def rm cell_def)
      (simp add: s'_def put_midline_def put_row_def)
qed

text \<open>The result of a row is in range, and the edges enclose no empty row.\<close>

lemma row_mid_range:
  assumes "0 \<le> left_of e" "left_of e \<le> 159" "0 \<le> right_of e'" "right_of e' \<le> 159"
    and "i < 118 \<Longrightarrow> 0 \<le> midline f ! nat (i + 1)" "i < 118 \<Longrightarrow> midline f ! nat (i + 1) \<le> 159"
    and "i \<le> 118"
  shows "0 \<le> row_mid f i e e'" and "row_mid f i e e' \<le> 159"
  using assms half_range [OF assms(1-4)] by (auto simp: row_mid_def Let_def)

section \<open>What find_toppoint computes\<close>

definition vertex_row :: "image \<Rightarrow> Findline1 \<Rightarrow> int option" where
  "vertex_row im f = search_down (\<lambda>i. let j = midline f ! nat i in px im i j \<noteq> 0
     \<and> (px im (i - 1) j = 0 \<or> px im (i - 3) j = 0 \<or> px im (i - 5) j = 0)) 100 5"

definition edge_row :: "Findline1 \<Rightarrow> int option" where
  "edge_row f = search_down (\<lambda>i. midline f ! nat i > 150 \<or> midline f ! nat i < 10) 118 2"

definition set_top :: "int \<Rightarrow> lines \<Rightarrow> lines" where
  "set_top i s = s\<lparr>f2 := (f2 s)\<lparr>toppoint := i, toppoint_flag := 1\<rparr>\<rparr>"

lemma set_top_simps [simp]:
  "f1 (set_top i s) = f1 s" "column_start (set_top i s) = column_start s"
  "toppoint (f2 (set_top i s)) = i" "toppoint_flag (f2 (set_top i s)) = 1"
  by (simp_all add: set_top_def)

theorem find_toppoint_eq:
  assumes "f1_ok (f1 s)"
  shows "find_toppoint im s = Some (case vertex_row im (f1 s) of
      Some i \<Rightarrow> set_top i s
    | None \<Rightarrow> (if toppoint_flag (f2 s) \<noteq> 0 then s
               else case edge_row (f1 s) of Some i \<Rightarrow> set_top i s | None \<Rightarrow> s))"
proof -
  have a: "for_down (toppoint_scan im) 100 5 s
      = Some (case vertex_row im (f1 s) of None \<Rightarrow> s | Some i \<Rightarrow> set_top i s)"
    unfolding vertex_row_def
    by (rule for_down_search) (use assms in \<open>simp add: toppoint_scan_def cell_def set_top_def Let_def\<close>)
  have b: "for_down toppoint_edge 118 2 s
      = Some (case edge_row (f1 s) of None \<Rightarrow> s | Some i \<Rightarrow> set_top i s)"
    unfolding edge_row_def
    by (rule for_down_search) (use assms in \<open>simp add: toppoint_edge_def cell_def set_top_def\<close>)
  show ?thesis
    by (cases "vertex_row im (f1 s)") (simp_all add: find_toppoint_def a b)
qed

lemma vertex_row_range: "vertex_row im f = Some i \<Longrightarrow> 6 \<le> i \<and> i \<le> 100"
  unfolding vertex_row_def search_down_Some by linarith

lemma edge_row_range: "edge_row f = Some i \<Longrightarrow> 3 \<le> i \<and> i \<le> 118"
  unfolding edge_row_def search_down_Some by linarith

section \<open>What findline1 computes\<close>

text \<open>Row \<open>i\<close> of a finished frame, given the start column \<open>c\<close> of the frame.\<close>

definition row_start :: "int \<Rightarrow> Findline1 \<Rightarrow> int \<Rightarrow> int" where
  "row_start c f i = (if i = 118 then c else midline f ! nat (i + 1))"

definition row_spec :: "image \<Rightarrow> int \<Rightarrow> Findline1 \<Rightarrow> int \<Rightarrow> bool" where
  "row_spec im c f i = (let k = row_start c f i; e = left_edge im i k; e' = right_edge im i k in
     leftline f ! nat i = left_of e \<and> leftlineflag f ! nat i = edge_flag e
     \<and> rightline f ! nat i = right_of e' \<and> rightlineflag f ! nat i = edge_flag e'
     \<and> midline f ! nat i = row_mid f i e e')"

lemma row_spec_put_row:
  assumes "0 \<le> i" "i < r"
  shows "row_spec im c (put_row i m e e' f) r = row_spec im c f r"
proof -
  have n: "nat i \<noteq> nat r" "nat i \<noteq> nat (r + 1)" "nat i \<noteq> nat (r + 15)" using assms by simp_all
  then have "row_mid (put_row i m e e' f) r x y = row_mid f r x y" for x y
    by (simp add: row_mid_def put_row_def Let_def)
  moreover have "row_start c (put_row i m e e' f) r = row_start c f r"
    using n by (simp add: row_start_def put_row_def)
  ultimately show ?thesis using n by (simp add: row_spec_def put_row_def Let_def)
qed

lemma row_mid_put_row:
  assumes "0 \<le> i"
  shows "row_mid (put_row i m e e' f) i x y = row_mid f i x y"
  using assms by (simp add: row_mid_def put_row_def Let_def)

definition rows_inv :: "image \<Rightarrow> lines \<Rightarrow> int \<Rightarrow> lines \<Rightarrow> bool" where
  "rows_inv im s0 i s \<longleftrightarrow> f1_ok (f1 s)
     \<and> s = s0\<lparr>f1 := f1 s, column_start := column_start s\<rparr>
     \<and> column_start s = row_start (column_start s0) (f1 s) i
     \<and> 0 \<le> column_start s \<and> column_start s \<le> 159
     \<and> (\<forall>r. i < r \<and> r \<le> 118 \<longrightarrow> row_spec im (column_start s0) (f1 s) r
            \<and> 0 \<le> midline (f1 s) ! nat r \<and> midline (f1 s) ! nat r \<le> 159)
     \<and> (\<forall>fld \<in> {midline, leftline, rightline, leftlineflag, rightlineflag}. \<forall>r.
            0 \<le> r \<and> (r < 11 \<or> 118 < r) \<longrightarrow> fld (f1 s) ! nat r = fld (f1 s0) ! nat r)"

lemma f1_ok_put_row [simp]: "f1_ok f \<Longrightarrow> f1_ok (put_row i m e e' f)"
  by (simp add: put_row_def)

lemma put_row_other:
  assumes "fld \<in> {midline, leftline, rightline, leftlineflag, rightlineflag}" "0 \<le> i" "0 \<le> r" "r \<noteq> i"
  shows "fld (put_row i m e e' f) ! nat r = fld f ! nat r"
proof -
  have "nat i \<noteq> nat r" using assms by simp
  then show ?thesis using assms(1) by (auto simp: put_row_def)
qed

lemma rows_inv_step:
  assumes inv: "rows_inv im s0 i s" and i: "10 < i" "i \<le> 118"
  shows "runs (findline1_row im i s) (rows_inv im s0 (i - 1))"
proof -
  have i0: "0 \<le> i" using i by simp
  from inv have ok: "f1_ok (f1 s)" and k: "0 \<le> column_start s" "column_start s \<le> 159"
    and st: "column_start s = row_start (column_start s0) (f1 s) i"
    and eqs: "s = s0\<lparr>f1 := f1 s, column_start := column_start s\<rparr>"
    and fin: "\<And>r. i < r \<Longrightarrow> r \<le> 118 \<Longrightarrow> row_spec im (column_start s0) (f1 s) r
            \<and> 0 \<le> midline (f1 s) ! nat r \<and> midline (f1 s) ! nat r \<le> 159"
    and same: "\<And>fld r. fld \<in> {midline, leftline, rightline, leftlineflag, rightlineflag} \<Longrightarrow>
            0 \<le> r \<Longrightarrow> r < 11 \<or> 118 < r \<Longrightarrow> fld (f1 s) ! nat r = fld (f1 s0) ! nat r"
    unfolding rows_inv_def by blast+
  define e where "e = left_edge im i (column_start s)"
  define e' where "e' = right_edge im i (column_start s)"
  define m where "m = row_mid (f1 s) i e e'"
  define g where "g = put_row i m e e' (f1 s)"
  have below: "0 \<le> midline (f1 s) ! nat (i + 1)" "midline (f1 s) ! nat (i + 1) \<le> 159" if "i < 118"
    using fin [of "i + 1"] that by simp_all
  have run: "findline1_row im i s = Some (s\<lparr>f1 := g, column_start := m\<rparr>)"
    unfolding g_def by (rule findline1_row_eq [OF ok i k below e_def e'_def m_def])
  have m: "0 \<le> m" "m \<le> 159" unfolding m_def
    by (rule row_mid_range; use left_of_range [OF k, of im i] right_of_range [OF k, of im i] below i in
        \<open>simp add: e_def e'_def\<close>)+
  have mid: "midline g ! nat i = m" using ok i by (simp add: g_def put_row_def)
  have here: "row_spec im (column_start s0) g i"
  proof -
    have n: "nat i \<noteq> nat (i + 1)" using i by simp
    have k': "row_start (column_start s0) g i = column_start s"
      using n st by (simp add: row_start_def g_def put_row_def)
    have "row_mid g i e e' = m" by (simp add: g_def row_mid_put_row i0 m_def)
    then show ?thesis
      unfolding row_spec_def k' Let_def e_def [symmetric] e'_def [symmetric]
      using ok i mid by (simp add: g_def put_row_def)
  qed
  have rows: "row_spec im (column_start s0) g r \<and> 0 \<le> midline g ! nat r \<and> midline g ! nat r \<le> 159"
    if "i - 1 < r" "r \<le> 118" for r
  proof (cases "r = i")
    case True
    then show ?thesis using here mid m by simp
  next
    case False
    then have r: "i < r" using that by simp
    have "midline g ! nat r = midline (f1 s) ! nat r"
      unfolding g_def by (rule put_row_other) (use r i0 in auto)
    then show ?thesis using fin [OF r that(2)] row_spec_put_row [OF i0 r] by (simp add: g_def)
  qed
  have others: "fld g ! nat r = fld (f1 s0) ! nat r"
    if "fld \<in> {midline, leftline, rightline, leftlineflag, rightlineflag}" "0 \<le> r" "r < 11 \<or> 118 < r" for fld r
  proof -
    have "r \<noteq> i" using that(3) i by auto
    from put_row_other [OF that(1) i0 that(2) this] same [OF that] show ?thesis by (simp add: g_def)
  qed
  have start: "m = row_start (column_start s0) g (i - 1)"
    using mid i by (simp add: row_start_def)
  have shape: "s\<lparr>f1 := g, column_start := m\<rparr> = s0\<lparr>f1 := g, column_start := m\<rparr>"
    by (subst eqs) simp
  have "f1_ok g" using ok by (simp add: g_def)
  then show ?thesis
    unfolding run runs_Some rows_inv_def using m start shape rows others by simp
qed

lemma findline1_rows:
  assumes "f1_ok (f1 s)" "0 \<le> column_start s" "column_start s \<le> 159"
  shows "runs (for_down (\<lambda>i s. do { s \<leftarrow> findline1_row im i s; Some (Next s) }) 118 10 s) (rows_inv im s 10)"
proof (rule for_down_rule [where I = "rows_inv im s"])
  show "rows_inv im s 118 s" using assms by (auto simp: rows_inv_def row_start_def)
  show "runs (findline1_row im i t \<bind> (\<lambda>s. Some (Next s))) (flow_post (rows_inv im s (i - 1)) (rows_inv im s 10))"
    if "10 < i" "i \<le> 118" "rows_inv im s i t" for i t
    unfolding runs_bind by (rule runs_mono [OF rows_inv_step [OF that(3,1,2)]]) simp
qed simp

definition top_spec :: "image \<Rightarrow> Findline1 \<Rightarrow> int" where
  "top_spec im f = (case vertex_row im f of Some i \<Rightarrow> i
     | None \<Rightarrow> (case edge_row f of Some i \<Rightarrow> i | None \<Rightarrow> 0))"

lemma top_spec_range: "0 \<le> top_spec im f" "top_spec im f \<le> 118"
  by (auto simp: top_spec_def split: option.split dest: vertex_row_range edge_row_range)

theorem findline1_result:
  assumes "f1_ok (f1 s)" "0 \<le> column_start s" "column_start s \<le> 159"
  obtains t where "rows_inv im s 10 t"
    and "findline1 im s = Some (s\<lparr>f1 := f1 t, column_start := midline (f1 t) ! 118,
           f2 := (f2 s)\<lparr>toppoint := top_spec im (f1 t),
             toppoint_flag := (if vertex_row im (f1 t) = None \<and> edge_row (f1 t) = None then 0 else 1)\<rparr>\<rparr>)"
proof -
  define s0 where "s0 = s\<lparr>f2 := (f2 s)\<lparr>toppoint := 0, toppoint_flag := 0\<rparr>\<rparr>"
  have "runs (for_down (\<lambda>i s. do { s \<leftarrow> findline1_row im i s; Some (Next s) }) 118 10 s0) (rows_inv im s0 10)"
    by (rule findline1_rows) (use assms in \<open>simp_all add: s0_def\<close>)
  then obtain t0 where loop: "for_down (\<lambda>i s. do { s \<leftarrow> findline1_row im i s; Some (Next s) }) 118 10 s0 = Some t0"
    and inv: "rows_inv im s0 10 t0" by (rule runsE)
  from inv have ok: "f1_ok (f1 t0)" and t0: "t0 = s0\<lparr>f1 := f1 t0, column_start := column_start t0\<rparr>"
    unfolding rows_inv_def by blast+
  define u where "u = t0\<lparr>column_start := midline (f1 t0) ! 118\<rparr>"
  have fl: "toppoint_flag (f2 u) = 0" unfolding u_def by (subst t0) (simp add: s0_def)
  have "findline1 im s = find_toppoint im u"
    using loop ok fl unfolding u_def by (simp add: findline1_def s0_def Let_def cell_def)
  also have "\<dots> = Some (s\<lparr>f1 := f1 t0, column_start := midline (f1 t0) ! 118,
           f2 := (f2 s)\<lparr>toppoint := top_spec im (f1 t0),
             toppoint_flag := (if vertex_row im (f1 t0) = None \<and> edge_row (f1 t0) = None then 0 else 1)\<rparr>\<rparr>)"
  proof -
    have u: "u = s\<lparr>f1 := f1 t0, column_start := midline (f1 t0) ! 118, f2 := (f2 s)\<lparr>toppoint := 0, toppoint_flag := 0\<rparr>\<rparr>"
      unfolding u_def by (subst t0) (simp add: s0_def)
    show ?thesis using find_toppoint_eq [of u im] ok fl unfolding u
      by (cases "vertex_row im (f1 t0)"; cases "edge_row (f1 t0)") (simp_all add: top_spec_def set_top_def)
  qed
  finally have run: "findline1 im s = Some (s\<lparr>f1 := f1 t0, column_start := midline (f1 t0) ! 118,
           f2 := (f2 s)\<lparr>toppoint := top_spec im (f1 t0),
             toppoint_flag := (if vertex_row im (f1 t0) = None \<and> edge_row (f1 t0) = None then 0 else 1)\<rparr>\<rparr>)" .
  have "rows_inv im s 10 (s\<lparr>f1 := f1 t0, column_start := column_start t0\<rparr>)"
    using inv unfolding rows_inv_def by (simp add: s0_def)
  then show thesis by (rule that) (use run in simp)
qed

section \<open>Power-on state\<close>

definition f1_zero :: Findline1 where
  "f1_zero = \<lparr>midline = replicate 120 0, leftline = replicate 120 0, rightline = replicate 120 0,
     leftlineflag = replicate 120 0, rightlineflag = replicate 120 0\<rparr>"

definition f2_zero :: Findline2 where
  "f2_zero = \<lparr>leftturnflag = 0, rightturnflag = 0, leftturn_row = 0, rightturn_row = 0,
     leftguai_column = 0, leftguai_row = 0, leftguaiflag = 0, rightguaiflag = 0,
     rightguai_column = 0, rightguai_row = 0, leftguaiflag_up = 0, leftguai_column_up = 0,
     leftguai_row_up = 0, rightguaiflag_up = 0, rightguai_column_up = 0, rightguai_row_up = 0,
     toppoint = 0, toppoint_flag = 0, shiziflag0 = 0, shiziflag1 = 0, huan = 0,
     huanrightflag = 0, huanleftflag = 0, lefthuanguai_row = 0, lefthuanguai_column = 0,
     lefthuanguaiflag = 0, righthuanguai_row = 0, righthuanguai_column = 0, righthuanguaiflag = 0\<rparr>"

definition lines_init :: lines where
  "lines_init = \<lparr>f1 = f1_zero, f2 = f2_zero, column_start = 80, line_L = 0, line_R = 0,
     both_line = 0, HL = 0, HR = 0, cnt_n = 0, js1 = 0, js2 = 0, js3 = 0, js4 = 0, js5 = 0,
     js6 = 0, js7 = 0, js8 = 0, js11 = 0, js12 = 0, shizi_distance = Fin 0\<rparr>"

lemma lines_init_simps [simp]:
  "f1_ok (f1 lines_init)" "column_start lines_init = 80"
  by (simp_all add: lines_init_def f1_zero_def f1_ok_def)

section \<open>Properties of findline1\<close>

lemma row_spec_less:
  assumes "row_spec im c f i" "0 \<le> row_start c f i" "row_start c f i \<le> 159"
  shows "0 \<le> leftline f ! nat i \<and> leftline f ! nat i < rightline f ! nat i \<and> rightline f ! nat i \<le> 159"
  using assms left_of_range [OF assms(2,3), of im i] right_of_range [OF assms(2,3), of im i]
    left_right_less [OF assms(2,3), of im i]
  by (simp add: row_spec_def Let_def)

text \<open>
  C1: \<open>findline1\<close> never indexes outside its arrays, and each row from 118 up to 11 holds the
  nearest white-white-black transition on either side of the middle of the row below
  (the frame's start column for row 118), the flags that say whether it was found, and
  the middle line of those edges; edges and middle line are columns of the image, the
  left edge is left of the right edge, the next frame starts from row 118, and the vertex
  is the one of the new lines.
\<close>

theorem findline1_correct:
  assumes "f1_ok (f1 s)" "0 \<le> column_start s" "column_start s \<le> 159"
  shows "runs (findline1 im s) (\<lambda>t. f1_ok (f1 t) \<and> column_start t = midline (f1 t) ! 118
    \<and> toppoint (f2 t) = top_spec im (f1 t)
    \<and> (\<forall>i. 10 < i \<and> i \<le> 118 \<longrightarrow> row_spec im (column_start s) (f1 t) i
          \<and> 0 \<le> midline (f1 t) ! nat i \<and> midline (f1 t) ! nat i \<le> 159
          \<and> 0 \<le> leftline (f1 t) ! nat i \<and> leftline (f1 t) ! nat i < rightline (f1 t) ! nat i
          \<and> rightline (f1 t) ! nat i \<le> 159))"
proof -
  obtain t where inv: "rows_inv im s 10 t"
    and run: "findline1 im s = Some (s\<lparr>f1 := f1 t, column_start := midline (f1 t) ! 118,
           f2 := (f2 s)\<lparr>toppoint := top_spec im (f1 t),
             toppoint_flag := (if vertex_row im (f1 t) = None \<and> edge_row (f1 t) = None then 0 else 1)\<rparr>\<rparr>)"
    by (rule findline1_result [OF assms])
  have rows: "row_spec im (column_start s) (f1 t) i \<and> 0 \<le> midline (f1 t) ! nat i
      \<and> midline (f1 t) ! nat i \<le> 159" if "10 < i" "i \<le> 118" for i
    using inv that unfolding rows_inv_def by blast
  have "0 \<le> row_start (column_start s) (f1 t) i \<and> row_start (column_start s) (f1 t) i \<le> 159"
    if "10 < i" "i \<le> 118" for i
    using rows [of "i + 1"] that assms by (cases "i = 118") (simp_all add: row_start_def)
  then have "0 \<le> leftline (f1 t) ! nat i \<and> leftline (f1 t) ! nat i < rightline (f1 t) ! nat i
      \<and> rightline (f1 t) ! nat i \<le> 159" if "10 < i" "i \<le> 118" for i
    using row_spec_less rows that by blast
  with rows inv show ?thesis unfolding run runs_Some rows_inv_def by simp
qed

lemma findline1_correct_witness:
  "runs (findline1 (\<lambda>_. 255) lines_init) (\<lambda>t. f1_ok (f1 t) \<and> column_start t = midline (f1 t) ! 118
    \<and> toppoint (f2 t) = top_spec (\<lambda>_. 255) (f1 t)
    \<and> (\<forall>i. 10 < i \<and> i \<le> 118 \<longrightarrow> row_spec (\<lambda>_. 255) 80 (f1 t) i
          \<and> 0 \<le> midline (f1 t) ! nat i \<and> midline (f1 t) ! nat i \<le> 159
          \<and> 0 \<le> leftline (f1 t) ! nat i \<and> leftline (f1 t) ! nat i < rightline (f1 t) ! nat i
          \<and> rightline (f1 t) ! nat i \<le> 159))"
  using findline1_correct [of lines_init "\<lambda>_. 255"] by simp

end
