(* ===== verification/FindLinesJudge.thy ===== *)
theory FindLinesJudge
  imports FindLines
begin

text \<open>
  The feature detectors of \<open>findLines.c\<close> that \<open>findline2\<close> calls: corners (\<open>find_guai\<close>),
  bends (\<open>find_curve1\<close>, \<open>find_curve3\<close>), the three stages of the ring's recognition
  (\<open>find_huan1\<close> to \<open>find_huan3\<close>), the corner that ends a ring (\<open>find_huanguai\<close>), and the
  tests for lost edges.  Each keeps the arrays; the lemmas show under which facts about
  the frame none of them indexes outside the arrays.
\<close>

abbreviation "ML \<equiv> cell midline"
abbreviation "LL \<equiv> cell leftline"
abbreviation "RL \<equiv> cell rightline"
abbreviation "LF \<equiv> cell leftlineflag"
abbreviation "RF \<equiv> cell rightlineflag"
abbreviation "gt_c \<equiv> lift2 (\<lambda>x y. x > (y::int))"
abbreviation "lt_c \<equiv> lift2 (\<lambda>x y. x < (y::int))"
abbreviation "sub_c \<equiv> lift2 (\<lambda>x y. x - (y::int))"
abbreviation "add_c \<equiv> lift2 (\<lambda>x y. x + (y::int))"
abbreviation "twice_c \<equiv> map_option (\<lambda>x. 2 * (x::int))"
abbreviation "vtop s \<equiv> toppoint (f2 s)"

abbreviation set2 :: "(Findline2 \<Rightarrow> Findline2) \<Rightarrow> lines \<Rightarrow> lines" where
  "set2 h s \<equiv> s\<lparr>f2 := h (f2 s)\<rparr>"

section \<open>Rings\<close>

definition find_huan1 :: "lines \<Rightarrow> lines option" where
  "find_huan1 s =
     (if leftguaiflag (f2 s) = 1 \<and> rightguaiflag (f2 s) = 0 then
        for_down (\<lambda>i s. when_c [eq_c (RF s i) 0] (Some (Next (s\<lparr>js1 := 0\<rparr>))) (Some (Next s)))
          95 (vtop s) (s\<lparr>js1 := 1, js5 := leftguai_row (f2 s)\<rparr>)
      else if leftguaiflag (f2 s) = 0 \<and> rightguaiflag (f2 s) = 1 then
        for_down (\<lambda>i s. when_c [eq_c (LF s i) 0] (Some (Next (s\<lparr>js2 := 0\<rparr>))) (Some (Next s)))
          95 (vtop s) (s\<lparr>js2 := 1, js6 := rightguai_row (f2 s)\<rparr>)
      else Some s)"

definition huan2_step :: "int \<Rightarrow> int \<times> lines \<Rightarrow> (int \<times> lines) flow option" where
  "huan2_step i p = (case p of (cout, s) \<Rightarrow>
     if js1 s = 1 \<and> js2 s = 0 then do {
       cout \<leftarrow> when_c [eq_c (LF s i) 0, neq_c (RF s i) 0, neq_c (RF s (i + 8)) 0]
                (when_c [eq_c (LF s (i + 4)) 1] (Some (i16 (cout + 1))) (Some cout)) (Some cout);
       Some (if cout \<ge> 3 then Break (cout, s\<lparr>js1 := 2\<rparr>) else Next (cout, s)) }
     else if js2 s = 1 \<and> js1 s = 0 then do {
       cout \<leftarrow> when_c [eq_c (RF s i) 0, neq_c (LF s i) 0, neq_c (LF s (i + 8)) 0]
                (when_c [eq_c (RF s (i + 4)) 1] (Some (i16 (cout + 1))) (Some cout)) (Some cout);
       Some (if cout \<ge> 3 then Break (cout, s\<lparr>js2 := 2\<rparr>) else Next (cout, s)) }
     else Some (Next (cout, s)))"

definition find_huan2 :: "lines \<Rightarrow> lines option" where
  "find_huan2 s = do {
     (cout, s) \<leftarrow> for_down huan2_step 95 (vtop s) (0, s);
     let s = (if js1 s = 1 then s\<lparr>js1 := 0\<rparr> else s);
     Some (if js2 s = 1 then s\<lparr>js2 := 0\<rparr> else s) }"

text \<open>The nine pixels that \<open>find_huan3\<close> wants white around row \<open>i\<close>, column \<open>j\<close>.\<close>

definition ring_white :: "image \<Rightarrow> int \<Rightarrow> int \<Rightarrow> bool" where
  "ring_white im i j \<longleftrightarrow> px im i j \<noteq> 0 \<and> px im i (j - 1) \<noteq> 0 \<and> px im i (j - 10) \<noteq> 0
     \<and> px im (i - 5) j \<noteq> 0 \<and> px im (i - 10) j \<noteq> 0 \<and> px im (i - 15) j \<noteq> 0
     \<and> px im (i - 20) j \<noteq> 0 \<and> px im (i - 25) j \<noteq> 0 \<and> px im i (j + 5) \<noteq> 0"

definition huan3_step :: "image \<Rightarrow> int \<Rightarrow> lines \<Rightarrow> lines flow option" where
  "huan3_step im i s =
     (if js1 s = 2 \<and> js2 s = 0 then
        when_c [gt_c (LL s i) (LL s (i + 3)), gt_c (LL s i) (LL s (i - 3)),
                gt_c (LL s i) (LL s (i + 5)), gt_c (LL s i) (LL s (i - 5))]
          (do { j \<leftarrow> ML s (i + 5);
                if ring_white im i j then
                  when_c [eq_c (RF s i) 1, eq_c (RF s (i - 3)) 1, eq_c (RF s (i + 3)) 1,
                          lift2 (\<lambda>x y. \<bar>x - y\<bar> \<le> 6) (RL s i) (RL s (i - 3))]
                    (Some (Break (set2 (\<lambda>f. f\<lparr>shiziflag1 := 0, shiziflag0 := 0\<rparr>) (s\<lparr>js1 := 3\<rparr>))))
                    (Some (Next s))
                else Some (Next s) })
          (Some (Next s))
      else if js1 s = 0 \<and> js2 s = 2 then
        when_c [lt_c (RL s i) (RL s (i + 3)), lt_c (RL s i) (RL s (i - 3)),
                lt_c (RL s i) (RL s (i + 5)), lt_c (RL s i) (RL s (i - 5))]
          (do { j \<leftarrow> ML s (i + 5);
                if ring_white im i j then
                  when_c [eq_c (LF s i) 1, eq_c (LF s (i - 3)) 1, eq_c (LF s (i + 3)) 1,
                          lift2 (\<lambda>x y. \<bar>x - y\<bar> \<le> 6) (LL s i) (LL s (i - 3))]
                    (Some (Break (set2 (\<lambda>f. f\<lparr>shiziflag1 := 0, shiziflag0 := 0\<rparr>) (s\<lparr>js2 := 3\<rparr>))))
                    (Some (Next s))
                else Some (Next s) })
          (Some (Next s))
      else Some (Next s))"

definition find_huan3 :: "image \<Rightarrow> lines \<Rightarrow> lines option" where
  "find_huan3 im s = do {
     s \<leftarrow> for_down (huan3_step im) 100 35 s;
     Some (if js1 s = 2 \<or> js2 s = 2 then s\<lparr>js1 := 0, js2 := 0\<rparr> else s) }"

definition huanguai_left :: "int \<Rightarrow> lines \<Rightarrow> lines flow option" where
  "huanguai_left i s =
     (if lefthuanguaiflag (f2 s) = 0 then
        when_c [lt_c (LL s i) (Some 80), gt_c (LL s i) (LL s (i + 3)), lt_c (LL s i) (LL s (i - 3)),
                gt_c (LL s i) (LL s (i + 5)), eq_c (LF s i) 1, eq_c (LF s (i + 2)) 0,
                gt_c (sub_c (LL s (i - 3)) (LL s (i + 3))) (Some 12),
                eq_c (LF s (i - 2)) 1, eq_c (LF s i) 1, eq_c (LF s (i + 3)) 0,
                gt_c (sub_c (sub_c (twice_c (LL s i)) (LL s (i - 2))) (LL s (i + 2))) (Some 8)]
          (do { c \<leftarrow> LL s i;
                Some (Break (set2 (\<lambda>f. f\<lparr>lefthuanguaiflag := 1, lefthuanguai_row := i,
                                        lefthuanguai_column := c\<rparr>) s)) })
          (Some (Next s))
      else Some (Next s))"

definition huanguai_right :: "int \<Rightarrow> lines \<Rightarrow> lines flow option" where
  "huanguai_right i s =
     (if righthuanguaiflag (f2 s) = 0 then
        when_c [gt_c (RL s i) (Some 70), lt_c (RL s i) (RL s (i + 3)), gt_c (RL s i) (RL s (i - 3)),
                lt_c (RL s i) (RL s (i + 5)), eq_c (RF s i) 1, eq_c (RF s (i + 2)) 0,
                lt_c (sub_c (RL s (i - 3)) (RL s (i + 3))) (Some (-12)),
                eq_c (RF s (i - 2)) 1, eq_c (RF s (i + 3)) 0, eq_c (RF s i) 1,
                gt_c (sub_c (add_c (RL s (i + 2)) (RL s (i - 2))) (twice_c (RL s i))) (Some 8)]
          (do { c \<leftarrow> RL s i;
                Some (Break (set2 (\<lambda>f. f\<lparr>righthuanguaiflag := 1, righthuanguai_row := i,
                                        righthuanguai_column := c\<rparr>) s)) })
          (Some (Next s))
      else Some (Next s))"

definition find_huanguai :: "lines \<Rightarrow> lines option" where
  "find_huanguai s = for_down (\<lambda>i s. do {
      r \<leftarrow> huanguai_left i s;
      (case r of Break s \<Rightarrow> Some (Break s) | Next s \<Rightarrow> huanguai_right i s) }) 100 35 s"

section \<open>Bends\<close>

text \<open>
  \<open>lose_cnt\<close> of \<open>find_curve1\<close> is never initialised: the function's argument \<open>lose\<close> is
  whatever the stack holds.
\<close>

definition curve1_left :: "int \<Rightarrow> int \<times> lines \<Rightarrow> (int \<times> lines) option" where
  "curve1_left i p = (case p of (lose, s) \<Rightarrow> do {
     let s = set2 (\<lambda>f. f\<lparr>leftturn_row := i16 i, leftturnflag := 1\<rparr>) s;
     let row = leftturn_row (f2 s);
     s \<leftarrow> (if row < 40 then
             when_c [gt_c (RL s (row - 5)) (Some 100), gt_c (RL s (row - 5)) (RL s row)]
               (when_c [gt_c (sub_c (RL s (row - 5)) (RL s row)) (Some 10)]
                  (Some (set2 (\<lambda>f. f\<lparr>rightturn_row := 0, rightturnflag := 0\<rparr>) s)) (Some s))
               (Some s)
           else Some s);
     if shiziflag1 (f2 s) = 1 \<and> leftturnflag (f2 s) = 1 then do {
       lose \<leftarrow> for_down (\<lambda>i n. when_c [eq_c (RF s i) 0] (Some (Next (i32 (n + 1)))) (Some (Next n)))
                row (vtop s) lose;
       Some (lose, if lose > 5 then set2 (\<lambda>f. f\<lparr>leftturn_row := 0, leftturnflag := 0\<rparr>) s else s) }
     else Some (lose, s) })"

definition curve1_right :: "int \<Rightarrow> int \<times> lines \<Rightarrow> (int \<times> lines) option" where
  "curve1_right i p = (case p of (lose, s) \<Rightarrow> do {
     let s = set2 (\<lambda>f. f\<lparr>rightturn_row := i16 i, rightturnflag := 1\<rparr>) s;
     let row = rightturn_row (f2 s);
     s \<leftarrow> (if row \<le> 40 then
             when_c [lt_c (LL s (row - 5)) (Some 60), lt_c (LL s (row - 5)) (LL s row)]
               (when_c [gt_c (sub_c (LL s row) (LL s (row - 5))) (Some 10)]
                  (Some (set2 (\<lambda>f. f\<lparr>leftturn_row := 0, leftturnflag := 0\<rparr>) s)) (Some s))
               (Some s)
           else Some s);
     if shiziflag1 (f2 s) = 1 then do {
       lose \<leftarrow> for_down (\<lambda>i n. when_c [eq_c (LF s i) 0] (Some (Next (i32 (n + 1)))) (Some (Next n)))
                row (vtop s) lose;
       Some (lose, if lose > 5 then set2 (\<lambda>f. f\<lparr>rightturn_row := 0, rightturnflag := 0\<rparr>) s else s) }
     else Some (lose, s) })"

definition curve1_step :: "int \<Rightarrow> int \<times> lines \<Rightarrow> (int \<times> lines) flow option" where
  "curve1_step i p = (case p of (lose, s) \<Rightarrow>
     when_c [eq_c (LF s i) 0]
       (when_c [Some (leftturnflag (f2 s) = 0), eq_c (LF s (i + 1)) 1, eq_c (LF s (i + 2)) 1,
                eq_c (RF s i) 1, eq_c (RF s (i - 5)) 1, Some (i > 30)]
          (do { p \<leftarrow> curve1_left i (lose, s); Some (Break p) })
          (Some (Next (lose, s))))
       (when_c [eq_c (RF s i) 0, Some (rightturnflag (f2 s) = 0), eq_c (RF s (i + 1)) 1,
                eq_c (RF s (i + 2)) 1, eq_c (LF s i) 1, eq_c (LF s (i - 5)) 1, Some (i > 30)]
          (do { p \<leftarrow> curve1_right i (lose, s); Some (Break p) })
          (Some (Next (lose, s)))))"

definition find_curve1 :: "int \<Rightarrow> lines \<Rightarrow> lines option" where
  "find_curve1 lose s = do {
     (lose, s) \<leftarrow> for_down curve1_step 115 (vtop s + 3) (lose, s);
     Some s }"

definition curve3_flags :: "lines \<Rightarrow> (int \<times> int) option" where
  "curve3_flags s = for_down (\<lambda>i p. case p of (flag_L, flag_R) \<Rightarrow> do {
      flag_L \<leftarrow> when_c [eq_c (LF s i) 0, Some (flag_L = 0)] (Some 1) (Some flag_L);
      flag_R \<leftarrow> when_c [eq_c (RF s i) 0, Some (flag_R = 0)] (Some 1) (Some flag_R);
      Some (Next (flag_L, flag_R)) }) 118 112 (0, 0)"

definition find_curve3 :: "lines \<Rightarrow> lines option" where
  "find_curve3 s =
     (if leftturnflag (f2 s) = 0 \<and> rightturnflag (f2 s) = 0 then do {
        (flag_L, flag_R) \<leftarrow> curve3_flags s;
        flag_L \<leftarrow> (if flag_L = 1 then
            for_down (\<lambda>i fl. do { c \<leftarrow> any_c [eq_c (LF s i) 1, eq_c (RF s i) 0];
                                 Some (Next (if c then 0 else fl)) }) 100 (vtop s + 10) flag_L
          else Some flag_L);
        flag_R \<leftarrow> (if flag_R = 1 then
            for_down (\<lambda>i fl. do { c \<leftarrow> any_c [eq_c (LF s i) 0, eq_c (RF s i) 1];
                                 Some (Next (if c then 0 else fl)) }) 100 (vtop s + 10) flag_R
          else Some flag_R);
        Some (if flag_L = 1 \<and> flag_R = 0 then set2 (\<lambda>f. f\<lparr>leftturnflag := 3\<rparr>) s
              else if flag_L = 0 \<and> flag_R = 1 then set2 (\<lambda>f. f\<lparr>rightturnflag := 3\<rparr>) s
              else s) }
      else Some s)"

section \<open>Corners\<close>

definition guai_left_step :: "int \<Rightarrow> lines \<Rightarrow> lines flow option" where
  "guai_left_step i s =
     (if leftguaiflag (f2 s) = 0 then
        when_c [Some (i > 45), lt_c (LL s i) (Some 140), gt_c (LL s i) (LL s (i + 3)),
                gt_c (LL s i) (LL s (i - 3)), gt_c (LL s i) (LL s (i + 5)),
                gt_c (LL s i) (LL s (i - 2)), gt_c (LL s i) (LL s (i - 4)),
                lt_c (sub_c (LL s (i - 3)) (LL s (i + 3))) (Some 2),
                eq_c (LF s (i + 3)) 1, eq_c (LF s (i - 5)) 0, eq_c (LF s i) 1,
                gt_c (sub_c (sub_c (twice_c (LL s i)) (LL s (i - 3))) (LL s (i + 3))) (Some 4)]
          (do { c \<leftarrow> LL s i;
                Some (Next (set2 (\<lambda>f. f\<lparr>leftguaiflag := 1, leftguai_row := i,
                                       leftguai_column := c\<rparr>) s)) })
          (Some (Next s))
      else Some (Next s))"

definition guai_right_step :: "int \<Rightarrow> lines \<Rightarrow> lines flow option" where
  "guai_right_step i s =
     (if rightguaiflag (f2 s) = 0 then
        when_c [Some (i > 45), gt_c (RL s i) (Some 20), lt_c (RL s i) (RL s (i + 3)),
                lt_c (RL s i) (RL s (i - 3)), lt_c (RL s i) (RL s (i + 5)),
                gt_c (sub_c (RL s (i - 3)) (RL s (i + 3))) (Some 2),
                eq_c (RF s (i + 3)) 1, eq_c (RF s (i - 5)) 0,
                gt_c (sub_c (add_c (RL s (i + 3)) (RL s (i - 3))) (twice_c (RL s i))) (Some 4)]
          (do { c \<leftarrow> RL s i;
                Some (Next (set2 (\<lambda>f. f\<lparr>rightguaiflag := 1, rightguai_row := i,
                                       rightguai_column := c\<rparr>) s)) })
          (Some (Next s))
      else Some (Next s))"

definition find_guai :: "lines \<Rightarrow> lines option" where
  "find_guai s =
     (if vtop s < 70 \<and> vtop s > 5 then do {
        s \<leftarrow> for_down guai_left_step 108 (vtop s + 4) s;
        for_down guai_right_step 108 (vtop s + 4) s }
      else Some s)"

section \<open>Lost edges\<close>

definition right_row_lose_judge :: "lines \<Rightarrow> int \<Rightarrow> int option" where
  "right_row_lose_judge s row = for_down (\<lambda>i flag.
      when_c [eq_c (RF s i) 0] (Some (Break 0)) (Some (Next flag))) row (vtop s) 1"

definition left_row_lose_judge :: "lines \<Rightarrow> int \<Rightarrow> int option" where
  "left_row_lose_judge s row = for_down (\<lambda>i flag.
      when_c [eq_c (LF s i) 0] (Some (Break 0)) (Some (Next flag))) row (vtop s) 1"

definition shizi_judge :: "lines \<Rightarrow> lines option" where
  "shizi_judge s = do {
     s \<leftarrow> (if leftguaiflag (f2 s) = 1 then
             if leftguai_column (f2 s) > 140 then
               Some (set2 (\<lambda>f. f\<lparr>leftguaiflag := 0, leftguai_row := 0, leftguai_column := 0\<rparr>) s)
             else do {
               r \<leftarrow> right_row_lose_judge s (leftguai_row (f2 s));
               Some (if r \<noteq> 0
                     then set2 (\<lambda>f. f\<lparr>leftguaiflag := 0, leftguai_row := 0, leftguai_column := 0\<rparr>) s
                     else s) }
           else Some s);
     (if rightguaiflag (f2 s) = 1 then
        if rightguai_column (f2 s) < 20 then
          Some (set2 (\<lambda>f. f\<lparr>rightguaiflag := 0, rightguai_row := 0, rightguai_column := 0\<rparr>) s)
        else do {
          r \<leftarrow> left_row_lose_judge s (rightguai_row (f2 s));
          Some (if r \<noteq> 0
                then set2 (\<lambda>f. f\<lparr>rightguaiflag := 0, rightguai_row := 0, rightguai_column := 0\<rparr>) s
                else s) }
      else Some s) }"

definition count_rows :: "(int \<Rightarrow> bool option list) \<Rightarrow> int option" where
  "count_rows cs = for_down (\<lambda>i n. when_c (cs i) (Some (Next (i16 (n + 1)))) (Some (Next n))) 118 40 0"

definition judge_leftlose :: "lines \<Rightarrow> int option" where
  "judge_leftlose s = do {
     n \<leftarrow> count_rows (\<lambda>i. [eq_c (LF s i) 0, eq_c (RF s i) 1]);
     Some (if n > 35 then 1 else 0) }"

definition judge_rightlose :: "lines \<Rightarrow> int option" where
  "judge_rightlose s = do {
     n \<leftarrow> count_rows (\<lambda>i. [eq_c (LF s i) 1, eq_c (RF s i) 0]);
     Some (if n > 35 then 1 else 0) }"

definition judge_bothlose :: "lines \<Rightarrow> int option" where
  "judge_bothlose s = do {
     n \<leftarrow> count_rows (\<lambda>i. [eq_c (LF s i) 0, eq_c (RF s i) 0]);
     Some (if n > 10 then 1 else 0) }"

definition rows_complete :: "lines \<Rightarrow> int \<Rightarrow> int option" where
  "rows_complete s row = for_down (\<lambda>i flag. do {
      c \<leftarrow> any_c [eq_c (LF s i) 0, eq_c (RF s i) 0];
      Some (if c then Break 0 else Next flag) }) (row + 5) (row - 20) 1"

definition both_row_lose_judge :: "lines \<Rightarrow> lines option" where
  "both_row_lose_judge s = do {
     s \<leftarrow> (if leftguaiflag (f2 s) = 1 then do {
             flag \<leftarrow> rows_complete s (leftguai_row (f2 s));
             Some (if flag = 1 then set2 (\<lambda>f. f\<lparr>leftguaiflag := 0\<rparr>) s else s) }
           else Some s);
     (if rightguaiflag (f2 s) = 1 then do {
        flag \<leftarrow> rows_complete s (rightguai_row (f2 s));
        Some (if flag = 1 then set2 (\<lambda>f. f\<lparr>rightguaiflag := 0\<rparr>) s else s) }
      else Some s) }"

end
