(* ===== verification/FindLines2.thy ===== *)
theory FindLines2
  imports FindLinesJudge
begin

text \<open>
  \<open>findline2\<close>: the frame's corners, bends, crossings and rings, and the repair of the middle
  line they call for.  The function is modelled section by section, in the order of the
  source.  \<open>lose\<close> is the uninitialised local of \<open>find_curve1\<close>, \<open>short\<close> the global
  \<open>shortstraight_flag\<close> of \<open>distinguish.c\<close>, which this function reads.
\<close>

section \<open>Repairing rows\<close>

text \<open>\<open>for (i = from; i > 0; i--)\<close> setting both edges and the middle to one column.\<close>

definition blank_row :: "int \<Rightarrow> int \<Rightarrow> lines \<Rightarrow> lines flow option" where
  "blank_row v i s = do {
     s \<leftarrow> set_leftline i v s;
     s \<leftarrow> set_rightline i v s;
     s \<leftarrow> set_midline i v s;
     Some (Next s) }"

definition blank_rows :: "int \<Rightarrow> int \<Rightarrow> lines \<Rightarrow> lines option" where
  "blank_rows v start s = for_down (blank_row v) start 0 s"

text \<open>The end of a repair to the left: stop at column 0 and remember the row in \<open>L\<close>.\<close>

definition stop_left :: "int \<Rightarrow> lines \<Rightarrow> lines flow option" where
  "stop_left i s = do {
     m \<leftarrow> ML s i;
     if m \<le> 0 then do {
       s \<leftarrow> set_midline i 0 s;
       Some (Break (s\<lparr>line_L := i\<rparr>)) }
     else Some (Next s) }"

definition stop_right :: "int \<Rightarrow> lines \<Rightarrow> lines flow option" where
  "stop_right i s = do {
     m \<leftarrow> ML s i;
     if m \<ge> 159 then do {
       s \<leftarrow> set_midline i 159 s;
       Some (Break (s\<lparr>line_R := i\<rparr>)) }
     else Some (Next s) }"

definition finish_left :: "lines \<Rightarrow> lines option" where
  "finish_left s = do {
     let s = s\<lparr>line_L := (if line_L s = 0 then vtop s else line_L s)\<rparr>;
     blank_rows 0 (line_L s) s }"

definition finish_right :: "lines \<Rightarrow> lines option" where
  "finish_right s = do {
     let s = s\<lparr>line_R := (if line_R s = 0 then vtop s else line_R s)\<rparr>;
     blank_rows 159 (line_R s) s }"

text \<open>\<open>f1.midline[i] = e\<close> for an expression that reads cells.\<close>

definition assign_midline :: "int \<Rightarrow> int option \<Rightarrow> lines \<Rightarrow> lines option" where
  "assign_midline i e s = do { v \<leftarrow> e; set_midline i v s }"

abbreviation "HW i \<equiv> c_get half_width i"

section \<open>Start of the frame\<close>

definition findline2_reset :: "lines \<Rightarrow> lines" where
  "findline2_reset s = s\<lparr>f2 := (f2 s)\<lparr>leftturnflag := 0, leftturn_row := 0, rightturnflag := 0,
     rightturn_row := 0, leftguaiflag := 0, leftguai_column := 0, leftguai_row := 0,
     rightguaiflag := 0, rightguai_column := 0, rightguai_row := 0, leftguaiflag_up := 0,
     leftguai_column_up := 0, leftguai_row_up := 0, rightguaiflag_up := 0,
     rightguai_column_up := 0, rightguai_row_up := 0, lefthuanguaiflag := 0,
     lefthuanguai_column := 0, lefthuanguai_row := 0, righthuanguaiflag := 0,
     righthuanguai_column := 0, righthuanguai_row := 0\<rparr>,
     line_L := 0, line_R := 0, both_line := 0\<rparr>"

definition findline2_features :: "int \<Rightarrow> lines \<Rightarrow> lines option" where
  "findline2_features lose s = do {
     s \<leftarrow> (if leftguaiflag (f2 s) = 0 \<and> rightguaiflag (f2 s) = 0 then find_guai s else Some s);
     s \<leftarrow> (if vtop s \<noteq> 0 then find_curve1 lose s else Some s);
     (if vtop s \<noteq> 0 \<and> vtop s < 95 \<and> leftturnflag (f2 s) = 0 \<and> rightturnflag (f2 s) = 0
      then find_curve3 s else Some s) }"

section \<open>Crossings\<close>

text \<open>Of two corners on the wrong sides of each other only the nearer one is kept.\<close>

definition keep_near_corner :: "lines \<Rightarrow> lines" where
  "keep_near_corner s =
     (if leftguaiflag (f2 s) = 1 \<and> rightguaiflag (f2 s) = 1 then
        let s = (if leftguai_row (f2 s) > rightguai_row (f2 s) \<and> leftguai_column (f2 s) > rightguai_column (f2 s)
                 then set2 (\<lambda>f. f\<lparr>rightguaiflag := 0\<rparr>) s else s) in
        if rightguai_row (f2 s) > leftguai_row (f2 s) \<and> leftguai_column (f2 s) > rightguai_column (f2 s)
        then set2 (\<lambda>f. f\<lparr>leftguaiflag := 0\<rparr>) s else s
      else s)"

text \<open>The corner counter: at 4 the crossing is confirmed.\<close>

definition count_corner :: "lines \<Rightarrow> lines" where
  "count_corner s =
     (if leftguaiflag (f2 s) = 1 \<or> rightguaiflag (f2 s) = 1 then
        let s = (if shiziflag1 (f2 s) = 0
                 then set2 (\<lambda>f. f\<lparr>shiziflag0 := i16 (shiziflag0 f + 1)\<rparr>) (s\<lparr>shizi_distance := Fin 0\<rparr>)
                 else s);
            s = (if shiziflag0 (f2 s) = 4 then set2 (\<lambda>f. f\<lparr>shiziflag1 := 1, shiziflag0 := 0\<rparr>) s else s) in
        if leftturnflag (f2 s) \<noteq> 0 \<or> rightturnflag (f2 s) \<noteq> 0
        then set2 (\<lambda>f. f\<lparr>leftturnflag := 0, rightturnflag := 0\<rparr>) s else s
      else s)"

definition drop_corners :: "lines \<Rightarrow> lines" where
  "drop_corners s =
     (let s = (if leftguaiflag (f2 s) = 0
               then set2 (\<lambda>f. f\<lparr>leftguaiflag := 0, leftguai_row := 0, leftguai_column := 0\<rparr>) s else s) in
      if rightguaiflag (f2 s) = 0
      then set2 (\<lambda>f. f\<lparr>rightguaiflag := 0, rightguai_row := 0, rightguai_column := 0\<rparr>) s else s)"

definition findline2_cross :: "lines \<Rightarrow> lines option" where
  "findline2_cross s =
     (if leftguaiflag (f2 s) = 1 \<or> rightguaiflag (f2 s) = 1 then do {
        s \<leftarrow> find_huan1 s;
        s \<leftarrow> shizi_judge s;
        s \<leftarrow> both_row_lose_judge (keep_near_corner s);
        Some (drop_corners (count_corner s)) }
      else Some s)"

section \<open>Rings\<close>

text \<open>The recogniser's stages: 1 corner, 2 lost edge, 3 ring.\<close>

definition findline2_ring_stage :: "image \<Rightarrow> lines \<Rightarrow> lines option" where
  "findline2_ring_stage im s = do {
     s \<leftarrow> (if js1 s = 1 \<or> js2 s = 1 then find_huan2 s else Some s);
     s \<leftarrow> (if js1 s = 2 \<or> js2 s = 2 then find_huan3 im s else Some s);
     Some (if js1 s = 3 \<or> js2 s = 3 then
             let s = (if js2 s = 3 then set2 (\<lambda>f. f\<lparr>huanrightflag := 1\<rparr>) (s\<lparr>js2 := 0\<rparr>) else s) in
             if js1 s = 3 then set2 (\<lambda>f. f\<lparr>huanleftflag := 1\<rparr>) (s\<lparr>js1 := 0\<rparr>) else s
           else s) }"

abbreviation "width_c s i \<equiv> sub_c (RL s i) (LL s i)"

definition ring_left_seen :: "int \<Rightarrow> lines \<Rightarrow> lines flow option" where
  "ring_left_seen i s =
     when_c [lt_c (width_c s i) (width_c s (i + 3)), lt_c (width_c s i) (width_c s (i - 3)),
             eq_c (LF s (i - 3)) 1, eq_c (LF s (i + 3)) 1,
             Some (i \<ge> 53), neq_c (RF s i) 0, neq_c (RF s (i + 4)) 0, neq_c (RF s (i - 4)) 0,
             neq_c (RF s (i + 8)) 0, neq_c (RF s (i - 8)) 0]
       (Some (Break (s\<lparr>HL := 1\<rparr>))) (Some (Next s))"

definition ring_left_straight :: "int \<Rightarrow> lines \<Rightarrow> lines flow option" where
  "ring_left_straight i s = do {
     s \<leftarrow> when_c [eq_c (RF s i) 0] (assign_midline i (ML s (i + 1)) s)
           (assign_midline i (sub_c (RL s i) (HW i)) s);
     Some (Next s) }"

definition ring_left_arc :: "int \<Rightarrow> lines \<Rightarrow> lines flow option" where
  "ring_left_arc i s = do {
     s \<leftarrow> when_c [Some (i < 85), eq_c (LF s i) 0] (assign_midline i (sub_c (ML s (i + 2)) (Some 3)) s)
          (when_c [Some (i \<ge> 85), eq_c (LF s i) 0] (assign_midline i (ML s (i + 1)) s)
             (assign_midline i (add_c (LL s i) (HW i)) s));
     stop_left i s }"

definition ring_left_leave :: "lines \<Rightarrow> lines" where
  "ring_left_leave s =
     (let s = (if righthuanguaiflag (f2 s) = 1 \<and> righthuanguai_column (f2 s) \<ge> 125
               then set2 (\<lambda>f. f\<lparr>huanleftflag := 0, lefthuanguaiflag := 0, huan := 1\<rparr>) (s\<lparr>cnt_n := 0, js3 := 1\<rparr>)
               else s) in
      set2 (\<lambda>f. f\<lparr>leftturnflag := 0\<rparr>) s)"

definition findline2_ring_left :: "lines \<Rightarrow> lines option" where
  "findline2_ring_left s = do {
     s \<leftarrow> for_down ring_left_seen 100 (vtop s) s;
     s \<leftarrow> (if HL s = 0 then for_down ring_left_straight 117 (vtop s) s else Some s);
     s \<leftarrow> (if HL s = 1 then do { s \<leftarrow> for_down ring_left_arc 115 35 s; finish_left s } else Some s);
     s \<leftarrow> find_huanguai s;
     Some (ring_left_leave s) }"

definition ring_right_seen :: "int \<Rightarrow> lines \<Rightarrow> lines flow option" where
  "ring_right_seen i s =
     when_c [lt_c (width_c s i) (width_c s (i + 3)), lt_c (width_c s i) (width_c s (i - 3)),
             eq_c (RF s (i - 3)) 1, eq_c (RF s (i + 3)) 1,
             Some (i \<ge> 53), neq_c (LF s i) 0, neq_c (LF s (i + 4)) 0, neq_c (RF s (i - 4)) 0]
       (Some (Break (s\<lparr>HR := 1\<rparr>))) (Some (Next s))"

definition ring_right_straight :: "int \<Rightarrow> lines \<Rightarrow> lines flow option" where
  "ring_right_straight i s = do {
     s \<leftarrow> when_c [eq_c (LL s i) 0] (assign_midline i (ML s (i + 1)) s)
           (assign_midline i (add_c (LL s i) (HW i)) s);
     Some (Next s) }"

definition ring_right_arc :: "int \<Rightarrow> lines \<Rightarrow> lines flow option" where
  "ring_right_arc i s = do {
     s \<leftarrow> when_c [Some (i < 85), eq_c (RF s i) 0] (assign_midline i (add_c (ML s (i + 2)) (Some 3)) s)
          (when_c [Some (i \<ge> 85), eq_c (RF s i) 0] (assign_midline i (ML s (i + 1)) s)
             (assign_midline i (sub_c (RL s (i + 1)) (HW i)) s));
     stop_right i s }"

definition ring_right_leave :: "lines \<Rightarrow> lines" where
  "ring_right_leave s =
     (let s = (if lefthuanguaiflag (f2 s) = 1 \<and> lefthuanguai_column (f2 s) \<le> 35
               then set2 (\<lambda>f. f\<lparr>huanrightflag := 0, righthuanguaiflag := 0, huan := 1\<rparr>) (s\<lparr>cnt_n := 0, js4 := 1\<rparr>)
               else s) in
      set2 (\<lambda>f. f\<lparr>rightturnflag := 0\<rparr>) s)"

definition findline2_ring_right :: "lines \<Rightarrow> lines option" where
  "findline2_ring_right s = do {
     s \<leftarrow> for_down ring_right_seen 100 (vtop s) s;
     s \<leftarrow> (if HR s = 0 then for_down ring_right_straight 117 (vtop s) s
           else if HR s = 1 then do { s \<leftarrow> for_down ring_right_arc 115 35 s; finish_right s }
           else Some s);
     s \<leftarrow> find_huanguai s;
     Some (ring_right_leave s) }"

definition findline2_ring :: "image \<Rightarrow> lines \<Rightarrow> lines option" where
  "findline2_ring im s =
     (if huanleftflag (f2 s) \<noteq> 0 \<or> huanrightflag (f2 s) \<noteq> 0 then do {
        s \<leftarrow> (if huanleftflag (f2 s) \<noteq> 0 then findline2_ring_left s else Some s);
        s \<leftarrow> (if huanrightflag (f2 s) \<noteq> 0 then findline2_ring_right s else Some s);
        find_toppoint im s }
      else Some s)"

subsection \<open>Leaving the ring\<close>

definition ring_exit_left :: "int \<Rightarrow> lines \<Rightarrow> lines flow option" where
  "ring_exit_left i s =
     when_c [Some (righthuanguaiflag (f2 s) = 0), gt_c (RL s i) (RL s (i + 2)), gt_c (RL s i) (RL s (i + 3))]
       (Some (Break (set2 (\<lambda>f. f\<lparr>huanleftflag := 0\<rparr>) (s\<lparr>js7 := 1, js3 := 0\<rparr>))))
       (Some (Next s))"

definition ring_exit_right :: "int \<Rightarrow> lines \<Rightarrow> lines flow option" where
  "ring_exit_right i s =
     when_c [Some (lefthuanguaiflag (f2 s) = 0), gt_c (LL s i) (LL s (i + 2)), gt_c (LL s i) (LL s (i + 3))]
       (Some (Break (set2 (\<lambda>f. f\<lparr>huanrightflag := 0\<rparr>) (s\<lparr>js8 := 1, js4 := 0\<rparr>))))
       (Some (Next s))"

definition findline2_ring_exit :: "lines \<Rightarrow> lines option" where
  "findline2_ring_exit s =
     (if huan (f2 s) = 1 then do {
        let s = set2 (\<lambda>f. f\<lparr>shiziflag1 := 0, shiziflag0 := 0\<rparr>) s;
        s \<leftarrow> (if js3 s = 1 then for_down ring_exit_left 95 (vtop s) s else Some s);
        (if js4 s = 1 then for_down ring_exit_right 95 (vtop s) s else Some s) }
      else Some s)"

definition ring_out_left :: "int \<Rightarrow> lines \<Rightarrow> lines flow option" where
  "ring_out_left i s = do {
     s \<leftarrow> when_c [eq_c (RF s i) 0] (assign_midline i (sub_c (ML s (i + 2)) (Some 2)) s)
          (when_c [gt_c (RL s i) (RL s (i + 1)), neq_c (RF s i) 0]
             (assign_midline i (sub_c (ML s (i + 2)) (Some 3)) s)
             (assign_midline i (sub_c (RL s i) (HW i)) s));
     stop_left i s }"

definition ring_out_right :: "int \<Rightarrow> lines \<Rightarrow> lines flow option" where
  "ring_out_right i s = do {
     s \<leftarrow> when_c [eq_c (LF s i) 0] (assign_midline i (add_c (ML s (i + 1)) (Some 3)) s)
          (when_c [lt_c (LL s i) (LL s (i + 1)), neq_c (LF s i) 0]
             (assign_midline i (add_c (ML s (i + 2)) (Some 3)) s)
             (assign_midline i (add_c (LL s i) (HW i)) s));
     stop_right i s }"

text \<open>The right-hand exit takes \<open>L\<close> where the other repairs take \<open>R\<close>: line 556 of the source.\<close>

definition ring_out_finish_right :: "lines \<Rightarrow> lines option" where
  "ring_out_finish_right s = do {
     let s = s\<lparr>line_R := (if line_R s = 0 then vtop s else line_L s)\<rparr>;
     blank_rows 159 (line_R s) s }"

definition full_rows :: "lines \<Rightarrow> int option" where
  "full_rows s = for_down (\<lambda>i m. when_c [eq_c (LF s i) 1, eq_c (RF s i) 1]
      (Some (Next (i16 (m + 1)))) (Some (Next m))) 95 45 0"

definition findline2_ring_out :: "int \<Rightarrow> lines \<Rightarrow> lines option" where
  "findline2_ring_out short s =
     (if js7 s \<noteq> 0 \<or> js8 s \<noteq> 0 then do {
        let s = set2 (\<lambda>f. f\<lparr>leftturnflag := 0, rightturnflag := 0, shiziflag1 := 0, shiziflag0 := 0\<rparr>) s;
        s \<leftarrow> (if js7 s = 1 \<and> js8 s = 0 then do {
                s \<leftarrow> for_down ring_out_left 110 (vtop s) s;
                finish_left s }
              else if js8 s = 1 \<and> js7 s = 0 then do {
                s \<leftarrow> for_down ring_out_right 110 35 s;
                ring_out_finish_right s }
              else Some s);
        m \<leftarrow> full_rows s;
        Some (if m > 40 \<and> short \<noteq> 0
              then set2 (\<lambda>f. f\<lparr>huan := 0\<rparr>)
                     (s\<lparr>js11 := 0, js12 := 0, HL := 0, HR := 0, cnt_n := 0, js7 := 0, js8 := 0\<rparr>)
              else s) }
      else Some s)"

section \<open>Bends\<close>

definition bend_left :: "int \<Rightarrow> lines \<Rightarrow> lines flow option" where
  "bend_left i s = do {
     s \<leftarrow> when_c [eq_c (RL s i) 159] (assign_midline i (sub_c (ML s (i + 1)) (Some 1)) s)
           (assign_midline i (sub_c (ML s (i + 1)) (sub_c (RL s (i + 1)) (RL s i))) s);
     stop_left i s }"

definition sharp_left :: "int \<Rightarrow> lines \<Rightarrow> lines flow option" where
  "sharp_left i s = do {
     s \<leftarrow> assign_midline i (sub_c (RL s i) (Some 80)) s;
     s \<leftarrow> clamp_midline i s;
     stop_left i s }"

definition bend_right :: "int \<Rightarrow> lines \<Rightarrow> lines flow option" where
  "bend_right i s = do {
     s \<leftarrow> when_c [eq_c (LL s i) 0] (assign_midline i (add_c (ML s i) (Some 1)) s)
           (assign_midline i (add_c (ML s (i + 1)) (sub_c (LL s i) (LL s (i + 1)))) s);
     stop_right i s }"

definition sharp_right :: "int \<Rightarrow> lines \<Rightarrow> lines flow option" where
  "sharp_right i s = do {
     s \<leftarrow> assign_midline i (add_c (LL s i) (Some 80)) s;
     stop_right i s }"

definition findline2_bends :: "lines \<Rightarrow> lines option" where
  "findline2_bends s =
     (if leftturnflag (f2 s) \<noteq> 0 \<or> rightturnflag (f2 s) \<noteq> 0 then do {
        s \<leftarrow> (if leftturnflag (f2 s) = 1 then do {
                s \<leftarrow> for_down bend_left (leftturn_row (f2 s)) (vtop s) s;
                finish_left s }
              else Some s);
        s \<leftarrow> (if leftturnflag (f2 s) = 3 then do {
                s \<leftarrow> for_down sharp_left 118 0 s;
                finish_left s }
              else Some s);
        s \<leftarrow> (if rightturnflag (f2 s) = 1 then do {
                s \<leftarrow> for_down bend_right (rightturn_row (f2 s)) 0 s;
                finish_right s }
              else Some s);
        (if rightturnflag (f2 s) = 3 then do {
           s \<leftarrow> for_down sharp_right 118 0 s;
           finish_right s }
         else Some s) }
      else Some s)"

section \<open>The whole function\<close>

definition findline2_end :: "image \<Rightarrow> lines \<Rightarrow> lines option" where
  "findline2_end im s = do {
     s \<leftarrow> find_toppoint im s;
     m \<leftarrow> ML s 118;
     let s = s\<lparr>column_start := m\<rparr>;
     let s = s\<lparr>column_start := (if column_start s > 150 then 150 else column_start s)\<rparr>;
     Some (s\<lparr>column_start := (if column_start s < 10 then 10 else column_start s)\<rparr>) }"

definition findline2 :: "image \<Rightarrow> int \<Rightarrow> int \<Rightarrow> lines \<Rightarrow> lines option" where
  "findline2 im short lose s = do {
     s \<leftarrow> findline2_features lose (findline2_reset s);
     s \<leftarrow> findline2_cross s;
     s \<leftarrow> findline2_ring_stage im s;
     s \<leftarrow> findline2_ring im s;
     s \<leftarrow> findline2_ring_exit s;
     s \<leftarrow> findline2_ring_out short s;
     s \<leftarrow> findline2_bends s;
     findline2_end im s }"

end
