(* ===== verification/FindLinesInv.thy ===== *)
theory FindLinesInv
  imports FindLines2
begin

text \<open>
  The frame invariant of \<open>findline2\<close>: it holds when \<open>findline1\<close> is done, every section keeps
  it, and under it no section indexes outside the row arrays.
\<close>

section \<open>The invariant\<close>

text \<open>
  Rows 0 to 10 are never scanned: their flags are 0, and both edges are in the same
  column (0 at power-on, then whatever \<open>blank_row\<close> puts into both).
\<close>

definition low_rows :: "Findline1 \<Rightarrow> bool" where
  "low_rows f \<longleftrightarrow> (\<forall>i. 0 \<le> i \<and> i \<le> 10 \<longrightarrow> leftline f ! nat i = rightline f ! nat i
     \<and> leftlineflag f ! nat i = 0 \<and> rightlineflag f ! nat i = 0)"

definition corners_ok :: "Findline2 \<Rightarrow> bool" where
  "corners_ok g \<longleftrightarrow> (leftguaiflag g = 1 \<longrightarrow> 45 < leftguai_row g \<and> leftguai_row g \<le> 108)
     \<and> (rightguaiflag g = 1 \<longrightarrow> 45 < rightguai_row g \<and> rightguai_row g \<le> 108)
     \<and> 0 \<le> leftturn_row g \<and> leftturn_row g \<le> 115 \<and> 0 \<le> rightturn_row g \<and> rightturn_row g \<le> 115
     \<and> 0 \<le> toppoint g \<and> toppoint g \<le> 118"

definition frame_inv :: "lines \<Rightarrow> bool" where
  "frame_inv s \<longleftrightarrow> f1_ok (f1 s) \<and> low_rows (f1 s) \<and> corners_ok (f2 s)
     \<and> 0 \<le> line_L s \<and> line_L s \<le> 118 \<and> 0 \<le> line_R s \<and> line_R s \<le> 118"

lemma frame_inv_f1 [simp, dest]: "frame_inv s \<Longrightarrow> f1_ok (f1 s)"
  by (simp add: frame_inv_def)

lemma frame_inv_top: "frame_inv s \<Longrightarrow> 0 \<le> vtop s \<and> vtop s \<le> 118"
  by (simp add: frame_inv_def corners_ok_def)

lemma runs_cell [runs_simps]:
  assumes "f1_ok (f1 s)"
  shows "runs (ML s i) Q \<longleftrightarrow> 0 \<le> i \<and> i < 120 \<and> Q (midline (f1 s) ! nat i)"
    "runs (LL s i) Q \<longleftrightarrow> 0 \<le> i \<and> i < 120 \<and> Q (leftline (f1 s) ! nat i)"
    "runs (RL s i) Q \<longleftrightarrow> 0 \<le> i \<and> i < 120 \<and> Q (rightline (f1 s) ! nat i)"
    "runs (LF s i) Q \<longleftrightarrow> 0 \<le> i \<and> i < 120 \<and> Q (leftlineflag (f1 s) ! nat i)"
    "runs (RF s i) Q \<longleftrightarrow> 0 \<le> i \<and> i < 120 \<and> Q (rightlineflag (f1 s) ! nat i)"
  using assms by (simp_all add: cell_def runs_c_get)

lemma runs_map_option [runs_simps]: "runs (map_option g m) Q = runs m (\<lambda>x. Q (g x))"
  by (cases m) simp_all

lemma runs_HW [runs_simps]: "runs (HW i) Q \<longleftrightarrow> 0 \<le> i \<and> i < 120 \<and> Q (half_width ! nat i)"
  by (simp add: runs_c_get)

lemma low_rows_D:
  assumes "low_rows f" "0 \<le> i" "i \<le> 10"
  shows "leftline f ! nat i = rightline f ! nat i" "leftlineflag f ! nat i = 0" "rightlineflag f ! nat i = 0"
  using assms by (simp_all add: low_rows_def)

section \<open>Writing a row\<close>

lemma low_rows_midline [simp]: "low_rows (f\<lparr>midline := xs\<rparr>) = low_rows f"
  by (simp add: low_rows_def)

lemma set_midline_inv:
  assumes "frame_inv s" "0 \<le> i" "i < 120"
  shows "runs (set_midline i v s) frame_inv"
  using assms by (simp add: set_midline_def frame_inv_def)

lemma assign_midline_inv:
  assumes "frame_inv s" "0 \<le> i" "i < 120" "runs e (\<lambda>_. True)"
  shows "runs (assign_midline i e s) frame_inv"
  unfolding assign_midline_def
  by (rule runs_bindI [OF assms(4)]) (rule set_midline_inv [OF assms(1-3)])

lemma clamp_midline_inv:
  assumes "frame_inv s" "0 \<le> i" "i < 120"
  shows "runs (clamp_midline i s) frame_inv"
proof -
  have "runs (set_midline i v t) frame_inv" if "frame_inv t" for v t
    using set_midline_inv [OF that assms(2,3)] .
  then show ?thesis unfolding clamp_midline_def
    using assms by (auto simp: runs_bind runs_cell intro!: runs_mono [OF set_midline_inv])
qed

lemma low_rows_blank:
  assumes "low_rows f" "f1_ok f"
  shows "low_rows (f\<lparr>leftline := (leftline f)[n := v], rightline := (rightline f)[n := v]\<rparr>)"
proof (cases "n < 120")
  case True
  then show ?thesis using assms by (auto simp: low_rows_def nth_list_update)
next
  case False
  then show ?thesis using assms by (simp add: list_update_beyond low_rows_def)
qed

lemma blank_row_inv:
  assumes "frame_inv s" "0 \<le> i" "i < 120"
  shows "runs (blank_row v i s) (flow_post frame_inv frame_inv)"
  using assms by (simp add: blank_row_def set_cell_defs frame_inv_def low_rows_blank)

lemma blank_rows_inv:
  assumes "frame_inv s" "start < 120"
  shows "runs (blank_rows v start s) frame_inv"
  unfolding blank_rows_def
  by (rule for_down_inv [where P = frame_inv]) (use assms in \<open>auto intro: blank_row_inv\<close>)

lemma stop_left_inv:
  assumes "frame_inv s" "0 \<le> i" "i \<le> 118"
  shows "runs (stop_left i s) (flow_post frame_inv frame_inv)"
  using assms by (simp add: stop_left_def cell_def set_midline_def frame_inv_def)

lemma stop_right_inv:
  assumes "frame_inv s" "0 \<le> i" "i \<le> 118"
  shows "runs (stop_right i s) (flow_post frame_inv frame_inv)"
  using assms by (simp add: stop_right_def cell_def set_midline_def frame_inv_def)

lemma finish_left_inv: "frame_inv s \<Longrightarrow> runs (finish_left s) frame_inv"
  unfolding finish_left_def Let_def
  by (rule blank_rows_inv) (auto simp: frame_inv_def corners_ok_def)

lemma finish_right_inv: "frame_inv s \<Longrightarrow> runs (finish_right s) frame_inv"
  unfolding finish_right_def Let_def
  by (rule blank_rows_inv) (auto simp: frame_inv_def corners_ok_def)

lemma ring_out_finish_right_inv: "frame_inv s \<Longrightarrow> runs (ring_out_finish_right s) frame_inv"
  unfolding ring_out_finish_right_def Let_def
  by (rule blank_rows_inv) (auto simp: frame_inv_def corners_ok_def)

section \<open>The repair loops\<close>

lemma frame_loop:
  assumes "frame_inv s"
    and "\<And>i s. lo < i \<Longrightarrow> i \<le> hi \<Longrightarrow> frame_inv s \<Longrightarrow> runs (body i s) (flow_post frame_inv frame_inv)"
  shows "runs (for_down body hi lo s) frame_inv"
  by (rule for_down_inv [where P = frame_inv]) (use assms in auto)

lemma next_inv: "frame_inv s \<Longrightarrow> runs (Some (Next s)) (flow_post frame_inv frame_inv)"
  by simp

lemma bind_inv:
  assumes "runs m frame_inv" and "\<And>s. frame_inv s \<Longrightarrow> runs (h s) Q"
  shows "runs (Option.bind m h) Q"
  by (rule runs_bindI [OF assms])

lemma if_inv:
  assumes "c \<Longrightarrow> runs a Q" and "\<not> c \<Longrightarrow> runs b Q"
  shows "runs (if c then a else b) Q"
  using assms by simp

lemmas repair_intros = bind_inv runs_whenI assign_midline_inv clamp_midline_inv
  stop_left_inv stop_right_inv next_inv

lemma ring_left_straight_inv:
  assumes "frame_inv s" "0 < i" "i \<le> 117"
  shows "runs (ring_left_straight i s) (flow_post frame_inv frame_inv)"
  unfolding ring_left_straight_def
  by (intro repair_intros; (rule assms)?) (use assms in \<open>simp_all add: runs_simps\<close>)

lemma ring_left_arc_inv:
  assumes "frame_inv s" "0 < i" "i \<le> 115"
  shows "runs (ring_left_arc i s) (flow_post frame_inv frame_inv)"
  unfolding ring_left_arc_def
  by (intro repair_intros; (rule assms)?) (use assms in \<open>simp_all add: runs_simps\<close>)

lemma ring_right_straight_inv:
  assumes "frame_inv s" "0 < i" "i \<le> 117"
  shows "runs (ring_right_straight i s) (flow_post frame_inv frame_inv)"
  unfolding ring_right_straight_def
  by (intro repair_intros; (rule assms)?) (use assms in \<open>simp_all add: runs_simps\<close>)

lemma ring_right_arc_inv:
  assumes "frame_inv s" "0 < i" "i \<le> 115"
  shows "runs (ring_right_arc i s) (flow_post frame_inv frame_inv)"
  unfolding ring_right_arc_def
  by (intro repair_intros; (rule assms)?) (use assms in \<open>simp_all add: runs_simps\<close>)

lemma ring_out_left_inv:
  assumes "frame_inv s" "0 < i" "i \<le> 110"
  shows "runs (ring_out_left i s) (flow_post frame_inv frame_inv)"
  unfolding ring_out_left_def
  by (intro repair_intros; (rule assms)?) (use assms in \<open>simp_all add: runs_simps\<close>)

lemma ring_out_right_inv:
  assumes "frame_inv s" "0 < i" "i \<le> 110"
  shows "runs (ring_out_right i s) (flow_post frame_inv frame_inv)"
  unfolding ring_out_right_def
  by (intro repair_intros; (rule assms)?) (use assms in \<open>simp_all add: runs_simps\<close>)

lemma bend_left_inv:
  assumes "frame_inv s" "0 < i" "i \<le> 115"
  shows "runs (bend_left i s) (flow_post frame_inv frame_inv)"
  unfolding bend_left_def
  by (intro repair_intros; (rule assms)?) (use assms in \<open>simp_all add: runs_simps\<close>)

lemma bend_right_inv:
  assumes "frame_inv s" "0 < i" "i \<le> 115"
  shows "runs (bend_right i s) (flow_post frame_inv frame_inv)"
  unfolding bend_right_def
  by (intro repair_intros; (rule assms)?) (use assms in \<open>simp_all add: runs_simps\<close>)

lemma sharp_left_inv:
  assumes "frame_inv s" "0 < i" "i \<le> 118"
  shows "runs (sharp_left i s) (flow_post frame_inv frame_inv)"
  unfolding sharp_left_def
  by (intro repair_intros; (rule assms)?) (use assms in \<open>simp_all add: runs_simps\<close>)

lemma sharp_right_inv:
  assumes "frame_inv s" "0 < i" "i \<le> 118"
  shows "runs (sharp_right i s) (flow_post frame_inv frame_inv)"
  unfolding sharp_right_def
  by (intro repair_intros; (rule assms)?) (use assms in \<open>simp_all add: runs_simps\<close>)

section \<open>The detectors keep the invariant\<close>

text \<open>Assignments to counters and flags.\<close>

lemma frame_inv_scalar [simp]:
  "frame_inv (s\<lparr>js1 := x\<rparr>) = frame_inv s" "frame_inv (s\<lparr>js2 := x\<rparr>) = frame_inv s"
  "frame_inv (s\<lparr>js3 := x\<rparr>) = frame_inv s" "frame_inv (s\<lparr>js4 := x\<rparr>) = frame_inv s"
  "frame_inv (s\<lparr>js5 := x\<rparr>) = frame_inv s" "frame_inv (s\<lparr>js6 := x\<rparr>) = frame_inv s"
  "frame_inv (s\<lparr>js7 := x\<rparr>) = frame_inv s" "frame_inv (s\<lparr>js8 := x\<rparr>) = frame_inv s"
  "frame_inv (s\<lparr>js11 := x\<rparr>) = frame_inv s" "frame_inv (s\<lparr>js12 := x\<rparr>) = frame_inv s"
  "frame_inv (s\<lparr>HL := x\<rparr>) = frame_inv s" "frame_inv (s\<lparr>HR := x\<rparr>) = frame_inv s"
  "frame_inv (s\<lparr>cnt_n := x\<rparr>) = frame_inv s" "frame_inv (s\<lparr>column_start := x\<rparr>) = frame_inv s"
  "frame_inv (s\<lparr>both_line := x\<rparr>) = frame_inv s" "frame_inv (s\<lparr>shizi_distance := d\<rparr>) = frame_inv s"
  by (simp_all add: frame_inv_def)

lemma frame_inv_f2: "frame_inv s \<Longrightarrow> corners_ok g \<Longrightarrow> frame_inv (s\<lparr>f2 := g\<rparr>)"
  by (simp add: frame_inv_def)

lemma frame_inv_corners: "frame_inv s \<Longrightarrow> corners_ok (f2 s)"
  by (simp add: frame_inv_def)

lemma flag_loop:
  assumes "0 \<le> lo" "hi < 120"
    and "\<And>i x. lo < i \<Longrightarrow> i \<le> hi \<Longrightarrow> runs (body i x) (\<lambda>_. True)"
  shows "runs (for_down body hi lo x) (\<lambda>_. True)"
proof (rule for_down_inv)
  fix i y assume "lo < i" "i \<le> hi"
  from assms(3) [OF this, of y] show "runs (body i y) (flow_post (\<lambda>_. True) (\<lambda>_. True))"
    by (rule runs_mono) (simp add: flow_post_def split: flow.split)
qed simp

lemma find_huan1_inv: "frame_inv s \<Longrightarrow> runs (find_huan1 s) frame_inv"
  unfolding find_huan1_def
  by (intro if_inv frame_loop runs_whenI) (auto simp: runs_simps dest: frame_inv_top)

lemma huan2_step_inv:
  assumes "frame_inv s" "0 < i" "i \<le> 95"
  shows "runs (huan2_step i (c, s)) (flow_post (\<lambda>p. frame_inv (snd p)) (\<lambda>p. frame_inv (snd p)))"
  using assms by (auto simp: huan2_step_def runs_simps runs_when_c)

lemma find_huan2_inv:
  assumes "frame_inv s"
  shows "runs (find_huan2 s) frame_inv"
proof -
  have "runs (for_down huan2_step 95 (vtop s) (0, s)) (\<lambda>p. frame_inv (snd p))"
    by (rule for_down_inv) (use assms frame_inv_top [OF assms] huan2_step_inv in auto)
  then show ?thesis unfolding find_huan2_def
    by (rule runs_bindI) (auto simp: Let_def)
qed

lemma huan3_step_inv:
  assumes "frame_inv s" "35 < i" "i \<le> 100"
  shows "runs (huan3_step im i s) (flow_post frame_inv frame_inv)"
  unfolding huan3_step_def
  by (intro if_inv runs_whenI runs_bindI [where P = "\<lambda>_. True"];
      use assms frame_inv_corners [OF assms(1)] in \<open>simp add: runs_simps frame_inv_f2 corners_ok_def\<close>)

lemma find_huan3_inv: "frame_inv s \<Longrightarrow> runs (find_huan3 im s) frame_inv"
  unfolding find_huan3_def
  by (rule bind_inv, rule frame_loop) (auto intro: huan3_step_inv)

lemma huanguai_left_inv:
  assumes "frame_inv s" "35 < i" "i \<le> 100"
  shows "runs (huanguai_left i s) (flow_post frame_inv frame_inv)"
  unfolding huanguai_left_def
  by (intro if_inv runs_whenI runs_bindI [where P = "\<lambda>_. True"];
      use assms frame_inv_corners [OF assms(1)] in \<open>simp add: runs_simps frame_inv_f2 corners_ok_def\<close>)

lemma huanguai_right_inv:
  assumes "frame_inv s" "35 < i" "i \<le> 100"
  shows "runs (huanguai_right i s) (flow_post frame_inv frame_inv)"
  unfolding huanguai_right_def
  by (intro if_inv runs_whenI runs_bindI [where P = "\<lambda>_. True"];
      use assms frame_inv_corners [OF assms(1)] in \<open>simp add: runs_simps frame_inv_f2 corners_ok_def\<close>)

lemma find_huanguai_inv: "frame_inv s \<Longrightarrow> runs (find_huanguai s) frame_inv"
  unfolding find_huanguai_def
proof (rule frame_loop)
  fix i :: int and t assume a: "35 < i" "i \<le> 100" "frame_inv t"
  show "runs (huanguai_left i t \<bind> (\<lambda>r. case r of Next s \<Rightarrow> huanguai_right i s | Break s \<Rightarrow> Some (Break s)))
      (flow_post frame_inv frame_inv)"
    by (rule runs_bindI [OF huanguai_left_inv [OF a(3,1,2)]])
      (auto split: flow.split intro: huanguai_right_inv a)
qed

lemma curve1_left_inv:
  assumes "frame_inv s" "30 < i" "i \<le> 115"
  shows "runs (curve1_left i (n, s)) (\<lambda>p. frame_inv (snd p))"
proof -
  define t where "t = set2 (\<lambda>f. f\<lparr>leftturn_row := i16 i, leftturnflag := 1\<rparr>) s"
  have t: "frame_inv t" unfolding t_def
    by (rule frame_inv_f2) (use assms frame_inv_corners [OF assms(1)] in \<open>auto simp: corners_ok_def\<close>)
  have row: "leftturn_row (f2 t) = i" using assms by (simp add: t_def)
  have 1: "runs (if i < 40 then
             when_c [gt_c (RL t (i - 5)) (Some 100), gt_c (RL t (i - 5)) (RL t i)]
               (when_c [gt_c (sub_c (RL t (i - 5)) (RL t i)) (Some 10)]
                  (Some (set2 (\<lambda>f. f\<lparr>rightturn_row := 0, rightturnflag := 0\<rparr>) t)) (Some t))
               (Some t)
           else Some t) frame_inv"
    by (intro if_inv runs_whenI;
        use t assms frame_inv_corners [OF t] in \<open>simp add: runs_simps frame_inv_f2 corners_ok_def\<close>)
  have 2: "runs (if shiziflag1 (f2 s) = 1 \<and> leftturnflag (f2 s) = 1 then do {
       n \<leftarrow> for_down (\<lambda>i n. when_c [eq_c (RF s i) 0] (Some (Next (i32 (n + 1)))) (Some (Next n))) i (vtop s) n;
       Some (n, if n > 5 then set2 (\<lambda>f. f\<lparr>leftturn_row := 0, leftturnflag := 0\<rparr>) s else s) }
     else Some (n, s)) (\<lambda>p. frame_inv (snd p))" if s: "frame_inv s" for s
    by (intro if_inv runs_bindI [OF flag_loop] runs_whenI;
        use s assms frame_inv_top [OF s] frame_inv_corners [OF s] in
          \<open>simp add: runs_simps frame_inv_f2 corners_ok_def\<close>)
  show ?thesis
    unfolding curve1_left_def Let_def prod.case t_def [symmetric] row
    by (rule runs_bindI [OF 1 2])
qed

lemma curve1_right_inv:
  assumes "frame_inv s" "30 < i" "i \<le> 115"
  shows "runs (curve1_right i (n, s)) (\<lambda>p. frame_inv (snd p))"
proof -
  define t where "t = set2 (\<lambda>f. f\<lparr>rightturn_row := i16 i, rightturnflag := 1\<rparr>) s"
  have t: "frame_inv t" unfolding t_def
    by (rule frame_inv_f2) (use assms frame_inv_corners [OF assms(1)] in \<open>auto simp: corners_ok_def\<close>)
  have row: "rightturn_row (f2 t) = i" using assms by (simp add: t_def)
  have 1: "runs (if i \<le> 40 then
             when_c [lt_c (LL t (i - 5)) (Some 60), lt_c (LL t (i - 5)) (LL t i)]
               (when_c [gt_c (sub_c (LL t i) (LL t (i - 5))) (Some 10)]
                  (Some (set2 (\<lambda>f. f\<lparr>leftturn_row := 0, leftturnflag := 0\<rparr>) t)) (Some t))
               (Some t)
           else Some t) frame_inv"
    by (intro if_inv runs_whenI;
        use t assms frame_inv_corners [OF t] in \<open>simp add: runs_simps frame_inv_f2 corners_ok_def\<close>)
  have 2: "runs (if shiziflag1 (f2 s) = 1 then do {
       n \<leftarrow> for_down (\<lambda>i n. when_c [eq_c (LF s i) 0] (Some (Next (i32 (n + 1)))) (Some (Next n))) i (vtop s) n;
       Some (n, if n > 5 then set2 (\<lambda>f. f\<lparr>rightturn_row := 0, rightturnflag := 0\<rparr>) s else s) }
     else Some (n, s)) (\<lambda>p. frame_inv (snd p))" if s: "frame_inv s" for s
    by (intro if_inv runs_bindI [OF flag_loop] runs_whenI;
        use s assms frame_inv_top [OF s] frame_inv_corners [OF s] in
          \<open>simp add: runs_simps frame_inv_f2 corners_ok_def\<close>)
  show ?thesis
    unfolding curve1_right_def Let_def prod.case t_def [symmetric] row
    by (rule runs_bindI [OF 1 2])
qed

lemma curve1_step_inv:
  assumes inv: "frame_inv s" and i: "3 < i" "i \<le> 115"
  shows "runs (curve1_step i (n, s)) (flow_post (\<lambda>p. frame_inv (snd p)) (\<lambda>p. frame_inv (snd p)))"
proof -
  have low: "leftlineflag (f1 s) ! nat (i + 1) = 1 \<Longrightarrow> 5 \<le> i" "rightlineflag (f1 s) ! nat (i + 1) = 1 \<Longrightarrow> 5 \<le> i"
    using inv i low_rows_D(2,3) [of "f1 s" "i + 1"] by (fastforce simp: frame_inv_def)+
  have L: "runs (curve1_left i (n, s) \<bind> (\<lambda>p. Some (Break p)))
      (flow_post (\<lambda>p. frame_inv (snd p)) (\<lambda>p. frame_inv (snd p)))" if "30 < i"
    by (rule runs_bindI [OF curve1_left_inv [OF inv that i(2)]]) simp
  have R: "runs (curve1_right i (n, s) \<bind> (\<lambda>p. Some (Break p)))
      (flow_post (\<lambda>p. frame_inv (snd p)) (\<lambda>p. frame_inv (snd p)))" if "30 < i"
    by (rule runs_bindI [OF curve1_right_inv [OF inv that i(2)]]) simp
  show ?thesis
    unfolding curve1_step_def runs_when_c prod.case
    using i inv low L R by (auto simp: runs_simps)
qed

lemma find_curve1_inv:
  assumes "frame_inv s"
  shows "runs (find_curve1 n s) frame_inv"
proof -
  have "runs (for_down curve1_step 115 (vtop s + 3) (n, s)) (\<lambda>p. frame_inv (snd p))"
    by (rule for_down_inv) (use assms frame_inv_top [OF assms] curve1_step_inv in auto)
  then show ?thesis unfolding find_curve1_def by (rule runs_bindI) auto
qed

lemma curve3_flags_run: "frame_inv s \<Longrightarrow> runs (curve3_flags s) (\<lambda>_. True)"
  unfolding curve3_flags_def
  by (rule flag_loop) (auto simp: runs_simps runs_when_c split: prod.split)

lemma find_curve3_inv:
  assumes "frame_inv s"
  shows "runs (find_curve3 s) frame_inv"
  unfolding find_curve3_def
  by (intro if_inv runs_bindI [OF curve3_flags_run] ; (rule assms)?)
    (use assms frame_inv_top [OF assms] frame_inv_corners [OF assms] in
      \<open>auto simp: frame_inv_f2 corners_ok_def runs_simps intro!: runs_bindI [where P = "\<lambda>_. True"] if_inv flag_loop\<close>)

lemma guai_left_step_inv:
  assumes "frame_inv s" "4 < i" "i \<le> 108"
  shows "runs (guai_left_step i s) (flow_post frame_inv frame_inv)"
proof (cases "i > 45")
  case True
  show ?thesis
    unfolding guai_left_step_def
    by (intro if_inv runs_whenI runs_bindI [where P = "\<lambda>_. True"];
        use assms True frame_inv_corners [OF assms(1)] in \<open>simp add: runs_simps frame_inv_f2 corners_ok_def\<close>)
qed (simp add: guai_left_step_def assms)

lemma guai_right_step_inv:
  assumes "frame_inv s" "4 < i" "i \<le> 108"
  shows "runs (guai_right_step i s) (flow_post frame_inv frame_inv)"
proof (cases "i > 45")
  case True
  show ?thesis
    unfolding guai_right_step_def
    by (intro if_inv runs_whenI runs_bindI [where P = "\<lambda>_. True"];
        use assms True frame_inv_corners [OF assms(1)] in \<open>simp add: runs_simps frame_inv_f2 corners_ok_def\<close>)
qed (simp add: guai_right_step_def assms)

lemma find_guai_inv:
  assumes "frame_inv s"
  shows "runs (find_guai s) frame_inv"
proof -
  have "runs (for_down guai_left_step 108 (vtop s + 4) s) frame_inv"
    by (rule frame_loop) (use assms frame_inv_top [OF assms] guai_left_step_inv in auto)
  moreover have "runs (for_down guai_right_step 108 (vtop t + 4) t) frame_inv" if "frame_inv t" for t
    by (rule frame_loop) (use that frame_inv_top [OF that] guai_right_step_inv in auto)
  ultimately show ?thesis using assms unfolding find_guai_def
    by (intro if_inv bind_inv) simp_all
qed

lemma row_lose_judge_run:
  assumes "frame_inv s" "row < 120"
  shows "runs (right_row_lose_judge s row) (\<lambda>_. True)" "runs (left_row_lose_judge s row) (\<lambda>_. True)"
  unfolding right_row_lose_judge_def left_row_lose_judge_def
  by (rule flag_loop; use assms frame_inv_top [OF assms(1)] in \<open>simp add: runs_simps runs_when_c\<close>)+

lemma rows_complete_run:
  assumes "frame_inv s" "19 < row" "row < 115"
  shows "runs (rows_complete s row) (\<lambda>_. True)"
  unfolding rows_complete_def
  by (rule flag_loop; use assms in \<open>auto simp: runs_simps\<close>)

lemma shizi_judge_inv:
  assumes "frame_inv s"
  shows "runs (shizi_judge s) frame_inv"
  unfolding shizi_judge_def
  by (intro bind_inv if_inv runs_bindI [OF row_lose_judge_run(1)] runs_bindI [OF row_lose_judge_run(2)])
    (use assms frame_inv_corners in \<open>force simp: frame_inv_f2 corners_ok_def\<close>)+

lemma both_row_lose_judge_inv:
  assumes "frame_inv s"
  shows "runs (both_row_lose_judge s) frame_inv"
  unfolding both_row_lose_judge_def
  by (intro bind_inv if_inv runs_bindI [OF rows_complete_run])
    (use assms frame_inv_corners in \<open>force simp: frame_inv_f2 corners_ok_def\<close>)+

section \<open>The sections keep the invariant\<close>

lemma findline2_reset_inv:
  assumes "f1_ok (f1 s)" "low_rows (f1 s)" "0 \<le> vtop s" "vtop s \<le> 118"
  shows "frame_inv (findline2_reset s)"
  using assms by (simp add: findline2_reset_def frame_inv_def corners_ok_def)

lemma findline2_features_inv: "frame_inv s \<Longrightarrow> runs (findline2_features n s) frame_inv"
  unfolding findline2_features_def
  by (intro bind_inv if_inv find_guai_inv find_curve1_inv find_curve3_inv) simp_all

lemma keep_near_corner_inv [simp]: "frame_inv s \<Longrightarrow> frame_inv (keep_near_corner s)"
  using frame_inv_corners [of s] by (auto simp: keep_near_corner_def Let_def frame_inv_f2 corners_ok_def)

lemma count_corner_inv [simp]: "frame_inv s \<Longrightarrow> frame_inv (count_corner s)"
  using frame_inv_corners [of s] by (auto simp: count_corner_def Let_def frame_inv_f2 corners_ok_def)

lemma drop_corners_inv [simp]: "frame_inv s \<Longrightarrow> frame_inv (drop_corners s)"
  using frame_inv_corners [of s] by (auto simp: drop_corners_def Let_def frame_inv_f2 corners_ok_def)

lemma findline2_cross_inv: "frame_inv s \<Longrightarrow> runs (findline2_cross s) frame_inv"
  unfolding findline2_cross_def
  by (intro if_inv bind_inv find_huan1_inv shizi_judge_inv both_row_lose_judge_inv) simp_all

lemma findline2_ring_stage_inv: "frame_inv s \<Longrightarrow> runs (findline2_ring_stage im s) frame_inv"
  unfolding findline2_ring_stage_def
  by (intro if_inv bind_inv find_huan2_inv find_huan3_inv; (assumption | simp)?)
    (use frame_inv_corners in \<open>auto simp: Let_def frame_inv_f2 corners_ok_def\<close>)

lemma width_low:
  assumes "frame_inv s" "0 \<le> i" "i \<le> 10"
  shows "rightline (f1 s) ! nat i - leftline (f1 s) ! nat i = 0"
  using assms low_rows_D(1) [of "f1 s" i] by (simp add: frame_inv_def)

lemma ring_left_seen_inv:
  assumes inv: "frame_inv s" and i: "0 < i" "i \<le> 100"
  shows "runs (ring_left_seen i s) (flow_post frame_inv frame_inv)"
proof -
  have low: "rightline (f1 s) ! nat i - leftline (f1 s) ! nat i
      < rightline (f1 s) ! nat (i + 3) - leftline (f1 s) ! nat (i + 3) \<Longrightarrow> 3 \<le> i"
    using width_low [OF inv, of i] width_low [OF inv, of "i + 3"] i by (cases "i < 3") auto
  show ?thesis unfolding ring_left_seen_def
    by (rule runs_whenI) (use inv i low in \<open>auto simp: runs_simps\<close>)
qed

lemma ring_right_seen_inv:
  assumes inv: "frame_inv s" and i: "0 < i" "i \<le> 100"
  shows "runs (ring_right_seen i s) (flow_post frame_inv frame_inv)"
proof -
  have low: "rightline (f1 s) ! nat i - leftline (f1 s) ! nat i
      < rightline (f1 s) ! nat (i + 3) - leftline (f1 s) ! nat (i + 3) \<Longrightarrow> 3 \<le> i"
    using width_low [OF inv, of i] width_low [OF inv, of "i + 3"] i by (cases "i < 3") auto
  show ?thesis unfolding ring_right_seen_def
    by (rule runs_whenI) (use inv i low in \<open>auto simp: runs_simps\<close>)
qed

lemma repair_loop:
  assumes "frame_inv s" "0 \<le> lo"
    and "\<And>i s. frame_inv s \<Longrightarrow> 0 < i \<Longrightarrow> i \<le> hi \<Longrightarrow> runs (body i s) (flow_post frame_inv frame_inv)"
  shows "runs (for_down body hi lo s) frame_inv"
  by (rule frame_loop [OF assms(1)]) (use assms in auto)

lemma top_loop:
  assumes "frame_inv s"
    and "\<And>i s. frame_inv s \<Longrightarrow> 0 < i \<Longrightarrow> i \<le> hi \<Longrightarrow> runs (body i s) (flow_post frame_inv frame_inv)"
  shows "runs (for_down body hi (vtop s) s) frame_inv"
  by (rule repair_loop) (use assms frame_inv_top in auto)

lemma findline2_ring_left_inv: "frame_inv s \<Longrightarrow> runs (findline2_ring_left s) frame_inv"
  unfolding findline2_ring_left_def
  by (intro if_inv bind_inv top_loop repair_loop ring_left_seen_inv ring_left_straight_inv
      ring_left_arc_inv finish_left_inv find_huanguai_inv; (assumption | simp)?)
    (use frame_inv_corners in \<open>auto simp: ring_left_leave_def Let_def frame_inv_f2 corners_ok_def\<close>)

lemma findline2_ring_right_inv: "frame_inv s \<Longrightarrow> runs (findline2_ring_right s) frame_inv"
  unfolding findline2_ring_right_def
  by (intro if_inv bind_inv top_loop repair_loop ring_right_seen_inv ring_right_straight_inv
      ring_right_arc_inv finish_right_inv find_huanguai_inv; (assumption | simp)?)
    (use frame_inv_corners in \<open>auto simp: ring_right_leave_def Let_def frame_inv_f2 corners_ok_def\<close>)

lemma set_top_inv: "frame_inv s \<Longrightarrow> 0 \<le> i \<Longrightarrow> i \<le> 118 \<Longrightarrow> frame_inv (set_top i s)"
  unfolding set_top_def by (rule frame_inv_f2) (use frame_inv_corners in \<open>auto simp: corners_ok_def\<close>)

lemma find_toppoint_inv:
  assumes "frame_inv s"
  shows "runs (find_toppoint im s) frame_inv"
  using assms vertex_row_range edge_row_range
  by (auto simp: find_toppoint_eq set_top_inv split: option.split dest: vertex_row_range edge_row_range)

lemma findline2_ring_inv: "frame_inv s \<Longrightarrow> runs (findline2_ring im s) frame_inv"
  unfolding findline2_ring_def
  by (intro if_inv bind_inv findline2_ring_left_inv findline2_ring_right_inv find_toppoint_inv) simp_all

lemma ring_exit_left_inv:
  assumes "frame_inv s" "0 < i" "i \<le> 95"
  shows "runs (ring_exit_left i s) (flow_post frame_inv frame_inv)"
  unfolding ring_exit_left_def
  by (intro runs_whenI; use assms frame_inv_corners [OF assms(1)] in
      \<open>simp add: runs_simps frame_inv_f2 corners_ok_def\<close>)

lemma ring_exit_right_inv:
  assumes "frame_inv s" "0 < i" "i \<le> 95"
  shows "runs (ring_exit_right i s) (flow_post frame_inv frame_inv)"
  unfolding ring_exit_right_def
  by (intro runs_whenI; use assms frame_inv_corners [OF assms(1)] in
      \<open>simp add: runs_simps frame_inv_f2 corners_ok_def\<close>)

lemma findline2_ring_exit_inv:
  assumes "frame_inv s"
  shows "runs (findline2_ring_exit s) frame_inv"
proof -
  have "frame_inv (set2 (\<lambda>f. f\<lparr>shiziflag1 := 0, shiziflag0 := 0\<rparr>) s)"
    by (rule frame_inv_f2 [OF assms]) (use frame_inv_corners [OF assms] in \<open>simp add: corners_ok_def\<close>)
  then show ?thesis unfolding findline2_ring_exit_def Let_def
    by (intro if_inv bind_inv top_loop ring_exit_left_inv ring_exit_right_inv) (simp_all add: assms)
qed

lemma full_rows_run: "frame_inv s \<Longrightarrow> runs (full_rows s) (\<lambda>_. True)"
  unfolding full_rows_def by (rule flag_loop) (auto simp: runs_simps runs_when_c)

lemma findline2_ring_out_inv:
  assumes "frame_inv s"
  shows "runs (findline2_ring_out short s) frame_inv"
proof -
  have 0: "frame_inv (set2 (\<lambda>f. f\<lparr>leftturnflag := 0, rightturnflag := 0, shiziflag1 := 0, shiziflag0 := 0\<rparr>) s)"
    (is "frame_inv ?t")
    by (rule frame_inv_f2 [OF assms]) (use frame_inv_corners [OF assms] in \<open>simp add: corners_ok_def\<close>)
  have 1: "frame_inv (set2 (\<lambda>f. f\<lparr>huan := 0\<rparr>)
                     (s\<lparr>js11 := 0, js12 := 0, HL := 0, HR := 0, cnt_n := 0, js7 := 0, js8 := 0\<rparr>))"
    if "frame_inv s" for s
    by (rule frame_inv_f2) (use that frame_inv_corners [OF that] in \<open>simp_all add: corners_ok_def\<close>)
  show ?thesis unfolding findline2_ring_out_def Let_def
    by (intro if_inv bind_inv top_loop repair_loop ring_out_left_inv ring_out_right_inv
        finish_left_inv ring_out_finish_right_inv runs_bindI [OF full_rows_run]; (assumption | rule 0)?)
      (use 0 1 assms in auto)
qed

lemma bend_loop_inv:
  assumes "frame_inv s"
  shows "runs (for_down bend_left (leftturn_row (f2 s)) (vtop s) s) frame_inv"
    and "runs (for_down bend_right (rightturn_row (f2 s)) 0 s) frame_inv"
proof -
  have r: "leftturn_row (f2 s) \<le> 115" "rightturn_row (f2 s) \<le> 115"
    using frame_inv_corners [OF assms] by (simp_all add: corners_ok_def)
  show "runs (for_down bend_left (leftturn_row (f2 s)) (vtop s) s) frame_inv"
    by (rule top_loop [OF assms]) (use r in \<open>auto intro!: bend_left_inv\<close>)
  show "runs (for_down bend_right (rightturn_row (f2 s)) 0 s) frame_inv"
    by (rule repair_loop [OF assms]) (use r in \<open>auto intro!: bend_right_inv\<close>)
qed

lemma findline2_bends_inv: "frame_inv s \<Longrightarrow> runs (findline2_bends s) frame_inv"
  unfolding findline2_bends_def
  by (intro if_inv bind_inv bend_loop_inv repair_loop sharp_left_inv sharp_right_inv
      finish_left_inv finish_right_inv) simp_all

definition start_ok :: "lines \<Rightarrow> bool" where
  "start_ok s \<longleftrightarrow> 10 \<le> column_start s \<and> column_start s \<le> 150"

lemma findline2_end_inv:
  assumes "frame_inv s"
  shows "runs (findline2_end im s) (\<lambda>s. frame_inv s \<and> start_ok s)"
  unfolding findline2_end_def
  by (rule bind_inv [OF find_toppoint_inv [OF assms]])
    (auto simp: runs_simps start_ok_def Let_def)

theorem findline2_inv:
  assumes "f1_ok (f1 s)" "low_rows (f1 s)" "0 \<le> vtop s" "vtop s \<le> 118"
  shows "runs (findline2 im short n s) (\<lambda>s. frame_inv s \<and> start_ok s)"
  unfolding findline2_def
  by (intro bind_inv findline2_features_inv findline2_cross_inv findline2_ring_stage_inv
      findline2_ring_inv findline2_ring_exit_inv findline2_ring_out_inv findline2_bends_inv
      findline2_end_inv findline2_reset_inv assms)

section \<open>Frames\<close>

text \<open>One camera image, as \<open>main\<close> processes it.\<close>

definition line_frame :: "image \<Rightarrow> int \<Rightarrow> int \<Rightarrow> lines \<Rightarrow> lines option" where
  "line_frame im short lose s = do { s \<leftarrow> findline1 im s; findline2 im short lose s }"

fun line_frames :: "(image \<times> int \<times> int) list \<Rightarrow> lines \<Rightarrow> lines option" where
  "line_frames [] s = Some s"
| "line_frames ((im, short, lose) # fs) s = do { s \<leftarrow> line_frame im short lose s; line_frames fs s }"

definition lines_ok :: "lines \<Rightarrow> bool" where
  "lines_ok s \<longleftrightarrow> f1_ok (f1 s) \<and> low_rows (f1 s) \<and> start_ok s"

lemma lines_ok_init [simp]: "lines_ok lines_init"
  by (auto simp: lines_ok_def start_ok_def low_rows_def lines_init_def f1_zero_def f1_ok_def)

lemma findline1_low_rows:
  assumes inv: "rows_inv im s 10 t" and low: "low_rows (f1 s)"
  shows "low_rows (f1 t)"
  unfolding low_rows_def
proof (intro allI impI)
  fix i :: int assume i: "0 \<le> i \<and> i \<le> 10"
  from inv have "\<forall>fld \<in> {midline, leftline, rightline, leftlineflag, rightlineflag}. \<forall>r.
      0 \<le> r \<and> (r < 11 \<or> 118 < r) \<longrightarrow> fld (f1 t) ! nat r = fld (f1 s) ! nat r"
    unfolding rows_inv_def by blast
  then have e: "leftline (f1 t) ! nat i = leftline (f1 s) ! nat i" "rightline (f1 t) ! nat i = rightline (f1 s) ! nat i"
    "leftlineflag (f1 t) ! nat i = leftlineflag (f1 s) ! nat i"
    "rightlineflag (f1 t) ! nat i = rightlineflag (f1 s) ! nat i"
    using i by simp_all
  show "leftline (f1 t) ! nat i = rightline (f1 t) ! nat i \<and> leftlineflag (f1 t) ! nat i = 0
      \<and> rightlineflag (f1 t) ! nat i = 0"
    unfolding e using low_rows_D [OF low] i by blast
qed

theorem line_frame_ok:
  assumes "lines_ok s"
  shows "runs (line_frame im short n s) (\<lambda>s. frame_inv s \<and> start_ok s)"
proof -
  from assms have s: "f1_ok (f1 s)" "low_rows (f1 s)" "0 \<le> column_start s" "column_start s \<le> 159"
    by (simp_all add: lines_ok_def start_ok_def)
  obtain t where inv: "rows_inv im s 10 t"
    and run: "findline1 im s = Some (s\<lparr>f1 := f1 t, column_start := midline (f1 t) ! 118,
           f2 := (f2 s)\<lparr>toppoint := top_spec im (f1 t),
             toppoint_flag := (if vertex_row im (f1 t) = None \<and> edge_row (f1 t) = None then 0 else 1)\<rparr>\<rparr>)"
    by (rule findline1_result [OF s(1,3,4)])
  have ok: "f1_ok (f1 t)" using inv unfolding rows_inv_def by blast
  show ?thesis unfolding line_frame_def run bind.bind_lunit
    by (rule findline2_inv) (use ok findline1_low_rows [OF inv s(2)] top_spec_range in simp_all)
qed

lemma line_frames_ok: "lines_ok s \<Longrightarrow> runs (line_frames fs s) lines_ok"
proof (induction fs arbitrary: s)
  case (Cons f fs)
  obtain im short lose where f: "f = (im, short, lose)" by (cases f)
  have "runs (line_frame im short lose s) lines_ok"
    by (rule runs_mono [OF line_frame_ok [OF Cons.prems]]) (simp add: lines_ok_def frame_inv_def)
  then show ?case unfolding f line_frames.simps
    by (rule runs_bindI) (rule Cons.IH)
qed simp

section \<open>Properties\<close>

text \<open>
  C2: whatever images the camera delivers, whatever \<open>distinguish.c\<close> leaves in
  \<open>shortstraight_flag\<close> and whatever the stack holds where \<open>find_curve1\<close> reads its uninitialised
  counter, \<open>findline1\<close> followed by \<open>findline2\<close> never indexes outside a row array, in any
  number of frames from power-on; every frame leaves a well typed state: all row arrays at their declared
  lengths, a start column between 10 and 150, and the unscanned rows 0 to 10 of both edges equal and unflagged.
\<close>

theorem frames_never_trap: "runs (line_frames fs lines_init) lines_ok"
  by (rule line_frames_ok) simp

end
