(* ===== verification/MidlineBounds.thy ===== *)
theory MidlineBounds
  imports FindLinesInv
begin

text \<open>
  How far the repairs of \<open>findline2\<close> can move the middle line.  Some of them extend it by the
  slope of an edge, others by their own old value; still, every cell stays between -259 and
  419 through all frames.  The argument is a partial one (what holds of the result if there
  is one), and needs of the detectors only that they leave the rows alone and put a bend
  above row 30.
\<close>

section \<open>What a result satisfies\<close>

definition yields :: "('a \<Rightarrow> bool) \<Rightarrow> 'a option \<Rightarrow> bool" where
  "yields Q m \<longleftrightarrow> (\<forall>x. m = Some x \<longrightarrow> Q x)"

lemma yields_Some [simp]: "yields Q (Some x) = Q x"
  by (simp add: yields_def)

lemma yields_bindI: "yields P m \<Longrightarrow> (\<And>x. P x \<Longrightarrow> yields Q (f x)) \<Longrightarrow> yields Q (m \<bind> f)"
  by (auto simp: yields_def bind_eq_Some_conv)

lemma yields_any: "(\<And>x. m = Some x \<Longrightarrow> yields Q (f x)) \<Longrightarrow> yields Q (m \<bind> f)"
  by (auto simp: yields_def bind_eq_Some_conv)

lemma yields_if: "(c \<Longrightarrow> yields Q a) \<Longrightarrow> (\<not> c \<Longrightarrow> yields Q b) \<Longrightarrow> yields Q (if c then a else b)"
  by simp

lemma all_c_True: "all_c cs = Some True \<longleftrightarrow> (\<forall>c \<in> set cs. c = Some True)"
  by (induction cs) (auto simp: all_c.simps(2) split: option.splits)

lemma yields_when_c:
  "(\<forall>c \<in> set cs. c = Some True \<Longrightarrow> yields Q a) \<Longrightarrow> yields Q b \<Longrightarrow> yields Q (when_c cs a b)"
  unfolding when_c_def by (rule yields_any) (auto simp: all_c_True)

lemma yields_for_down:
  assumes "P s" and "\<And>i s. P s \<Longrightarrow> lo < i \<Longrightarrow> i \<le> hi \<Longrightarrow> yields (flow_post P P) (body i s)"
  shows "yields P (for_down body hi lo s)"
  using assms
proof (induction "nat (hi - lo)" arbitrary: hi s)
  case 0
  then show ?case by (simp add: for_down_done)
next
  case (Suc n)
  then have n: "n = nat (hi - 1 - lo)" and lt: "lo < hi" by linarith+
  have b: "yields (flow_post P P) (body hi s)" using Suc.prems lt by blast
  show ?case
  proof (cases "body hi s")
    case None
    then show ?thesis using lt by (subst for_down.simps) (simp add: yields_def)
  next
    case (Some r)
    show ?thesis
    proof (cases r)
      case (Next t)
      have "yields P (for_down body (hi - 1) lo t)"
        by (rule Suc.hyps(1) [OF n]) (use b Some Next Suc.prems(2) in \<open>auto simp: flow_post_def\<close>)
      then show ?thesis using lt Some Next by (subst for_down.simps) simp
    next
      case (Break t)
      then show ?thesis using lt Some b by (subst for_down.simps) (simp add: flow_post_def)
    qed
  qed
qed

lemma runs_keeps: "runs m P \<Longrightarrow> yields Q m \<Longrightarrow> runs m (\<lambda>x. P x \<and> Q x)"
  by (cases m) (simp_all add: yields_def)

section \<open>The bounds\<close>

definition mids :: "int \<Rightarrow> int \<Rightarrow> Findline1 \<Rightarrow> bool" where
  "mids a b f \<longleftrightarrow> f1_ok f \<and> (\<forall>k. 0 \<le> k \<and> k < 120 \<longrightarrow> 0 \<le> leftline f ! nat k \<and> leftline f ! nat k \<le> 159
       \<and> 0 \<le> rightline f ! nat k \<and> rightline f ! nat k \<le> 159 \<and> - 259 \<le> midline f ! nat k \<and> midline f ! nat k \<le> 419)
     \<and> (\<forall>k. 10 < k \<and> k \<le> 118 \<longrightarrow> a \<le> midline f ! nat k \<and> midline f ! nat k \<le> b)"

definition turn_ok :: "Findline2 \<Rightarrow> bool" where
  "turn_ok g \<longleftrightarrow> (leftturnflag g = 1 \<longrightarrow> 30 < leftturn_row g \<and> leftturn_row g \<le> 115)
     \<and> (rightturnflag g = 1 \<longrightarrow> 30 < rightturn_row g \<and> rightturn_row g \<le> 115) \<and> 0 \<le> toppoint g"

abbreviation tracked :: "int \<Rightarrow> int \<Rightarrow> lines \<Rightarrow> bool" where
  "tracked a b s \<equiv> mids a b (f1 s) \<and> turn_ok (f2 s)"

lemma mids_mono: "mids a b f \<Longrightarrow> c \<le> a \<Longrightarrow> b \<le> d \<Longrightarrow> mids c d f"
  unfolding mids_def by force

lemma tracked_mono: "tracked a b s \<Longrightarrow> c \<le> a \<Longrightarrow> b \<le> d \<Longrightarrow> tracked c d s"
  using mids_mono by blast

section \<open>The detectors leave the rows alone\<close>

lemma turn_flags [simp]:
  "turn_ok g \<Longrightarrow> turn_ok (g\<lparr>leftturnflag := 0\<rparr>)" "turn_ok g \<Longrightarrow> turn_ok (g\<lparr>rightturnflag := 0\<rparr>)"
  "turn_ok g \<Longrightarrow> turn_ok (g\<lparr>leftturnflag := 3\<rparr>)" "turn_ok g \<Longrightarrow> turn_ok (g\<lparr>rightturnflag := 3\<rparr>)"
  by (simp_all add: turn_ok_def)

lemma find_huan1_tracked: "tracked a b s \<Longrightarrow> yields (tracked a b) (find_huan1 s)"
  unfolding find_huan1_def
  by (intro yields_if yields_for_down yields_when_c) (simp_all add: turn_ok_def)

lemma huan2_step_tracked:
  "tracked a b s \<Longrightarrow> yields (flow_post (\<lambda>p. tracked a b (snd p)) (\<lambda>p. tracked a b (snd p))) (huan2_step i (n, s))"
  unfolding huan2_step_def prod.case by (intro yields_if yields_any) simp_all

lemma find_huan2_tracked:
  assumes "tracked a b s"
  shows "yields (tracked a b) (find_huan2 s)"
proof -
  have "yields (\<lambda>p. tracked a b (snd p)) (for_down huan2_step 95 (vtop s) (0, s))"
    by (rule yields_for_down) (use assms huan2_step_tracked in \<open>auto simp del: split_paired_All\<close>)
  then show ?thesis unfolding find_huan2_def
    by (rule yields_bindI) (auto simp: Let_def split: prod.split)
qed

lemma turn_ok_other [simp]:
  "turn_ok (g\<lparr>leftguai_column := x\<rparr>) = turn_ok g" "turn_ok (g\<lparr>leftguai_row := x\<rparr>) = turn_ok g" "turn_ok (g\<lparr>leftguaiflag := x\<rparr>) = turn_ok g"
  "turn_ok (g\<lparr>rightguaiflag := x\<rparr>) = turn_ok g" "turn_ok (g\<lparr>rightguai_column := x\<rparr>) = turn_ok g" "turn_ok (g\<lparr>rightguai_row := x\<rparr>) = turn_ok g"
  "turn_ok (g\<lparr>leftguaiflag_up := x\<rparr>) = turn_ok g" "turn_ok (g\<lparr>leftguai_column_up := x\<rparr>) = turn_ok g" "turn_ok (g\<lparr>leftguai_row_up := x\<rparr>) = turn_ok g"
  "turn_ok (g\<lparr>rightguaiflag_up := x\<rparr>) = turn_ok g" "turn_ok (g\<lparr>rightguai_column_up := x\<rparr>) = turn_ok g" "turn_ok (g\<lparr>rightguai_row_up := x\<rparr>) = turn_ok g"
  "turn_ok (g\<lparr>toppoint_flag := x\<rparr>) = turn_ok g" "turn_ok (g\<lparr>shiziflag0 := x\<rparr>) = turn_ok g"
  "turn_ok (g\<lparr>shiziflag1 := x\<rparr>) = turn_ok g" "turn_ok (g\<lparr>huan := x\<rparr>) = turn_ok g" "turn_ok (g\<lparr>huanrightflag := x\<rparr>) = turn_ok g"
  "turn_ok (g\<lparr>huanleftflag := x\<rparr>) = turn_ok g" "turn_ok (g\<lparr>lefthuanguai_row := x\<rparr>) = turn_ok g" "turn_ok (g\<lparr>lefthuanguai_column := x\<rparr>) = turn_ok g"
  "turn_ok (g\<lparr>lefthuanguaiflag := x\<rparr>) = turn_ok g" "turn_ok (g\<lparr>righthuanguai_row := x\<rparr>) = turn_ok g" "turn_ok (g\<lparr>righthuanguai_column := x\<rparr>) = turn_ok g"
  "turn_ok (g\<lparr>righthuanguaiflag := x\<rparr>) = turn_ok g"
  by (simp_all add: turn_ok_def)

lemma huan3_step_tracked: "tracked a b s \<Longrightarrow> yields (flow_post (tracked a b) (tracked a b)) (huan3_step im i s)"
  unfolding huan3_step_def by (intro yields_if yields_when_c yields_any) simp_all

lemma find_huan3_tracked: "tracked a b s \<Longrightarrow> yields (tracked a b) (find_huan3 im s)"
  unfolding find_huan3_def
  by (rule yields_bindI [OF yields_for_down [where P = "tracked a b"]]) (simp_all add: huan3_step_tracked)

lemma find_huanguai_tracked:
  assumes "tracked a b s"
  shows "yields (tracked a b) (find_huanguai s)"
proof -
  have 1: "yields (flow_post (tracked a b) (tracked a b)) (huanguai_left i s)" if "tracked a b s" for i s
    unfolding huanguai_left_def using that by (intro yields_if yields_when_c yields_any) simp_all
  have 2: "yields (flow_post (tracked a b) (tracked a b)) (huanguai_right i s)" if "tracked a b s" for i s
    unfolding huanguai_right_def using that by (intro yields_if yields_when_c yields_any) simp_all
  show ?thesis unfolding find_huanguai_def
  proof (rule yields_for_down [where P = "tracked a b"], rule assms)
    fix i s assume s: "tracked a b s"
    show "yields (flow_post (tracked a b) (tracked a b))
       (huanguai_left i s \<bind> (\<lambda>r. case r of Next s \<Rightarrow> huanguai_right i s | Break s \<Rightarrow> Some (Break s)))"
      by (rule yields_bindI [OF 1 [OF s]]) (auto simp: 2 split: flow.split)
  qed
qed

lemma find_guai_tracked:
  assumes "tracked a b s"
  shows "yields (tracked a b) (find_guai s)"
proof -
  have 1: "yields (flow_post (tracked a b) (tracked a b)) (guai_left_step i s)" if "tracked a b s" for i s
    unfolding guai_left_step_def using that by (intro yields_if yields_when_c yields_any) simp_all
  have 2: "yields (flow_post (tracked a b) (tracked a b)) (guai_right_step i s)" if "tracked a b s" for i s
    unfolding guai_right_step_def using that by (intro yields_if yields_when_c yields_any) simp_all
  show ?thesis unfolding find_guai_def
    by (intro yields_if yields_bindI [OF yields_for_down [where P = "tracked a b"]] yields_for_down [where P = "tracked a b"])
      (simp_all add: assms 1 2)
qed

lemma shizi_judge_tracked: "tracked a b s \<Longrightarrow> yields (tracked a b) (shizi_judge s)"
  unfolding shizi_judge_def
  by (rule yields_bindI [where P = "tracked a b"]; intro yields_if yields_any) simp_all

lemma both_row_lose_judge_tracked: "tracked a b s \<Longrightarrow> yields (tracked a b) (both_row_lose_judge s)"
  unfolding both_row_lose_judge_def
  by (rule yields_bindI [where P = "tracked a b"]; intro yields_if yields_any) simp_all

lemma find_curve3_tracked: "tracked a b s \<Longrightarrow> yields (tracked a b) (find_curve3 s)"
  unfolding find_curve3_def by (intro yields_if yields_any) (auto intro!: yields_any split: prod.split)

section \<open>A bend lies above row 30\<close>

lemma curve1_tracked:
  assumes "tracked a b s" "30 < i" "i \<le> 115"
  shows "yields (\<lambda>p. tracked a b (snd p)) (curve1_left i (n, s))" "yields (\<lambda>p. tracked a b (snd p)) (curve1_right i (n, s))"
proof -
  define t where "t = set2 (\<lambda>f. f\<lparr>leftturn_row := i16 i, leftturnflag := 1\<rparr>) s"
  have t: "tracked a b t" using assms by (simp add: t_def turn_ok_def)
  show "yields (\<lambda>p. tracked a b (snd p)) (curve1_left i (n, s))"
    unfolding curve1_left_def Let_def prod.case t_def [symmetric]
    by (rule yields_bindI [where P = "tracked a b"]; intro yields_if yields_any yields_when_c)
      (use t in \<open>simp_all add: turn_ok_def\<close>)
  define u where "u = set2 (\<lambda>f. f\<lparr>rightturn_row := i16 i, rightturnflag := 1\<rparr>) s"
  have u: "tracked a b u" using assms by (simp add: u_def turn_ok_def)
  show "yields (\<lambda>p. tracked a b (snd p)) (curve1_right i (n, s))"
    unfolding curve1_right_def Let_def prod.case u_def [symmetric]
    by (rule yields_bindI [where P = "tracked a b"]; intro yields_if yields_any yields_when_c)
      (use u in \<open>simp_all add: turn_ok_def\<close>)
qed

lemma find_curve1_tracked:
  assumes "tracked a b s"
  shows "yields (tracked a b) (find_curve1 n s)"
proof -
  let ?P = "\<lambda>p. tracked a b (snd p)"
  have "yields (flow_post ?P ?P) (curve1_step i (n, s))" if "tracked a b s" "i \<le> 115" for i n s
    unfolding curve1_step_def prod.case
    by (intro yields_when_c yields_bindI [OF curve1_tracked(1)] yields_bindI [OF curve1_tracked(2)]) (use that in simp_all)
  then have "yields ?P (for_down curve1_step 115 (vtop s + 3) (n, s))"
    by (intro yields_for_down) (use assms in auto)
  then show ?thesis unfolding find_curve1_def by (rule yields_bindI) (auto split: prod.split)
qed

end
