(* ===== verification/MidlineRepair.thy ===== *)
theory MidlineRepair
  imports MidlineBounds
begin

text \<open>
  The repair loops of \<open>findline2\<close> and the bound they keep on the middle line, frame after frame.
\<close>

section \<open>Writing the middle line from the bottom up\<close>

text \<open>While a loop is at row \<open>i\<close>, every row below it up to 118 is in the loop's interval.\<close>

definition swept :: "int \<Rightarrow> int \<Rightarrow> int \<Rightarrow> lines \<Rightarrow> bool" where
  "swept a b i s \<longleftrightarrow> tracked a b s \<and> (\<forall>k. 0 \<le> k \<and> i < k \<and> k \<le> 118 \<longrightarrow> a \<le> midline (f1 s) ! nat k \<and> midline (f1 s) ! nat k \<le> b)"

lemma swept_start: "tracked a b s \<Longrightarrow> 10 \<le> i \<Longrightarrow> swept a b i s"
  by (auto simp: swept_def mids_def)

lemma swept_tracked: "swept a b i s \<Longrightarrow> tracked a b s"
  by (simp add: swept_def)

lemma swept_ok: "swept a b i s \<Longrightarrow> f1_ok (f1 s)"
  by (simp add: swept_def mids_def)

lemma swept_row: "swept a b i s \<Longrightarrow> 0 \<le> k \<Longrightarrow> i < k \<Longrightarrow> k \<le> 118 \<Longrightarrow> a \<le> midline (f1 s) ! nat k \<and> midline (f1 s) ! nat k \<le> b"
  by (simp add: swept_def)

lemma tracked_cell:
  "tracked a b s \<Longrightarrow> 0 \<le> k \<Longrightarrow> k < 120 \<Longrightarrow> 0 \<le> leftline (f1 s) ! nat k \<and> leftline (f1 s) ! nat k \<le> 159
     \<and> 0 \<le> rightline (f1 s) ! nat k \<and> rightline (f1 s) ! nat k \<le> 159
     \<and> - 259 \<le> midline (f1 s) ! nat k \<and> midline (f1 s) ! nat k \<le> 419"
  by (simp add: mids_def)

lemma nth_put: "f1_ok f \<Longrightarrow> 0 \<le> i \<Longrightarrow> i < 120 \<Longrightarrow> 0 \<le> k \<Longrightarrow>
    (midline f)[nat i := v] ! nat k = (if k = i then v else midline f ! nat k)"
  by (auto simp: nth_list_update)

lemma swept_put:
  assumes s: "swept a b i s" and i: "0 < i" "i \<le> 118" and v: "a \<le> v" "v \<le> b" "- 259 \<le> a" "b \<le> 419"
  shows "swept a b (i - 1) (put_midline i v s)"
proof -
  have ok: "f1_ok (f1 s)" using s by (rule swept_ok)
  have f2: "f2 (put_midline i v s) = f2 s" by (simp add: put_midline_def)
  have m: "(midline (f1 s))[nat i := v] ! nat k = (if k = i then v else midline (f1 s) ! nat k)" if "0 \<le> k" for k
    using ok i that by (intro nth_put) simp_all
  have t: "tracked a b s" using s by (rule swept_tracked)
  show ?thesis
    using t s ok i v unfolding swept_def mids_def f2
    by (auto simp: m f1_ok_update)
qed

lemma W_scalar [simp]: "swept a b i (s\<lparr>line_L := x\<rparr>) = swept a b i s" "swept a b i (s\<lparr>line_R := x\<rparr>) = swept a b i s"
  by (simp_all add: swept_def)

lemma put_midline_set:
  "f1_ok (f1 s) \<Longrightarrow> 0 \<le> i \<Longrightarrow> i < 120 \<Longrightarrow> - 1000 \<le> v \<Longrightarrow> v \<le> 1000 \<Longrightarrow> set_midline i v s = Some (put_midline i v s)"
  by (simp add: set_midline_def put_midline_def)

lemma yields_assign:
  "yields P e \<Longrightarrow> (\<And>v. P v \<Longrightarrow> yields Q (set_midline i v s \<bind> f)) \<Longrightarrow> yields Q (assign_midline i e s \<bind> f)"
  unfolding assign_midline_def by (cases e) (simp_all add: yields_def)

lemma yields_when_bind:
  "(\<forall>c \<in> set cs. c = Some True \<Longrightarrow> yields Q (a \<bind> f)) \<Longrightarrow> yields Q (b \<bind> f) \<Longrightarrow> yields Q (when_c cs a b \<bind> f)"
  unfolding when_c_def by (cases "all_c cs") (auto simp: all_c_True yields_def)

lemma yields_when_any: "yields Q (a \<bind> f) \<Longrightarrow> yields Q (b \<bind> f) \<Longrightarrow> yields Q (when_c cs a b \<bind> f)"
  by (rule yields_when_bind)

definition inside :: "int \<Rightarrow> int \<Rightarrow> bool" where "inside a b \<longleftrightarrow> - 259 \<le> a \<and> a \<le> 0 \<and> 159 \<le> b \<and> b \<le> 419"

lemma keep_next:
  assumes "swept a b i s" "0 < i" "i \<le> 118" "inside a b" "a \<le> v" "v \<le> b"
  shows "yields (flow_post (swept a b (i - 1)) (tracked a b)) (set_midline i v s \<bind> (\<lambda>s. Some (Next s)))"
  using assms swept_put [OF assms(1-3,5,6)] swept_ok [OF assms(1)]
  by (simp add: put_midline_set inside_def)

lemma stop_left_put:
  assumes "f1_ok (f1 s)" "0 \<le> i" "i < 120" "- 1000 \<le> v" "v \<le> 1000"
  shows "set_midline i v s \<bind> stop_left i = Some (if v \<le> 0 then Break ((put_midline i 0 s)\<lparr>line_L := i\<rparr>) else Next (put_midline i v s))"
  using assms by (simp add: put_midline_set stop_left_def cell_def)

lemma stop_right_put:
  assumes "f1_ok (f1 s)" "0 \<le> i" "i < 120" "- 1000 \<le> v" "v \<le> 1000"
  shows "set_midline i v s \<bind> stop_right i = Some (if 159 \<le> v then Break ((put_midline i 159 s)\<lparr>line_R := i\<rparr>) else Next (put_midline i v s))"
  using assms by (simp add: put_midline_set stop_right_def cell_def)

lemma keep_stop_left:
  assumes "swept a b i s" "0 < i" "i \<le> 118" "inside a b" "- 1000 \<le> v" "v \<le> b"
  shows "yields (flow_post (swept a b (i - 1)) (tracked a b)) (set_midline i v s \<bind> stop_left i)"
proof -
  have ok: "f1_ok (f1 s)" using assms(1) by (rule swept_ok)
  have "swept a b (i - 1) (put_midline i v s)" if "0 < v"
    by (rule swept_put) (use assms that in \<open>simp_all add: inside_def\<close>)
  moreover have "swept a b (i - 1) (put_midline i 0 s)"
    by (rule swept_put) (use assms in \<open>simp_all add: inside_def\<close>)
  ultimately show ?thesis using assms ok
    by (auto simp: put_midline_set stop_left_def cell_def inside_def dest: swept_tracked)
qed

lemma keep_stop_right:
  assumes "swept a b i s" "0 < i" "i \<le> 118" "inside a b" "a \<le> v" "v \<le> 1000"
  shows "yields (flow_post (swept a b (i - 1)) (tracked a b)) (set_midline i v s \<bind> stop_right i)"
proof -
  have ok: "f1_ok (f1 s)" using assms(1) by (rule swept_ok)
  have "swept a b (i - 1) (put_midline i v s)" if "v < 159"
    by (rule swept_put) (use assms that in \<open>simp_all add: inside_def\<close>)
  moreover have "swept a b (i - 1) (put_midline i 159 s)"
    by (rule swept_put) (use assms in \<open>simp_all add: inside_def\<close>)
  ultimately show ?thesis using assms ok
    by (auto simp: put_midline_set stop_right_def cell_def inside_def dest: swept_tracked)
qed

lemma yields_loop:
  assumes "I hi s"
    and step: "\<And>i s. lo < i \<Longrightarrow> i \<le> hi \<Longrightarrow> I i s \<Longrightarrow> yields (flow_post (I (i - 1)) Q) (body i s)"
    and stop: "\<And>i s. I i s \<Longrightarrow> Q s"
  shows "yields Q (for_down body hi lo s)"
  using assms(1) step
proof (induction "nat (hi - lo)" arbitrary: hi s)
  case 0
  then show ?case by (simp add: for_down_done stop)
next
  case (Suc n)
  then have n: "n = nat (hi - 1 - lo)" and lt: "lo < hi" by linarith+
  have b: "yields (flow_post (I (hi - 1)) Q) (body hi s)" using Suc.prems lt by blast
  show ?case
  proof (cases "body hi s")
    case None
    then show ?thesis using lt by (subst for_down.simps) (simp add: yields_def)
  next
    case (Some r)
    show ?thesis
    proof (cases r)
      case (Next t)
      have "yields Q (for_down body (hi - 1) lo t)"
        by (rule Suc.hyps(1) [OF n]) (use b Some Next Suc.prems(2) in \<open>auto simp: flow_post_def\<close>)
      then show ?thesis using lt Some Next by (subst for_down.simps) simp
    next
      case (Break t)
      then show ?thesis using lt Some b by (subst for_down.simps) (simp add: flow_post_def)
    qed
  qed
qed

lemma sweep_loop:
  assumes "tracked a b s" "10 \<le> hi" "0 \<le> lo"
    and "\<And>i s. lo < i \<Longrightarrow> i \<le> hi \<Longrightarrow> swept a b i s \<Longrightarrow> yields (flow_post (swept a b (i - 1)) (tracked a b)) (body i s)"
  shows "yields (tracked a b) (for_down body hi lo s)"
  by (rule yields_loop [where I = "swept a b"]) (use assms swept_start swept_tracked in blast)+

section \<open>The values the repairs write\<close>

named_theorems yields_simps \<open>what a partial computation yields, by its form\<close>

lemma yields_cell [yields_simps]:
  "yields Q (cell fld s i) \<longleftrightarrow> (0 \<le> i \<and> i < int (length (fld (f1 s))) \<longrightarrow> Q (fld (f1 s) ! nat i))"
  by (auto simp: yields_def cell_def c_get_def)

lemma yields_HW [yields_simps]: "yields Q (HW i) \<longleftrightarrow> (0 \<le> i \<and> i < 120 \<longrightarrow> Q (half_width ! nat i))"
  by (auto simp: yields_def c_get_def)

lemma cell_Some: "cell fld s i = Some v \<longleftrightarrow> 0 \<le> i \<and> i < int (length (fld (f1 s))) \<and> v = fld (f1 s) ! nat i"
  by (auto simp: cell_def c_get_def)

lemma lift2_eq_Some: "lift2 r x y = Some v \<longleftrightarrow> (\<exists>p q. x = Some p \<and> y = Some q \<and> v = r p q)"
  by (auto simp: lift2_def bind_eq_Some_conv)

lemma yields_lift2 [yields_simps]: "yields Q (lift2 r x y) = yields (\<lambda>p. yields (\<lambda>q. Q (r p q)) y) x"
  by (cases x; cases y) (simp_all add: yields_def lift2_def)

lemma assign_next:
  assumes "swept a b i s" "0 < i" "i \<le> 118" "inside a b" "yields (\<lambda>v. a \<le> v \<and> v \<le> b) e"
  shows "yields (flow_post (swept a b (i - 1)) (tracked a b)) (assign_midline i e s \<bind> (\<lambda>s. Some (Next s)))"
  by (rule yields_assign [OF assms(5)]) (use keep_next [OF assms(1-4)] in blast)

lemma assign_stop_left:
  assumes "swept a b i s" "0 < i" "i \<le> 118" "inside a b" "yields (\<lambda>v. - 1000 \<le> v \<and> v \<le> b) e"
  shows "yields (flow_post (swept a b (i - 1)) (tracked a b)) (assign_midline i e s \<bind> stop_left i)"
  by (rule yields_assign [OF assms(5)]) (use keep_stop_left [OF assms(1-4)] in blast)

lemma assign_stop_right:
  assumes "swept a b i s" "0 < i" "i \<le> 118" "inside a b" "yields (\<lambda>v. a \<le> v \<and> v \<le> 1000) e"
  shows "yields (flow_post (swept a b (i - 1)) (tracked a b)) (assign_midline i e s \<bind> stop_right i)"
  by (rule yields_assign [OF assms(5)]) (use keep_stop_right [OF assms(1-4)] in blast)

lemma half_width_range: "0 \<le> i \<Longrightarrow> i < 120 \<Longrightarrow> 0 \<le> half_width ! nat i \<and> half_width ! nat i \<le> 72"
proof -
  have "\<forall>w \<in> set half_width. 0 \<le> w \<and> w \<le> 72" by (simp add: half_width_def)
  then show "0 \<le> i \<Longrightarrow> i < 120 \<Longrightarrow> 0 \<le> half_width ! nat i \<and> half_width ! nat i \<le> 72" by simp
qed

text \<open>The cells a step at row \<open>i\<close> reads.\<close>

lemma around:
  assumes "swept a b i s" "0 < i" "i \<le> 117"
  obtains m m' l r r' w where "midline (f1 s) ! nat (i + 1) = m" "i \<le> 116 \<Longrightarrow> midline (f1 s) ! nat (i + 2) = m'"
    "leftline (f1 s) ! nat i = l" "rightline (f1 s) ! nat i = r" "rightline (f1 s) ! nat (i + 1) = r'" "half_width ! nat i = w"
    "a \<le> m \<and> m \<le> b" "a \<le> m' \<and> m' \<le> b" "0 \<le> l \<and> l \<le> 159" "0 \<le> r \<and> r \<le> 159"
    "0 \<le> r' \<and> r' \<le> 159" "0 \<le> w \<and> w \<le> 72"
proof (rule that [OF refl _ refl refl refl refl])
  show "i \<le> 116 \<Longrightarrow> midline (f1 s) ! nat (i + 2) = (if i \<le> 116 then midline (f1 s) ! nat (i + 2) else midline (f1 s) ! nat (i + 1))"
    by simp
qed (use swept_row [OF assms(1), of "i + 1"] swept_row [OF assms(1), of "i + 2"]
    tracked_cell [OF swept_tracked [OF assms(1)], of i] tracked_cell [OF swept_tracked [OF assms(1)], of "i + 1"]
    half_width_range [of i] assms in simp_all)

lemmas step_intros = yields_when_any assign_next assign_stop_left assign_stop_right

abbreviation ringed :: "int \<Rightarrow> lines \<Rightarrow> lines flow option \<Rightarrow> bool" where
  "ringed i s m \<equiv> yields (flow_post (swept (- 100) 260 (i - 1)) (tracked (- 100) 260)) m"

text \<open>One step of each repair of a ring.\<close>

lemma ring_left_straight_swept:
  assumes "swept (- 100) 260 i s" "0 < i" "i \<le> 117"
  shows "ringed i s (ring_left_straight i s)"
proof (rule around [OF assms(1,2)], use assms(3) in simp, goal_cases)
  case (1 m m' l r r' w)
  show ?case unfolding ring_left_straight_def
    by (intro step_intros; (rule assms)?) (use 1 assms(2,3) in \<open>simp_all add: yields_simps inside_def\<close>)
qed

lemma ring_right_straight_swept:
  assumes "swept (- 100) 260 i s" "0 < i" "i \<le> 117"
  shows "ringed i s (ring_right_straight i s)"
proof (rule around [OF assms(1,2)], use assms(3) in simp, goal_cases)
  case (1 m m' l r r' w)
  show ?case unfolding ring_right_straight_def
    by (intro step_intros; (rule assms)?) (use 1 assms(2,3) in \<open>simp_all add: yields_simps inside_def\<close>)
qed

lemma ring_left_arc_swept:
  assumes "swept (- 100) 260 i s" "0 < i" "i \<le> 115"
  shows "ringed i s (ring_left_arc i s)"
proof (rule around [OF assms(1,2)], use assms(3) in simp, goal_cases)
  case (1 m m' l r r' w)
  show ?case unfolding ring_left_arc_def
    by (intro step_intros; (rule assms)?) (use 1 assms(2,3) in \<open>simp_all add: yields_simps inside_def\<close>)
qed

lemma ring_right_arc_swept:
  assumes "swept (- 100) 260 i s" "0 < i" "i \<le> 115"
  shows "ringed i s (ring_right_arc i s)"
proof (rule around [OF assms(1,2)], use assms(3) in simp, goal_cases)
  case (1 m m' l r r' w)
  show ?case unfolding ring_right_arc_def
    by (intro step_intros; (rule assms)?) (use 1 assms(2,3) in \<open>simp_all add: yields_simps inside_def\<close>)
qed

lemma ring_out_left_swept:
  assumes "swept (- 100) 260 i s" "0 < i" "i \<le> 110"
  shows "ringed i s (ring_out_left i s)"
proof (rule around [OF assms(1,2)], use assms(3) in simp, goal_cases)
  case (1 m m' l r r' w)
  show ?case unfolding ring_out_left_def
    by (intro step_intros; (rule assms)?) (use 1 assms(2,3) in \<open>simp_all add: yields_simps inside_def\<close>)
qed

lemma ring_out_right_swept:
  assumes "swept (- 100) 260 i s" "0 < i" "i \<le> 110"
  shows "ringed i s (ring_out_right i s)"
proof (rule around [OF assms(1,2)], use assms(3) in simp, goal_cases)
  case (1 m m' l r r' w)
  show ?case unfolding ring_out_right_def
    by (intro step_intros; (rule assms)?) (use 1 assms(2,3) in \<open>simp_all add: yields_simps inside_def\<close>)
qed

section \<open>Bends\<close>

text \<open>
  A bend extends the middle line by the slope of the outer edge, so the distance between the
  two does not grow from row to row.
\<close>

definition slope_left :: "int \<Rightarrow> lines \<Rightarrow> bool" where
  "slope_left i s \<longleftrightarrow> swept (- 100) 419 i s \<and> i \<le> 117 \<and> midline (f1 s) ! nat (i + 1) \<le> 260 + rightline (f1 s) ! nat (i + 1)"

definition slope_right :: "int \<Rightarrow> lines \<Rightarrow> bool" where
  "slope_right i s \<longleftrightarrow> swept (- 259) 419 i s \<and> i \<le> 117 \<and> - 259 + leftline (f1 s) ! nat (i + 1) \<le> midline (f1 s) ! nat (i + 1)"

lemma slope_left_put:
  assumes s: "slope_left i s" and i: "0 < i" and v: "- 1000 \<le> v" "v \<le> 260 + rightline (f1 s) ! nat i"
  shows "yields (flow_post (slope_left (i - 1)) (tracked (- 100) 419)) (set_midline i v s \<bind> stop_left i)"
proof -
  have w: "swept (- 100) 419 i s" "i \<le> 117" using s by (simp_all add: slope_left_def)
  have ok: "f1_ok (f1 s)" using w(1) by (rule swept_ok)
  have r: "rightline (f1 s) ! nat i \<le> 159" using tracked_cell [OF swept_tracked [OF w(1)], of i] i w(2) by simp
  have b: "v \<le> 419" using r v by linarith
  have 0: "tracked (- 100) 419 (put_midline i 0 s)"
    by (rule swept_tracked, rule swept_put [OF w(1)]) (use i w in simp_all)
  have 1: "slope_left (i - 1) (put_midline i v s)" if "0 < v"
    unfolding slope_left_def using swept_put [OF w(1), of v] that i w(2) v b ok by simp
  show ?thesis
    by (subst stop_left_put [OF ok]) (use i w(2) v b 0 1 in simp_all)
qed

lemma slope_right_put:
  assumes s: "slope_right i s" and i: "0 < i" and v: "v \<le> 1000" "- 259 + leftline (f1 s) ! nat i \<le> v"
  shows "yields (flow_post (slope_right (i - 1)) (tracked (- 259) 419)) (set_midline i v s \<bind> stop_right i)"
proof -
  have w: "swept (- 259) 419 i s" "i \<le> 117" using s by (simp_all add: slope_right_def)
  have ok: "f1_ok (f1 s)" using w(1) by (rule swept_ok)
  have l: "0 \<le> leftline (f1 s) ! nat i" using tracked_cell [OF swept_tracked [OF w(1)], of i] i w(2) by simp
  have b: "- 259 \<le> v" using l v by linarith
  have 0: "tracked (- 259) 419 (put_midline i 159 s)"
    by (rule swept_tracked, rule swept_put [OF w(1)]) (use i w in simp_all)
  have 1: "slope_right (i - 1) (put_midline i v s)" if "v < 159"
    unfolding slope_right_def using swept_put [OF w(1), of v] that i w(2) v b ok by simp
  show ?thesis
    by (subst stop_right_put [OF ok]) (use i w(2) v b 0 1 in simp_all)
qed

lemma bend_left_step:
  assumes "slope_left i s" "0 < i"
  shows "yields (flow_post (slope_left (i - 1)) (tracked (- 100) 419)) (bend_left i s)"
proof -
  obtain m r r' where e: "midline (f1 s) ! nat (i + 1) = m" "rightline (f1 s) ! nat i = r" "rightline (f1 s) ! nat (i + 1) = r'"
    by blast
  have w: "swept (- 100) 419 i s" "i \<le> 117" "m \<le> 260 + r'" using assms e by (simp_all add: slope_left_def)
  have m: "- 100 \<le> m" using swept_row [OF w(1), of "i + 1"] assms(2) w(2) e by simp
  have r: "0 \<le> r" "r \<le> 159" "0 \<le> r'" "r' \<le> 159"
    using tracked_cell [OF swept_tracked [OF w(1)], of i] tracked_cell [OF swept_tracked [OF w(1)], of "i + 1"] assms(2) w(2) e
    by simp_all
  have a: "yields (flow_post (slope_left (i - 1)) (tracked (- 100) 419)) (assign_midline i x s \<bind> stop_left i)"
    if "yields (\<lambda>v. - 1000 \<le> v \<and> v \<le> 260 + r) x" for x
    by (rule yields_assign [OF that]) (use slope_left_put [OF assms] e in blast)
  show ?thesis unfolding bend_left_def
    by (intro yields_when_bind a) (use m r w(3) in \<open>auto simp: yields_simps e lift2_eq_Some cell_Some\<close>)
qed

lemma bend_right_step:
  assumes "slope_right i s" "0 < i"
  shows "yields (flow_post (slope_right (i - 1)) (tracked (- 259) 419)) (bend_right i s)"
proof -
  obtain m n l l' where e: "midline (f1 s) ! nat (i + 1) = m" "midline (f1 s) ! nat i = n"
    "leftline (f1 s) ! nat i = l" "leftline (f1 s) ! nat (i + 1) = l'"
    by blast
  have w: "swept (- 259) 419 i s" "i \<le> 117" "- 259 + l' \<le> m" using assms e by (simp_all add: slope_right_def)
  have m: "m \<le> 419" using swept_row [OF w(1), of "i + 1"] assms(2) w(2) e by simp
  have r: "0 \<le> l" "l \<le> 159" "0 \<le> l'" "l' \<le> 159" "- 259 \<le> n" "n \<le> 419"
    using tracked_cell [OF swept_tracked [OF w(1)], of i] tracked_cell [OF swept_tracked [OF w(1)], of "i + 1"] assms(2) w(2) e
    by simp_all
  have a: "yields (flow_post (slope_right (i - 1)) (tracked (- 259) 419)) (assign_midline i x s \<bind> stop_right i)"
    if "yields (\<lambda>v. v \<le> 1000 \<and> - 259 + l \<le> v) x" for x
    by (rule yields_assign [OF that]) (use slope_right_put [OF assms] e in blast)
  show ?thesis unfolding bend_right_def
    by (intro yields_when_bind a) (use m r w(3) in \<open>auto simp: yields_simps e lift2_eq_Some cell_Some\<close>)
qed

lemma sharp_left_swept:
  assumes "swept a b i s" "0 < i" "i \<le> 118" "inside a b"
  shows "yields (flow_post (swept a b (i - 1)) (tracked a b)) (sharp_left i s)"
proof -
  obtain r where r: "rightline (f1 s) ! nat i = r" "0 \<le> r" "r \<le> 159"
    using tracked_cell [OF swept_tracked [OF assms(1)], of i] assms by auto
  have ok: "f1_ok (f1 s)" using assms(1) by (rule swept_ok)
  have c: "set_midline i (r - 80) s \<bind> clamp_midline i = set_midline i (if r < 80 then 0 else r - 80) s"
    using ok assms r by (simp add: put_midline_set clamp_midline_def cell_def)
  have "sharp_left i s = set_midline i (if r < 80 then 0 else r - 80) s \<bind> stop_left i"
    using ok assms r(1) unfolding c [symmetric]
    by (simp add: sharp_left_def assign_midline_def cell_def)
  then show ?thesis using keep_stop_left [OF assms] r assms(4) by (auto simp: inside_def)
qed

lemma sharp_right_swept:
  assumes "swept a b i s" "0 < i" "i \<le> 118" "inside a b"
  shows "yields (flow_post (swept a b (i - 1)) (tracked a b)) (sharp_right i s)"
proof -
  obtain l where "leftline (f1 s) ! nat i = l" "0 \<le> l" "l \<le> 159"
    using tracked_cell [OF swept_tracked [OF assms(1)], of i] assms by auto
  then show ?thesis unfolding sharp_right_def
    by (intro assign_stop_right) (use assms in \<open>simp_all add: yields_simps inside_def\<close>)
qed

section \<open>Blanking\<close>

lemma blank_row_tracked:
  assumes "tracked a b s" "0 < i" "inside a b" "v = 0 \<or> v = 159"
  shows "yields (flow_post (tracked a b) (tracked a b)) (blank_row v i s)"
proof (cases "i < 120")
  case True
  have ok: "f1_ok (f1 s)" using assms(1) by (simp add: mids_def)
  define g where "g = (f1 s)\<lparr>midline := (midline (f1 s))[nat i := v], leftline := (leftline (f1 s))[nat i := v],
      rightline := (rightline (f1 s))[nat i := v]\<rparr>"
  have "blank_row v i s = Some (Next (s\<lparr>f1 := g\<rparr>))"
    using ok assms(2,4) True by (auto simp: blank_row_def set_cell_defs g_def)
  moreover have "mids a b g"
  proof -
    have n: "xs[nat i := v] ! nat k = (if k = i then v else xs ! nat k)" if "length xs = 120" "0 \<le> k" for xs k
      using that assms(2) True by (auto simp: nth_list_update)
    have len: "length (midline (f1 s)) = 120" "length (leftline (f1 s)) = 120" "length (rightline (f1 s)) = 120"
      using ok by simp_all
    have "f1_ok g" using ok by (simp add: g_def)
    then show ?thesis using assms(1,3,4) unfolding mids_def inside_def
      by (auto simp: g_def n len)
  qed
  ultimately show ?thesis using assms(1) by simp
next
  case False
  have "f1_ok (f1 s)" using assms(1) by (simp add: mids_def)
  with False show ?thesis by (simp add: blank_row_def set_leftline_def c_put_None yields_def)
qed

lemma blank_rows_tracked:
  assumes "tracked a b s" "inside a b" "v = 0 \<or> v = 159"
  shows "yields (tracked a b) (blank_rows v start s)"
  unfolding blank_rows_def
  by (rule yields_for_down [where P = "tracked a b"]) (use assms blank_row_tracked in auto)

lemma finish_tracked:
  assumes "tracked a b s" "inside a b"
  shows "yields (tracked a b) (finish_left s)" "yields (tracked a b) (finish_right s)"
    "yields (tracked a b) (ring_out_finish_right s)"
  unfolding finish_left_def finish_right_def ring_out_finish_right_def Let_def
  by (rule blank_rows_tracked; use assms in simp)+

section \<open>The sections of findline2\<close>

lemma inside_ring: "inside (- 100) 260" and inside_all: "inside (- 259) 419" and inside_left: "inside (- 100) 419"
  by (simp_all add: inside_def)

lemma turn_ok_clear [simp]: "turn_ok g \<Longrightarrow> turn_ok (g\<lparr>leftturnflag := 0, rightturnflag := 0\<rparr>)"
  by (simp add: turn_ok_def)

lemma findline2_features_tracked: "tracked a b s \<Longrightarrow> yields (tracked a b) (findline2_features n s)"
  unfolding findline2_features_def
  by (intro yields_bindI [where P = "tracked a b"] yields_if find_guai_tracked find_curve1_tracked find_curve3_tracked) simp_all

lemma corner_f1 [simp]: "f1 (keep_near_corner s) = f1 s" "f1 (count_corner s) = f1 s" "f1 (drop_corners s) = f1 s"
  by (simp_all add: keep_near_corner_def count_corner_def drop_corners_def Let_def)

lemma corner_turn [simp]:
  assumes "turn_ok (f2 s)"
  shows "turn_ok (f2 (keep_near_corner s))" "turn_ok (f2 (count_corner s))" "turn_ok (f2 (drop_corners s))"
  using assms by (simp_all add: keep_near_corner_def count_corner_def drop_corners_def Let_def)

lemma findline2_cross_tracked: "tracked a b s \<Longrightarrow> yields (tracked a b) (findline2_cross s)"
  unfolding findline2_cross_def
  by (intro yields_bindI [where P = "tracked a b"] yields_if find_huan1_tracked shizi_judge_tracked
      both_row_lose_judge_tracked) simp_all

lemma findline2_ring_stage_tracked: "tracked a b s \<Longrightarrow> yields (tracked a b) (findline2_ring_stage im s)"
  unfolding findline2_ring_stage_def
  by (intro yields_bindI [where P = "tracked a b"] yields_if find_huan2_tracked find_huan3_tracked)
    (simp_all add: Let_def)

lemma seen_tracked:
  assumes "tracked a b s"
  shows "yields (flow_post (tracked a b) (tracked a b)) (ring_left_seen i s)"
    "yields (flow_post (tracked a b) (tracked a b)) (ring_right_seen i s)"
    "yields (flow_post (tracked a b) (tracked a b)) (ring_exit_left i s)"
    "yields (flow_post (tracked a b) (tracked a b)) (ring_exit_right i s)"
  unfolding ring_left_seen_def ring_right_seen_def ring_exit_left_def ring_exit_right_def
  using assms by (intro yields_when_c; simp)+

lemma ring_leave [simp]:
  "f1 (ring_left_leave s) = f1 s" "f1 (ring_right_leave s) = f1 s"
  "turn_ok (f2 s) \<Longrightarrow> turn_ok (f2 (ring_left_leave s))" "turn_ok (f2 s) \<Longrightarrow> turn_ok (f2 (ring_right_leave s))"
  by (simp_all add: ring_left_leave_def ring_right_leave_def Let_def)

lemma turn_ok_top [simp]: "turn_ok g \<Longrightarrow> 0 \<le> toppoint g"
  by (simp add: turn_ok_def)

lemma ring_loop:
  assumes "tracked (- 100) 260 s" "10 \<le> hi" "0 \<le> lo"
    and "\<And>i s. swept (- 100) 260 i s \<Longrightarrow> 0 < i \<Longrightarrow> i \<le> hi \<Longrightarrow> ringed i s (body i s)"
  shows "yields (tracked (- 100) 260) (for_down body hi lo s)"
  by (rule sweep_loop) (use assms in auto)

lemmas section_intros = yields_bindI [where P = "tracked (- 100) 260"] yields_if ring_loop
  finish_tracked [OF _ inside_ring] find_huanguai_tracked

lemma findline2_ring_left_tracked:
  assumes "tracked (- 100) 260 s"
  shows "yields (tracked (- 100) 260) (findline2_ring_left s)"
proof -
  have 1: "yields (tracked (- 100) 260) (for_down ring_left_seen 100 (vtop s) s)"
    by (rule yields_for_down [where P = "tracked (- 100) 260"]) (use assms seen_tracked in auto)
  show ?thesis unfolding findline2_ring_left_def
    by (intro yields_bindI [OF 1] section_intros ring_left_straight_swept ring_left_arc_swept)
      simp_all
qed

lemma findline2_ring_right_tracked:
  assumes "tracked (- 100) 260 s"
  shows "yields (tracked (- 100) 260) (findline2_ring_right s)"
proof -
  have 1: "yields (tracked (- 100) 260) (for_down ring_right_seen 100 (vtop s) s)"
    by (rule yields_for_down [where P = "tracked (- 100) 260"]) (use assms seen_tracked in auto)
  show ?thesis unfolding findline2_ring_right_def
    by (intro yields_bindI [OF 1] section_intros ring_right_straight_swept ring_right_arc_swept)
      simp_all
qed

lemma find_toppoint_tracked:
  assumes "tracked a b s"
  shows "yields (tracked a b) (find_toppoint im s)"
proof -
  have "tracked a b (set_top i s)" if "0 \<le> i" for i
    using assms that by (simp add: set_top_def turn_ok_def)
  then show ?thesis using assms
    by (auto simp: find_toppoint_eq mids_def split: option.split dest!: vertex_row_range edge_row_range)
qed

lemma findline2_ring_tracked: "tracked (- 100) 260 s \<Longrightarrow> yields (tracked (- 100) 260) (findline2_ring im s)"
  unfolding findline2_ring_def
  by (intro section_intros findline2_ring_left_tracked findline2_ring_right_tracked find_toppoint_tracked) simp_all

lemma findline2_ring_exit_tracked:
  assumes "tracked a b s"
  shows "yields (tracked a b) (findline2_ring_exit s)"
proof -
  have "tracked a b (set2 (\<lambda>f. f\<lparr>shiziflag1 := 0, shiziflag0 := 0\<rparr>) s)" using assms by simp
  then show ?thesis unfolding findline2_ring_exit_def Let_def
    by (intro yields_if yields_bindI [where P = "tracked a b"] yields_for_down [where P = "tracked a b"] seen_tracked)
      (simp_all add: assms)
qed

lemma findline2_ring_out_tracked:
  assumes "tracked (- 100) 260 s"
  shows "yields (tracked (- 100) 260) (findline2_ring_out short s)"
proof -
  have "turn_ok (f2 s\<lparr>leftturnflag := 0, rightturnflag := 0, shiziflag1 := 0, shiziflag0 := 0\<rparr>)"
    using assms by (simp add: turn_ok_def)
  then show ?thesis unfolding findline2_ring_out_def Let_def
    using assms
    by (intro section_intros ring_out_left_swept ring_out_right_swept yields_any) simp_all
qed

lemma bend_left_tracked:
  assumes "tracked (- 100) 260 s" "leftturnflag (f2 s) = 1"
  shows "yields (tracked (- 100) 419) (for_down bend_left (leftturn_row (f2 s)) (vtop s) s)"
proof (rule yields_loop [where I = "slope_left"])
  have r: "30 < leftturn_row (f2 s)" "leftturn_row (f2 s) \<le> 115" using assms by (simp_all add: turn_ok_def)
  have "tracked (- 100) 419 s" using assms(1) tracked_mono [of "- 100" 260 s "- 100" 419] by simp
  then have w: "swept (- 100) 419 (leftturn_row (f2 s)) s" by (rule swept_start) (use r in simp)
  have "midline (f1 s) ! nat (leftturn_row (f2 s) + 1) \<le> 260" "0 \<le> rightline (f1 s) ! nat (leftturn_row (f2 s) + 1)"
    using assms(1) r by (simp_all add: mids_def)
  then show "slope_left (leftturn_row (f2 s)) s" using w r by (simp add: slope_left_def)
  show "yields (flow_post (slope_left (i - 1)) (tracked (- 100) 419)) (bend_left i t)"
    if "vtop s < i" "slope_left i t" for i t
  proof -
    have "0 \<le> vtop s" using assms by simp
    then show ?thesis by (intro bend_left_step) (use that in simp_all)
  qed
  show "tracked (- 100) 419 t" if "slope_left i t" for i t
    by (rule swept_tracked [where i = i]) (use that in \<open>simp add: slope_left_def\<close>)
qed

lemma bend_right_tracked:
  assumes "tracked (- 100) 419 s" "rightturnflag (f2 s) = 1"
  shows "yields (tracked (- 259) 419) (for_down bend_right (rightturn_row (f2 s)) 0 s)"
proof (rule yields_loop [where I = "slope_right"])
  have r: "30 < rightturn_row (f2 s)" "rightturn_row (f2 s) \<le> 115" using assms by (simp_all add: turn_ok_def)
  have "tracked (- 259) 419 s" using assms(1) tracked_mono [of "- 100" 419 s "- 259" 419] by simp
  then have w: "swept (- 259) 419 (rightturn_row (f2 s)) s" by (rule swept_start) (use r in simp)
  have "- 100 \<le> midline (f1 s) ! nat (rightturn_row (f2 s) + 1)" "leftline (f1 s) ! nat (rightturn_row (f2 s) + 1) \<le> 159"
    using assms(1) r by (simp_all add: mids_def)
  then show "slope_right (rightturn_row (f2 s)) s" using w r by (simp add: slope_right_def)
  show "yields (flow_post (slope_right (i - 1)) (tracked (- 259) 419)) (bend_right i t)"
    if "0 < i" "slope_right i t" for i t
    by (intro bend_right_step) (use that in simp_all)
  show "tracked (- 259) 419 t" if "slope_right i t" for i t
    by (rule swept_tracked [where i = i]) (use that in \<open>simp add: slope_right_def\<close>)
qed

lemma sharp_tracked:
  assumes "tracked a b s" "inside a b"
  shows "yields (tracked a b) (for_down sharp_left 118 0 s)" "yields (tracked a b) (for_down sharp_right 118 0 s)"
  using assms by (auto intro!: sweep_loop sharp_left_swept sharp_right_swept)

lemma yields_mono: "yields P m \<Longrightarrow> (\<And>x. P x \<Longrightarrow> Q x) \<Longrightarrow> yields Q m"
  by (cases m) (simp_all add: yields_def)

lemma findline2_bends_tracked:
  assumes "tracked (- 100) 260 s"
  shows "yields (tracked (- 259) 419) (findline2_bends s)"
proof -
  let ?N = "tracked (- 100) 419" and ?W = "tracked (- 259) 419"
  have s: "?N s" using assms tracked_mono [of "- 100" 260 s "- 100" 419] by simp
  have w: "?W t" if "?N t" for t using that tracked_mono [of "- 100" 419 t "- 259" 419] by simp
  have 1: "yields ?N (if leftturnflag (f2 s) = 1 then do {
        s \<leftarrow> for_down bend_left (leftturn_row (f2 s)) (vtop s) s; finish_left s } else Some s)"
    by (intro yields_if yields_bindI [where P = ?N] bend_left_tracked finish_tracked [OF _ inside_left] assms)
      (simp_all add: s)
  have 2: "yields ?N (if leftturnflag (f2 t) = 3 then do {
        s \<leftarrow> for_down sharp_left 118 0 t; finish_left s } else Some t)" if "?N t" for t
    by (intro yields_if yields_bindI [where P = ?N] sharp_tracked finish_tracked [OF _ inside_left] that inside_left)
      (simp_all add: that)
  have 3: "yields ?W (if rightturnflag (f2 t) = 1 then do {
        s \<leftarrow> for_down bend_right (rightturn_row (f2 t)) 0 t; finish_right s } else Some t)" if "?N t" for t
    by (intro yields_if yields_bindI [where P = ?W] bend_right_tracked finish_tracked [OF _ inside_all] that)
      (use w [OF that] in simp_all)
  have 4: "yields ?W (if rightturnflag (f2 t) = 3 then do {
        s \<leftarrow> for_down sharp_right 118 0 t; finish_right s } else Some t)" if "?W t" for t
    by (intro yields_if yields_bindI [where P = ?W] sharp_tracked finish_tracked [OF _ inside_all] that inside_all)
      (simp_all add: that)
  show ?thesis unfolding findline2_bends_def
    by (intro yields_if yields_bindI [OF 1] yields_bindI [OF 2] yields_bindI [OF 3] 4) (use w [OF s] in simp_all)
qed

lemma findline2_end_tracked:
  assumes "tracked a b s"
  shows "yields (tracked a b) (findline2_end im s)"
  unfolding findline2_end_def Let_def
  by (rule yields_bindI [OF find_toppoint_tracked [OF assms]]) (auto intro: yields_any)

theorem findline2_tracked:
  assumes "mids (- 100) 260 (f1 s)" "0 \<le> vtop s"
  shows "yields (tracked (- 259) 419) (findline2 im short n s)"
proof -
  have "tracked (- 100) 260 (findline2_reset s)" using assms by (simp add: findline2_reset_def turn_ok_def)
  then show ?thesis unfolding findline2_def
    by (intro yields_bindI [OF findline2_features_tracked] yields_bindI [OF findline2_cross_tracked]
        yields_bindI [OF findline2_ring_stage_tracked] yields_bindI [OF findline2_ring_tracked]
        yields_bindI [OF findline2_ring_exit_tracked] yields_bindI [OF findline2_ring_out_tracked]
        yields_bindI [OF findline2_bends_tracked] findline2_end_tracked)
qed

section \<open>Frames\<close>

definition mid_ok :: "lines \<Rightarrow> bool" where
  "mid_ok s \<longleftrightarrow> lines_ok s \<and> mids (- 259) 419 (f1 s) \<and> 0 \<le> vtop s \<and> vtop s \<le> 118"

lemma mid_ok_init: "mid_ok lines_init"
  by (simp add: mid_ok_def mids_def) (auto simp: lines_init_def f1_zero_def f2_zero_def)

lemma findline1_mids:
  assumes "mid_ok s"
  obtains t where "findline1 im s = Some t" "mids (- 100) 260 (f1 t)" "0 \<le> vtop t"
proof -
  from assms have s: "f1_ok (f1 s)" "low_rows (f1 s)" "0 \<le> column_start s" "column_start s \<le> 159"
    and m: "mids (- 259) 419 (f1 s)"
    by (simp_all add: mid_ok_def lines_ok_def start_ok_def)
  obtain t where inv: "rows_inv im s 10 t"
    and run: "findline1 im s = Some (s\<lparr>f1 := f1 t, column_start := midline (f1 t) ! 118,
           f2 := (f2 s)\<lparr>toppoint := top_spec im (f1 t),
             toppoint_flag := (if vertex_row im (f1 t) = None \<and> edge_row (f1 t) = None then 0 else 1)\<rparr>\<rparr>)"
    by (rule findline1_result [OF s(1,3,4)])
  from inv have ok: "f1_ok (f1 t)"
    and rows: "\<And>r. 10 < r \<Longrightarrow> r \<le> 118 \<Longrightarrow> row_spec im (column_start s) (f1 t) r
            \<and> 0 \<le> midline (f1 t) ! nat r \<and> midline (f1 t) ! nat r \<le> 159"
    and same: "\<And>fld r. fld \<in> {midline, leftline, rightline, leftlineflag, rightlineflag} \<Longrightarrow>
            0 \<le> r \<Longrightarrow> r < 11 \<or> 118 < r \<Longrightarrow> fld (f1 t) ! nat r = fld (f1 s) ! nat r"
    unfolding rows_inv_def by blast+
  have start: "0 \<le> row_start (column_start s) (f1 t) r \<and> row_start (column_start s) (f1 t) r \<le> 159"
    if "10 < r" "r \<le> 118" for r
    using rows [of "r + 1"] that s by (cases "r = 118") (simp_all add: row_start_def)
  have cell: "0 \<le> leftline (f1 t) ! nat k \<and> leftline (f1 t) ! nat k \<le> 159 \<and> 0 \<le> rightline (f1 t) ! nat k
      \<and> rightline (f1 t) ! nat k \<le> 159 \<and> - 259 \<le> midline (f1 t) ! nat k \<and> midline (f1 t) ! nat k \<le> 419"
    if k: "0 \<le> k" "k < 120" for k
  proof (cases "10 < k \<and> k \<le> 118")
    case True
    with rows [of k] row_spec_less [of im "column_start s" "f1 t" k] start [of k] show ?thesis by simp
  next
    case False
    then have "k < 11 \<or> 118 < k" by auto
    with same [of midline k] same [of leftline k] same [of rightline k] k m show ?thesis by (simp add: mids_def)
  qed
  have "- 100 \<le> midline (f1 t) ! nat k \<and> midline (f1 t) ! nat k \<le> 260" if "10 < k" "k \<le> 118" for k
    using rows [OF that] by simp
  then have "mids (- 100) 260 (f1 t)" using ok cell by (simp add: mids_def)
  then show thesis by (rule that [OF run, simplified]) (use top_spec_range in simp)
qed

theorem line_frame_mid_ok:
  assumes "mid_ok s"
  shows "runs (line_frame im short n s) mid_ok"
proof -
  obtain t where "findline1 im s = Some t" "mids (- 100) 260 (f1 t)" "0 \<le> vtop t"
    by (rule findline1_mids [OF assms])
  then have "yields (tracked (- 259) 419) (line_frame im short n s)"
    unfolding line_frame_def using findline2_tracked by simp
  moreover have "runs (line_frame im short n s) (\<lambda>s. frame_inv s \<and> start_ok s)"
    using assms by (intro line_frame_ok) (simp add: mid_ok_def)
  ultimately have "runs (line_frame im short n s) (\<lambda>t. (frame_inv t \<and> start_ok t) \<and> tracked (- 259) 419 t)"
    by (rule runs_keeps [rotated])
  then show ?thesis
    by (rule runs_mono) (auto simp: mid_ok_def lines_ok_def frame_inv_def corners_ok_def)
qed

lemma line_frames_mid_ok: "mid_ok s \<Longrightarrow> runs (line_frames fs s) mid_ok"
proof (induction fs arbitrary: s)
  case (Cons f fs)
  obtain im short lose where f: "f = (im, short, lose)" by (cases f)
  show ?case unfolding f line_frames.simps
    by (rule runs_bindI [OF line_frame_mid_ok [OF Cons.prems]]) (rule Cons.IH)
qed simp

section \<open>Properties\<close>

lemma set_within: "length xs = 120 \<Longrightarrow> (\<And>k. 0 \<le> k \<Longrightarrow> k < 120 \<Longrightarrow> xs ! nat k \<in> A) \<Longrightarrow> set xs \<subseteq> A"
proof
  fix x assume len: "length xs = 120" and all: "\<And>k. 0 \<le> k \<Longrightarrow> k < 120 \<Longrightarrow> xs ! nat k \<in> A" and "x \<in> set xs"
  then obtain n where "n < 120" "xs ! n = x" by (auto simp: in_set_conv_nth)
  with all [of "int n"] show "x \<in> A" by simp
qed

text \<open>
  C29: whatever the camera delivers, in any number of frames from power-on, every cell of the
  middle line stays between -259 and 419 and every edge cell is a column of the image: the
  repairs of \<open>findline2\<close>, which extend the line by the slope of an edge or by its own old
  value, neither wrap a 16-bit cell nor let it drift from frame to frame.
\<close>

theorem midline_bounded:
  "runs (line_frames fs lines_init) (\<lambda>s. set (midline (f1 s)) \<subseteq> {- 259..419}
     \<and> set (leftline (f1 s)) \<subseteq> {0..159} \<and> set (rightline (f1 s)) \<subseteq> {0..159})"
  by (rule runs_mono [OF line_frames_mid_ok [OF mid_ok_init]])
    (intro conjI set_within; simp add: mid_ok_def mids_def)

end
