(* ===== verification/ImageProcess.thy ===== *)
theory ImageProcess
  imports FindLines
begin

text \<open>
  \<open>imageProcess.c\<close>: smoothing, thresholds and binarisation of the camera image, and the
  edge filter.  Images are memories of bytes, as in \<open>FindLines\<close>: a read of row 120 or
  column 160, which \<open>gray_mean_filter\<close> and \<open>ostu_threshold\<close> do, reads the bytes behind the
  row or behind the array.  Reading and writing never trap; that the results do not depend
  on those bytes is a theorem.
\<close>

section \<open>Writing pixels\<close>

definition set_px :: "int \<Rightarrow> int \<Rightarrow> int \<Rightarrow> image \<Rightarrow> image" where
  "set_px i j v im = im(i * 160 + j := word_of_int v)"

text \<open>\<open>for (i = a; i <= b; i++) s = f(i, s)\<close>\<close>

definition loop :: "int \<Rightarrow> int \<Rightarrow> (int \<Rightarrow> 's \<Rightarrow> 's) \<Rightarrow> 's \<Rightarrow> 's" where
  "loop a b f s = fold f [a..b] s"

section \<open>Smoothing\<close>

definition mean9 :: "image \<Rightarrow> int \<Rightarrow> int \<Rightarrow> int" where
  "mean9 img y x =
     (px img (y - 1) (x - 1) + px img (y - 1) x + px img (y - 1) (x + 1)
      + px img y (x - 1) + px img y x + px img y (x + 1)
      + px img (y + 1) (x - 1) + px img (y + 1) x + px img (y + 1) (x + 1)) sdiv 9"

definition gray_mean_filter :: "image \<Rightarrow> image \<Rightarrow> image" where
  "gray_mean_filter img img_out = (
     let out = loop 1 119 (\<lambda>y. loop 1 159 (\<lambda>x. set_px y x (mean9 img y x))) img_out;
         out = loop 0 159 (\<lambda>x out. set_px 119 x (px img 119 x) (set_px 0 x (px img 0 x) out)) out
     in loop 1 118 (\<lambda>y out. set_px y 159 (px img y 159) (set_px y 0 (px img y 0) out)) out)"

section \<open>Thresholds\<close>

definition mean_threshold :: "image \<Rightarrow> int" where
  "mean_threshold img = (
     let tv = loop 0 159 (\<lambda>i. loop 0 119 (\<lambda>j tv. u32 (tv + px img j i))) 0;
         threshold = i32 (tv div 160 div 120)
     in threshold * 7 sdiv 10 + 10)"

text \<open>
  \<open>HistoGram\<close> has eight-bit counters, and the image is indexed \<open>img[j][i]\<close> with the column
  counter \<open>j\<close> as the row.
\<close>

definition histogram :: "image \<Rightarrow> int list" where
  "histogram img = loop 0 159 (\<lambda>j. loop 0 119 (\<lambda>i h.
      let v = nat (px img j i) in h[v := u8 (h ! v + 1)])) (replicate 256 0)"

fun min_value :: "nat \<Rightarrow> int list \<Rightarrow> int" where
  "min_value k [] = int k"
| "min_value k (x # xs) = (if x = 0 then min_value (Suc k) xs else int k)"

text \<open>The search for the largest grey value tests \<open>HistoGram[MinValue]\<close>: it stays at 255
  unless that entry is 0 and 255 lies above \<open>MinValue\<close>.\<close>

definition max_value :: "int list \<Rightarrow> int \<Rightarrow> int option" where
  "max_value h mn = for_down (\<lambda>m _. do {
      v \<leftarrow> c_get h mn;
      Some (if v = 0 then Next (m - 1) else Break m) }) 255 mn 255"

record otsu =
  PixelBack :: int
  PixelIntegralBack :: int
  SigmaB :: fl
  Threshold :: int

definition ostu_step :: "int list \<Rightarrow> int \<Rightarrow> int \<Rightarrow> int \<Rightarrow> otsu \<Rightarrow> otsu flow option" where
  "ostu_step h Amount PixelIntegral j s = do {
     n \<leftarrow> c_get h j;
     let s = s\<lparr>PixelBack := u32 (PixelBack s + n)\<rparr>;
     let PixelFore = i32 (Amount - PixelBack s);
     let OmegaBack = fl_div rd32 (rd32 (of_int (PixelBack s))) (rd32 (of_int Amount));
     let OmegaFore = fl_div rd32 (rd32 (of_int PixelFore)) (rd32 (of_int Amount));
     let s = s\<lparr>PixelIntegralBack := u32 (PixelIntegralBack s + n * j)\<rparr>;
     let PixelIntegralFore = i32 (PixelIntegral - PixelIntegralBack s);
     let MicroBack = fl_div rd32 (rd32 (of_int (PixelIntegralBack s))) (rd32 (of_int (PixelBack s)));
     let MicroFore = fl_div rd32 (rd32 (of_int PixelIntegralFore)) (rd32 (of_int PixelFore));
     let d = fl_sub rd32 MicroBack MicroFore;
     let Sigma = fl_mul rd32 (fl_mul rd32 (fl_mul rd32 OmegaBack OmegaFore) d) d;
     Some (Next (if fl_lt (SigmaB s) Sigma then s\<lparr>SigmaB := Sigma, Threshold := u8 j\<rparr> else s)) }"

definition ostu_threshold :: "image \<Rightarrow> int option" where
  "ostu_threshold img = do {
     let h = histogram img;
     let MinValue = min_value 0 h;
     MaxValue \<leftarrow> max_value h MinValue;
     if MaxValue = MinValue then Some MaxValue
     else if MinValue + 1 = MaxValue then Some MinValue
     else do {
       Amount \<leftarrow> for_up (\<lambda>j n. do { v \<leftarrow> c_get h j; Some (Next (u32 (n + v))) }) MinValue (MaxValue + 1) 0;
       PixelIntegral \<leftarrow> for_up (\<lambda>j n. do { v \<leftarrow> c_get h j; Some (Next (u32 (n + v * j))) })
                          MinValue (MaxValue + 1) 0;
       s \<leftarrow> for_up (ostu_step h Amount PixelIntegral) MinValue MaxValue
              \<lparr>PixelBack = 0, PixelIntegralBack = 0, SigmaB = Fin (- 1), Threshold = 0\<rparr>;
       Some (Threshold s) } }"

section \<open>Binarisation\<close>

text \<open>Returns the new \<open>ImageThreshold\<close> and the image.\<close>

definition gray_to_binary :: "image \<Rightarrow> image \<Rightarrow> int \<Rightarrow> (int \<times> image) option" where
  "gray_to_binary img img_out mode = do {
     thr \<leftarrow> (if mode \<noteq> 0 then Some (u8 (mean_threshold img))
             else do { t \<leftarrow> ostu_threshold img; Some (u8 t) });
     Some (thr, loop 0 119 (\<lambda>i. loop 0 159 (\<lambda>j. set_px i j (if px img i j > thr then 255 else 0))) img_out) }"

section \<open>Edges\<close>

definition sobel_gradient :: "image \<Rightarrow> int \<Rightarrow> int \<Rightarrow> int" where
  "sobel_gradient im i j = (
     let t0 = i16 (- px im (i - 1) (j - 1) + px im (i - 1) (j + 1) - px im i (j - 1) + px im i (j + 1)
                   - px im (i + 1) (j - 1) + px im (i + 1) (j + 1));
         t1 = i16 (- px im (i - 1) (j - 1) + px im (i + 1) (j - 1) - px im (i - 1) j + px im (i + 1) j
                   - px im (i - 1) (j + 1) + px im (i + 1) (j + 1));
         t2 = i16 (- px im (i - 1) j + px im i (j - 1) - px im i (j + 1) + px im (i + 1) j
                   - px im (i - 1) (j + 1) + px im (i + 1) (j - 1));
         t3 = i16 (- px im (i - 1) j + px im i (j + 1) - px im i (j - 1) + px im (i + 1) j
                   - px im (i - 1) (j - 1) + px im (i + 1) (j + 1));
         t0 = i16 \<bar>t0\<bar>; t1 = i16 \<bar>t1\<bar>; t2 = i16 \<bar>t2\<bar>; t3 = i16 \<bar>t3\<bar>;
         t0 = (if t0 < t1 then t1 else t0);
         t0 = (if t0 < t2 then t2 else t0)
     in if t0 < t3 then t3 else t0)"

definition gray_sobel_filter :: "image \<Rightarrow> image \<Rightarrow> int \<Rightarrow> image" where
  "gray_sobel_filter imageIn imageOut T =
     loop 1 118 (\<lambda>i. loop 1 158 (\<lambda>j. set_px i j (if sobel_gradient imageIn i j > T then 1 else 0))) imageOut"

section \<open>What the loops write\<close>

lemma px_range [simp]: "0 \<le> px im i j" "px im i j \<le> 255"
  using uint_lt2p [of "im (i * 160 + j)"] by (simp_all add: px_def)

lemma loop_empty [simp]: "b < a \<Longrightarrow> loop a b f s = s"
  by (simp add: loop_def)

lemma loop_snoc: "a \<le> b \<Longrightarrow> loop a b f s = f b (loop a (b - 1) f s)"
  by (simp add: loop_def upto_rec2)

lemma loop_induct:
  assumes "P (a - 1) s" and "\<And>i t. a \<le> i \<Longrightarrow> i \<le> b \<Longrightarrow> P (i - 1) t \<Longrightarrow> P i (f i t)" and "a - 1 \<le> b"
  shows "P b (loop a b f s)"
  using assms(2,3)
proof (induction "nat (b - a + 1)" arbitrary: b)
  case 0
  then have "b = a - 1" by simp
  then show ?case using assms(1) by simp
next
  case (Suc n)
  then have ab: "a \<le> b" "a - 1 \<le> b - 1" by linarith+
  have "P (b - 1) (loop a (b - 1) f s)"
    by (rule Suc.hyps) (use Suc ab in auto)
  then show ?case using Suc.prems(1) [OF ab(1)] loop_snoc [OF ab(1), of f s] by simp
qed

lemma same_pixel:
  assumes "0 \<le> j" "j \<le> 159" "0 \<le> c" "c \<le> (159::int)"
  shows "r * 160 + c = i * 160 + j \<longleftrightarrow> i = r \<and> j = c"
proof
  assume e: "r * 160 + c = i * 160 + j"
  have "i = (i * 160 + j) div 160" "j = (i * 160 + j) mod 160" using assms by simp_all
  moreover have "r = (r * 160 + c) div 160" "c = (r * 160 + c) mod 160" using assms by simp_all
  ultimately show "i = r \<and> j = c" using e by simp
qed simp

lemma px_set_px:
  assumes "0 \<le> j" "j \<le> 159" "0 \<le> c" "c \<le> 159"
  shows "px (set_px i j v im) r c = (if i = r \<and> j = c then u8 v else px im r c)"
  using same_pixel [OF assms, of r i] by (auto simp: px_def set_px_def u8_def uint_word_of_int)

text \<open>A row, and a rectangle of rows.\<close>

lemma px_row:
  assumes "0 \<le> a" "b \<le> 159" "a - 1 \<le> b" "0 \<le> c" "c \<le> 159"
  shows "px (loop a b (\<lambda>j. set_px i j (f j)) im) r c = (if i = r \<and> a \<le> c \<and> c \<le> b then u8 (f c) else px im r c)"
proof (rule loop_induct [where P = "\<lambda>b t. px t r c = (if i = r \<and> a \<le> c \<and> c \<le> b then u8 (f c) else px im r c)"])
  fix j t assume j: "a \<le> j" "j \<le> b"
    and t: "px t r c = (if i = r \<and> a \<le> c \<and> c \<le> j - 1 then u8 (f c) else px im r c)"
  show "px (set_px i j (f j) t) r c = (if i = r \<and> a \<le> c \<and> c \<le> j then u8 (f c) else px im r c)"
    using px_set_px [of j c i "f j" t r] j t assms by auto
qed (use assms in auto)

lemma px_rect:
  assumes "0 \<le> a" "b \<le> 159" "a - 1 \<le> b" "0 \<le> c" "c \<le> 159" "p - 1 \<le> q"
  shows "px (loop p q (\<lambda>i. loop a b (\<lambda>j. set_px i j (f i j))) im) r c
    = (if p \<le> r \<and> r \<le> q \<and> a \<le> c \<and> c \<le> b then u8 (f r c) else px im r c)"
proof (rule loop_induct [where P = "\<lambda>q t. px t r c = (if p \<le> r \<and> r \<le> q \<and> a \<le> c \<and> c \<le> b then u8 (f r c) else px im r c)"])
  fix i t assume i: "p \<le> i" "i \<le> q"
    and t: "px t r c = (if p \<le> r \<and> r \<le> i - 1 \<and> a \<le> c \<and> c \<le> b then u8 (f r c) else px im r c)"
  show "px (loop a b (\<lambda>j. set_px i j (f i j)) t) r c
      = (if p \<le> r \<and> r \<le> i \<and> a \<le> c \<and> c \<le> b then u8 (f r c) else px im r c)"
    using px_row [OF assms(1-5), of i "f i" t r] i t by auto
qed (use assms in auto)

section \<open>Thresholds are bytes\<close>

lemma tv_bound: "0 \<le> loop 0 159 (\<lambda>i. loop 0 119 (\<lambda>j tv. u32 (tv + px img j i))) 0
   \<and> loop 0 159 (\<lambda>i. loop 0 119 (\<lambda>j tv. u32 (tv + px img j i))) 0 \<le> 4896000"
proof -
  have inner: "0 \<le> loop 0 119 (\<lambda>j tv. u32 (tv + px img j i)) t
      \<and> loop 0 119 (\<lambda>j tv. u32 (tv + px img j i)) t \<le> t + (119 + 1) * 255"
    if "0 \<le> t" "t \<le> 4865400" for i t
  proof (rule loop_induct [where P = "\<lambda>b u. 0 \<le> u \<and> u \<le> t + (b + 1) * 255"])
    fix j u assume "0 \<le> j" "j \<le> (119::int)" "0 \<le> u \<and> u \<le> t + (j - 1 + 1) * 255"
    moreover have p: "0 \<le> px img j i" "px img j i \<le> 255" by simp_all
    moreover have "(j - 1 + 1) * 255 \<le> 119 * (255::int)" using \<open>j \<le> 119\<close> by simp
    ultimately have "u32 (u + px img j i) = u + px img j i" using that by (intro u32_id) linarith+
    moreover have "u + px img j i \<le> t + (j + 1) * 255"
    proof -
      have "(j + 1) * 255 = (j - 1 + 1) * 255 + (255::int)" by simp
      then show ?thesis
        using px_range(2) [of img j i] conjunct2 [OF \<open>0 \<le> u \<and> u \<le> t + (j - 1 + 1) * 255\<close>]
        by linarith
    qed
    ultimately show "0 \<le> u32 (u + px img j i) \<and> u32 (u + px img j i) \<le> t + (j + 1) * 255"
      using px_range(1) [of img j i] \<open>0 \<le> u \<and> u \<le> t + (j - 1 + 1) * 255\<close> by simp
  qed (use that in auto)
  have "0 \<le> loop 0 159 (\<lambda>i. loop 0 119 (\<lambda>j tv. u32 (tv + px img j i))) 0
      \<and> loop 0 159 (\<lambda>i. loop 0 119 (\<lambda>j tv. u32 (tv + px img j i))) 0 \<le> (159 + 1) * 30600"
  proof (rule loop_induct [where P = "\<lambda>b u. 0 \<le> u \<and> u \<le> (b + 1) * 30600"])
    fix i t assume i: "0 \<le> i" "i \<le> (159::int)" "0 \<le> t \<and> t \<le> (i - 1 + 1) * 30600"
    then have t: "0 \<le> t" "t \<le> 4865400" by simp_all
    show "0 \<le> loop 0 119 (\<lambda>j tv. u32 (tv + px img j i)) t
        \<and> loop 0 119 (\<lambda>j tv. u32 (tv + px img j i)) t \<le> (i + 1) * 30600"
      using inner [OF t, of i] i by simp
  qed auto
  then show ?thesis by simp
qed

lemma mean_threshold_range: "10 \<le> mean_threshold img" "mean_threshold img \<le> 188"
proof -
  define tv where "tv = loop 0 159 (\<lambda>i. loop 0 119 (\<lambda>j tv. u32 (tv + px img j i))) 0"
  have tv: "0 \<le> tv" "tv \<le> 4896000" using tv_bound [of img] by (simp_all add: tv_def)
  define q where "q = tv div 160 div 120"
  have d: "0 \<le> q" "q \<le> 255" using tv by (simp_all add: q_def)
  then have "mean_threshold img = q * 7 div 10 + 10"
    by (simp add: mean_threshold_def Let_def sdiv_pos flip: tv_def q_def)
  then show "10 \<le> mean_threshold img" "mean_threshold img \<le> 188" using d by linarith+
qed

lemma sum_around: "(\<Sum>i = k - 1..k + 1. f i) = f (k - 1) + f k + f (k + 1)" for f :: "int \<Rightarrow> int"
proof -
  have "{k - 1..k + 1} = {k - 1, k, k + 1}" by auto
  then show ?thesis by (simp add: add.assoc)
qed

lemma mean9_neighbours: "mean9 img y x = (\<Sum>i = y - 1..y + 1. \<Sum>j = x - 1..x + 1. px img i j) div 9"
proof -
  have "0 \<le> (\<Sum>i = y - 1..y + 1. \<Sum>j = x - 1..x + 1. px img i j)" by (intro sum_nonneg) simp
  then show ?thesis by (simp add: mean9_def sum_around sdiv_pos add.assoc [symmetric])
qed

lemma mean9_range: "0 \<le> mean9 img y x" "mean9 img y x \<le> 255"
proof -
  define n where "n = px img (y - 1) (x - 1) + px img (y - 1) x + px img (y - 1) (x + 1)
      + px img y (x - 1) + px img y x + px img y (x + 1)
      + px img (y + 1) (x - 1) + px img (y + 1) x + px img (y + 1) (x + 1)"
  have "0 \<le> n" unfolding n_def by (intro add_nonneg_nonneg px_range)
  have "n \<le> 2295"
    using px_range(2) [of img "y - 1" "x - 1"] px_range(2) [of img "y - 1" x] px_range(2) [of img "y - 1" "x + 1"]
      px_range(2) [of img y "x - 1"] px_range(2) [of img y x] px_range(2) [of img y "x + 1"]
      px_range(2) [of img "y + 1" "x - 1"] px_range(2) [of img "y + 1" x] px_range(2) [of img "y + 1" "x + 1"]
    unfolding n_def by linarith
  with \<open>0 \<le> n\<close> show "0 \<le> mean9 img y x" "mean9 img y x \<le> 255"
    by (simp_all add: mean9_def sdiv_pos flip: n_def)
qed

section \<open>Properties\<close>

definition same_array :: "image \<Rightarrow> image \<Rightarrow> bool" where
  "same_array a b \<longleftrightarrow> (\<forall>k. 0 \<le> k \<and> k < 19200 \<longrightarrow> a k = b k)"

lemma same_array_px:
  assumes "same_array a b" "0 \<le> i" "i \<le> 119" "0 \<le> j" "j \<le> 159"
  shows "px a i j = px b i j"
  using assms by (simp add: same_array_def px_def)

definition filter_spec :: "image \<Rightarrow> int \<Rightarrow> int \<Rightarrow> int" where
  "filter_spec img r c = (if r = 0 \<or> r = 119 \<or> c = 0 \<or> c = 159 then px img r c else mean9 img r c)"

lemma gray_mean_filter_px:
  assumes "0 \<le> r" "r \<le> 119" "0 \<le> c" "c \<le> 159"
  shows "px (gray_mean_filter img out) r c = filter_spec img r c"
proof -
  define o1 where "o1 = loop 1 119 (\<lambda>y. loop 1 159 (\<lambda>x. set_px y x (mean9 img y x))) out"
  define o2 where "o2 = loop 0 159 (\<lambda>x out. set_px 119 x (px img 119 x) (set_px 0 x (px img 0 x) out)) o1"
  have 1: "px o1 r c = (if 1 \<le> r \<and> 1 \<le> c then mean9 img r c else px out r c)"
    unfolding o1_def using assms mean9_range [of img r c] by (subst px_rect) auto
  have 2: "px o2 r c = (if (r = 0 \<or> r = 119) \<and> 0 \<le> c \<and> c \<le> 159 then px img r c else px o1 r c)"
    unfolding o2_def
  proof (rule loop_induct [where P = "\<lambda>b t. px t r c = (if (r = 0 \<or> r = 119) \<and> 0 \<le> c \<and> c \<le> b then px img r c else px o1 r c)"])
    fix x t assume "0 \<le> x" "x \<le> 159"
      "px t r c = (if (r = 0 \<or> r = 119) \<and> 0 \<le> c \<and> c \<le> x - 1 then px img r c else px o1 r c)"
    then show "px (set_px 119 x (px img 119 x) (set_px 0 x (px img 0 x) t)) r c
        = (if (r = 0 \<or> r = 119) \<and> 0 \<le> c \<and> c \<le> x then px img r c else px o1 r c)"
      using assms by (auto simp: px_set_px)
  qed (use assms in auto)
  have "px (loop 1 118 (\<lambda>y out. set_px y 159 (px img y 159) (set_px y 0 (px img y 0) out)) o2) r c
      = (if 1 \<le> r \<and> r \<le> 118 \<and> (c = 0 \<or> c = 159) then px img r c else px o2 r c)"
  proof (rule loop_induct [where P = "\<lambda>b t. px t r c = (if 1 \<le> r \<and> r \<le> b \<and> (c = 0 \<or> c = 159) then px img r c else px o2 r c)"])
    fix y t assume "1 \<le> y" "y \<le> 118"
      "px t r c = (if 1 \<le> r \<and> r \<le> y - 1 \<and> (c = 0 \<or> c = 159) then px img r c else px o2 r c)"
    then show "px (set_px y 159 (px img y 159) (set_px y 0 (px img y 0) t)) r c
        = (if 1 \<le> r \<and> r \<le> y \<and> (c = 0 \<or> c = 159) then px img r c else px o2 r c)"
      using assms by (auto simp: px_set_px)
  qed auto
  then show ?thesis using 1 2 assms
    by (auto simp: gray_mean_filter_def Let_def filter_spec_def simp flip: o1_def o2_def)
qed

lemma filter_spec_local:
  assumes "same_array a b" "0 \<le> r" "r \<le> 119" "0 \<le> c" "c \<le> 159"
  shows "filter_spec a r c = filter_spec b r c"
  using same_array_px [OF assms(1)] assms(2-5) by (auto simp: filter_spec_def mean9_def)

text \<open>
  C13: \<open>gray_mean_filter\<close> replaces every inner pixel by the mean of the nine pixels at most one row and one column away,
  rounded down, and copies the border, whatever the output array held; although its loops read row 120 and
  column 160, which the array does not have, no pixel of the result depends on the memory
  outside the camera image.
\<close>

theorem gray_mean_filter_correct:
  assumes "0 \<le> r" "r \<le> 119" "0 \<le> c" "c \<le> 159" "same_array img img'"
  shows "px (gray_mean_filter img out) r c
      = (if r = 0 \<or> r = 119 \<or> c = 0 \<or> c = 159 then px img r c
         else (\<Sum>i = r - 1..r + 1. \<Sum>j = c - 1..c + 1. px img i j) div 9)
    \<and> px (gray_mean_filter img' out') r c = px (gray_mean_filter img out) r c"
  using gray_mean_filter_px [OF assms(1-4)] filter_spec_local [OF assms(5,1-4)]
  unfolding filter_spec_def mean9_neighbours by simp

text \<open>A picture that is a ramp: around row 1, column 1 lie 0, 1, 2, 160, 161, 162, 64, 65 and 66.\<close>

lemma gray_mean_filter_correct_witness:
  "px (gray_mean_filter (\<lambda>k. if k < 19200 then word_of_int k else 7) (\<lambda>_. 0)) 1 1 = 75
   \<and> px (gray_mean_filter (\<lambda>k. if k < 19200 then word_of_int k else 8) (\<lambda>_. 3)) 1 1
      = px (gray_mean_filter (\<lambda>k. if k < 19200 then word_of_int k else 7) (\<lambda>_. 0)) 1 1"
proof -
  have a: "{0..2::int} = {0, 1, 2}" by auto
  show ?thesis
    using gray_mean_filter_correct [of 1 1 "\<lambda>k. if k < 19200 then word_of_int k else 7"
      "\<lambda>k. if k < 19200 then word_of_int k else 8" "\<lambda>_. 0" "\<lambda>_. 3"]
    by (simp add: same_array_def px_def a)
qed

text \<open>
  With the mean threshold, which \<open>main\<close> selects, binarisation never fails: the threshold is
  between 10 and 188, and every pixel becomes 255 when it is brighter than the threshold
  and 0 otherwise.
\<close>

theorem gray_to_binary_correct:
  assumes "mode \<noteq> 0"
  shows "\<exists>t bin. gray_to_binary img out mode = Some (t, bin) \<and> t = mean_threshold img \<and> 10 \<le> t \<and> t \<le> 188
    \<and> (\<forall>i j. 0 \<le> i \<and> i \<le> 119 \<and> 0 \<le> j \<and> j \<le> 159 \<longrightarrow> px bin i j = (if px img i j > t then 255 else 0))"
proof -
  define t where "t = mean_threshold img"
  define bin where "bin = loop 0 119 (\<lambda>i. loop 0 159 (\<lambda>j. set_px i j (if px img i j > t then 255 else 0))) out"
  have t: "10 \<le> t" "t \<le> 188" using mean_threshold_range [of img] by (simp_all add: t_def)
  have "gray_to_binary img out mode = Some (t, bin)"
    using assms t by (simp add: gray_to_binary_def bin_def flip: t_def)
  moreover have "px bin i j = (if px img i j > t then 255 else 0)" if "0 \<le> i" "i \<le> 119" "0 \<le> j" "j \<le> 159" for i j
    unfolding bin_def using that by (subst px_rect) auto
  ultimately show ?thesis using t unfolding t_def by blast
qed

lemma gray_to_binary_correct_witness:
  "\<exists>t bin. gray_to_binary (\<lambda>_. 200) (\<lambda>_. 1) 1 = Some (t, bin) \<and> px bin 3 4 = 255"
proof -
  obtain t bin where "gray_to_binary (\<lambda>_. 200) (\<lambda>_. 1) 1 = Some (t, bin)" "t \<le> 188"
    "\<forall>i j. 0 \<le> i \<and> i \<le> 119 \<and> 0 \<le> j \<and> j \<le> 159 \<longrightarrow> px bin i j = (if px (\<lambda>_. 200) i j > t then 255 else 0)"
    using gray_to_binary_correct [of 1 "\<lambda>_. 200" "\<lambda>_. 1"] by auto
  moreover have "px (\<lambda>_. 200) 3 4 = 200" by (simp add: px_def)
  ultimately show ?thesis by (intro exI [of _ t] exI [of _ bin]) simp
qed

lemma length_histogram [simp]: "length (histogram img) = 256"
proof -
  have inner: "length (loop 0 119 (\<lambda>i h. let v = nat (px img j i) in h[v := u8 (h ! v + 1)]) h) = 256"
    if "length h = 256" for j h
    by (rule loop_induct [where P = "\<lambda>_ h. length h = 256"]) (use that in \<open>auto simp: Let_def\<close>)
  show ?thesis unfolding histogram_def
    by (rule loop_induct [where P = "\<lambda>_ h. length h = 256"]) (use inner in auto)
qed

lemma min_value_range: "int k \<le> min_value k xs \<and> min_value k xs \<le> int (k + length xs)"
proof (induction xs arbitrary: k)
  case (Cons x xs)
  from Cons.IH [of "Suc k"] show ?case by auto
qed simp

lemma histogram_sum_run:
  assumes "length h = 256" "0 \<le> mn"
  shows "runs (for_up (\<lambda>j n. do { v \<leftarrow> c_get h j; Some (Next (f n v j)) }) mn 256 (x::int)) (\<lambda>_. True)"
  by (rule for_up_inv) (use assms in \<open>auto simp: runs_simps\<close>)

lemma ostu_step_run:
  assumes "length h = 256" "0 \<le> j" "j < 256" "0 \<le> Threshold s" "Threshold s \<le> 255"
  shows "runs (ostu_step h A P j s) (flow_post (\<lambda>s. 0 \<le> Threshold s \<and> Threshold s \<le> 255)
    (\<lambda>s. 0 \<le> Threshold s \<and> Threshold s \<le> 255))"
  using assms by (simp add: ostu_step_def Let_def)

lemma max_value_run:
  assumes "length h = 256" "0 \<le> mn" "mn \<le> 256"
  shows "runs (max_value h mn) (\<lambda>m. m \<le> 255 \<and> (m < mn \<longrightarrow> m = 255))"
proof (cases "mn = 256")
  case True
  then show ?thesis by (simp add: max_value_def for_down_done)
next
  case False
  show ?thesis unfolding max_value_def
    by (rule for_down_rule [where I = "\<lambda>i m. m = i"]) (use assms False in \<open>auto simp: runs_simps\<close>)
qed

text \<open>
  The Otsu threshold, although its histogram counts modulo 256 and its search for the
  largest grey value does not move, never indexes outside the histogram and returns a
  grey value, for every image and every memory behind it.
\<close>

theorem ostu_threshold_total:
  "runs (ostu_threshold img) (\<lambda>t. 0 \<le> t \<and> t \<le> 255)"
proof -
  define h where "h = histogram img"
  define mn where "mn = min_value 0 h"
  have h: "length h = 256" by (simp add: h_def)
  have mn: "0 \<le> mn" "mn \<le> 256" using min_value_range [of 0 h] h by (simp_all add: mn_def)
  obtain mx where mx: "max_value h mn = Some mx" "mx \<le> 255" "mx < mn \<Longrightarrow> mx = 255"
    using max_value_run [OF h mn] by (auto elim!: runsE)
  have sum: "runs (for_up (\<lambda>j n. do { v \<leftarrow> c_get h j; Some (Next (f n v j)) }) mn (mx + 1) (0::int)) (\<lambda>_. True)" for f
    by (rule for_up_inv) (use h mn mx in \<open>auto simp: runs_simps\<close>)
  have main: "runs (for_up (ostu_step h A P) mn mx \<lparr>PixelBack = 0, PixelIntegralBack = 0, SigmaB = Fin (- 1), Threshold = 0\<rparr>)
      (\<lambda>s. 0 \<le> Threshold s \<and> Threshold s \<le> 255)" for A P
    by (rule for_up_inv) (use h mn mx in \<open>auto intro!: ostu_step_run\<close>)
  have m0: "0 \<le> mx" if "mx = mn" using that mn by simp
  have m1: "mn \<le> 255" if "mn + 1 = mx" using that mx by simp
  show ?thesis
    unfolding ostu_threshold_def Let_def h_def [symmetric] mn_def [symmetric] mx(1) bind.bind_lunit
    using m0 m1 mn mx main by (auto intro!: runs_bindI [OF sum] runs_bindI [OF main])
qed

section \<open>The threshold is the exact one\<close>

lemma loop_u32_sum:
  assumes "\<And>j. 0 \<le> j \<Longrightarrow> j \<le> n \<Longrightarrow> 0 \<le> f j \<and> f j \<le> c" "0 \<le> t" "0 \<le> n" "t + (n + 1) * c < 4294967296"
  shows "loop 0 n (\<lambda>j tv. u32 (tv + f j)) t = t + (\<Sum>j\<in>{0..n}. f j)"
proof -
  have c: "0 \<le> c" using assms(1) [of 0] assms(3) by simp
  have "- 1 \<le> n \<and> loop 0 n (\<lambda>j tv. u32 (tv + f j)) t = t + (\<Sum>j\<in>{0..n}. f j)
      \<and> 0 \<le> (\<Sum>j\<in>{0..n}. f j) \<and> (\<Sum>j\<in>{0..n}. f j) \<le> (n + 1) * c"
  proof (rule loop_induct [where P = "\<lambda>b u. - 1 \<le> b \<and> u = t + (\<Sum>j\<in>{0..b}. f j)
        \<and> 0 \<le> (\<Sum>j\<in>{0..b}. f j) \<and> (\<Sum>j\<in>{0..b}. f j) \<le> (b + 1) * c"])
    fix i u assume i: "0 \<le> i" "i \<le> n"
      and h: "- 1 \<le> i - 1 \<and> u = t + (\<Sum>j\<in>{0..i - 1}. f j) \<and> 0 \<le> (\<Sum>j\<in>{0..i - 1}. f j) \<and> (\<Sum>j\<in>{0..i - 1}. f j) \<le> (i - 1 + 1) * c"
    have "{0..i} = insert i {0..i - 1}" using i by auto
    then have s: "(\<Sum>j\<in>{0..i}. f j) = f i + (\<Sum>j\<in>{0..i - 1}. f j)" by simp
    define S where "S = (\<Sum>j\<in>{0..i - 1}. f j)"
    have A: "u = t + S" "0 \<le> S" "S \<le> i * c" using h by (simp_all add: S_def)
    have B: "i * c \<le> n * c" using i c by (intro mult_right_mono) simp_all
    have C: "(n + 1) * c = n * c + c" "(i + 1) * c = i * c + c" by (simp_all add: distrib_right)
    have F: "0 \<le> f i" "f i \<le> c" using assms(1) [OF i] by simp_all
    have "u + f i \<le> 4294967295" using A B C(1) F assms(4) by linarith
    then have "u32 (u + f i) = u + f i" using A(1,2) F(1) assms(2) by (intro u32_id) linarith+
    then show "- 1 \<le> i \<and> u32 (u + f i) = t + (\<Sum>j\<in>{0..i}. f j) \<and> 0 \<le> (\<Sum>j\<in>{0..i}. f j) \<and> (\<Sum>j\<in>{0..i}. f j) \<le> (i + 1) * c"
      unfolding s S_def [symmetric] using A F C(2) i by simp
  qed (use assms(3) in auto)
  then show ?thesis by simp
qed

definition gray_sum :: "image \<Rightarrow> int" where
  "gray_sum img = (\<Sum>y\<in>{0..119}. \<Sum>x\<in>{0..159}. px img y x)"

lemma tv_exact: "loop 0 159 (\<lambda>i. loop 0 119 (\<lambda>j tv. u32 (tv + px img j i))) 0 = gray_sum img"
proof -
  have col: "0 \<le> (\<Sum>j\<in>{0..119}. px img j i) \<and> (\<Sum>j\<in>{0..119}. px img j i) \<le> 30600" for i
  proof -
    have "(\<Sum>j\<in>{0..119::int}. px img j i) \<le> of_nat (card {0..119::int}) * 255" by (rule sum_bounded_above) simp
    then show ?thesis by (simp add: sum_nonneg)
  qed
  have "0 \<le> (159::int) \<and> loop 0 159 (\<lambda>i. loop 0 119 (\<lambda>j tv. u32 (tv + px img j i))) 0 = (\<Sum>i\<in>{0..159}. \<Sum>j\<in>{0..119}. px img j i)
      \<and> 0 \<le> (\<Sum>i\<in>{0..159::int}. \<Sum>j\<in>{0..119}. px img j i) \<and> (\<Sum>i\<in>{0..159::int}. \<Sum>j\<in>{0..119}. px img j i) \<le> (159 + 1) * 30600"
  proof (rule loop_induct [where P = "\<lambda>b u. - 1 \<le> b \<and> u = (\<Sum>i\<in>{0..b}. \<Sum>j\<in>{0..119}. px img j i)
        \<and> 0 \<le> (\<Sum>i\<in>{0..b}. \<Sum>j\<in>{0..119}. px img j i) \<and> (\<Sum>i\<in>{0..b}. \<Sum>j\<in>{0..119}. px img j i) \<le> (b + 1) * 30600"
        and a = 0 and b = 159, THEN conj_forward])
    fix i u assume i: "0 \<le> i" "i \<le> (159::int)"
      and h: "- 1 \<le> i - 1 \<and> u = (\<Sum>k\<in>{0..i - 1}. \<Sum>j\<in>{0..119}. px img j k)
        \<and> 0 \<le> (\<Sum>k\<in>{0..i - 1}. \<Sum>j\<in>{0..119}. px img j k) \<and> (\<Sum>k\<in>{0..i - 1}. \<Sum>j\<in>{0..119}. px img j k) \<le> (i - 1 + 1) * 30600"
    have "{0..i} = insert i {0..i - 1}" using i by auto
    then have s: "(\<Sum>k\<in>{0..i}. \<Sum>j\<in>{0..119}. px img j k)
        = (\<Sum>j\<in>{0..119}. px img j i) + (\<Sum>k\<in>{0..i - 1}. \<Sum>j\<in>{0..119}. px img j k)" by simp
    have "loop 0 119 (\<lambda>j tv. u32 (tv + px img j i)) u = u + (\<Sum>j\<in>{0..119}. px img j i)"
      by (rule loop_u32_sum [where c = 255]) (use h i in auto)
    then show "- 1 \<le> i \<and> loop 0 119 (\<lambda>j tv. u32 (tv + px img j i)) u = (\<Sum>k\<in>{0..i}. \<Sum>j\<in>{0..119}. px img j k)
        \<and> 0 \<le> (\<Sum>k\<in>{0..i}. \<Sum>j\<in>{0..119}. px img j k) \<and> (\<Sum>k\<in>{0..i}. \<Sum>j\<in>{0..119}. px img j k) \<le> (i + 1) * 30600"
      using h i col [of i] unfolding s by auto
  qed auto
  moreover have "(\<Sum>i\<in>{0..159}. \<Sum>j\<in>{0..119}. px img j i) = gray_sum img" unfolding gray_sum_def by (rule sum.swap)
  ultimately show ?thesis by simp
qed

text \<open>
  C32: the threshold of the frame, accumulated column by column in 32 bits and divided twice, is
  seven tenths of the exact mean of all 19200 pixels plus ten, and storing it in a byte
  keeps it.
\<close>

theorem mean_threshold_exact:
  "u8 (mean_threshold img) = (\<Sum>y\<in>{0..119}. \<Sum>x\<in>{0..159}. px img y x) div 19200 * 7 div 10 + 10"
proof -
  have "0 \<le> gray_sum img" by (simp add: gray_sum_def sum_nonneg)
  moreover have "gray_sum img \<le> 4896000" using tv_bound [of img] by (simp add: tv_exact)
  ultimately have "0 \<le> gray_sum img div 19200" "gray_sum img div 19200 \<le> 255" by linarith+
  then have "mean_threshold img = gray_sum img div 19200 * 7 div 10 + 10"
    by (simp add: mean_threshold_def Let_def tv_exact sdiv_pos div_mult2_eq [symmetric] zdiv_zmult2_eq [symmetric])
  moreover have "0 \<le> mean_threshold img" "mean_threshold img \<le> 188" using mean_threshold_range [of img] by simp_all
  ultimately show ?thesis by (simp add: gray_sum_def u8_def)
qed

end
