(* ===== verification/Util.thy ===== *)
theory Util
  imports FloatModel
begin

text \<open>
  \<open>util.c\<close>: the limiters, the wrapping menu counter, and the two parsers of command
  arguments.  A C string is the list of its characters before the NUL; reading at its end
  gives the NUL.
\<close>

section \<open>Limiters\<close>

definition limit_loop :: "int \<Rightarrow> int \<Rightarrow> int \<Rightarrow> int option" where
  "limit_loop x a b = (let i = i32 (x + 1); d = i32 (b - a + 1) in
     if i > b then (if d = 0 then None else Some (i smod d)) else Some i)"

definition limit_int :: "int \<Rightarrow> int \<Rightarrow> int" where
  "limit_int x y = (if x > y then y else if x < i32 (- y) then i32 (- y) else x)"

definition limit_float :: "fl \<Rightarrow> fl \<Rightarrow> fl" where
  "limit_float x y = (if fl_lt y x then y else if fl_lt x (fl_neg y) then fl_neg y else x)"

definition limit_ab_int :: "int \<Rightarrow> int \<Rightarrow> int \<Rightarrow> int" where
  "limit_ab_int x a b = (let x = (if x < a then a else x) in if x > b then b else x)"

definition limit_ab_float :: "fl \<Rightarrow> fl \<Rightarrow> fl \<Rightarrow> fl" where
  "limit_ab_float x a b = (let x = (if fl_lt x a then a else x) in if fl_lt b x then b else x)"

lemma limit_int_range:
  assumes "0 \<le> y" "y \<le> 2147483647"
  shows "- y \<le> limit_int x y" "limit_int x y \<le> y"
  using assms by (simp_all add: limit_int_def)

lemma limit_int_id: "0 \<le> y \<Longrightarrow> y \<le> 2147483647 \<Longrightarrow> - y \<le> x \<Longrightarrow> x \<le> y \<Longrightarrow> limit_int x y = x"
  by (simp add: limit_int_def)

section \<open>Parsers\<close>

definition str2bool :: "string \<Rightarrow> int" where
  "str2bool str = (if str = ''0'' then 0 else 1)"

definition peek :: "string \<Rightarrow> int" where
  "peek str = (case str of [] \<Rightarrow> 0 | c # _ \<Rightarrow> int (of_char c))"

definition is_digit :: "char \<Rightarrow> bool" where
  "is_digit c \<longleftrightarrow> 48 \<le> (of_char c :: nat) \<and> (of_char c :: nat) \<le> 57"

definition char_val :: "char \<Rightarrow> int" where
  "char_val c = int (of_char c)"

text \<open>\<open>s = s * 10.0 + *str - '0'\<close>: three roundings.\<close>

fun atof_int :: "fl \<Rightarrow> string \<Rightarrow> fl \<times> string" where
  "atof_int s [] = (s, [])"
| "atof_int s (c # str) =
     (if is_digit c \<and> char_val c \<noteq> 46 then
        atof_int (fl_sub rd64 (fl_add rd64 (fl_mul rd64 s (Fin 10)) (Fin (of_int (char_val c)))) (Fin 48)) str
      else (s, c # str))"

text \<open>\<open>s = s + (*str - '0') / d; d *= 10.0\<close>\<close>

fun atof_frac :: "fl \<Rightarrow> fl \<Rightarrow> string \<Rightarrow> fl \<times> string" where
  "atof_frac s d [] = (s, [])"
| "atof_frac s d (c # str) =
     (if is_digit c then
        atof_frac (fl_add rd64 s (fl_div rd64 (Fin (of_int (char_val c - 48))) d)) (fl_mul rd64 d (Fin 10)) str
      else (s, c # str))"

fun atof_exp :: "int \<Rightarrow> string \<Rightarrow> int \<times> string" where
  "atof_exp j [] = (j, [])"
| "atof_exp j (c # str) =
     (if is_digit c then atof_exp (i32 (j * 10 + char_val c - 48)) str else (j, c # str))"

text \<open>\<open>while (jishu > 0) { s *= 10; jishu--; }\<close> and the division loop; they end with \<open>jishu\<close> at
  most 0.\<close>

definition scale :: "(fl \<Rightarrow> fl) \<Rightarrow> int \<Rightarrow> fl \<Rightarrow> fl \<times> int" where
  "scale f j s = ((f ^^ nat j) s, min j 0)"

definition atof_sci :: "fl \<Rightarrow> string \<Rightarrow> fl" where
  "atof_sci s str =
     (case str of
        c # str \<Rightarrow>
          if char_val c = 101 \<or> char_val c = 69 then
            let (s, j, str) =
                  (case str of
                     c # r \<Rightarrow>
                       if char_val c = 43 then
                         let (j, r) = atof_exp 0 r; (s, j) = scale (\<lambda>s. fl_mul rd64 s (Fin 10)) j s in (s, j, r)
                       else (s, 0, c # r)
                   | [] \<Rightarrow> (s, 0, []))
            in (case str of
                  c # r \<Rightarrow>
                    if char_val c = 45 then
                      let (j, r) = atof_exp j r; (s, j) = scale (\<lambda>s. fl_div rd64 s (Fin 10)) j s in s
                    else s
                | [] \<Rightarrow> s)
          else s
      | [] \<Rightarrow> s)"

definition myatof :: "string \<Rightarrow> fl" where
  "myatof str = (
     let str = dropWhile (\<lambda>c. char_val c = 32) str;
         falg = (peek str = 45);
         str = (if falg then tl str else str) in
     if \<not> (case str of [] \<Rightarrow> False | c # _ \<Rightarrow> is_digit c) then Fin 0
     else
       let (s, str) = atof_int (Fin 0) str;
           str = (if peek str = 46 then tl str else str);
           (s, str) = atof_frac s (Fin 10) str;
           s = atof_sci s str
       in fl_mul rd64 s (Fin (if falg then -1 else 1)))"

section \<open>Reading back an integer\<close>

text \<open>The decimal digits of a number, most significant first.\<close>

fun show_nat :: "nat \<Rightarrow> string" where
  "show_nat n = (if n < 10 then [char_of (48 + n)] else show_nat (n div 10) @ [char_of (48 + n mod 10)])"

declare show_nat.simps [simp del]

definition show_int :: "int \<Rightarrow> string" where
  "show_int n = (if n < 0 then CHR ''-'' # show_nat (nat (- n)) else show_nat (nat n))"

lemma digit_char [simp]:
  assumes "d < 10"
  shows "is_digit (char_of (48 + d))" "char_val (char_of (48 + d)) = 48 + int d"
    "(of_char (char_of (48 + d) :: char) :: nat) = 48 + d"
  using assms by (simp_all add: is_digit_def char_val_def of_char_of)

lemma atof_int_step:
  assumes "d < 10" "10 * n + d \<le> 9007199254740944"
  shows "atof_int (Fin (of_nat n)) (char_of (48 + d) # str) = atof_int (Fin (of_nat (10 * n + d))) str"
proof -
  have a: "rd64 (of_nat n * 10) = Fin (of_nat (10 * n))"
    using rd64_int [of "int (10 * n)"] assms by (simp add: mult.commute)
  have b: "rd64 (of_nat (10 * n) + (48 + of_nat d)) = Fin (of_nat (10 * n) + (48 + of_nat d))"
    using rd64_int [of "int (10 * n) + (48 + int d)"] assms by simp
  have c: "rd64 (of_nat (10 * n) + (48 + of_nat d) - 48) = Fin (of_nat (10 * n + d))"
    using rd64_int [of "int (10 * n + d)"] assms by simp
  show ?thesis using assms(1) a b c
    by (simp add: fl_sub_def)
qed

lemma atof_int_show:
  "n \<le> 9007199254740944 \<Longrightarrow> atof_int (Fin 0) (show_nat n @ r) = atof_int (Fin (of_nat n)) r"
proof (induction n arbitrary: r rule: show_nat.induct)
  case (1 n)
  show ?case
  proof (cases "n < 10")
    case True
    then have "show_nat n = [char_of (48 + n)]" by (subst show_nat.simps) simp
    then show ?thesis using atof_int_step [of n 0 r] True by simp
  next
    case False
    then have s: "show_nat n = show_nat (n div 10) @ [char_of (48 + n mod 10)]" by (subst show_nat.simps) simp
    have "n div 10 \<le> 9007199254740944" using "1.prems" by simp
    from "1.IH" [OF False this] have "atof_int (Fin 0) (show_nat n @ r)
        = atof_int (Fin (of_nat (n div 10))) (char_of (48 + n mod 10) # r)" by (simp add: s)
    also have "\<dots> = atof_int (Fin (of_nat (10 * (n div 10) + n mod 10))) r"
      by (rule atof_int_step) (use "1.prems" in simp_all)
    finally show ?thesis by (simp only: mult_div_mod_eq)
  qed
qed

lemma show_nat_Cons: "\<exists>c str. show_nat n = c # str \<and> is_digit c"
proof (induction n rule: show_nat.induct)
  case (1 n)
  show ?case
  proof (cases "n < 10")
    case True
    then show ?thesis by (subst show_nat.simps) simp
  next
    case False
    with "1.IH" obtain c str where "show_nat (n div 10) = c # str" "is_digit c" by blast
    with False show ?thesis by (subst show_nat.simps) simp
  qed
qed

lemma digit_not: "is_digit c \<Longrightarrow> char_val c \<noteq> 32 \<and> char_val c \<noteq> 45"
  by (auto simp: is_digit_def char_val_def)

lemma myatof_nat:
  assumes "n \<le> 9007199254740944"
  shows "myatof (show_nat n) = Fin (of_nat n)" and "myatof (CHR ''-'' # show_nat n) = Fin (- of_nat n)"
proof -
  obtain c str where c: "show_nat n = c # str" "is_digit c" using show_nat_Cons by blast
  have i: "atof_int (Fin 0) (c # str) = (Fin (of_nat n), [])"
    using atof_int_show [OF assms, of "[]"] c by simp
  have r: "rd64 (of_nat n) = Fin (of_nat n)" "rd64 (- of_nat n) = Fin (- of_nat n)"
    using rd64_int [of "int n"] rd64_int [of "- int n"] assms by simp_all
  have p: "peek (c # str) \<noteq> 45" "peek [] = 0" "char_val CHR ''-'' = 45" "peek (CHR ''-'' # c # str) = 45"
    using digit_not [OF c(2)] by (simp_all add: peek_def char_val_def)
  show "myatof (show_nat n) = Fin (of_nat n)"
    using c(2) i p r digit_not [OF c(2)]
    by (simp add: myatof_def c(1) atof_sci_def Let_def del: atof_int.simps)
  show "myatof (CHR ''-'' # show_nat n) = Fin (- of_nat n)"
    using c(2) i p r
    by (simp add: myatof_def c(1) atof_sci_def Let_def del: atof_int.simps)
qed

section \<open>Properties\<close>

text \<open>
  C5: \<open>myatof\<close> reads back every decimal integer of magnitude up to 9007199254740944 without
  rounding error, although each digit costs three rounded double operations.
\<close>

theorem myatof_show_int:
  assumes "\<bar>n\<bar> \<le> 9007199254740944"
  shows "myatof (show_int n) = Fin (of_int n)"
  using assms myatof_nat [of "nat n"] myatof_nat [of "nat (- n)"] by (simp add: show_int_def)

lemma myatof_show_int_witness: "myatof (show_int (- 305)) = Fin (- 305)"
  using myatof_show_int [of "- 305"] by simp

text \<open>
  With lower bound 0, as every caller has it, the wrapping menu counter is the cyclic
  successor on \<open>0..b\<close>: it steps by one below \<open>b\<close>, goes from \<open>b\<close> to 0, and never divides by
  zero or overflows.
\<close>

theorem limit_loop_cycle:
  assumes "0 \<le> x" "x \<le> b" "b < 2147483647"
  shows "limit_loop x 0 b = Some ((x + 1) mod (b + 1))"
proof -
  have i: "i32 (x + 1) = x + 1" "i32 (b - 0 + 1) = b + 1" using assms by simp_all
  show ?thesis
  proof (cases "x = b")
    case True
    have "(b + 1) smod (b + 1) = (b + 1) mod (b + 1)"
      using assms by (simp add: signed_modulo_int_def signed_divide_int_def sgn_if)
    then show ?thesis using True i assms by (simp add: limit_loop_def Let_def)
  next
    case False
    then show ?thesis using i assms by (simp add: limit_loop_def Let_def)
  qed
qed

lemma limit_loop_cycle_witness: "limit_loop 2 0 2 = Some 0"
  using limit_loop_cycle [of 2 2] by simp

end
