(* ===== verification/Actuators.thy ===== *)
theory Actuators
  imports Util
begin

text \<open>
  The outputs: \<open>servo.c\<close> and \<open>Carlibs/motor.c\<close>.  The PWM peripheral is, per channel, the
  frequency it was set up with and the duty it was last given; \<open>pwm_init\<close> and \<open>pwm_duty\<close> of
  \<open>zf_pwm.c\<close> write them (a duty argument is a \<open>uint32\<close>).  \<open>PwmDriver\<close> models the registers behind them.
\<close>

section \<open>PWM channels\<close>

datatype pwmch = PWM4_MODULE2_CHA_C30 | PWM1_MODULE0_CHA_D12 | PWM1_MODULE0_CHB_D13
  | PWM1_MODULE3_CHA_D0 | PWM1_MODULE3_CHB_D1 | PWM2_MODULE3_CHA_D2 | PWM2_MODULE3_CHB_D3

record pwm =
  pwm_freq :: "pwmch \<Rightarrow> int"
  duty :: "pwmch \<Rightarrow> int"

definition pwm_init :: "pwmch \<Rightarrow> int \<Rightarrow> int \<Rightarrow> pwm \<Rightarrow> pwm" where
  "pwm_init ch f d p = p\<lparr>pwm_freq := (pwm_freq p)(ch := u32 f), duty := (duty p)(ch := u32 d)\<rparr>"

definition pwm_duty :: "pwmch \<Rightarrow> int \<Rightarrow> pwm \<Rightarrow> pwm" where
  "pwm_duty ch d p = p\<lparr>duty := (duty p)(ch := u32 d)\<rparr>"

section \<open>Servos\<close>

definition servo_init :: "pwm \<Rightarrow> pwm" where
  "servo_init p = pwm_init PWM1_MODULE0_CHB_D13 50 770
     (pwm_init PWM1_MODULE0_CHA_D12 50 770 (pwm_init PWM4_MODULE2_CHA_C30 50 770 p))"

text \<open>\<open>MID + (int)(tmp / 1000 * HALF)\<close> with \<open>float tmp = limit_int(angle, 1000)\<close>\<close>

definition servo_duty :: "int \<Rightarrow> int \<Rightarrow> int \<Rightarrow> int option" where
  "servo_duty mid half angle = do {
     let tmp = rd32 (of_int (limit_int angle 1000));
     t \<leftarrow> fl_to_int (- 2147483648) 2147483647
            (fl_mul rd32 (fl_div rd32 tmp (Fin 1000)) (Fin (of_int half)));
     Some (i32 (mid + t)) }"

definition servo1_set_angle :: "int \<Rightarrow> pwm \<Rightarrow> pwm option" where
  "servo1_set_angle angle p = do {
     set_duty \<leftarrow> servo_duty 770 80 angle;
     Some (pwm_duty PWM4_MODULE2_CHA_C30 set_duty p) }"

definition servo2_set_angle :: "int \<Rightarrow> pwm \<Rightarrow> pwm option" where
  "servo2_set_angle angle p = do {
     set_duty \<leftarrow> servo_duty 770 80 angle;
     Some (pwm_duty PWM1_MODULE0_CHA_D12 set_duty p) }"

definition servo3_set_angle :: "int \<Rightarrow> pwm \<Rightarrow> pwm option" where
  "servo3_set_angle angle p = do {
     set_duty \<leftarrow> servo_duty 770 80 angle;
     Some (pwm_duty PWM1_MODULE0_CHB_D13 set_duty p) }"

section \<open>Motors\<close>

definition motor_create :: "int \<Rightarrow> pwm \<Rightarrow> int \<times> pwm" where
  "motor_create index p = (index,
     if index = 1 then pwm_init PWM1_MODULE3_CHB_D1 20000 0 (pwm_init PWM1_MODULE3_CHA_D0 20000 0 p)
     else if index = 2 then pwm_init PWM2_MODULE3_CHB_D3 20000 0 (pwm_init PWM2_MODULE3_CHA_D2 20000 0 p)
     else p)"

definition motor_run :: "int \<Rightarrow> int \<Rightarrow> pwm \<Rightarrow> pwm" where
  "motor_run index thousands p = (
     let thousands = i32 (10 * limit_int thousands 1000) in
     if index = 1 then
       (if thousands \<ge> 0 then
          pwm_duty PWM1_MODULE3_CHB_D1 0 (pwm_duty PWM1_MODULE3_CHA_D0 thousands p)
        else
          let thousands = i32 (- thousands) in
          pwm_duty PWM1_MODULE3_CHB_D1 thousands (pwm_duty PWM1_MODULE3_CHA_D0 0 p))
     else if index = 2 then
       (if thousands \<ge> 0 then
          pwm_duty PWM2_MODULE3_CHB_D3 0 (pwm_duty PWM2_MODULE3_CHA_D2 thousands p)
        else
          let thousands = i32 (- thousands) in
          pwm_duty PWM2_MODULE3_CHB_D3 thousands (pwm_duty PWM2_MODULE3_CHA_D2 0 p))
     else p)"

section \<open>What a servo command does\<close>

lemma servo_duty_run:
  obtains t where "servo_duty 770 80 a = Some (770 + t)" "- 80 \<le> t" "t \<le> 80"
    "fl_to_int (- 2147483648) 2147483647
       (fl_mul rd32 (fl_div rd32 (Fin (of_int (limit_int a 1000))) (Fin 1000)) (Fin 80)) = Some t"
proof -
  define n where "n = limit_int a 1000"
  have n: "- 1000 \<le> n" "n \<le> 1000" using limit_int_range [of 1000 a] by (simp_all add: n_def)
  have tmp: "rd32 (of_int n) = Fin (of_int n)" using n by (intro rd32_int) simp
  have n': "- 1000 \<le> (of_int n :: rat)" "(of_int n :: rat) \<le> 1000"
    using n of_int_le_iff [of "- 1000" n, where ?'a = rat] of_int_le_iff [of n 1000, where ?'a = rat] by simp_all
  have "fl_in (- 1) 1 (rd32 (of_int n / 1000))"
    using rd32_in_int [of "- 1" "of_int n / 1000" 1] n' by simp
  then obtain q where q: "rd32 (of_int n / 1000) = Fin q" "- 1 \<le> q" "q \<le> 1" by (auto simp: fl_in_iff)
  have "fl_in (- 80) 80 (rd32 (q * 80))"
    using rd32_in_int [of "- 80" "q * 80" 80] q by simp
  then have "runs (fl_to_int (- 2147483648) 2147483647 (rd32 (q * 80))) (\<lambda>t. - 80 \<le> t \<and> t \<le> 80)"
    using fl_to_int_in [of "- 80" 80 "rd32 (q * 80)" "- 2147483648" 2147483647] by simp
  then obtain t where t: "fl_to_int (- 2147483648) 2147483647 (rd32 (q * 80)) = Some t" "- 80 \<le> t" "t \<le> 80"
    by (auto elim: runsE)
  show thesis
  proof (rule that)
    show "servo_duty 770 80 a = Some (770 + t)"
      using t q tmp by (simp add: servo_duty_def flip: n_def)
    show "fl_to_int (- 2147483648) 2147483647
       (fl_mul rd32 (fl_div rd32 (Fin (of_int (limit_int a 1000))) (Fin 1000)) (Fin 80)) = Some t"
      using t q by (simp flip: n_def)
  qed (use t in simp_all)
qed

lemma rd32_mono:
  assumes "x \<le> y" "rd32 x = Fin a" "rd32 y = Fin b"
  shows "a \<le> b"
  using assms rnd_mono [OF assms(1), of 24 "- 149"]
  by (auto simp: rd32_def to_fl_def Let_def split: if_splits)

lemma fl_to_int_mono:
  assumes "a \<le> b" "fl_to_int lo hi (Fin a) = Some m" "fl_to_int lo hi (Fin b) = Some n"
  shows "m \<le> n"
proof -
  have "(if 0 \<le> a then \<lfloor>a\<rfloor> else \<lceil>a\<rceil>) \<le> (if 0 \<le> b then \<lfloor>b\<rfloor> else \<lceil>b\<rceil>)"
  proof -
    consider "0 \<le> a" | "a < 0" "0 \<le> b" | "b < 0" using assms(1) by linarith
    then show ?thesis
    proof cases
      case 1
      then show ?thesis using assms(1) floor_mono [OF assms(1)] by simp
    next
      case 2
      then have "\<lceil>a\<rceil> \<le> 0" "0 \<le> \<lfloor>b\<rfloor>" by (simp_all add: ceiling_le_iff)
      then have "\<lceil>a\<rceil> \<le> \<lfloor>b\<rfloor>" by (rule order_trans)
      then show ?thesis using 2 by simp
    next
      case 3
      then show ?thesis using assms(1) ceiling_mono [OF assms(1)] by simp
    qed
  qed
  then show ?thesis using assms(2,3) by (auto simp: fl_to_int_def Let_def split: if_splits)
qed

lemma limit_int_mono: "a \<le> b \<Longrightarrow> limit_int a 1000 \<le> limit_int b 1000"
  by (simp add: limit_int_def)

lemma servo_duty_mono:
  assumes "a \<le> b" "servo_duty 770 80 a = Some m" "servo_duty 770 80 b = Some n"
  shows "m \<le> n"
proof -
  obtain s where s: "servo_duty 770 80 a = Some (770 + s)" "- 80 \<le> s" "s \<le> 80"
    and es: "fl_to_int (- 2147483648) 2147483647
       (fl_mul rd32 (fl_div rd32 (Fin (of_int (limit_int a 1000))) (Fin 1000)) (Fin 80)) = Some s"
    by (rule servo_duty_run)
  obtain t where t: "servo_duty 770 80 b = Some (770 + t)" "- 80 \<le> t" "t \<le> 80"
    and et: "fl_to_int (- 2147483648) 2147483647
       (fl_mul rd32 (fl_div rd32 (Fin (of_int (limit_int b 1000))) (Fin 1000)) (Fin 80)) = Some t"
    by (rule servo_duty_run)
  obtain qa where qa: "rd32 (of_int (limit_int a 1000) / 1000) = Fin qa"
    using es by (cases "rd32 (of_int (limit_int a 1000) / 1000)") (auto simp: fl_to_int_def fl_inf_def)
  obtain qb where qb: "rd32 (of_int (limit_int b 1000) / 1000) = Fin qb"
    using et by (cases "rd32 (of_int (limit_int b 1000) / 1000)") (auto simp: fl_to_int_def fl_inf_def)
  obtain ra where ra: "rd32 (qa * 80) = Fin ra"
    using es qa by (cases "rd32 (qa * 80)") (auto simp: fl_to_int_def)
  obtain rb where rb: "rd32 (qb * 80) = Fin rb"
    using et qb by (cases "rd32 (qb * 80)") (auto simp: fl_to_int_def)
  have "(of_int (limit_int a 1000) :: rat) / 1000 \<le> of_int (limit_int b 1000) / 1000"
    using limit_int_mono [OF assms(1)] by (simp add: divide_right_mono)
  then have "qa \<le> qb" using qa qb by (rule rd32_mono)
  then have "qa * 80 \<le> qb * 80" by simp
  then have "ra \<le> rb" using ra rb by (rule rd32_mono)
  moreover have "fl_to_int (- 2147483648) 2147483647 (Fin ra) = Some s" using es qa ra by simp
  moreover have "fl_to_int (- 2147483648) 2147483647 (Fin rb) = Some t" using et qb rb by simp
  ultimately have "s \<le> t" by (rule fl_to_int_mono)
  then show ?thesis using assms s t by simp
qed

section \<open>Properties\<close>

text \<open>
  C9: the steering servo is never driven outside its mechanical range: for every command
  \<open>servo1_set_angle\<close> sets one duty between 690 and 850, exactly the middle position for 0 and
  exactly the end positions at -1000 and 1000 and beyond, and a larger command never gives a
  smaller duty; no other channel changes.
\<close>

theorem servo1_set_angle_safe:
  "\<exists>d e. servo1_set_angle a p = Some (p\<lparr>duty := (duty p)(PWM4_MODULE2_CHA_C30 := d)\<rparr>)
     \<and> servo1_set_angle b p = Some (p\<lparr>duty := (duty p)(PWM4_MODULE2_CHA_C30 := e)\<rparr>)
     \<and> 690 \<le> d \<and> d \<le> 850 \<and> (a \<le> b \<longrightarrow> d \<le> e)
     \<and> (a = 0 \<longrightarrow> d = 770) \<and> (a \<ge> 1000 \<longrightarrow> d = 850) \<and> (a \<le> - 1000 \<longrightarrow> d = 690)"
proof -
  obtain t where t: "servo_duty 770 80 a = Some (770 + t)" "- 80 \<le> t" "t \<le> 80"
    and et: "fl_to_int (- 2147483648) 2147483647
       (fl_mul rd32 (fl_div rd32 (Fin (of_int (limit_int a 1000))) (Fin 1000)) (Fin 80)) = Some t"
    by (rule servo_duty_run)
  obtain u where u: "servo_duty 770 80 b = Some (770 + u)" "- 80 \<le> u" "u \<le> 80"
    by (rule servo_duty_run)
  have one: "rd32 1 = Fin 1" "rd32 (- 1) = Fin (- 1)" "rd32 80 = Fin 80" "rd32 (- 80) = Fin (- 80)"
    "rd32 0 = Fin 0"
    using rd32_int [of 1] rd32_int [of "- 1"] rd32_int [of 80] rd32_int [of "- 80"] rd32_int [of 0] by simp_all
  have ends: "t = 0" if "limit_int a 1000 = 0" using et that one by (simp add: fl_to_int_def)
  moreover have "t = 80" if "limit_int a 1000 = 1000" using et that one by (simp add: fl_to_int_def)
  moreover have "t = - 80" if "limit_int a 1000 = - 1000" using et that one by (simp add: fl_to_int_def)
  moreover have "a = 0 \<Longrightarrow> limit_int a 1000 = 0" "a \<ge> 1000 \<Longrightarrow> limit_int a 1000 = 1000"
    "a \<le> - 1000 \<Longrightarrow> limit_int a 1000 = - 1000" by (simp_all add: limit_int_def)
  moreover have "a \<le> b \<Longrightarrow> 770 + t \<le> 770 + u" by (rule servo_duty_mono [OF _ t(1) u(1)])
  moreover have "servo1_set_angle a p = Some (p\<lparr>duty := (duty p)(PWM4_MODULE2_CHA_C30 := 770 + t)\<rparr>)"
    "servo1_set_angle b p = Some (p\<lparr>duty := (duty p)(PWM4_MODULE2_CHA_C30 := 770 + u)\<rparr>)"
    using t u by (simp_all add: servo1_set_angle_def pwm_duty_def)
  ultimately show ?thesis
    by (intro exI [of _ "770 + t"] exI [of _ "770 + u"] conjI impI) (use t in simp_all)
qed

definition pwm_off :: pwm where
  "pwm_off = \<lparr>pwm_freq = (\<lambda>_. 0), duty = (\<lambda>_. 0)\<rparr>"

lemma servo1_set_angle_safe_witness:
  "\<exists>d e. servo1_set_angle (- 2000) pwm_off = Some (pwm_off\<lparr>duty := (duty pwm_off)(PWM4_MODULE2_CHA_C30 := d)\<rparr>)
     \<and> servo1_set_angle 300 pwm_off = Some (pwm_off\<lparr>duty := (duty pwm_off)(PWM4_MODULE2_CHA_C30 := e)\<rparr>)
     \<and> d \<le> e \<and> d = 690"
  using servo1_set_angle_safe [of "- 2000" pwm_off 300] by auto

text \<open>
  \<open>motor_run\<close> drives a motor from one side of its bridge only: of the two channels of
  motor 1 the one of the command's direction gets ten times the command limited to
  1000 (so at most 10000, the full period), the other one gets 0, and the
  channels of motor 2 and of the servos keep their duty.
\<close>

theorem motor_run_one_side:
  "duty (motor_run 1 t p) PWM1_MODULE3_CHA_D0 = 10 * max 0 (min t 1000)
   \<and> duty (motor_run 1 t p) PWM1_MODULE3_CHB_D1 = 10 * max 0 (min (- t) 1000)
   \<and> (\<forall>ch. duty (motor_run 1 t p) ch \<noteq> duty p ch
        \<longrightarrow> ch \<in> {PWM1_MODULE3_CHA_D0, PWM1_MODULE3_CHB_D1})"
proof -
  have l: "limit_int t 1000 = (if t > 1000 then 1000 else if t < - 1000 then - 1000 else t)"
    by (simp add: limit_int_def)
  show ?thesis
    by (auto simp: motor_run_def Let_def pwm_duty_def l max_def min_def)
qed

lemma motor_run_one_side_witness:
  "duty (motor_run 1 (- 1500) pwm_off) PWM1_MODULE3_CHA_D0 = 0
   \<and> duty (motor_run 1 (- 1500) pwm_off) PWM1_MODULE3_CHB_D1 = 10000
   \<and> duty (motor_run 1 (- 1500) pwm_off) PWM2_MODULE3_CHA_D2 = 0"
  using motor_run_one_side [of "- 1500" pwm_off] by (auto simp: pwm_off_def)

end
