(* ===== verification/Pid.thy ===== *)
theory Pid
  imports FloatModel
begin

text \<open>
  \<open>Carlibs/controller.c\<close> and its two implementations, the incremental and the positional PID
  controller.  As in C, the implementations extend the base structure; the function
  pointers of \<open>struct controller\<close> are the constructor of \<open>controller_t\<close>, by which
  \<open>controller_update\<close> and \<open>controller_set_param\<close> dispatch.  Arithmetic is binary32, each
  operation rounded on its own.  \<open>tick\<close> is what \<open>rt_tick_get\<close> returns.
\<close>

section \<open>Structures\<close>

record controller =
  target :: fl
  ctl_output :: fl
  sample_time :: int

record inc_pid_controller = controller +
  inc_kp :: fl
  inc_ki :: fl
  inc_kd :: fl
  inc_minimum :: fl
  inc_maximum :: fl
  inc_p_error :: fl
  inc_i_error :: fl
  inc_d_error :: fl
  inc_error :: fl
  inc_error_l :: fl
  inc_error_ll :: fl
  inc_last_out :: fl
  inc_last_time :: int

record pos_pid_controller = controller +
  pos_kp :: fl
  pos_ki :: fl
  pos_kd :: fl
  pos_minimum :: fl
  pos_maximum :: fl
  anti_windup_value :: fl
  pos_p_error :: fl
  pos_i_error :: fl
  pos_d_error :: fl
  integral :: fl
  pos_error :: fl
  pos_error_l :: fl
  pos_last_out :: fl
  pos_last_time :: int

datatype controller_t = Inc inc_pid_controller | Pos pos_pid_controller

abbreviation "fadd \<equiv> fl_add rd32"
abbreviation "fsub \<equiv> fl_sub rd32"
abbreviation "fmul \<equiv> fl_mul rd32"
abbreviation "fdiv \<equiv> fl_div rd32"

text \<open>\<open>if (x > maximum) x = maximum; if (x < minimum) x = minimum;\<close>\<close>

definition clamp :: "fl \<Rightarrow> fl \<Rightarrow> fl \<Rightarrow> fl" where
  "clamp maximum minimum x =
     (let x = (if fl_lt maximum x then maximum else x) in if fl_lt x minimum then minimum else x)"

section \<open>The incremental controller\<close>

definition inc_pid_controller_set_param :: "fl \<Rightarrow> fl \<Rightarrow> fl \<Rightarrow> inc_pid_controller \<Rightarrow> inc_pid_controller" where
  "inc_pid_controller_set_param kp ki kd c = c\<lparr>inc_kp := kp, inc_ki := ki, inc_kd := kd\<rparr>"

definition inc_pid_controller_update :: "int \<Rightarrow> fl \<Rightarrow> inc_pid_controller \<Rightarrow> inc_pid_controller" where
  "inc_pid_controller_update tick current_point c = (
     let c = c\<lparr>inc_last_time := tick\<rparr>;
         c = c\<lparr>inc_error := fsub (target c) current_point\<rparr>;
         c = c\<lparr>inc_p_error := fmul (inc_kp c) (fsub (inc_error c) (inc_error_l c))\<rparr>;
         c = c\<lparr>inc_i_error := fmul (inc_ki c) (inc_error c)\<rparr>;
         c = c\<lparr>inc_d_error := fmul (inc_kd c)
                (fadd (fsub (inc_error c) (fmul (Fin 2) (inc_error_l c))) (inc_error_ll c))\<rparr>;
         c = c\<lparr>inc_last_out := fadd (inc_last_out c)
                (fadd (fadd (inc_p_error c) (inc_i_error c)) (inc_d_error c))\<rparr>;
         c = c\<lparr>inc_last_out := clamp (inc_maximum c) (inc_minimum c) (inc_last_out c)\<rparr>;
         c = c\<lparr>inc_error_ll := inc_error_l c\<rparr>;
         c = c\<lparr>inc_error_l := inc_error c\<rparr>
     in c\<lparr>ctl_output := inc_last_out c\<rparr>)"

text \<open>
  Creation: \<open>mem\<close> is what \<open>rt_malloc\<close> returns, \<open>None\<close> for \<open>RT_NULL\<close> and otherwise the
  structure with its old contents.  \<open>controller_create\<close> stores \<open>sample_time\<close> before any
  check, which is a trap when the allocation failed.
\<close>

definition controller_create :: "'a controller_scheme option \<Rightarrow> int \<Rightarrow> 'a controller_scheme option" where
  "controller_create mem st = (case mem of None \<Rightarrow> None | Some c \<Rightarrow> Some (c\<lparr>sample_time := u16 st\<rparr>))"

definition inc_pid_controller_create ::
  "inc_pid_controller option \<Rightarrow> fl \<Rightarrow> fl \<Rightarrow> fl \<Rightarrow> fl \<Rightarrow> fl \<Rightarrow> int \<Rightarrow> inc_pid_controller option" where
  "inc_pid_controller_create mem kp ki kd maximum minimum st = do {
     c \<leftarrow> controller_create mem st;
     Some (c\<lparr>inc_kp := kp, inc_ki := ki, inc_kd := kd, inc_maximum := maximum, inc_minimum := minimum,
             inc_p_error := Fin 0, inc_i_error := Fin 0, inc_d_error := Fin 0,
             inc_error := Fin 0, inc_error_l := Fin 0, inc_error_ll := Fin 0, inc_last_out := Fin 0\<rparr>) }"

section \<open>The positional controller\<close>

definition pos_pid_controller_set_param :: "fl \<Rightarrow> fl \<Rightarrow> fl \<Rightarrow> pos_pid_controller \<Rightarrow> pos_pid_controller" where
  "pos_pid_controller_set_param kp ki kd c = c\<lparr>pos_kp := kp, pos_ki := ki, pos_kd := kd\<rparr>"

definition pos_pid_controller_update :: "int \<Rightarrow> fl \<Rightarrow> pos_pid_controller \<Rightarrow> pos_pid_controller" where
  "pos_pid_controller_update tick current_point c = (
     let c = c\<lparr>pos_last_time := tick\<rparr>;
         c = c\<lparr>pos_error := fsub (target c) current_point\<rparr>;
         c = c\<lparr>integral := fadd (integral c) (fmul (pos_ki c) (pos_error c))\<rparr>;
         c = (if fl_lt (anti_windup_value c) (integral c) then c\<lparr>integral := anti_windup_value c\<rparr>
              else if fl_lt (integral c) (fl_neg (anti_windup_value c))
                   then c\<lparr>integral := fl_neg (anti_windup_value c)\<rparr> else c);
         c = c\<lparr>pos_p_error := fmul (pos_kp c) (pos_error c)\<rparr>;
         c = c\<lparr>pos_i_error := integral c\<rparr>;
         c = c\<lparr>pos_d_error := fmul (pos_kd c) (fsub (pos_error c) (pos_error_l c))\<rparr>;
         c = c\<lparr>pos_last_out := fadd (fadd (pos_p_error c) (pos_i_error c)) (pos_d_error c)\<rparr>;
         c = c\<lparr>pos_last_out := clamp (pos_maximum c) (pos_minimum c) (pos_last_out c)\<rparr>;
         c = c\<lparr>pos_error_l := pos_error c\<rparr>
     in c\<lparr>ctl_output := pos_last_out c\<rparr>)"

text \<open>The inner \<open>None\<close> is the \<open>RT_NULL\<close> that is returned when the limits are the wrong way round.\<close>

definition pos_pid_controller_create ::
  "pos_pid_controller option \<Rightarrow> fl \<Rightarrow> fl \<Rightarrow> fl \<Rightarrow> fl \<Rightarrow> fl \<Rightarrow> int \<Rightarrow> pos_pid_controller option option" where
  "pos_pid_controller_create mem kp ki kd maximum minimum st = do {
     c \<leftarrow> controller_create mem st;
     if fl_lt maximum minimum then Some None
     else Some (Some (c\<lparr>pos_kp := kp, pos_ki := ki, pos_kd := kd, pos_maximum := maximum,
             pos_minimum := minimum, anti_windup_value := fmul maximum (Fin (1 / 2)),
             integral := Fin 0, pos_p_error := Fin 0, pos_i_error := Fin 0, pos_d_error := Fin 0,
             pos_error := Fin 0, pos_error_l := Fin 0, pos_last_out := Fin 0\<rparr>)) }"

section \<open>The common interface\<close>

fun controller_update :: "int \<Rightarrow> fl \<Rightarrow> controller_t \<Rightarrow> controller_t" where
  "controller_update tick x (Inc c) = Inc (inc_pid_controller_update tick x c)"
| "controller_update tick x (Pos c) = Pos (pos_pid_controller_update tick x c)"

fun controller_set_target :: "fl \<Rightarrow> controller_t \<Rightarrow> controller_t" where
  "controller_set_target x (Inc c) = Inc (c\<lparr>target := x\<rparr>)"
| "controller_set_target x (Pos c) = Pos (c\<lparr>target := x\<rparr>)"

fun controller_set_param :: "fl \<Rightarrow> fl \<Rightarrow> fl \<Rightarrow> controller_t \<Rightarrow> controller_t" where
  "controller_set_param kp ki kd (Inc c) = Inc (inc_pid_controller_set_param kp ki kd c)"
| "controller_set_param kp ki kd (Pos c) = Pos (pos_pid_controller_set_param kp ki kd c)"

fun controller_output :: "controller_t \<Rightarrow> fl" where
  "controller_output (Inc c) = ctl_output c"
| "controller_output (Pos c) = ctl_output c"

section \<open>What the users of a controller rely on\<close>

text \<open>
  The wheels and the steering only use \<open>update\<close>, \<open>set_target\<close>, \<open>set_param\<close> and the output.
  The contract: an invariant that holds after creation and that every operation keeps for
  arguments of bounded size, and under which an update leaves the output between the
  limits.
\<close>

locale bounded_controller =
  fixes update :: "int \<Rightarrow> fl \<Rightarrow> 'c \<Rightarrow> 'c"
    and set_target :: "fl \<Rightarrow> 'c \<Rightarrow> 'c"
    and set_param :: "fl \<Rightarrow> fl \<Rightarrow> fl \<Rightarrow> 'c \<Rightarrow> 'c"
    and out :: "'c \<Rightarrow> fl"
    and inv :: "'c \<Rightarrow> bool"
    and point_ok gain_ok :: "fl \<Rightarrow> bool"
    and lo hi :: rat
  assumes update_inv: "inv c \<Longrightarrow> point_ok x \<Longrightarrow> inv (update t x c)"
    and update_out: "inv c \<Longrightarrow> point_ok x \<Longrightarrow> fl_in lo hi (out (update t x c))"
    and target_inv: "inv c \<Longrightarrow> point_ok x \<Longrightarrow> inv (set_target x c)"
    and target_out: "out (set_target x c) = out c"
    and param_inv: "inv c \<Longrightarrow> gain_ok kp \<Longrightarrow> gain_ok ki \<Longrightarrow> gain_ok kd \<Longrightarrow> inv (set_param kp ki kd c)"
    and param_out: "out (set_param kp ki kd c) = out c"

datatype ctrl_op = Update int fl | Set_Target fl | Set_Param fl fl fl

fun op_ok :: "(fl \<Rightarrow> bool) \<Rightarrow> (fl \<Rightarrow> bool) \<Rightarrow> ctrl_op \<Rightarrow> bool" where
  "op_ok P G (Update t x) = P x"
| "op_ok P G (Set_Target x) = P x"
| "op_ok P G (Set_Param a b c) = (G a \<and> G b \<and> G c)"

fun is_update :: "ctrl_op \<Rightarrow> bool" where
  "is_update (Update t x) = True"
| "is_update _ = False"

context bounded_controller
begin

fun step :: "ctrl_op \<Rightarrow> 'c \<Rightarrow> 'c" where
  "step (Update t x) c = update t x c"
| "step (Set_Target x) c = set_target x c"
| "step (Set_Param a b d) c = set_param a b d c"

lemma step_inv: "inv c \<Longrightarrow> op_ok point_ok gain_ok x \<Longrightarrow> inv (step x c)"
  by (cases x) (simp_all add: update_inv target_inv param_inv)

lemma step_out:
  assumes "inv c" "op_ok point_ok gain_ok x" "fl_in lo hi (out c) \<or> is_update x"
  shows "fl_in lo hi (out (step x c))"
  using assms by (cases x) (simp_all add: update_out target_out param_out)

lemma steps_inv: "inv c \<Longrightarrow> \<forall>x \<in> set xs. op_ok point_ok gain_ok x \<Longrightarrow> inv (fold step xs c)"
  by (induction xs arbitrary: c) (simp_all add: step_inv)

lemma steps_out:
  assumes "inv c" "\<forall>x \<in> set xs. op_ok point_ok gain_ok x" "fl_in lo hi (out c) \<or> (\<exists>x \<in> set xs. is_update x)"
  shows "fl_in lo hi (out (fold step xs c))"
  using assms
proof (induction xs arbitrary: c)
  case (Cons x xs)
  then have x: "op_ok point_ok gain_ok x" and xs: "\<forall>x \<in> set xs. op_ok point_ok gain_ok x" by simp_all
  have "fl_in lo hi (out (step x c)) \<or> (\<exists>x \<in> set xs. is_update x)"
    using Cons.prems(3) step_out [OF Cons.prems(1) x] by auto
  from Cons.IH [OF step_inv [OF Cons.prems(1) x] xs this] show ?case by simp
qed simp

end

section \<open>Magnitudes\<close>

text \<open>\<open>below k x\<close>: a finite value of magnitude at most two to the \<open>k\<close>.\<close>

definition below :: "nat \<Rightarrow> fl \<Rightarrow> bool" where
  "below k x = fl_in (- (2 ^ k)) (2 ^ k) x"

lemma below_iff: "below k x \<longleftrightarrow> (\<exists>r. x = Fin r \<and> \<bar>r\<bar> \<le> 2 ^ k)"
  by (auto simp: below_def fl_in_iff abs_le_iff)

lemma rd32_pow2: "k \<le> 127 \<Longrightarrow> rd32 (2 ^ k) = Fin (2 ^ k)" and rd32_neg_pow2: "k \<le> 127 \<Longrightarrow> rd32 (- (2 ^ k)) = Fin (- (2 ^ k))"
proof -
  assume k: "k \<le> 127"
  have l: "(2::rat) ^ k < 2 powi 128" using power_strict_increasing [of k 128 "2::rat"] k by simp
  show "rd32 (2 ^ k) = Fin (2 ^ k)" unfolding rd32_def
    by (rule to_fl_exact [where m = 1 and e = "int k"]) (use l in simp_all)
  show "rd32 (- (2 ^ k)) = Fin (- (2 ^ k))" unfolding rd32_def
    by (rule to_fl_exact [where m = "- 1" and e = "int k"]) (use l in simp_all)
qed

lemma rd32_below: "\<bar>x\<bar> \<le> 2 ^ k \<Longrightarrow> k \<le> 127 \<Longrightarrow> below k (rd32 x)"
  unfolding below_def by (rule rd32_in) (simp_all add: rd32_pow2 rd32_neg_pow2 abs_le_iff)

lemma below_mono:
  assumes "below j x" "j \<le> k"
  shows "below k x"
proof -
  obtain r where r: "x = Fin r" "\<bar>r\<bar> \<le> 2 ^ j" using assms(1) by (auto simp: below_iff)
  have "(2::rat) ^ j \<le> 2 ^ k" using assms(2) by (rule power_increasing) simp
  with r(2) have "\<bar>r\<bar> \<le> 2 ^ k" by (rule order_trans)
  with r(1) show ?thesis by (simp add: below_iff)
qed

lemma below_neg [simp]: "below k (fl_neg x) = below k x"
  by (cases x) (auto simp: below_iff)

lemma below_add:
  assumes "below k x" "below k y" "k < 127"
  shows "below (Suc k) (fadd x y)" and "below (Suc k) (fsub x y)"
proof -
  obtain a b where "x = Fin a" "y = Fin b" "\<bar>a\<bar> \<le> 2 ^ k" "\<bar>b\<bar> \<le> 2 ^ k"
    using assms by (auto simp: below_iff)
  then show "below (Suc k) (fadd x y)" "below (Suc k) (fsub x y)"
    using assms(3) by (auto simp: fl_sub_def intro!: rd32_below)
qed

lemma below_mul:
  assumes "below j x" "below k y" "j + k \<le> 127"
  shows "below (j + k) (fmul x y)"
proof -
  obtain a b where ab: "x = Fin a" "y = Fin b" "\<bar>a\<bar> \<le> 2 ^ j" "\<bar>b\<bar> \<le> 2 ^ k"
    using assms by (auto simp: below_iff)
  have "\<bar>a * b\<bar> \<le> 2 ^ j * 2 ^ k" unfolding abs_mult using ab by (intro mult_mono) simp_all
  then show ?thesis using ab assms(3) by (auto simp: power_add intro!: rd32_below)
qed

lemma clamp_in:
  assumes "below k x" "lo \<le> hi"
  shows "fl_in lo hi (clamp (Fin hi) (Fin lo) x)"
  using assms by (auto simp: below_iff clamp_def Let_def)

lemma below_in: "fl_in lo hi x \<Longrightarrow> - (2 ^ k) \<le> lo \<Longrightarrow> hi \<le> 2 ^ k \<Longrightarrow> below k x"
  by (auto simp: below_def fl_in_iff)

lemma below_2 [simp]: "below 1 (Fin 2)" and below_0 [simp]: "below k (Fin 0)"
  by (simp_all add: below_iff)

section \<open>Both controllers keep the contract\<close>

text \<open>Limits of magnitude at most 1024 (the firmware's are 1000).\<close>

definition inc_inv :: "rat \<Rightarrow> rat \<Rightarrow> inc_pid_controller \<Rightarrow> bool" where
  "inc_inv lo hi c \<longleftrightarrow> inc_maximum c = Fin hi \<and> inc_minimum c = Fin lo \<and> lo \<le> hi
     \<and> - 1024 \<le> lo \<and> hi \<le> 1024 \<and> below 21 (target c)
     \<and> below 10 (inc_kp c) \<and> below 10 (inc_ki c) \<and> below 10 (inc_kd c)
     \<and> below 22 (inc_error_l c) \<and> below 22 (inc_error_ll c) \<and> below 10 (inc_last_out c)"

lemma inc_update_inv:
  assumes inv: "inc_inv lo hi c" and x: "below 21 x"
  shows "inc_inv lo hi (inc_pid_controller_update t x c)"
    and "fl_in lo hi (ctl_output (inc_pid_controller_update t x c))"
proof -
  from inv have c: "below 21 (target c)" "below 10 (inc_kp c)" "below 10 (inc_ki c)" "below 10 (inc_kd c)"
    "below 22 (inc_error_l c)" "below 22 (inc_error_ll c)" "below 10 (inc_last_out c)"
    and l: "inc_maximum c = Fin hi" "inc_minimum c = Fin lo" "lo \<le> hi" "- 1024 \<le> lo" "hi \<le> 1024"
    by (simp_all add: inc_inv_def)
  define e where "e = fsub (target c) x"
  define p where "p = fmul (inc_kp c) (fsub e (inc_error_l c))"
  define i where "i = fmul (inc_ki c) e"
  define d where "d = fmul (inc_kd c) (fadd (fsub e (fmul (Fin 2) (inc_error_l c))) (inc_error_ll c))"
  define v where "v = fadd (inc_last_out c) (fadd (fadd p i) d)"
  have e: "below 22 e" using below_add(2) [OF c(1) x] by (simp add: e_def)
  have p: "below 33 p" using below_mul [OF c(2) below_add(2) [OF e c(5)]]
    by (auto simp: p_def intro: below_mono)
  have i: "below 33 i" using below_mul [OF c(3) e] by (auto simp: i_def intro: below_mono)
  have "below 23 (fmul (Fin 2) (inc_error_l c))" using below_mul [OF below_2 c(5)] by simp
  then have "below 24 (fsub e (fmul (Fin 2) (inc_error_l c)))"
    using below_add(2) [of 23 e] below_mono [OF e, of 23] by simp
  then have "below 25 (fadd (fsub e (fmul (Fin 2) (inc_error_l c))) (inc_error_ll c))"
    using below_add(1) [of 24] below_mono [OF c(6), of 24] by simp
  from below_mul [OF c(4) this] have d: "below 35 d" by (simp add: d_def)
  have "below 35 (fadd p i)" using below_mono [OF below_add(1) [OF p i], of 35] by simp
  from below_add(1) [OF this d] have "below 36 (fadd (fadd p i) d)" by simp
  from below_add(1) [OF below_mono [OF c(7)] this] have "below 37 v" by (simp add: v_def)
  from clamp_in [OF this l(3)] have o: "fl_in lo hi (clamp (Fin hi) (Fin lo) v)" .
  then have o10: "below 10 (clamp (Fin hi) (Fin lo) v)" by (rule below_in) (use l in simp_all)
  have u: "inc_pid_controller_update t x c = c\<lparr>ctl_output := clamp (Fin hi) (Fin lo) v,
      inc_p_error := p, inc_i_error := i, inc_d_error := d, inc_error := e, inc_error_l := e,
      inc_error_ll := inc_error_l c, inc_last_out := clamp (Fin hi) (Fin lo) v, inc_last_time := t\<rparr>"
    by (simp add: inc_pid_controller_update_def Let_def l flip: e_def)
      (simp flip: i_def p_def d_def, simp flip: v_def)
  show "inc_inv lo hi (inc_pid_controller_update t x c)"
    unfolding u using c l e o10 by (simp add: inc_inv_def)
  show "fl_in lo hi (ctl_output (inc_pid_controller_update t x c))"
    unfolding u using o by simp
qed

definition pos_inv :: "rat \<Rightarrow> rat \<Rightarrow> pos_pid_controller \<Rightarrow> bool" where
  "pos_inv lo hi c \<longleftrightarrow> pos_maximum c = Fin hi \<and> pos_minimum c = Fin lo \<and> lo \<le> hi
     \<and> - 1024 \<le> lo \<and> hi \<le> 1024 \<and> below 21 (target c)
     \<and> below 10 (pos_kp c) \<and> below 10 (pos_ki c) \<and> below 10 (pos_kd c) \<and> below 22 (pos_error_l c)
     \<and> (\<exists>w. anti_windup_value c = Fin w \<and> 0 \<le> w \<and> w \<le> 1024 \<and> fl_in (- w) w (integral c))"

lemma pos_update_inv:
  assumes inv: "pos_inv lo hi c" and x: "below 21 x"
  shows "pos_inv lo hi (pos_pid_controller_update t x c)"
    and "fl_in lo hi (ctl_output (pos_pid_controller_update t x c))"
proof -
  from inv obtain w where c: "below 21 (target c)" "below 10 (pos_kp c)" "below 10 (pos_ki c)"
    "below 10 (pos_kd c)" "below 22 (pos_error_l c)"
    and l: "pos_maximum c = Fin hi" "pos_minimum c = Fin lo" "lo \<le> hi" "- 1024 \<le> lo" "hi \<le> 1024"
    and w: "anti_windup_value c = Fin w" "0 \<le> w" "w \<le> 1024" "fl_in (- w) w (integral c)"
    by (auto simp: pos_inv_def)
  define e where "e = fsub (target c) x"
  define g where "g = fadd (integral c) (fmul (pos_ki c) e)"
  define h where "h = (if fl_lt (Fin w) g then Fin w else if fl_lt g (Fin (- w)) then Fin (- w) else g)"
  define p where "p = fmul (pos_kp c) e"
  define d where "d = fmul (pos_kd c) (fsub e (pos_error_l c))"
  define v where "v = fadd (fadd p h) d"
  have e: "below 22 e" using below_add(2) [OF c(1) x] by (simp add: e_def)
  have i10: "below 10 (integral c)" using w(4) by (rule below_in) (use w in simp_all)
  have "below 32 (fmul (pos_ki c) e)" using below_mul [OF c(3) e] by simp
  from below_add(1) [OF below_mono [OF i10] this] have "below 33 g" by (simp add: g_def)
  then have h: "fl_in (- w) w h" using w(2) by (auto simp: h_def below_iff)
  have h31: "below 32 h" by (rule below_in [OF h]) (use w in simp_all)
  have p: "below 32 p" using below_mul [OF c(2) e] by (simp add: p_def)
  have d: "below 33 d" using below_mul [OF c(4) below_add(2) [OF e c(5)]] by (simp add: d_def)
  have "below 33 (fadd p h)" using below_add(1) [OF p h31] by simp
  from below_add(1) [OF this d] have "below 34 v" by (simp add: v_def)
  from clamp_in [OF this l(3)] have o: "fl_in lo hi (clamp (Fin hi) (Fin lo) v)" .
  have u: "pos_pid_controller_update t x c = c\<lparr>ctl_output := clamp (Fin hi) (Fin lo) v,
      pos_p_error := p, pos_i_error := h, pos_d_error := d, integral := h, pos_error := e,
      pos_error_l := e, pos_last_out := clamp (Fin hi) (Fin lo) v, pos_last_time := t\<rparr>"
    by (simp add: pos_pid_controller_update_def Let_def l w flip: e_def)
      (simp add: h_def v_def p_def d_def flip: g_def)
  show "pos_inv lo hi (pos_pid_controller_update t x c)"
    unfolding u using c l e w h by (simp add: pos_inv_def)
  show "fl_in lo hi (ctl_output (pos_pid_controller_update t x c))"
    unfolding u using o by simp
qed

interpretation inc: bounded_controller inc_pid_controller_update "\<lambda>x c. c\<lparr>target := x\<rparr>"
  inc_pid_controller_set_param ctl_output "inc_inv lo hi" "below 21" "below 10" lo hi for lo hi :: rat
  by unfold_locales
    (simp_all add: inc_update_inv, simp_all add: inc_inv_def inc_pid_controller_set_param_def)

interpretation pos: bounded_controller pos_pid_controller_update "\<lambda>x c. c\<lparr>target := x\<rparr>"
  pos_pid_controller_set_param ctl_output "pos_inv lo hi" "below 21" "below 10" lo hi for lo hi :: rat
  by unfold_locales
    (simp_all add: pos_update_inv, simp_all add: pos_inv_def pos_pid_controller_set_param_def)

fun ctrl_inv :: "rat \<Rightarrow> rat \<Rightarrow> controller_t \<Rightarrow> bool" where
  "ctrl_inv lo hi (Inc c) = inc_inv lo hi c"
| "ctrl_inv lo hi (Pos c) = pos_inv lo hi c"

text \<open>Dispatching through the function pointers keeps the contract of both.\<close>

interpretation ctrl: bounded_controller controller_update controller_set_target
  controller_set_param controller_output "ctrl_inv lo hi" "below 21" "below 10" lo hi for lo hi :: rat
proof unfold_locales
  fix c :: controller_t and x kp ki kd :: fl and t :: int
  show "ctrl_inv lo hi c \<Longrightarrow> below 21 x \<Longrightarrow> ctrl_inv lo hi (controller_update t x c)"
    by (cases c) (simp_all add: inc.update_inv pos.update_inv)
  show "ctrl_inv lo hi c \<Longrightarrow> below 21 x \<Longrightarrow> fl_in lo hi (controller_output (controller_update t x c))"
    by (cases c) (simp_all add: inc.update_out pos.update_out)
  show "ctrl_inv lo hi c \<Longrightarrow> below 21 x \<Longrightarrow> ctrl_inv lo hi (controller_set_target x c)"
    by (cases c) (simp_all add: inc.target_inv pos.target_inv)
  show "controller_output (controller_set_target x c) = controller_output c"
    by (cases c) simp_all
  show "ctrl_inv lo hi c \<Longrightarrow> below 10 kp \<Longrightarrow> below 10 ki \<Longrightarrow> below 10 kd
      \<Longrightarrow> ctrl_inv lo hi (controller_set_param kp ki kd c)"
    by (cases c) (simp_all add: inc.param_inv pos.param_inv)
  show "controller_output (controller_set_param kp ki kd c) = controller_output c"
    by (cases c) (simp_all add: inc_pid_controller_set_param_def pos_pid_controller_set_param_def)
qed

section \<open>Properties\<close>

text \<open>
  Operations on a controller, as its users issue them.
\<close>

fun ctrl_step :: "ctrl_op \<Rightarrow> controller_t \<Rightarrow> controller_t" where
  "ctrl_step (Update t x) c = controller_update t x c"
| "ctrl_step (Set_Target x) c = controller_set_target x c"
| "ctrl_step (Set_Param kp ki kd) c = controller_set_param kp ki kd c"

definition run_ops :: "ctrl_op list \<Rightarrow> controller_t \<Rightarrow> controller_t" where
  "run_ops = fold ctrl_step"

lemma run_ops_steps: "run_ops xs = fold ctrl.step xs"
proof -
  have "ctrl_step x c = ctrl.step x c" for x c by (cases x) simp_all
  then have "ctrl_step = ctrl.step" by (simp add: fun_eq_iff)
  then show ?thesis by (simp add: run_ops_def)
qed

definition point_ok :: "fl \<Rightarrow> bool" where
  "point_ok x = below 21 x"

definition gain_ok :: "fl \<Rightarrow> bool" where
  "gain_ok x = below 10 x"

lemma below_int: "\<bar>n\<bar> \<le> 2 ^ k \<Longrightarrow> below k (Fin (of_int n))"
proof -
  assume "\<bar>n\<bar> \<le> 2 ^ k"
  then have "(of_int \<bar>n\<bar> :: rat) \<le> 2 ^ k" by (rule of_int_le_pow2)
  then show ?thesis by (simp add: below_iff)
qed

lemma inc_create_inv:
  assumes "inc_pid_controller_create mem kp ki kd (Fin hi) (Fin (- hi)) st = Some c" "0 \<le> hi" "hi \<le> 1024"
    "below 10 kp" "below 10 ki" "below 10 kd" "below 21 x"
  shows "inc_inv (- hi) hi (c\<lparr>target := x\<rparr>)"
  using assms by (cases mem) (auto simp: inc_pid_controller_create_def controller_create_def inc_inv_def)

lemma pos_create_inv:
  assumes "pos_pid_controller_create mem kp ki kd (Fin hi) (Fin (- hi)) st = Some (Some c)" "0 \<le> hi" "hi \<le> 1024"
    "below 10 kp" "below 10 ki" "below 10 kd" "below 21 x"
  shows "pos_inv (- hi) hi (c\<lparr>target := x\<rparr>)"
proof -
  have "fl_in (of_int 0) (of_int 1024) (rd32 (hi / 2))"
    by (rule rd32_in_int) (use assms in simp_all)
  then obtain w where w: "rd32 (hi / 2) = Fin w" "0 \<le> w" "w \<le> 1024" by (auto simp: fl_in_iff)
  then show ?thesis using assms
    by (cases mem) (auto simp: pos_pid_controller_create_def controller_create_def pos_inv_def split: if_splits)
qed

text \<open>
  C10: controllers of both kinds, created with limits \<open>- hi\<close> and \<open>hi\<close> of at most 1024 and driven by
  any sequence of updates, new targets and new gains with gains of magnitude at most 2 ^ 10
  and measurements and targets of magnitude at most 2 ^ 21, have after the first update an
  output that is a finite number between the limits (no overflow to infinity, no NaN),
  whatever the memory of the structures held before.
\<close>

theorem controller_output_bounded:
  assumes "inc_pid_controller_create mem kp ki kd (Fin hi) (Fin (- hi)) st = Some c"
    and "pos_pid_controller_create mem' kp ki kd (Fin hi) (Fin (- hi)) st = Some (Some c')"
    and "0 \<le> hi" "hi \<le> 1024" "gain_ok kp" "gain_ok ki" "gain_ok kd" "point_ok x"
    and ops: "\<forall>op \<in> set ops. op_ok point_ok gain_ok op" "\<exists>op \<in> set ops. is_update op"
  shows "fl_in (- hi) hi (controller_output (run_ops ops (controller_set_target x (Inc c))))
    \<and> fl_in (- hi) hi (controller_output (run_ops ops (controller_set_target x (Pos c'))))"
proof -
  have d: "point_ok = below 21" "gain_ok = below 10" by (simp_all add: fun_eq_iff point_ok_def gain_ok_def)
  have "ctrl_inv (- hi) hi (controller_set_target x (Inc c))"
    "ctrl_inv (- hi) hi (controller_set_target x (Pos c'))"
    using inc_create_inv [OF assms(1)] pos_create_inv [OF assms(2)] assms(3-8) by (simp_all add: d)
  then show ?thesis unfolding run_ops_steps
    using ctrl.steps_out ops unfolding d by blast
qed

definition inc_memory :: inc_pid_controller where
  "inc_memory = \<lparr>target = NaN, ctl_output = NaN, sample_time = 7, inc_kp = NaN, inc_ki = NaN,
     inc_kd = NaN, inc_minimum = NaN, inc_maximum = NaN, inc_p_error = NaN, inc_i_error = NaN,
     inc_d_error = NaN, inc_error = NaN, inc_error_l = NaN, inc_error_ll = NaN, inc_last_out = NaN,
     inc_last_time = 0\<rparr>"

definition pos_memory :: pos_pid_controller where
  "pos_memory = \<lparr>target = NaN, ctl_output = NaN, sample_time = 7, pos_kp = NaN, pos_ki = NaN,
     pos_kd = NaN, pos_minimum = NaN, pos_maximum = NaN, anti_windup_value = NaN,
     pos_p_error = NaN, pos_i_error = NaN, pos_d_error = NaN, integral = NaN, pos_error = NaN,
     pos_error_l = NaN, pos_last_out = NaN, pos_last_time = 0\<rparr>"

lemma controller_output_bounded_witness:
  "\<exists>c c'. inc_pid_controller_create (Some inc_memory) (Fin 12) (Fin 1) (Fin 0) (Fin 1000) (Fin (- 1000)) 10 = Some c
    \<and> pos_pid_controller_create (Some pos_memory) (Fin 12) (Fin 1) (Fin 0) (Fin 1000) (Fin (- 1000)) 10 = Some (Some c')
    \<and> fl_in (- 1000) 1000 (controller_output (run_ops [Update 5 (Fin 900)] (controller_set_target (Fin 0) (Inc c))))
    \<and> fl_in (- 1000) 1000 (controller_output (run_ops [Update 5 (Fin 900)] (controller_set_target (Fin 0) (Pos c'))))"
proof -
  obtain c where c: "inc_pid_controller_create (Some inc_memory) (Fin 12) (Fin 1) (Fin 0) (Fin 1000) (Fin (- 1000)) 10 = Some c"
    by (simp add: inc_pid_controller_create_def controller_create_def)
  obtain c' where c': "pos_pid_controller_create (Some pos_memory) (Fin 12) (Fin 1) (Fin 0) (Fin 1000) (Fin (- 1000)) 10 = Some (Some c')"
    by (simp add: pos_pid_controller_create_def controller_create_def)
  show ?thesis using c c' controller_output_bounded [OF c c', of "Fin 0" "[Update 5 (Fin 900)]"]
    by (auto simp: gain_ok_def point_ok_def below_iff)
qed

text \<open>
  A NaN in the incremental controller is permanent.  Once the accumulated output
  \<open>last_out\<close> is NaN no measurement, target or gain ever removes it: the limits do not catch it,
  because comparisons with NaN are false, and every later output is NaN.
\<close>

theorem inc_pid_nan_permanent:
  "inc_last_out c = NaN \<Longrightarrow> \<exists>d. run_ops ops (Inc c) = Inc d \<and> inc_last_out d = NaN
     \<and> ((\<exists>op \<in> set ops. is_update op) \<longrightarrow> ctl_output d = NaN)"
proof (induction ops rule: rev_induct)
  case Nil
  then show ?case by (simp add: run_ops_def)
next
  case (snoc op ops)
  then obtain d where d: "run_ops ops (Inc c) = Inc d" "inc_last_out d = NaN"
    "(\<exists>op \<in> set ops. is_update op) \<longrightarrow> ctl_output d = NaN" by blast
  show ?case
    using d by (cases op)
      (simp_all add: run_ops_def inc_pid_controller_update_def inc_pid_controller_set_param_def Let_def clamp_def)
qed

lemma inc_pid_nan_permanent_witness:
  "\<exists>d. run_ops [Set_Target (Fin 0), Update 1 (Fin 0), Update 2 (Fin 3)] (Inc inc_memory) = Inc d \<and> ctl_output d = NaN"
  using inc_pid_nan_permanent [of inc_memory "[Set_Target (Fin 0), Update 1 (Fin 0), Update 2 (Fin 3)]"]
  by (auto simp: inc_memory_def)

end
