(* ===== verification/Chassis.thy ===== *)
theory Chassis
  imports Actuators Pid
begin

text \<open>
  \<open>Carlibs/encoder.c\<close>, \<open>Carlibs/wheel.c\<close> and \<open>chassisThread.c\<close>: speed measurement, one
  control step of a wheel, and the chassis thread with the calls by which the steering loop
  commands it.  A wheel owns its motor, encoder and controller, so they are values inside
  it.  The quadrature counters and the two timers are state of the hardware: they run
  between the steps, and reading an encoder clears its counter and restarts its timer.
\<close>

section \<open>Encoders\<close>

record encoder =
  enc_index :: int
  enc_rpm :: fl
  enc_sample_time :: int
  enc_last_time :: int

text \<open>
  A PIT channel as \<open>zf_pit.c\<close> uses it: whether it runs, the counts since it was started, and
  the overflow flag.  Starting a running channel changes only the value it will reload.
\<close>

record pit =
  pit_running :: bool
  pit_count :: int
  pit_flag :: bool

record hardware =
  tick :: int
  quad1 :: int
  quad2 :: int
  pit1 :: pit
  pit2 :: pit
  pit_clock :: int
  pwm_out :: pwm

definition pit_start :: "pit \<Rightarrow> pit" where
  "pit_start t = (if pit_running t then t else t\<lparr>pit_running := True, pit_count := 0\<rparr>)"

definition pit_get :: "pit \<Rightarrow> int \<times> pit" where
  "pit_get t = (if pit_flag t then (4294967295, t\<lparr>pit_flag := False\<rparr>) else (u32 (pit_count t), t))"

definition pit_close :: "pit \<Rightarrow> pit" where
  "pit_close t = t\<lparr>pit_running := False, pit_flag := False\<rparr>"

text \<open>\<open>COUNT_TO_MSEC(pit_get(ch), PIT_SOURCE_CLOCK)\<close>; the clock's frequency comes from the chip's
  clock tree.\<close>

definition pit_get_ms :: "int \<Rightarrow> pit \<Rightarrow> int \<times> pit" where
  "pit_get_ms clk t = (case pit_get t of (n, t) \<Rightarrow> (n * 1000 div clk, t))"

definition rt_tick_from_millisecond :: "int \<Rightarrow> int" where
  "rt_tick_from_millisecond ms = (if ms < 0 then 4294967295
     else u32 (1000 * (ms sdiv 1000) + (1000 * (ms smod 1000) + 999) sdiv 1000))"

definition PULSE_REVOL :: int where
  "PULSE_REVOL = 512 * 68 sdiv 30"

text \<open>\<open>mem\<close> holds the old contents of the allocated block; \<open>last_time\<close> keeps them.\<close>

definition encoder_create :: "encoder \<Rightarrow> int \<Rightarrow> int \<Rightarrow> hardware \<Rightarrow> encoder \<times> hardware" where
  "encoder_create mem index st h = (
     mem\<lparr>enc_index := index, enc_sample_time := st, enc_rpm := Fin 0\<rparr>,
     let h = h\<lparr>pit1 := pit_start (pit1 h), pit2 := pit_start (pit2 h)\<rparr> in
     if index = 1 then h\<lparr>pit1 := pit_start (pit1 h)\<rparr>
     else if index = 2 then h\<lparr>pit2 := pit_start (pit2 h)\<rparr> else h)"

text \<open>\<open>pul * 1000 * 60 / ms / PULSE_REVOL\<close> in \<open>float\<close>\<close>

definition pulses_to_rpm :: "fl \<Rightarrow> int \<Rightarrow> fl" where
  "pulses_to_rpm pul ms =
     fdiv (fdiv (fmul (fmul pul (Fin 1000)) (Fin 60)) (rd32 (of_int ms))) (rd32 (of_int PULSE_REVOL))"

definition encoder_measure_rpm :: "encoder \<Rightarrow> hardware \<Rightarrow> fl \<times> encoder \<times> hardware" where
  "encoder_measure_rpm enc h =
     (if u32 (tick h - enc_last_time enc) < rt_tick_from_millisecond (enc_sample_time enc) then (Fin 0, enc, h)
      else if enc_index enc = 1 then
        let pul = rd32 (of_int (i16 (quad1 h)));
            (ms, t) = pit_get_ms (pit_clock h) (pit1 h);
            enc = enc\<lparr>enc_rpm := pulses_to_rpm (fl_neg pul) ms\<rparr>
        in (enc_rpm enc, enc, h\<lparr>quad1 := 0, pit1 := pit_start (pit_close t)\<rparr>)
      else if enc_index enc = 2 then
        let pul = rd32 (of_int (i16 (quad2 h)));
            (ms, t) = pit_get_ms (pit_clock h) (pit2 h);
            enc = enc\<lparr>enc_rpm := pulses_to_rpm pul ms\<rparr>
        in (enc_rpm enc, enc, h\<lparr>quad2 := 0, pit2 := pit_start (pit_close t)\<rparr>)
      else (enc_rpm enc, enc, h))"

section \<open>Wheels\<close>

text \<open>
  \<open>speed_now\<close> has five elements and is the last member of the structure; \<open>wheel_update\<close>
  shifts one element too far, so what lies behind the structure is part of the state: \<open>Some x\<close> when it is a word that no
  object of the model uses, with the content \<open>x\<close> (the allocator \<open>memheap.c\<close> has the magic number of the next
  block there, which it looks at only when memory is allocated or freed), and \<open>None\<close> when it is another object; then the
  write behind the array is a trap.
\<close>

record wheel =
  w_motor :: int
  w_encoder :: encoder
  w_controller :: controller_t
  w_rpm :: fl
  w_radius :: fl
  speed_to_rpm :: fl
  w_speed_now :: "fl list"
  word_after :: "fl option"

definition PI :: fl where
  "PI = rd32 (31415926 / 10000000)"

definition wheel_create :: "wheel \<Rightarrow> int \<Rightarrow> encoder \<Rightarrow> controller_t \<Rightarrow> fl \<Rightarrow> wheel" where
  "wheel_create mem mot enc ctl radius = mem\<lparr>w_motor := mot, w_encoder := enc, w_controller := ctl,
     w_radius := radius,
     speed_to_rpm := fdiv (Fin 60) (fmul (fmul (fmul (Fin 100) radius) (Fin 2)) PI)\<rparr>"

definition wheel_set_speed :: "fl \<Rightarrow> wheel \<Rightarrow> wheel" where
  "wheel_set_speed speed w =
     w\<lparr>w_controller := controller_set_target (fmul speed (speed_to_rpm w)) (w_controller w)\<rparr>"

text \<open>\<open>for (i = 5; i >= 1; i--) speed_now[i] = speed_now[i - 1];\<close> over the array and the word after it\<close>

definition shift_speed :: "fl list \<Rightarrow> fl list option" where
  "shift_speed xs = for_down (\<lambda>i xs. do {
      v \<leftarrow> c_get xs (i - 1);
      xs \<leftarrow> c_put xs i v;
      Some (Next xs) }) 5 0 xs"

definition wheel_update :: "wheel \<Rightarrow> hardware \<Rightarrow> (wheel \<times> hardware) option" where
  "wheel_update w h = do {
     let (rpm, enc, h) = encoder_measure_rpm (w_encoder w) h;
     let w = w\<lparr>w_encoder := enc, w_rpm := rpm\<rparr>;
     sp \<leftarrow> c_put (w_speed_now w) 0 (fdiv rpm (speed_to_rpm w));
     behind \<leftarrow> word_after w;
     sp \<leftarrow> shift_speed (sp @ [behind]);
     let w = w\<lparr>w_speed_now := take 5 sp, word_after := Some (sp ! 5)\<rparr>;
     let w = w\<lparr>w_controller := controller_update (tick h) rpm (w_controller w)\<rparr>;
     out \<leftarrow> fl_to_int (- 2147483648) 2147483647 (controller_output (w_controller w));
     Some (w, h\<lparr>pwm_out := motor_run (w_motor w) out (pwm_out h)\<rparr>) }"

section \<open>The chassis\<close>

record chassis =
  left_wheel :: "wheel option"
  right_wheel :: "wheel option"
  is_chassis_debug :: int
  is_chassis_running :: int
  wheel_kp :: fl
  wheel_ki :: fl
  wheel_kd :: fl
  wheel_diff_p :: fl
  speed_now :: "fl list"
  hw :: hardware

text \<open>A dereference of a null wheel is a trap.\<close>

definition speed_average :: "wheel \<Rightarrow> wheel \<Rightarrow> int \<Rightarrow> chassis \<Rightarrow> chassis flow option" where
  "speed_average l r i s = do {
     a \<leftarrow> c_get (w_speed_now l) i;
     b \<leftarrow> c_get (w_speed_now r) i;
     xs \<leftarrow> c_put (speed_now s) i (fdiv (fadd a b) (Fin 2));
     Some (Next (s\<lparr>speed_now := xs\<rparr>)) }"

text \<open>One round of the thread's loop; \<open>switch\<close> is what \<open>switch_get(2)\<close> returns.\<close>

definition chassis_round :: "int \<Rightarrow> chassis \<Rightarrow> chassis option" where
  "chassis_round switch s = do {
     l \<leftarrow> left_wheel s;
     r \<leftarrow> right_wheel s;
     (l, r, h) \<leftarrow> (if switch = 0 then do {
            (l, h) \<leftarrow> wheel_update l (hw s);
            (r, h) \<leftarrow> wheel_update r h;
            Some (l, r, h) }
          else Some (l, r, (hw s)\<lparr>pwm_out :=
                 motor_run (w_motor r) 0 (motor_run (w_motor l) 0 (pwm_out (hw s)))\<rparr>));
     let s = s\<lparr>left_wheel := Some l, right_wheel := Some r, hw := h\<rparr>;
     for_up (speed_average l r) 0 5 s }"

text \<open>The thread's start: \<open>mem\<close> holds the old contents of the allocated blocks.\<close>

record chassis_memory =
  mem_enc1 :: encoder
  mem_enc2 :: encoder
  mem_pid1 :: inc_pid_controller
  mem_pid2 :: inc_pid_controller
  mem_wheel1 :: wheel
  mem_wheel2 :: wheel

definition WHEEL_RADIUS :: fl where
  "WHEEL_RADIUS = fl_map rd32 (fl_div rd64 (rd64 (66 / 1000)) (Fin 2))"

definition chassis_start :: "chassis_memory \<Rightarrow> chassis \<Rightarrow> chassis option" where
  "chassis_start mem s = do {
     let (left_motor, p) = motor_create 1 (pwm_out (hw s));
     let (right_motor, p) = motor_create 2 p;
     let h = (hw s)\<lparr>pwm_out := p\<rparr>;
     let (left_encoder, h) = encoder_create (mem_enc1 mem) 1 30 h;
     let (right_encoder, h) = encoder_create (mem_enc2 mem) 2 30 h;
     left_pid \<leftarrow> inc_pid_controller_create (Some (mem_pid1 mem)) (wheel_kp s) (wheel_ki s) (wheel_kd s)
                   (Fin 1000) (Fin (- 1000)) 30;
     right_pid \<leftarrow> inc_pid_controller_create (Some (mem_pid2 mem)) (wheel_kp s) (wheel_ki s) (wheel_kd s)
                   (Fin 1000) (Fin (- 1000)) 30;
     Some (s\<lparr>left_wheel := Some (wheel_create (mem_wheel1 mem) left_motor left_encoder (Inc left_pid) WHEEL_RADIUS),
             right_wheel := Some (wheel_create (mem_wheel2 mem) right_motor right_encoder (Inc right_pid) WHEEL_RADIUS),
             hw := h\<rparr>) }"

text \<open>The macro \<open>ABS\<close> of \<open>util.h\<close>.\<close>

definition ABS :: "int \<Rightarrow> int" where
  "ABS x = (if x > 0 then x else i32 (- x))"

text \<open>Returns \<open>RT_ERROR\<close> (1) when a wheel does not exist yet, else \<open>RT_EOK\<close> (0).\<close>

definition set_velocity :: "fl \<Rightarrow> int \<Rightarrow> chassis \<Rightarrow> int \<times> chassis" where
  "set_velocity velocity steer_error s =
     (case (left_wheel s, right_wheel s) of
        (Some l, Some r) \<Rightarrow>
          let computed = (if ABS steer_error > 10
                          then fmul (fmul (wheel_diff_p s) (rd32 (of_int steer_error))) velocity else Fin 0);
              left_speed = fadd velocity computed;
              right_speed = fsub velocity computed
          in (0, s\<lparr>left_wheel := Some (wheel_set_speed left_speed l),
                   right_wheel := Some (wheel_set_speed right_speed r)\<rparr>)
      | _ \<Rightarrow> (1, s))"

definition set_chassis_pid_param :: "fl \<Rightarrow> fl \<Rightarrow> fl \<Rightarrow> chassis \<Rightarrow> int \<times> chassis" where
  "set_chassis_pid_param kp ki kd s =
     (case (left_wheel s, right_wheel s) of
        (Some l, Some r) \<Rightarrow>
          (0, s\<lparr>left_wheel := Some (l\<lparr>w_controller := controller_set_param kp ki kd (w_controller l)\<rparr>),
                right_wheel := Some (r\<lparr>w_controller := controller_set_param kp ki kd (w_controller r)\<rparr>)\<rparr>)
      | _ \<Rightarrow> (1, s))"

section \<open>Shell commands\<close>

text \<open>\<open>argv\<close> is the list of the command's words; reading past its end is a trap.\<close>

definition arg :: "string list \<Rightarrow> nat \<Rightarrow> string option" where
  "arg argv k = (if k < length argv then Some (argv ! k) else None)"

definition to_float :: "fl \<Rightarrow> fl" where
  "to_float x = fl_map rd32 x"

definition set_chassis_debug_cmd :: "string list \<Rightarrow> chassis \<Rightarrow> (int \<times> chassis) option" where
  "set_chassis_debug_cmd argv s =
     (if length argv = 1 then Some (1, s)
      else do { a \<leftarrow> arg argv 1; Some (0, s\<lparr>is_chassis_debug := str2bool a\<rparr>) })"

definition set_chassis_pid_param_cmd :: "string list \<Rightarrow> chassis \<Rightarrow> (int \<times> chassis) option" where
  "set_chassis_pid_param_cmd argv s = do {
     a \<leftarrow> arg argv 1; b \<leftarrow> arg argv 2; c \<leftarrow> arg argv 3; d \<leftarrow> arg argv 4;
     let s = s\<lparr>wheel_kp := to_float (myatof a), wheel_ki := to_float (myatof b),
               wheel_kd := to_float (myatof c), wheel_diff_p := to_float (myatof d)\<rparr>;
     Some (0, snd (set_chassis_pid_param (wheel_kp s) (wheel_ki s) (wheel_kd s) s)) }"

definition set_velocity_cmd :: "string list \<Rightarrow> chassis \<Rightarrow> (int \<times> chassis) option" where
  "set_velocity_cmd argv s =
     (if length argv = 1 then Some (1, s)
      else do { a \<leftarrow> arg argv 1; Some (0, snd (set_velocity (to_float (myatof a)) 0 s)) })"

definition set_chassis_enable_cmd :: "string list \<Rightarrow> chassis \<Rightarrow> (int \<times> chassis) option" where
  "set_chassis_enable_cmd argv s =
     (if length argv = 1 then Some (1, s)
      else do { a \<leftarrow> arg argv 1; Some (0, s\<lparr>is_chassis_running := str2bool a\<rparr>) })"

section \<open>A measured speed is of bounded size\<close>

lemma below_div:
  assumes "below (j + k) x" "y = Fin b" "2 ^ j \<le> b" "j + k \<le> 127"
  shows "below k (fdiv x y)"
proof -
  obtain a where a: "x = Fin a" "\<bar>a\<bar> \<le> 2 ^ (j + k)" using assms(1) by (auto simp: below_iff)
  have b: "0 < b" using assms(3) by (rule less_le_trans [rotated]) simp
  have "\<bar>a\<bar> \<le> 2 ^ k * 2 ^ j" using a(2) by (simp add: power_add mult.commute)
  also have "\<dots> \<le> 2 ^ k * b" using assms(3) by simp
  finally have "\<bar>a / b\<bar> \<le> 2 ^ k" using b by (simp add: abs_divide divide_le_eq)
  then show ?thesis using a b assms(2,4) by (auto intro!: rd32_below)
qed

lemma pulses_to_rpm_below:
  assumes "below 15 pul" "1 \<le> ms" "ms \<le> 2 ^ 42"
  shows "below 21 (pulses_to_rpm pul ms)"
proof -
  have c: "below 10 (Fin 1000)" "below 6 (Fin 60)" by (simp_all add: below_iff)
  have 1: "below 31 (fmul (fmul pul (Fin 1000)) (Fin 60))"
    using below_mul [OF below_mul [OF assms(1) c(1)] c(2)] by simp
  have "(of_int ms :: rat) \<le> 2 ^ 42" by (rule of_int_le_pow2) (rule assms(3))
  then have "fl_in 1 (2 ^ 42) (rd32 (of_int ms))"
    using assms(2) rd32_int [of 1] rd32_pow2 [of 42] by (intro rd32_in) simp_all
  then obtain b where b: "rd32 (of_int ms) = Fin b" "1 \<le> b" by (auto simp: fl_in_iff)
  have 2: "below 31 (fdiv (fmul (fmul pul (Fin 1000)) (Fin 60)) (rd32 (of_int ms)))"
    by (rule below_div [of 0 31 _ _ b]) (use 1 b in simp_all)
  have p: "rd32 (of_int PULSE_REVOL) = Fin 1160"
    using rd32_int [of 1160] by (simp add: PULSE_REVOL_def sdiv_pos)
  show ?thesis unfolding pulses_to_rpm_def p
    by (rule below_div [of 10 21 _ _ 1160]) (use 2 in simp_all)
qed

lemma pulses_below: "below 15 (rd32 (of_int (i16 n)))"
proof (rule rd32_below)
  have "\<bar>i16 n\<bar> \<le> 2 ^ 15" using i16_range(1) [of n] i16_range(2) [of n] by (simp add: abs_le_iff del: i16_range)
  then have "(of_int \<bar>i16 n\<bar> :: rat) \<le> 2 ^ 15" by (rule of_int_le_pow2)
  then show "\<bar>of_int (i16 n) :: rat\<bar> \<le> 2 ^ 15" by simp
qed simp

text \<open>At least one millisecond since the timer was started.\<close>

definition pit_ok :: "int \<Rightarrow> pit \<Rightarrow> bool" where
  "pit_ok clk t \<longleftrightarrow> 1 \<le> fst (pit_get_ms clk t)"

lemma pit_get_ms_le:
  assumes "1 \<le> clk"
  shows "fst (pit_get_ms clk t) \<le> 2 ^ 42"
proof -
  have "fst (pit_get t) \<le> 4294967295" by (simp add: pit_get_def)
  then have "fst (pit_get t) * 1000 \<le> 2 ^ 42" by simp
  moreover have "0 \<le> fst (pit_get t)" by (simp add: pit_get_def)
  then have "fst (pit_get t) * 1000 div clk \<le> fst (pit_get t) * 1000"
    using assms zdiv_mono2 [of "fst (pit_get t) * 1000" 1 clk] by simp
  moreover have "fst (pit_get_ms clk t) = fst (pit_get t) * 1000 div clk"
    by (simp add: pit_get_ms_def split: prod.split)
  ultimately show ?thesis by linarith
qed

definition sensor_ok :: "int \<Rightarrow> hardware \<Rightarrow> bool" where
  "sensor_ok k h \<longleftrightarrow> 1 \<le> pit_clock h \<and> pit_ok (pit_clock h) (if k = 1 then pit1 h else pit2 h)"

lemma encoder_measure_below:
  assumes "sensor_ok (enc_index enc) h" "enc_index enc = 1 \<or> enc_index enc = 2"
  shows "below 21 (fst (encoder_measure_rpm enc h))"
proof -
  have m: "below 21 (pulses_to_rpm x (fst (pit_get_ms (pit_clock h) t)))"
    if "below 15 x" "pit_ok (pit_clock h) t" for x t
    using that assms(1) pit_get_ms_le [of "pit_clock h" t]
    by (intro pulses_to_rpm_below) (simp_all add: sensor_ok_def pit_ok_def)
  show ?thesis
    using assms m [of "fl_neg (rd32 (of_int (i16 (quad1 h))))" "pit1 h"] m [of "rd32 (of_int (i16 (quad2 h)))" "pit2 h"]
    by (auto simp: encoder_measure_rpm_def pulses_below Let_def sensor_ok_def split: prod.split)
qed

lemma encoder_measure_other:
  "enc_index (fst (snd (encoder_measure_rpm enc h))) = enc_index enc"
  "pwm_out (snd (snd (encoder_measure_rpm enc h))) = pwm_out h"
  "enc_index enc = 1 \<Longrightarrow> pit2 (snd (snd (encoder_measure_rpm enc h))) = pit2 h"
  "pit_clock (snd (snd (encoder_measure_rpm enc h))) = pit_clock h"
  by (simp_all add: encoder_measure_rpm_def Let_def split: prod.split)

section \<open>One control step of a wheel\<close>

definition wheel_ok :: "int \<Rightarrow> wheel \<Rightarrow> bool" where
  "wheel_ok k w \<longleftrightarrow> ctrl_inv (- 1000) 1000 (w_controller w) \<and> w_motor w = k \<and> enc_index (w_encoder w) = k
     \<and> length (w_speed_now w) = 5 \<and> word_after w \<noteq> None \<and> below 2 (speed_to_rpm w)"

lemma shift_speed_eq:
  assumes "length xs = 6"
  shows "shift_speed xs = Some (take 1 xs @ take 5 xs)"
proof -
  obtain a b c d e f where xs: "xs = [a, b, c, d, e, f]"
    using assms by (auto simp: numeral_eq_Suc length_Suc_conv)
  show ?thesis unfolding xs
    by (simp add: shift_speed_def for_down.simps numeral_eq_Suc nat_eq_iff)
qed

text \<open>No motor has both sides of its bridge driven, and none gets more than a fifth of the
  period (10000 of 50000).\<close>

definition side_ok :: "int \<Rightarrow> int \<Rightarrow> bool" where
  "side_ok a b \<longleftrightarrow> 0 \<le> a \<and> a \<le> 10000 \<and> 0 \<le> b \<and> b \<le> 10000 \<and> (a = 0 \<or> b = 0)"

definition bridges_ok :: "pwm \<Rightarrow> bool" where
  "bridges_ok p \<longleftrightarrow> side_ok (duty p PWM1_MODULE3_CHA_D0) (duty p PWM1_MODULE3_CHB_D1)
     \<and> side_ok (duty p PWM2_MODULE3_CHA_D2) (duty p PWM2_MODULE3_CHB_D3)"

lemma motor_run_bridges:
  assumes "bridges_ok p"
  shows "bridges_ok (motor_run k t p)"
proof -
  have l: "- 1000 \<le> limit_int t 1000" "limit_int t 1000 \<le> 1000" using limit_int_range [of 1000 t] by simp_all
  then show ?thesis using assms
    by (auto simp: motor_run_def Let_def pwm_duty_def bridges_ok_def side_ok_def)
qed

lemma wheel_update_run:
  assumes w: "wheel_ok k w" "k = 1 \<or> k = 2" and h: "sensor_ok k h" "bridges_ok (pwm_out h)"
  shows "runs (wheel_update w h) (\<lambda>(w', h'). wheel_ok k w' \<and> bridges_ok (pwm_out h')
    \<and> pit_clock h' = pit_clock h \<and> (k = 1 \<longrightarrow> pit2 h' = pit2 h))"
proof -
  obtain rpm enc h1 where m: "encoder_measure_rpm (w_encoder w) h = (rpm, enc, h1)" by (cases "encoder_measure_rpm (w_encoder w) h")
  have rpm: "below 21 rpm" using encoder_measure_below [of "w_encoder w" h] h w m by (auto simp: wheel_ok_def)
  have o: "enc_index enc = k" "pwm_out h1 = pwm_out h" "pit_clock h1 = pit_clock h" "k = 1 \<Longrightarrow> pit2 h1 = pit2 h"
    using encoder_measure_other [where enc = "w_encoder w" and h = h] m w by (simp_all add: wheel_ok_def)
  define c where "c = controller_update (tick h1) rpm (w_controller w)"
  have inv: "ctrl_inv (- 1000) 1000 (w_controller w)" using w by (simp add: wheel_ok_def)
  have c: "ctrl_inv (- 1000) 1000 c" unfolding c_def by (rule ctrl.update_inv [OF inv rpm])
  have out: "fl_in (of_int (- 1000)) (of_int 1000) (controller_output c)"
    using ctrl.update_out [OF inv rpm] by (simp add: c_def)
  have "runs (fl_to_int (- 2147483648) 2147483647 (controller_output c)) (\<lambda>n. - 1000 \<le> n \<and> n \<le> 1000)"
    by (rule fl_to_int_in [OF out]) simp_all
  then obtain n where n: "fl_to_int (- 2147483648) 2147483647 (controller_output c) = Some n" by (rule runsE)
  obtain xs where xs: "c_put (w_speed_now w) 0 (fdiv rpm (speed_to_rpm w)) = Some xs" "length xs = 5"
    using w by (simp add: wheel_ok_def)
  obtain z where z: "word_after w = Some z" using w(1) by (auto simp: wheel_ok_def)
  have sh: "shift_speed (xs @ [z]) = Some (take 1 xs @ xs)"
    using shift_speed_eq [of "xs @ [z]"] xs(2) by simp
  show ?thesis
    unfolding wheel_update_def m prod.case Let_def
    using xs sh z n w c o motor_run_bridges [OF h(2), of k n]
    by (simp add: wheel_ok_def flip: c_def)
qed

section \<open>The chassis under its operations\<close>

definition chassis_ok :: "chassis \<Rightarrow> bool" where
  "chassis_ok s \<longleftrightarrow> (\<exists>l r. left_wheel s = Some l \<and> right_wheel s = Some r \<and> wheel_ok 1 l \<and> wheel_ok 2 r)
     \<and> length (speed_now s) = 5 \<and> bridges_ok (pwm_out (hw s)) \<and> 1 \<le> pit_clock (hw s) \<and> below 2 (wheel_diff_p s)"

text \<open>
  What happens to a running chassis: a round of its loop, with the counters and timers the
  hardware then shows, a new speed from the steering loop, and new gains.
\<close>

datatype chassis_op = Round int int int int pit pit | Velocity fl int | Gains fl fl fl

fun chassis_step :: "chassis_op \<Rightarrow> chassis \<Rightarrow> chassis option" where
  "chassis_step (Round switch t q1 q2 p1 p2) s =
     chassis_round switch (s\<lparr>hw := (hw s)\<lparr>tick := t, quad1 := q1, quad2 := q2, pit1 := p1, pit2 := p2\<rparr>\<rparr>)"
| "chassis_step (Velocity v e) s = Some (snd (set_velocity v e s))"
| "chassis_step (Gains kp ki kd) s = Some (snd (set_chassis_pid_param kp ki kd s))"

fun chassis_run :: "chassis_op list \<Rightarrow> chassis \<Rightarrow> chassis option" where
  "chassis_run [] s = Some s"
| "chassis_run (x # xs) s = do { s \<leftarrow> chassis_step x s; chassis_run xs s }"

fun chassis_op_ok :: "int \<Rightarrow> chassis_op \<Rightarrow> bool" where
  "chassis_op_ok clk (Round switch t q1 q2 p1 p2) = (pit_ok clk p1 \<and> pit_ok clk p2)"
| "chassis_op_ok clk (Velocity v e) = (below 9 v \<and> \<bar>e\<bar> \<le> 128)"
| "chassis_op_ok clk (Gains kp ki kd) = (gain_ok kp \<and> gain_ok ki \<and> gain_ok kd)"

lemma speed_average_loop:
  assumes "length (w_speed_now l) = 5" "length (w_speed_now r) = 5" "length (speed_now s) = 5"
  shows "runs (for_up (speed_average l r) 0 5 s) (\<lambda>t. \<exists>xs. length xs = 5 \<and> t = s\<lparr>speed_now := xs\<rparr>)"
proof (rule for_up_inv)
  show "\<exists>xs. length xs = 5 \<and> s = s\<lparr>speed_now := xs\<rparr>" by (rule exI [of _ "speed_now s"]) (simp add: assms)
  fix i :: int and t assume i: "0 \<le> i" "i < 5" and t: "\<exists>xs. length xs = 5 \<and> t = s\<lparr>speed_now := xs\<rparr>"
  then obtain xs where xs: "length xs = 5" "t = s\<lparr>speed_now := xs\<rparr>" by blast
  have "\<exists>ys. length ys = 5 \<and> s\<lparr>speed_now := xs[nat i := v]\<rparr> = s\<lparr>speed_now := ys\<rparr>" for v
    by (rule exI [of _ "xs[nat i := v]"]) (simp add: xs(1))
  then show "runs (speed_average l r i t) (flow_post (\<lambda>t. \<exists>xs. length xs = 5 \<and> t = s\<lparr>speed_now := xs\<rparr>)
      (\<lambda>t. \<exists>xs. length xs = 5 \<and> t = s\<lparr>speed_now := xs\<rparr>))"
    using assms i xs by (simp add: speed_average_def)
qed

lemma both_wheels_run:
  assumes "wheel_ok 1 l" "wheel_ok 2 r" "bridges_ok (pwm_out h)" "sensor_ok 1 h" "sensor_ok 2 h"
  shows "runs (do { (l, h) \<leftarrow> wheel_update l h; (r, h) \<leftarrow> wheel_update r h; Some (l, r, h) })
    (\<lambda>(l', r', h'). wheel_ok 1 l' \<and> wheel_ok 2 r' \<and> bridges_ok (pwm_out h') \<and> pit_clock h' = pit_clock h)"
    (is "runs _ ?P")
proof -
  obtain l' h1 where 1: "wheel_update l h = Some (l', h1)" "wheel_ok 1 l'" "bridges_ok (pwm_out h1)"
    "pit_clock h1 = pit_clock h" "pit2 h1 = pit2 h"
    using wheel_update_run [OF assms(1) _ assms(4,3)] by (auto elim!: runsE)
  have s: "sensor_ok 2 h1" using assms(5) 1 by (simp add: sensor_ok_def)
  obtain r' h2 where 2: "wheel_update r h1 = Some (r', h2)" "wheel_ok 2 r'" "bridges_ok (pwm_out h2)"
    "pit_clock h2 = pit_clock h1"
    using wheel_update_run [OF assms(2) _ s 1(3)] by (auto elim!: runsE)
  show ?thesis using 1 2 by simp
qed

lemma chassis_round_ok:
  assumes ok: "chassis_ok s" and sens: "sensor_ok 1 (hw s)" "sensor_ok 2 (hw s)"
  shows "runs (chassis_round switch s) (\<lambda>t. chassis_ok t \<and> pit_clock (hw t) = pit_clock (hw s))"
proof -
  from ok obtain l r where lr: "left_wheel s = Some l" "right_wheel s = Some r" "wheel_ok 1 l" "wheel_ok 2 r"
    and o: "length (speed_now s) = 5" "bridges_ok (pwm_out (hw s))" "1 \<le> pit_clock (hw s)" "below 2 (wheel_diff_p s)"
    by (auto simp: chassis_ok_def)
  let ?m = "if switch = 0 then do { (l, h) \<leftarrow> wheel_update l (hw s); (r, h) \<leftarrow> wheel_update r h; Some (l, r, h) }
          else Some (l, r, (hw s)\<lparr>pwm_out := motor_run (w_motor r) 0 (motor_run (w_motor l) 0 (pwm_out (hw s)))\<rparr>)"
  have "runs ?m (\<lambda>(l', r', h'). wheel_ok 1 l' \<and> wheel_ok 2 r' \<and> bridges_ok (pwm_out h') \<and> pit_clock h' = pit_clock (hw s))"
    using both_wheels_run [OF lr(3,4) o(2) sens] lr o by (simp add: motor_run_bridges)
  then obtain l' r' h' where m: "?m = Some (l', r', h')" "wheel_ok 1 l'" "wheel_ok 2 r'" "bridges_ok (pwm_out h')"
    "pit_clock h' = pit_clock (hw s)" by (auto elim!: runsE)
  define t where "t = s\<lparr>left_wheel := Some l', right_wheel := Some r', hw := h'\<rparr>"
  have run: "chassis_round switch s = for_up (speed_average l' r') 0 5 t"
    unfolding chassis_round_def lr bind.bind_lunit m(1) by (simp add: t_def)
  have "runs (for_up (speed_average l' r') 0 5 t) (\<lambda>u. \<exists>xs. length xs = 5 \<and> u = t\<lparr>speed_now := xs\<rparr>)"
    by (rule speed_average_loop) (use m o in \<open>simp_all add: wheel_ok_def t_def\<close>)
  then show ?thesis unfolding run
    by (rule runs_mono) (use m o in \<open>auto simp: chassis_ok_def t_def\<close>)
qed

lemma set_velocity_ok:
  assumes ok: "chassis_ok s" and v: "below 9 v" "\<bar>e\<bar> \<le> 128"
  shows "chassis_ok (snd (set_velocity v e s)) \<and> hw (snd (set_velocity v e s)) = hw s"
proof -
  from ok obtain l r where lr: "left_wheel s = Some l" "right_wheel s = Some r" "wheel_ok 1 l" "wheel_ok 2 r"
    and o: "length (speed_now s) = 5" "bridges_ok (pwm_out (hw s))" "1 \<le> pit_clock (hw s)" "below 2 (wheel_diff_p s)"
    by (auto simp: chassis_ok_def)
  define c where "c = (if ABS e > 10 then fmul (fmul (wheel_diff_p s) (rd32 (of_int e))) v else Fin 0)"
  have "(of_int \<bar>e\<bar> :: rat) \<le> 2 ^ 7" by (rule of_int_le_pow2) (use v in simp)
  then have e: "below 7 (rd32 (of_int e))" by (intro rd32_below) simp_all
  have "below 18 (fmul (fmul (wheel_diff_p s) (rd32 (of_int e))) v)"
    using below_mul [OF below_mul [OF o(4) e] v(1)] by simp
  then have c: "below 18 c" by (simp add: c_def)
  have v18: "below 18 v" by (rule below_mono [OF v(1)]) simp
  have lrs: "below 19 (fadd v c)" "below 19 (fsub v c)" using below_add [OF v18 c] by simp_all
  have t: "below 21 (fmul x (speed_to_rpm w))" if "below 19 x" "wheel_ok k w" for x w k
    using below_mul [of 19 x 2 "speed_to_rpm w"] that by (simp add: wheel_ok_def)
  have w: "wheel_ok k (wheel_set_speed x w)" if "below 19 x" "wheel_ok k w" for x w k
    using that ctrl.target_inv [OF _ t [OF that]] by (simp add: wheel_ok_def wheel_set_speed_def)
  show ?thesis using lr o w [OF lrs(1) lr(3)] w [OF lrs(2) lr(4)]
    by (simp add: set_velocity_def Let_def chassis_ok_def flip: c_def)
qed

lemma set_gains_ok:
  assumes ok: "chassis_ok s" and g: "below 10 kp" "below 10 ki" "below 10 kd"
  shows "chassis_ok (snd (set_chassis_pid_param kp ki kd s)) \<and> hw (snd (set_chassis_pid_param kp ki kd s)) = hw s"
  using ok ctrl.param_inv [OF _ g] by (auto simp: set_chassis_pid_param_def chassis_ok_def wheel_ok_def)

lemma chassis_step_ok:
  assumes "chassis_ok s" "chassis_op_ok (pit_clock (hw s)) x"
  shows "runs (chassis_step x s) (\<lambda>t. chassis_ok t \<and> pit_clock (hw t) = pit_clock (hw s))"
proof (cases x)
  case (Round switch t q1 q2 p1 p2)
  let ?s = "s\<lparr>hw := (hw s)\<lparr>tick := t, quad1 := q1, quad2 := q2, pit1 := p1, pit2 := p2\<rparr>\<rparr>"
  have "chassis_ok ?s" "sensor_ok 1 (hw ?s)" "sensor_ok 2 (hw ?s)"
    using assms Round by (simp_all add: chassis_ok_def sensor_ok_def)
  from chassis_round_ok [OF this] show ?thesis using Round by simp
next
  case (Velocity v e)
  then show ?thesis using assms set_velocity_ok [of s v e] by simp
next
  case (Gains kp ki kd)
  then show ?thesis using assms set_gains_ok [of s kp ki kd] by (simp add: gain_ok_def)
qed

lemma chassis_run_ok:
  "chassis_ok s \<Longrightarrow> \<forall>x \<in> set xs. chassis_op_ok (pit_clock (hw s)) x \<Longrightarrow> runs (chassis_run xs s) chassis_ok"
proof (induction xs arbitrary: s)
  case (Cons x xs)
  have "runs (chassis_step x s) (\<lambda>t. chassis_ok t \<and> pit_clock (hw t) = pit_clock (hw s))"
    by (rule chassis_step_ok) (use Cons.prems in simp_all)
  then show ?case unfolding chassis_run.simps
    by (rule runs_bindI) (use Cons.IH Cons.prems in auto)
qed simp

section \<open>Start\<close>

lemma speed_factor: "below 2 (fdiv (Fin 60) (fmul (fmul (fmul (Fin 100) WHEEL_RADIUS) (Fin 2)) PI))"
proof -
  have "fl_in (1 / 16) (2 / 16) (rd64 (33 / 500))" using rd64_in_dyadic [of 1 4 "33 / 500" 2] by simp
  then obtain a where a: "rd64 (33 / 500) = Fin a" "1 / 16 \<le> a" "a \<le> 2 / 16" by (auto simp: fl_in_iff)
  have "fl_in (1 / 32) (2 / 32) (rd64 (a / 2))" using rd64_in_dyadic [of 1 5 "a / 2" 2] a by simp
  then obtain b where b: "rd64 (a / 2) = Fin b" "1 / 32 \<le> b" "b \<le> 2 / 32" by (auto simp: fl_in_iff)
  have "fl_in (1 / 32) (2 / 32) (rd32 b)" using rd32_in_dyadic [of 1 5 b 2] b by simp
  then obtain r where r: "rd32 b = Fin r" "1 / 32 \<le> r" "r \<le> 2 / 32" by (auto simp: fl_in_iff)
  have wr: "WHEEL_RADIUS = Fin r" by (simp add: WHEEL_RADIUS_def a b r)
  have "fl_in 3 7 (rd32 (100 * r))" using rd32_in_int [of 3 "100 * r" 7] r by simp
  then obtain c where c: "rd32 (100 * r) = Fin c" "3 \<le> c" "c \<le> 7" by (auto simp: fl_in_iff)
  have "fl_in 6 14 (rd32 (c * 2))" using rd32_in_int [of 6 "c * 2" 14] c by simp
  then obtain d where d: "rd32 (c * 2) = Fin d" "6 \<le> d" "d \<le> 14" by (auto simp: fl_in_iff)
  have "fl_in 3 4 (rd32 (31415926 / 10000000))" using rd32_in_int [of 3 "31415926 / 10000000" 4] by simp
  then obtain p where p: "PI = Fin p" "3 \<le> p" "p \<le> 4" by (auto simp: fl_in_iff PI_def)
  have "6 * 3 \<le> d * p" "d * p \<le> 14 * 4" using d p by (intro mult_mono; simp)+
  then have "fl_in 18 56 (rd32 (d * p))" using rd32_in_int [of 18 "d * p" 56] by simp
  then obtain q where q: "rd32 (d * p) = Fin q" "18 \<le> q" "q \<le> 56" by (auto simp: fl_in_iff)
  have "\<bar>60 / q\<bar> \<le> 2 ^ 2" using q by (simp add: field_simps)
  then have "below 2 (rd32 (60 / q))" by (rule rd32_below) simp
  moreover have "fmul (Fin 100) WHEEL_RADIUS = Fin c" unfolding wr by (simp add: c(1))
  moreover have "fmul (Fin c) (Fin 2) = Fin d" by (simp add: d(1))
  moreover have "fmul (Fin d) PI = Fin q" unfolding p(1) by (simp add: q(1))
  moreover have "fdiv (Fin 60) (Fin q) = rd32 (60 / q)" using q by simp
  ultimately show ?thesis by simp
qed

lemma gain_below:
  assumes "0 \<le> x" "x \<le> 1"
  shows "below k (fl_map rd32 (rd64 x))"
proof -
  have "fl_in 0 1 (rd64 x)" using rd64_in_int [of 0 x 1] assms by simp
  then obtain a where a: "rd64 x = Fin a" "0 \<le> a" "a \<le> 1" by (auto simp: fl_in_iff)
  then have "fl_in 0 1 (rd32 a)" using rd32_in_int [of 0 a 1] by simp
  then have "below k (rd32 a)" by (rule below_in) (simp_all add: order_trans [of "- (2 ^ k)" 0])
  then show ?thesis by (simp add: a)
qed

definition start_args_ok :: "chassis_memory \<Rightarrow> chassis \<Rightarrow> bool" where
  "start_args_ok mem s \<longleftrightarrow> gain_ok (wheel_kp s) \<and> gain_ok (wheel_ki s) \<and> gain_ok (wheel_kd s)
     \<and> below 2 (wheel_diff_p s) \<and> length (speed_now s) = 5 \<and> 1 \<le> pit_clock (hw s)
     \<and> length (w_speed_now (mem_wheel1 mem)) = 5 \<and> length (w_speed_now (mem_wheel2 mem)) = 5
     \<and> word_after (mem_wheel1 mem) \<noteq> None \<and> word_after (mem_wheel2 mem) \<noteq> None"

text \<open>After the first \<open>set_velocity\<close>; before it the targets are whatever the allocator left.\<close>

lemma inc_create_ok:
  assumes "inc_pid_controller_create mem kp ki kd (Fin 1000) (Fin (- 1000)) st = Some c"
    "gain_ok kp" "gain_ok ki" "gain_ok kd" "below 21 x"
  shows "ctrl_inv (- 1000) 1000 (controller_set_target x (Inc c))"
  using inc_create_inv [of mem kp ki kd 1000 st c x] assms by (simp add: gain_ok_def)

lemma chassis_start_ok:
  assumes start: "chassis_start mem s = Some t" and ok: "start_args_ok mem s"
    and v: "below 9 v" "\<bar>e\<bar> \<le> 128"
  shows "chassis_ok (snd (set_velocity v e t)) \<and> pit_clock (hw (snd (set_velocity v e t))) = pit_clock (hw s)"
proof -
  obtain c1 c2 where c: "inc_pid_controller_create (Some (mem_pid1 mem)) (wheel_kp s) (wheel_ki s) (wheel_kd s) (Fin 1000) (Fin (- 1000)) 30 = Some c1"
    "inc_pid_controller_create (Some (mem_pid2 mem)) (wheel_kp s) (wheel_ki s) (wheel_kd s) (Fin 1000) (Fin (- 1000)) 30 = Some c2"
    by (simp add: inc_pid_controller_create_def controller_create_def)
  define l where "l = the (left_wheel t)"
  define r where "r = the (right_wheel t)"
  have lr: "left_wheel t = Some l" "right_wheel t = Some r"
    using start c by (auto simp: chassis_start_def l_def r_def Let_def split: prod.splits)
  have l: "w_controller l = Inc c1" "w_motor l = 1" "enc_index (w_encoder l) = 1" "length (w_speed_now l) = 5 \<and> word_after l \<noteq> None"
    "below 2 (speed_to_rpm l)"
    using start c ok speed_factor
    by (auto simp: chassis_start_def l_def Let_def start_args_ok_def motor_create_def encoder_create_def wheel_create_def)
  have r: "w_controller r = Inc c2" "w_motor r = 2" "enc_index (w_encoder r) = 2" "length (w_speed_now r) = 5 \<and> word_after r \<noteq> None"
    "below 2 (speed_to_rpm r)"
    using start c ok speed_factor
    by (auto simp: chassis_start_def r_def Let_def start_args_ok_def motor_create_def encoder_create_def wheel_create_def)
  have o: "length (speed_now t) = 5" "bridges_ok (pwm_out (hw t))" "1 \<le> pit_clock (hw t)" "below 2 (wheel_diff_p t)"
      "pit_clock (hw t) = pit_clock (hw s)"
    using start c ok
    by (auto simp: chassis_start_def Let_def start_args_ok_def motor_create_def encoder_create_def
        bridges_ok_def side_ok_def pwm_init_def)
  define cv where "cv = (if ABS e > 10 then fmul (fmul (wheel_diff_p t) (rd32 (of_int e))) v else Fin 0)"
  have "(of_int \<bar>e\<bar> :: rat) \<le> 2 ^ 7" by (rule of_int_le_pow2) (use v in simp)
  then have e: "below 7 (rd32 (of_int e))" by (intro rd32_below) simp_all
  have "below 18 (fmul (fmul (wheel_diff_p t) (rd32 (of_int e))) v)"
    using below_mul [OF below_mul [OF o(4) e] v(1)] by simp
  then have cv: "below 18 cv" by (simp add: cv_def)
  have v18: "below 18 v" by (rule below_mono [OF v(1)]) simp
  have lrs: "below 19 (fadd v cv)" "below 19 (fsub v cv)" using below_add [OF v18 cv] by simp_all
  have g: "gain_ok (wheel_kp s)" "gain_ok (wheel_ki s)" "gain_ok (wheel_kd s)" using ok by (simp_all add: start_args_ok_def)
  have "below 21 (fmul (fadd v cv) (speed_to_rpm l))" "below 21 (fmul (fsub v cv) (speed_to_rpm r))"
    using below_mul [OF lrs(1) l(5)] below_mul [OF lrs(2) r(5)] by simp_all
  then have "wheel_ok 1 (wheel_set_speed (fadd v cv) l)" "wheel_ok 2 (wheel_set_speed (fsub v cv) r)"
    using inc_create_ok [OF c(1) g] inc_create_ok [OF c(2) g] l r by (simp_all add: wheel_ok_def wheel_set_speed_def)
  then show ?thesis using lr o by (simp add: set_velocity_def Let_def chassis_ok_def flip: cv_def)
qed

section \<open>Properties\<close>

text \<open>Every round that drives the wheels writes behind their arrays.\<close>

lemma wheel_update_overruns: "word_after w = None \<Longrightarrow> wheel_update w h = None"
  by (auto simp: wheel_update_def Let_def split: prod.split bind_split)

lemma chassis_overruns:
  assumes "chassis_start mem s = Some t" "word_after (mem_wheel1 mem) = None"
  shows "chassis_run [Velocity v e, Round 0 time q1 q2 p1 p2] t = None"
proof -
  obtain l r where lr: "left_wheel t = Some l" "right_wheel t = Some r" "word_after l = None"
    using assms by (auto simp: chassis_start_def wheel_create_def split: prod.splits bind_splits)
  then have "wheel_update (wheel_set_speed x l) h = None" for x h
    by (intro wheel_update_overruns) (simp add: wheel_set_speed_def)
  then show ?thesis by (simp add: chassis_round_def set_velocity_def Let_def lr)
qed


definition chassis_init :: chassis where
  "chassis_init = \<lparr>left_wheel = None, right_wheel = None, is_chassis_debug = 0, is_chassis_running = 1,
     wheel_kp = fl_map rd32 (rd64 (4 / 10)), wheel_ki = fl_map rd32 (rd64 (1 / 10)), wheel_kd = Fin 0,
     wheel_diff_p = fl_map rd32 (rd64 (2 / 10)), speed_now = replicate 5 (Fin 0),
     hw = \<lparr>tick = 0, quad1 = 0, quad2 = 0, pit1 = \<lparr>pit_running = False, pit_count = 0, pit_flag = False\<rparr>,
           pit2 = \<lparr>pit_running = False, pit_count = 0, pit_flag = False\<rparr>, pit_clock = 75000000,
           pwm_out = pwm_off\<rparr>\<rparr>"

definition memory_of :: "fl \<Rightarrow> chassis_memory" where
  "memory_of x = (
     let e = \<lparr>enc_index = 0, enc_rpm = x, enc_sample_time = 0, enc_last_time = 0\<rparr>;
         p = inc_memory\<lparr>target := x\<rparr>;
         w = \<lparr>w_motor = 0, w_encoder = e, w_controller = Inc p, w_rpm = x, w_radius = x, speed_to_rpm = x,
              w_speed_now = replicate 5 x, word_after = Some x\<rparr>
     in \<lparr>mem_enc1 = e, mem_enc2 = e, mem_pid1 = p, mem_pid2 = p, mem_wheel1 = w, mem_wheel2 = w\<rparr>)"

lemma start_args_init: "start_args_ok (memory_of x) chassis_init"
proof -
  have "gain_ok (fl_map rd32 (rd64 (4 / 10))) \<and> gain_ok (fl_map rd32 (rd64 (1 / 10)))
      \<and> below 2 (fl_map rd32 (rd64 (2 / 10)))" by (simp add: gain_ok_def gain_below)
  then show ?thesis by (simp add: start_args_ok_def chassis_init_def memory_of_def Let_def gain_ok_def)
qed

lemma chassis_start_runs: "\<exists>t. chassis_start mem s = Some t"
  by (simp add: chassis_start_def inc_pid_controller_create_def controller_create_def split: prod.split)

lemma pit_75MHz: "pit_ok 75000000 \<lparr>pit_running = True, pit_count = 3750000, pit_flag = False\<rparr>"
  by (simp add: pit_ok_def pit_get_ms_def pit_get_def)

text \<open>A heap with the wheels packed before another object.\<close>

definition packed_memory :: "chassis_memory \<Rightarrow> chassis_memory" where
  "packed_memory mem = mem\<lparr>mem_wheel1 := (mem_wheel1 mem)\<lparr>word_after := None\<rparr>\<rparr>"


text \<open>
  C12: before that the target of the wheel controllers is uninitialised memory, because
  neither \<open>controller_create\<close> nor \<open>inc_pid_controller_create\<close> sets it: when the allocator's
  old contents read as a NaN there, the first round of the chassis thread with switch 2 on
  converts a NaN to an integer, whatever the sensors show.
\<close>

theorem uninitialised_target_traps:
  assumes "chassis_start mem s = Some t" "target (mem_pid1 mem) = NaN"
  shows "chassis_run [Round 0 time q1 q2 p1 p2] t = None"
proof -
  obtain c where c: "inc_pid_controller_create (Some (mem_pid1 mem)) (wheel_kp s) (wheel_ki s) (wheel_kd s) (Fin 1000) (Fin (- 1000)) 30 = Some c"
    "target c = NaN"
    using assms(2) by (simp add: inc_pid_controller_create_def controller_create_def)
  obtain l r where l: "left_wheel t = Some l" "w_controller l = Inc c" "right_wheel t = Some r"
    using assms(1) c
    by (auto simp: chassis_start_def wheel_create_def split: prod.splits bind_splits)
  have nan: "fadd x NaN = NaN" for x by (cases x) simp_all
  have mnan: "fmul x NaN = NaN" for x by (cases x) simp_all
  have "ctl_output (inc_pid_controller_update k x c) = NaN" for k x
    using c(2) by (simp add: inc_pid_controller_update_def Let_def fl_sub_def nan mnan clamp_def)
  then have "wheel_update l h = None" for h
    by (auto simp: wheel_update_def l fl_to_int_def split: prod.split bind_split)
  then show ?thesis by (simp add: chassis_round_def l)
qed

lemma uninitialised_target_traps_witness:
  "\<exists>t. chassis_start (memory_of NaN) chassis_init = Some t
    \<and> chassis_run [Round 0 150 0 0 \<lparr>pit_running = True, pit_count = 3750000, pit_flag = False\<rparr>
         \<lparr>pit_running = True, pit_count = 3750000, pit_flag = False\<rparr>] t = None"
proof -
  obtain t where t: "chassis_start (memory_of NaN) chassis_init = Some t" using chassis_start_runs by blast
  have "target (mem_pid1 (memory_of NaN)) = NaN" by (simp add: memory_of_def Let_def)
  with t show ?thesis using uninitialised_target_traps [OF t] by blast
qed

end
