(* ===== verification/FloatSqrt.thy ===== *)
theory FloatSqrt
  imports FloatModel
begin

text \<open>
  The library function \<open>sqrt\<close> (correctly rounded, as IEEE 754 requires), and enclosures of the
  arithmetic operations between integer bounds, which the float computations of
  \<open>distinguish.c\<close> rest on.
\<close>

section \<open>Integer square root\<close>

function nsqrt :: "nat \<Rightarrow> nat" where
  "nsqrt n = (if n = 0 then 0
     else let r = 2 * nsqrt (n div 4) in if (r + 1) * (r + 1) \<le> n then r + 1 else r)"
  by pat_completeness auto
termination
  by (relation "measure id") auto

declare nsqrt.simps [simp del]

lemma nsqrt_bounds: "nsqrt n * nsqrt n \<le> n \<and> n < (nsqrt n + 1) * (nsqrt n + 1)"
proof (induction n rule: nsqrt.induct)
  case (1 n)
  show ?case
  proof (cases "n = 0")
    case True
    then show ?thesis by (simp add: nsqrt.simps)
  next
    case False
    define r where "r = nsqrt (n div 4)"
    from 1 False have "r * r \<le> n div 4" "n div 4 < (r + 1) * (r + 1)" by (simp_all add: r_def)
    then have a: "4 * (r * r) \<le> n" and b: "n < 4 * ((r + 1) * (r + 1))" by linarith+
    have e: "nsqrt n = (if (2 * r + 1) * (2 * r + 1) \<le> n then 2 * r + 1 else 2 * r)"
      using False by (simp add: nsqrt.simps [of n] r_def Let_def)
    show ?thesis unfolding e using a b by (auto simp: algebra_simps)
  qed
qed

section \<open>The square root\<close>

text \<open>
  The root of a positive \<open>r\<close> is computed with more than sixty bits, and a last bit that says
  whether it is inexact; rounding that number rounds the root.
\<close>

definition sqrt_approx :: "rat \<Rightarrow> rat" where
  "sqrt_approx r = (let k = 60 - ilog2 r div 2;
                        x = r * 4 powi k;
                        q = nsqrt (nat \<lfloor>x\<rfloor>)
     in (of_nat (2 * q) + (if of_nat (q * q) = x then 0 else 1)) / 2 powi (k + 1))"

fun fl_sqrt :: "(rat \<Rightarrow> fl) \<Rightarrow> fl \<Rightarrow> fl" where
  "fl_sqrt rd (Fin r) = (if r = 0 then Fin 0 else if r < 0 then NaN else rd (sqrt_approx r))"
| "fl_sqrt rd PInf = PInf"
| "fl_sqrt rd NInf = NaN"
| "fl_sqrt rd NaN = NaN"

lemma pow4: "(4::rat) powi k = 2 powi k * 2 powi k"
  by (simp flip: power_int_mult_distrib)

lemma sqrt_approx_root:
  assumes "0 < r" and k: "k = 60 - ilog2 r div 2"
  obtains q :: nat where "of_nat q / 2 powi k \<le> sqrt_approx r" "sqrt_approx r \<le> (of_nat q + 1 / 2) / 2 powi k"
    "(of_nat q / 2 powi k) * (of_nat q / 2 powi k) \<le> r" "r < ((of_nat q + 1) / 2 powi k) * ((of_nat q + 1) / 2 powi k)"
proof
  define x where "x = r * 4 powi k"
  define q where "q = nsqrt (nat \<lfloor>x\<rfloor>)"
  have K: "0 < (2::rat) powi k" by simp
  have x: "0 \<le> x" using assms(1) by (simp add: x_def pow4)
  have n: "of_nat (nat \<lfloor>x\<rfloor>) \<le> x" "x < of_nat (nat \<lfloor>x\<rfloor> + 1)"
    using x floor_correct [of x] by simp_all
  have "of_nat (q * q) \<le> (of_nat (nat \<lfloor>x\<rfloor>) :: rat)"
    using nsqrt_bounds [of "nat \<lfloor>x\<rfloor>"] by (simp only: q_def of_nat_le_iff)
  with n have lo: "of_nat q * of_nat q \<le> x" by simp
  have "nat \<lfloor>x\<rfloor> + 1 \<le> (q + 1) * (q + 1)"
    using nsqrt_bounds [of "nat \<lfloor>x\<rfloor>"] by (simp add: q_def)
  then have "(of_nat (nat \<lfloor>x\<rfloor> + 1) :: rat) \<le> of_nat ((q + 1) * (q + 1))" by (simp only: of_nat_le_iff)
  with n have hi: "x < (of_nat q + 1) * (of_nat q + 1)" by (simp add: algebra_simps)
  have v: "sqrt_approx r = (2 * of_nat q + (if of_nat (q * q) = x then 0 else 1)) / (2 * 2 powi k)"
    by (simp add: sqrt_approx_def Let_def q_def x_def k pow2_Suc)
  show "of_nat q / 2 powi k \<le> sqrt_approx r" "sqrt_approx r \<le> (of_nat q + 1 / 2) / 2 powi k"
    unfolding v using K by (simp_all add: field_simps)
  have "r = x / (2 powi k * 2 powi k)" using K by (simp add: x_def pow4)
  then show "(of_nat q / 2 powi k) * (of_nat q / 2 powi k) \<le> r"
    "r < ((of_nat q + 1) / 2 powi k) * ((of_nat q + 1) / 2 powi k)"
    using lo hi K by (simp_all add: field_simps)
qed

lemma sqrt_approx_bound:
  assumes "0 < r" "r \<le> of_nat B * of_nat B" "ilog2 r \<le> 120"
  shows "0 \<le> sqrt_approx r" "sqrt_approx r \<le> of_nat B + 1"
proof -
  define k where "k = 60 - ilog2 r div 2"
  obtain q where q: "of_nat q / 2 powi k \<le> sqrt_approx r" "sqrt_approx r \<le> (of_nat q + 1 / 2) / 2 powi k"
    "(of_nat q / 2 powi k) * (of_nat q / 2 powi k) \<le> r"
    by (rule sqrt_approx_root [OF assms(1) k_def])
  have "0 \<le> of_nat q / (2::rat) powi k" by simp
  then show "0 \<le> sqrt_approx r" using q(1) by (rule order_trans)
  define u where "u = of_nat q / (2::rat) powi k"
  have "u * u \<le> of_nat B * of_nat B" using q(3) assms(2) unfolding u_def by (rule order_trans)
  then have "u \<le> of_nat B"
    using mult_strict_mono' [of "of_nat B" u "of_nat B" u] by (simp flip: not_less) (metis not_less)
  moreover have "1 / 2 / (2::rat) powi k \<le> 1"
  proof -
    have "(1::rat) \<le> 2 powi k" using pow2_mono [of 0 k] assms(3) by (simp add: k_def)
    then show ?thesis by (simp add: field_simps)
  qed
  ultimately show "sqrt_approx r \<le> of_nat B + 1" using q(2) unfolding u_def add_divide_distrib by linarith
qed

section \<open>Enclosures\<close>

text \<open>Values between two integers, in single and double precision.\<close>

definition fl_btw :: "int \<Rightarrow> int \<Rightarrow> fl \<Rightarrow> bool" where
  "fl_btw a b x = fl_in (of_int a) (of_int b) x"

lemma fl_btw_Fin [simp]: "fl_btw a b (Fin r) \<longleftrightarrow> of_int a \<le> r \<and> r \<le> of_int b"
  by (simp add: fl_btw_def)

lemma fl_btwE:
  assumes "fl_btw a b x"
  obtains r where "x = Fin r" "of_int a \<le> r" "r \<le> of_int b"
  using assms by (auto simp: fl_btw_def fl_in_iff)

lemma fl_btw_mono: "fl_btw a b x \<Longrightarrow> c \<le> a \<Longrightarrow> b \<le> d \<Longrightarrow> fl_btw c d x"
  by (erule fl_btwE) (auto intro: order_trans)

lemma rd32_btw: "of_int a \<le> x \<Longrightarrow> x \<le> of_int b \<Longrightarrow> \<bar>a\<bar> \<le> 16777216 \<Longrightarrow> \<bar>b\<bar> \<le> 16777216 \<Longrightarrow> fl_btw a b (rd32 x)"
  unfolding fl_btw_def by (rule rd32_in_int) simp_all

lemma rd64_btw: "of_int a \<le> x \<Longrightarrow> x \<le> of_int b \<Longrightarrow> \<bar>a\<bar> \<le> 9007199254740992 \<Longrightarrow> \<bar>b\<bar> \<le> 9007199254740992
    \<Longrightarrow> fl_btw a b (rd64 x)"
  unfolding fl_btw_def by (rule rd64_in_int) simp_all

lemma fadd_btw:
  assumes "fl_btw a b x" "fl_btw c d y" "\<bar>a + c\<bar> \<le> 16777216" "\<bar>b + d\<bar> \<le> 16777216"
  shows "fl_btw (a + c) (b + d) (fl_add rd32 x y)"
  using assms by (elim fl_btwE) (auto intro!: rd32_btw add_mono)

lemma fsub_btw:
  assumes "fl_btw a b x" "fl_btw c d y" "\<bar>a - d\<bar> \<le> 16777216" "\<bar>b - c\<bar> \<le> 16777216"
  shows "fl_btw (a - d) (b - c) (fl_sub rd32 x y)"
  using assms by (elim fl_btwE) (auto simp: fl_sub_def intro!: rd32_btw diff_mono)

lemma abs_btw: "fl_btw (- a) a x \<longleftrightarrow> (\<exists>r. x = Fin r \<and> \<bar>r\<bar> \<le> of_int a)"
  by (cases x) (auto simp: fl_btw_def fl_in_def abs_le_iff)

lemma fmul_btw:
  assumes "fl_btw (- a) a x" "fl_btw (- b) b y" "a * b \<le> 16777216" "0 \<le> a" "0 \<le> b"
  shows "fl_btw (- (a * b)) (a * b) (fl_mul rd32 x y)"
proof -
  obtain r s where r: "x = Fin r" "\<bar>r\<bar> \<le> of_int a" and s: "y = Fin s" "\<bar>s\<bar> \<le> of_int b"
    using assms(1,2) unfolding abs_btw by blast
  have "\<bar>r * s\<bar> \<le> of_int a * of_int b"
    unfolding abs_mult by (rule mult_mono) (use r s assms in auto)
  then have "\<bar>r * s\<bar> \<le> of_int (a * b)" by simp
  moreover have "\<bar>a * b\<bar> \<le> 16777216" "\<bar>- (a * b)\<bar> \<le> 16777216" using assms by simp_all
  ultimately show ?thesis unfolding r s fl_mul.simps by (intro rd32_btw) (simp_all add: abs_le_iff)
qed

lemma fsquare_btw:
  assumes "fl_btw (- a) a x" "a * a \<le> 16777216" "0 \<le> a"
  shows "fl_btw 0 (a * a) (fl_mul rd32 x x)"
proof -
  obtain r where r: "x = Fin r" "\<bar>r\<bar> \<le> of_int a" using assms(1) unfolding abs_btw by blast
  have "\<bar>r\<bar> * \<bar>r\<bar> \<le> of_int a * of_int a" by (rule mult_mono) (use r assms in auto)
  then have "0 \<le> r * r" "r * r \<le> of_int (a * a)" by simp_all
  then show ?thesis unfolding r fl_mul.simps by (intro rd32_btw) (use assms in simp_all)
qed

lemma sqrt_btw:
  assumes "fl_btw 0 (int (B * B)) x" "B \<le> 1000000"
  shows "fl_btw 0 (int B + 1) (fl_sqrt rd64 x)"
proof -
  obtain r where r: "x = Fin r" "0 \<le> r" "r \<le> of_int (int (B * B))" by (rule fl_btwE [OF assms(1)]) simp
  show ?thesis
  proof (cases "r = 0")
    case True
    then show ?thesis by (simp add: r)
  next
    case False
    with r have p: "0 < r" by simp
    have "int (B * B) \<le> 1000000 * 1000000"
      using mult_mono [of "int B" 1000000 "int B" 1000000] assms(2) by simp
    then have "(of_int (int (B * B)) :: rat) \<le> of_int (1000000 * 1000000)" by (simp only: of_int_le_iff)
    with r have "r \<le> 1000000000000" by simp
    moreover have "2 powi (ilog2 r) \<le> r" by (rule ilog2_bounds(1) [OF p])
    ultimately have "(2::rat) powi (ilog2 r) < 2 powi 120" by simp
    then have "ilog2 r < 120" by (rule pow2_less_cancel)
    then have "ilog2 r \<le> 120" by simp
    with sqrt_approx_bound [OF p _ this, of B] r have "0 \<le> sqrt_approx r" "sqrt_approx r \<le> of_nat B + 1"
      by simp_all
    then show ?thesis using p assms(2) by (auto simp: r intro!: rd64_btw)
  qed
qed

lemma fl_to_int_btw:
  assumes "fl_btw a b v" "a \<le> 0" "0 \<le> b" "lo \<le> a" "b \<le> hi"
  shows "runs (fl_to_int lo hi v) (\<lambda>n. a \<le> n \<and> n \<le> b)"
  using fl_to_int_in [of a b v lo hi] assms by (simp add: fl_btw_def)

lemma rd32_upto_scaled:
  assumes "0 \<le> x" "x \<le> of_int n * 2 ^ k" "0 \<le> n" "n \<le> 16777216" "k \<le> 100"
  shows "\<exists>r. rd32 x = Fin r \<and> 0 \<le> r \<and> r \<le> of_int n * 2 ^ k"
proof -
  have "(of_int n :: rat) \<le> of_int 16777216" using assms(4) by (simp only: of_int_le_iff)
  then have "of_int n * (2::rat) ^ k \<le> 2 ^ 24 * 2 ^ 100"
    using assms(3) power_increasing [OF assms(5), of "2::rat"] by (intro mult_mono) simp_all
  also have "\<dots> < 2 powi 128" using power_strict_increasing [of 124 128 "2::rat"] by simp
  finally have "rd32 (of_int n * 2 ^ k) = Fin (of_int n * 2 ^ k)"
    unfolding rd32_def using assms(3,4) by (intro to_fl_exact [where m = n and e = "int k"]) simp_all
  moreover have "rd32 0 = Fin 0" using rd32_int [of 0] by simp
  ultimately have "fl_in 0 (of_int n * 2 ^ k) (rd32 x)" using assms(1,2) by (intro rd32_in)
  then show ?thesis by (auto simp: fl_in_iff)
qed

section \<open>Scaling by a power of two\<close>

lemma ilog2_unique:
  assumes "2 powi e \<le> x" "x < 2 powi (e + 1)"
  shows "ilog2 x = e"
proof -
  have x: "0 < x" using pow2_pos [of e] assms(1) by (rule less_le_trans)
  have "(2::rat) powi (ilog2 x) < 2 powi (e + 1)" using ilog2_bounds(1) [OF x] assms(2) by (rule le_less_trans)
  moreover have "(2::rat) powi e < 2 powi (ilog2 x + 1)" using assms(1) ilog2_bounds(2) [OF x] by (rule le_less_trans)
  ultimately have "ilog2 x < e + 1" "e < ilog2 x + 1" by (auto dest: pow2_less_cancel)
  then show ?thesis by simp
qed

lemma ilog2_scale: "0 < x \<Longrightarrow> ilog2 (2 ^ k * x) = int k + ilog2 x"
  using ilog2_bounds [of x] by (intro ilog2_unique) (simp_all add: pow2_add algebra_simps)

lemma rnd_scale:
  assumes "0 < x" "emin \<le> ilog2 x + 1 - int p"
  shows "rnd p emin (2 ^ k * x) = 2 ^ k * rnd p emin x"
proof -
  have "rexp p emin (2 ^ k * x) = int k + rexp p emin x"
    using assms by (simp add: rexp_def ilog2_scale abs_mult)
  moreover have "2 ^ k * x / (2 ^ k * 2 powi rexp p emin x) = x / 2 powi rexp p emin x" by simp
  ultimately show ?thesis using assms(1) by (simp add: rnd_def Let_def pow2_add)
qed

text \<open>A single-precision value at most \<open>2 ^ k\<close> times another one stays so when both are rounded.\<close>

lemma rd32_ratio:
  assumes "\<bar>x\<bar> \<le> 2 ^ k * y" "1 \<le> y" "y \<le> 2 ^ 20" "k \<le> 20"
  shows "\<exists>a b. rd32 x = Fin a \<and> rd32 y = Fin b \<and> \<bar>a\<bar> \<le> 2 ^ k * b \<and> 1 \<le> b"
proof -
  define R where "R = rnd 24 (- 149)"
  have y: "0 < y" using assms(2) by simp
  have "2 powi 0 \<le> y" using assms(2) by simp
  then have "(2::rat) powi 0 < 2 powi (ilog2 y + 1)" using ilog2_bounds(2) [OF y] by (rule le_less_trans)
  then have "0 < ilog2 y + 1" by (rule pow2_less_cancel)
  then have l: "0 \<le> ilog2 y" by simp
  have sc: "R (2 ^ k * y) = 2 ^ k * R y" using rnd_scale [OF y, of "- 149" 24 k] l by (simp add: R_def)
  have "- x \<le> 2 ^ k * y" "x \<le> 2 ^ k * y" using assms(1) by linarith+
  then have "R (- x) \<le> 2 ^ k * R y" "R x \<le> 2 ^ k * R y"
    unfolding sc [symmetric] by (simp_all only: R_def rnd_mono)
  then have a: "\<bar>R x\<bar> \<le> 2 ^ k * R y" by (simp add: R_def rnd_minus)
  have b: "fl_btw 1 (2 ^ 20) (rd32 y)" by (rule rd32_btw) (use assms in simp_all)
  have top: "(2::rat) ^ 20 * 2 ^ 20 < 2 powi 128"
    using power_strict_increasing [of 40 128 "2::rat"] by simp
  obtain v where v: "rd32 y = Fin v" "1 \<le> v" "v \<le> 2 ^ 20" using b by (auto elim: fl_btwE)
  then have Ry: "R y = v" by (auto simp: rd32_def to_fl_def R_def Let_def split: if_splits)
  have "(2::rat) ^ k * v \<le> 2 ^ 20 * 2 ^ 20"
    using power_increasing [OF assms(4), of "2::rat"] v by (intro mult_mono) simp_all
  with a top have "\<bar>R x\<bar> < 2 powi 128" unfolding Ry by linarith
  then have "rd32 x = Fin (R x)" by (auto simp: rd32_def to_fl_def R_def Let_def abs_less_iff)
  with v a Ry show ?thesis by auto
qed

text \<open>A rounded value is representable.\<close>

lemma rnd_idem: "0 < p \<Longrightarrow> rnd p emin (rnd p emin x) = rnd p emin x"
proof (cases "x = 0")
  case False
  assume p: "0 < p"
  define e where "e = rexp p emin x"
  define n where "n = rhe (x / 2 powi e)"
  have r: "rnd p emin x = of_int n * 2 powi e" using False by (simp add: rnd_def e_def n_def Let_def)
  have "\<bar>x\<bar> < 2 powi (ilog2 \<bar>x\<bar> + 1)" using False by (intro ilog2_bounds) simp
  also have "\<dots> \<le> 2 powi (int p + e)" by (rule pow2_mono) (simp add: e_def rexp_def)
  also have "\<dots> = of_int (2 ^ p) * 2 powi e" by (simp add: pow2_add)
  finally have "\<bar>x\<bar> / 2 powi e < of_int (2 ^ p)" by (simp add: divide_less_eq)
  then have "\<bar>x / 2 powi e\<bar> < of_int (2 ^ p)" by (simp add: abs_divide)
  then have "x / 2 powi e \<le> of_int (2 ^ p)" "of_int (- (2 ^ p)) \<le> x / 2 powi e" by (simp_all only: of_int_minus abs_less_iff) linarith+
  then have "n \<le> 2 ^ p" "- (2 ^ p) \<le> n"
    using rhe_mono [of _ "of_int (2 ^ p)"] rhe_mono [of "of_int (- (2 ^ p))"] rhe_of_int unfolding n_def by metis+
  then have "\<bar>n\<bar> \<le> 2 ^ p" by simp
  then show ?thesis unfolding r by (intro rnd_exact [OF refl]) (use p in \<open>simp_all add: e_def rexp_def\<close>)
qed simp

lemma rd32_idem: "rd32 x = Fin r \<Longrightarrow> rd32 r = Fin r"
  using rnd_idem [of 24 "- 149" x] by (auto simp: rd32_def to_fl_def Let_def split: if_splits)

end
