(* ===== verification/Distinguish.thy ===== *)
theory Distinguish
  imports FindLinesJudge FloatSqrt Util
begin

text \<open>
  \<open>distinguish.c\<close>: what kind of track the car is on, the steering error, the speed to ask
  for, and the detection of the finish line.  \<open>stop_car\<close> and \<open>road_type\<close> are shifted one
  element too far, on every call.  What lies behind the two arrays is part of the state: \<open>Some w\<close> when the linker has
  left a word there that no other object uses, with the content \<open>w\<close>, and \<open>None\<close> when it has put another
  object there; then the write behind the array is a trap.
\<close>

section \<open>State\<close>

record track =
  g_highest_speed :: int
  g_lowest_speed :: int
  speed_set :: int
  speed_avg :: int
  s_zhi :: int
  s_max :: int
  s_wan1 :: int
  s_wan2 :: int
  s_cross :: int
  s_huan :: int
  fore_min :: int
  fore_max :: int
  steer_error :: "int list"
  steer_error_ave :: int
  steer_error_l :: int
  steer_error_ll :: int
  stop_car :: "int list"
  after_stop_car :: "int option"
  stop_car_flag :: int
  road_type :: "int list"
  after_road_type :: "int option"
  shortstraight_flag :: int
  crossstraight_flag :: int
  long_straight_flag :: int
  stdDeviation :: int

definition track_init :: "int option \<Rightarrow> int option \<Rightarrow> track" where
  "track_init a b = \<lparr>g_highest_speed = 0, g_lowest_speed = 0, speed_set = 0, speed_avg = 0,
     s_zhi = 200, s_max = 200, s_wan1 = 170, s_wan2 = 150, s_cross = 200, s_huan = 100,
     fore_min = 55, fore_max = 69, steer_error = replicate 30 0, steer_error_ave = 0,
     steer_error_l = 0, steer_error_ll = 0, stop_car = replicate 20 0, after_stop_car = a,
     stop_car_flag = 0, road_type = replicate 200 0, after_road_type = b, shortstraight_flag = 0,
     crossstraight_flag = 0, long_straight_flag = 0, stdDeviation = 0\<rparr>"

text \<open>\<open>float\<close> constants written as \<open>double\<close> literals.\<close>

definition flit :: "rat \<Rightarrow> fl" where
  "flit r = fl_map rd32 (rd64 r)"

definition mid_line_weight :: "fl list" where
  "mid_line_weight = replicate 40 (flit 0) @ replicate 20 (flit 1) @ replicate 10 (flit (13 / 10))
     @ replicate 10 (flit (18 / 10)) @ replicate 30 (flit (25 / 10)) @ replicate 10 (flit 0)"

text \<open>The arithmetic of \<open>int\<close>: leaving its range is undefined.\<close>

definition ck32 :: "int \<Rightarrow> int option" where
  "ck32 x = (if - 2147483648 \<le> x \<and> x \<le> 2147483647 then Some x else None)"

lemma runs_ck32 [runs_simps]: "runs (ck32 x) Q \<longleftrightarrow> - 2147483648 \<le> x \<and> x \<le> 2147483647 \<and> Q x"
  by (auto simp: ck32_def)

section \<open>Shifting a history\<close>

text \<open>\<open>for (i = n; i >= 1; i--) xs[i] = xs[i - 1];\<close>\<close>

definition shift_cell :: "int \<Rightarrow> 'a list \<Rightarrow> 'a list flow option" where
  "shift_cell i xs = do {
     v \<leftarrow> c_get xs (i - 1);
     xs \<leftarrow> c_put xs i v;
     Some (Next xs) }"

section \<open>Finish line\<close>

definition black_count :: "image \<Rightarrow> int option" where
  "black_count im = for_down (\<lambda>i n. do {
      n \<leftarrow> for_down (\<lambda>j n. Some (Next (if px im i j = 0 then i16 (n + 1) else n))) 130 29 n;
      Some (Next n) }) 118 115 0"

definition stop_cell :: "int \<Rightarrow> int list \<times> int \<Rightarrow> (int list \<times> int) flow option" where
  "stop_cell i p = (case p of (xs, n) \<Rightarrow> do {
     v \<leftarrow> c_get xs (i - 1);
     xs \<leftarrow> c_put xs i v;
     w \<leftarrow> c_get xs i;
     Some (Next (xs, if w \<noteq> 0 then n + 1 else n)) })"

definition stop_car_judge :: "image \<Rightarrow> track \<Rightarrow> track option" where
  "stop_car_judge im s = do {
     n \<leftarrow> black_count im;
     xs \<leftarrow> c_put (stop_car s) 0 (if n > 150 then 1 else 0);
     let s = s\<lparr>stop_car := xs, stop_car_flag := 0\<rparr>;
     w \<leftarrow> after_stop_car s;
     (xs, stop_count) \<leftarrow> for_down stop_cell 20 0 (stop_car s @ [w], 0);
     let s = s\<lparr>stop_car := take 20 xs, after_stop_car := Some (xs ! 20)\<rparr>;
     Some (if stop_count \<ge> 15 then s\<lparr>stop_car_flag := 1\<rparr> else s) }"

section \<open>Straights\<close>

definition slope_sum :: "lines \<Rightarrow> int option" where
  "slope_sum l = for_down (\<lambda>i n. do { m \<leftarrow> ML l i; Some (Next (i16 (n + m))) }) 100 30 0"

definition slope_squares :: "fl \<Rightarrow> lines \<Rightarrow> fl option" where
  "slope_squares Av l = for_down (\<lambda>i v. do {
      m \<leftarrow> ML l i;
      m' \<leftarrow> ML l i;
      Some (Next (fl_add rd32 v (fl_mul rd32 (fl_sub rd32 (rd32 (of_int m)) Av)
                                             (fl_sub rd32 (rd32 (of_int m')) Av)))) }) 100 30 (Fin 0)"

definition solve_midline_slope :: "lines \<Rightarrow> fl option" where
  "solve_midline_slope l = do {
     Sum1 \<leftarrow> slope_sum l;
     let Av = fl_map rd32 (fl_div rd64 (Fin (of_int Sum1)) (Fin 70));
     Sum2 \<leftarrow> slope_squares Av l;
     Some (fl_map rd32 (fl_sqrt rd64 (fl_div rd64 Sum2 (Fin 70)))) }"

definition long_straight_judge :: "lines \<Rightarrow> track \<Rightarrow> track option" where
  "long_straight_judge l s = do {
     flag1 \<leftarrow> for_down (\<lambda>i (flag1::int). do {
         c \<leftarrow> any_c [gt_c (ML l i) (Some 88), lt_c (ML l i) (Some 72)];
         Some (if c then Break 0 else Next flag1) }) 118 35 1;
     flag2 \<leftarrow> (if flag1 \<noteq> 0 then do {
         lose_cnt \<leftarrow> for_down (\<lambda>i n. do {
             c \<leftarrow> any_c [eq_c (LF l i) 0, eq_c (RF l i) 0];
             Some (Next (if c then i16 (n + 1) else n)) }) 100 35 0;
         Some (if lose_cnt > 3 then 0 else 1) }
       else Some 1);
     Some (if vtop l \<le> 37 \<and> flag1 = 1 \<and> flag2 = (1::int) then s\<lparr>long_straight_flag := 1\<rparr> else s) }"

definition short_straight_judge :: "lines \<Rightarrow> track \<Rightarrow> track option" where
  "short_straight_judge l s = do {
     S \<leftarrow> solve_midline_slope l;
     d \<leftarrow> fl_to_int (- 32768) 32767 S;
     let s = s\<lparr>stdDeviation := d\<rparr>;
     Some (if stdDeviation s \<le> 6 then s\<lparr>shortstraight_flag := 1\<rparr>
           else if stdDeviation s \<le> 11 then s\<lparr>shortstraight_flag := 2\<rparr> else s) }"

definition cross_straight_judge :: "lines \<Rightarrow> track \<Rightarrow> track option" where
  "cross_straight_judge l s = do {
     S \<leftarrow> solve_midline_slope l;
     d \<leftarrow> fl_to_int (- 32768) 32767 S;
     let s = s\<lparr>stdDeviation := d\<rparr>;
     Some (if stdDeviation s < 4 then s\<lparr>crossstraight_flag := 1\<rparr>
           else if stdDeviation s \<le> 6 then s\<lparr>crossstraight_flag := 2\<rparr> else s) }"

section \<open>Steering error\<close>

text \<open>\<open>speed_now\<close> is the array of \<open>chassisThread.c\<close>; the sum is a \<open>double\<close>.\<close>

definition average_speed :: "fl list \<Rightarrow> int option" where
  "average_speed speeds = do {
     a \<leftarrow> c_get speeds 0;
     b \<leftarrow> c_get speeds 1;
     c \<leftarrow> c_get speeds 2;
     fl_to_int (- 32768) 32767
       (fl_add rd64 (fl_add rd64 (fl_mul rd64 (rd64 (6 / 10)) a) (fl_mul rd64 (rd64 (2 / 10)) b))
                    (fl_mul rd64 (rd64 (2 / 10)) c)) }"

definition weigh_row :: "lines \<Rightarrow> int \<Rightarrow> fl \<times> fl \<Rightarrow> (fl \<times> fl) flow option" where
  "weigh_row l i p = (case p of (CenterSum, WeightSum) \<Rightarrow> do {
     m \<leftarrow> ML l i;
     w \<leftarrow> c_get mid_line_weight i;
     Some (Next (fl_add rd32 CenterSum (fl_mul rd32 (rd32 (of_int m)) w), fl_add rd32 WeightSum w)) })"

definition steer_target :: "lines \<Rightarrow> int option" where
  "steer_target l = do {
     (CenterSum, WeightSum) \<leftarrow> for_down (weigh_row l) 119 (vtop l) (Fin 0, Fin 0);
     let CenterMeanValue = (if fl_eq WeightSum (Fin 0) then Fin 0 else fl_div rd32 CenterSum WeightSum);
     fl_to_int (- 32768) 32767 (fl_sub rd32 CenterMeanValue (Fin 80)) }"

definition limit_error :: "int list \<Rightarrow> int list option" where
  "limit_error xs = do {
     e \<leftarrow> c_get xs 0;
     xs \<leftarrow> (if e > 80 then c_put xs 0 80 else Some xs);
     e \<leftarrow> c_get xs 0;
     xs \<leftarrow> (if e < - 80 then c_put xs 0 (- 80) else Some xs);
     e \<leftarrow> c_get xs 0;
     p \<leftarrow> c_get xs 1;
     xs \<leftarrow> (if e - p > 15 then c_put xs 0 (i16 (p + 15)) else Some xs);
     e \<leftarrow> c_get xs 0;
     p \<leftarrow> c_get xs 1;
     (if e - p < - 15 then c_put xs 0 (i16 (p - 15)) else Some xs) }"

definition compute_error :: "fl list \<Rightarrow> lines \<Rightarrow> track \<Rightarrow> track option" where
  "compute_error speeds l s = do {
     v \<leftarrow> average_speed speeds;
     e \<leftarrow> steer_target l;
     xs \<leftarrow> c_put (steer_error s) 0 e;
     xs \<leftarrow> limit_error xs;
     xs \<leftarrow> for_down shift_cell 29 0 xs;
     a \<leftarrow> c_get xs 0;
     Some (s\<lparr>speed_avg := v, steer_error := xs, steer_error_ave := a,
             steer_error_ll := steer_error_l s, steer_error_l := a\<rparr>) }"

section \<open>Speed\<close>

text \<open>The word behind \<open>road_type\<close> receives its last element.\<close>

definition shift_road :: "track \<Rightarrow> track option" where
  "shift_road s = do {
     w \<leftarrow> after_road_type s;
     xs \<leftarrow> for_down shift_cell 200 0 (road_type s @ [w]);
     Some (s\<lparr>road_type := take 200 xs, after_road_type := Some (xs ! 200)\<rparr>) }"

definition set_road :: "int \<Rightarrow> track \<Rightarrow> track option" where
  "set_road v s = do { xs \<leftarrow> c_put (road_type s) 0 v; Some (s\<lparr>road_type := xs\<rparr>) }"

abbreviation "road s k \<equiv> c_get (road_type s) k"

text \<open>A straight that is not long: slow down hard after a long one, stay slow behind a bend,
  else as the steering error allows.\<close>

definition short_straight_speed :: "track \<Rightarrow> track option" where
  "short_straight_speed s = do {
     c \<leftarrow> all_c [eq_c (road s 6) 1, eq_c (road s 7) 1, eq_c (road s 8) 1, eq_c (road s 9) 1, eq_c (road s 10) 1];
     if c then Some (s\<lparr>speed_set := i16 (s_zhi s - 70)\<rparr>)
     else do {
       c \<leftarrow> all_c [eq_c (road s 3) 3, eq_c (road s 4) 3, eq_c (road s 5) 3];
       if c then Some (s\<lparr>speed_set := s_wan1 s\<rparr>)
       else do {
         v \<leftarrow> ck32 ((s_zhi s - s_wan1 s) * (\<bar>steer_error_ave s\<bar> sdiv 35));
         v \<leftarrow> ck32 (s_zhi s - v);
         let s = s\<lparr>speed_set := i16 v\<rparr>;
         Some (s\<lparr>speed_set := (if speed_set s < s_wan1 s then s_wan1 s else speed_set s)\<rparr>) } } }"

definition curve_speed :: "track \<Rightarrow> track option" where
  "curve_speed s = do {
     c \<leftarrow> all_c [eq_c (road s 9) 1, eq_c (road s 10) 1, eq_c (road s 11) 1, eq_c (road s 12) 1, eq_c (road s 13) 1];
     if c then Some (s\<lparr>speed_set := i16 (s_wan1 s - 30)\<rparr>)
     else do {
       let s = s\<lparr>g_highest_speed := s_wan1 s, g_lowest_speed := s_wan2 s\<rparr>;
       q \<leftarrow> ck32 (steer_error_ave s * steer_error_ave s);
       v \<leftarrow> ck32 ((g_highest_speed s - g_lowest_speed s) * q);
       v \<leftarrow> ck32 (g_highest_speed s - v sdiv 1600);
       let s = s\<lparr>speed_set := i16 v\<rparr>;
       let s = s\<lparr>speed_set := (if speed_set s < g_lowest_speed s then g_lowest_speed s else speed_set s)\<rparr>;
       Some (s\<lparr>speed_set := (if speed_set s > g_highest_speed s then g_highest_speed s else speed_set s)\<rparr>) } }"

text \<open>
  The result is the new state and the call of \<open>easyblink\<close> for the beeper, if one is made
  (number of beeps, pulse, period).
\<close>

definition choose_speed :: "lines \<Rightarrow> track \<Rightarrow> (track \<times> (int \<times> int \<times> int) option) option" where
  "choose_speed l s =
     (if huanleftflag (f2 l) \<noteq> 0 \<or> huanrightflag (f2 l) \<noteq> 0 \<or> huan (f2 l) = 1 then do {
        s \<leftarrow> set_road 4 s;
        r \<leftarrow> road s 1;
        Some (s\<lparr>speed_set := s_huan s\<rparr>, if r \<noteq> 4 then Some (1, 50, 100) else None) }
      else if shiziflag1 (f2 l) = 1 then do {
        s \<leftarrow> set_road 5 s;
        r \<leftarrow> road s 1;
        Some (s\<lparr>speed_set := s_cross s\<rparr>, if r \<noteq> 5 then Some (2, 50, 100) else None) }
      else if long_straight_flag s = 1 then do {
        s \<leftarrow> set_road 1 s;
        Some (s\<lparr>speed_set := s_max s\<rparr>, None) }
      else if shortstraight_flag s \<noteq> 0 then do {
        s \<leftarrow> set_road 2 s;
        s \<leftarrow> short_straight_speed s;
        Some (s, None) }
      else if huanleftflag (f2 l) \<noteq> 0 \<or> huanrightflag (f2 l) \<noteq> 0 \<or> huan (f2 l) = 1 then do {
        s \<leftarrow> set_road 5 s;
        Some (s\<lparr>speed_set := s_huan s\<rparr>, None) }
      else do {
        s \<leftarrow> set_road 3 s;
        s \<leftarrow> curve_speed s;
        Some (s, None) })"

definition straight_judges :: "lines \<Rightarrow> track \<Rightarrow> track option" where
  "straight_judges l s =
     (if shiziflag1 (f2 l) = 0 then do { s \<leftarrow> long_straight_judge l s; short_straight_judge l s } else Some s)"

definition velocity_set :: "lines \<Rightarrow> track \<Rightarrow> (track \<times> (int \<times> int \<times> int) option) option" where
  "velocity_set l s = do {
     s \<leftarrow> straight_judges l (s\<lparr>long_straight_flag := 0\<rparr>);
     (s, beep) \<leftarrow> choose_speed l s;
     s \<leftarrow> shift_road s;
     Some (s, beep) }"

section \<open>The shell command\<close>

text \<open>\<open>atoi\<close> of the C library: white space, a sign, digits; a value outside \<open>int\<close> is undefined.\<close>

definition is_space :: "char \<Rightarrow> bool" where
  "is_space c \<longleftrightarrow> char_val c = 32 \<or> 9 \<le> char_val c \<and> char_val c \<le> 13"

definition digits_val :: "string \<Rightarrow> int" where
  "digits_val ds = foldl (\<lambda>n c. n * 10 + (char_val c - 48)) 0 ds"

definition atoi :: "string \<Rightarrow> int option" where
  "atoi str = (
     let str = dropWhile is_space str;
         neg = (peek str = 45);
         str = (if peek str = 45 \<or> peek str = 43 then tl str else str);
         v = digits_val (takeWhile is_digit str)
     in ck32 (if neg then - v else v))"

definition atoi_arg :: "string list \<Rightarrow> int \<Rightarrow> int option" where
  "atoi_arg argv k = do { a \<leftarrow> c_get argv k; atoi a }"

definition dym_param_set_cmd :: "string list \<Rightarrow> track \<Rightarrow> track option" where
  "dym_param_set_cmd argv s = do {
     v \<leftarrow> atoi_arg argv 1;
     let s = s\<lparr>s_zhi := i16 v\<rparr>;
     v \<leftarrow> atoi_arg argv 2;
     let s = s\<lparr>s_max := i16 v\<rparr>;
     v \<leftarrow> atoi_arg argv 3;
     let s = s\<lparr>s_wan1 := i16 v\<rparr>;
     v \<leftarrow> atoi_arg argv 4;
     let s = s\<lparr>s_wan2 := i16 v\<rparr>;
     v \<leftarrow> atoi_arg argv 5;
     let s = s\<lparr>s_cross := i16 v\<rparr>;
     v \<leftarrow> atoi_arg argv 6;
     let s = s\<lparr>s_huan := i16 v\<rparr>;
     v \<leftarrow> atoi_arg argv 7;
     let s = s\<lparr>fore_min := i16 v\<rparr>;
     v \<leftarrow> atoi_arg argv 8;
     Some (s\<lparr>fore_max := i16 v\<rparr>) }"

end
