(* ===== verification/DistinguishFacts.thy ===== *)
theory DistinguishFacts
  imports Distinguish
begin

text \<open>
  What \<open>distinguish.c\<close> computes: the finish line is a majority over the last twenty frames,
  the steering error is bounded and moves by at most 15 per frame, the speed stays between
  the parameters; and where the code departs from what it is meant to do.
\<close>

section \<open>Histories\<close>

lemma shift_cell_loop:
  "k < length xs \<Longrightarrow> for_down shift_cell (int k) 0 xs = Some (take 1 xs @ take k xs @ drop (Suc k) xs)"
proof (induction k arbitrary: xs)
  case 0
  then show ?case by (cases xs) (simp_all add: for_down_done)
next
  case (Suc k)
  have "shift_cell (int (Suc k)) xs = Some (Next (xs[Suc k := xs ! k]))"
    using Suc.prems by (simp add: shift_cell_def nat_add_distrib)
  then have "for_down shift_cell (int (Suc k)) 0 xs = for_down shift_cell (int k) 0 (xs[Suc k := xs ! k])"
    by (simp add: for_down_next)
  also have "\<dots> = Some (take 1 xs @ take k xs @ drop (Suc k) (xs[Suc k := xs ! k]))"
    using Suc.IH [of "xs[Suc k := xs ! k]"] Suc.prems by simp
  also have "drop (Suc k) (xs[Suc k := xs ! k]) = xs ! k # drop (Suc (Suc k)) xs"
    using Suc.prems by (simp add: Cons_nth_drop_Suc [symmetric])
  finally show ?case using Suc.prems by (simp add: take_Suc_conv_app_nth)
qed

lemma shift_history:
  assumes "length xs = Suc n" "0 < n"
  shows "for_down shift_cell (int n) 0 (x # tl xs) = Some (x # x # butlast (tl xs))"
proof -
  obtain y ys where xs: "xs = y # ys" "length ys = n" using assms by (cases xs) auto
  have "for_down shift_cell (int n) 0 (x # ys) = Some (x # take n (x # ys))"
    using shift_cell_loop [of n "x # ys"] xs by simp
  also have "take n (x # ys) = x # butlast ys"
    using assms xs by (cases n) (auto simp: butlast_conv_take)
  finally show ?thesis by (simp add: xs)
qed

lemma stop_cell_loop:
  "k < length xs \<Longrightarrow> for_down stop_cell (int k) 0 (xs, n)
     = Some (take 1 xs @ take k xs @ drop (Suc k) xs, n + int (length (filter (\<lambda>x. x \<noteq> 0) (take k xs))))"
proof (induction k arbitrary: xs n)
  case 0
  then show ?case by (cases xs) (simp_all add: for_down_done)
next
  case (Suc k)
  let ?n = "if xs ! k \<noteq> 0 then n + 1 else n"
  have "stop_cell (int (Suc k)) (xs, n) = Some (Next (xs[Suc k := xs ! k], ?n))"
    using Suc.prems by (simp add: stop_cell_def nat_add_distrib)
  then have "for_down stop_cell (int (Suc k)) 0 (xs, n) = for_down stop_cell (int k) 0 (xs[Suc k := xs ! k], ?n)"
    by (simp add: for_down_next)
  also have "\<dots> = Some (take 1 xs @ take k xs @ drop (Suc k) (xs[Suc k := xs ! k]),
      ?n + int (length (filter (\<lambda>x. x \<noteq> 0) (take k xs))))"
    using Suc.IH [of "xs[Suc k := xs ! k]" ?n] Suc.prems by simp
  also have "drop (Suc k) (xs[Suc k := xs ! k]) = xs ! k # drop (Suc (Suc k)) xs"
    using Suc.prems by (simp add: Cons_nth_drop_Suc [symmetric])
  finally show ?case using Suc.prems by (simp add: take_Suc_conv_app_nth)
qed

section \<open>The finish line\<close>

text \<open>The function may write behind its array only where nothing else lies.\<close>

lemma stop_car_judge_overruns: "after_stop_car s = None \<Longrightarrow> stop_car_judge im s = None"
  by (simp add: stop_car_judge_def split: bind_split)

lemma count_loop:
  assumes "lo \<le> hi" "0 \<le> n" "n + (hi - lo) \<le> 32767"
  shows "for_down (\<lambda>j n. Some (Next (if P j then i16 (n + 1) else n))) hi lo n
    = Some (n + int (length (filter P [lo + 1..hi])))"
  using assms
proof (induction "nat (hi - lo)" arbitrary: hi n)
  case 0
  then show ?case by (simp add: for_down_done)
next
  case (Suc k)
  then have k: "k = nat (hi - 1 - lo)" and lt: "lo < hi" by linarith+
  have i: "i16 (n + 1) = n + 1" using Suc.prems lt by simp
  have "[lo + 1..hi] = [lo + 1..hi - 1] @ [hi]" using lt upto_rec2 [of "lo + 1" hi] by simp
  then show ?case using lt Suc.prems Suc.hyps(1) [OF k] i by (simp add: for_down_next)
qed

definition black_pixels :: "image \<Rightarrow> nat" where
  "black_pixels im = (\<Sum>i\<leftarrow>[116, 117, 118]. length (filter (\<lambda>j. px im i j = 0) [30..130]))"

lemma filter_length_le: "length (filter P xs) \<le> length xs"
  by simp

lemma black_count_eq: "black_count im = Some (int (black_pixels im))"
proof -
  define c where "c i = int (length (filter (\<lambda>j. px im i j = 0) [30..130]))" for i
  have c: "0 \<le> c i" "c i \<le> 101" for i
    using filter_length_le [of "\<lambda>j. px im i j = 0" "[30..130]"] by (simp_all add: c_def)
  have row: "for_down (\<lambda>j n. Some (Next (if px im i j = 0 then i16 (n + 1) else n))) 130 29 n = Some (n + c i)"
    if "0 \<le> n" "n \<le> 30000" for i n
    using count_loop [of 29 130 n "\<lambda>j. px im i j = 0"] that by (simp add: c_def)
  have "black_count im = Some (c 118 + c 117 + c 116)"
    unfolding black_count_def
    using c [of 118] c [of 117] row by (simp add: for_down.simps [of _ 118] for_down.simps [of _ 117]
        for_down.simps [of _ 116] for_down_done)
  then show ?thesis by (simp add: black_pixels_def c_def)
qed

definition finish_seen :: "image \<Rightarrow> bool" where
  "finish_seen im \<longleftrightarrow> black_pixels im > 150"

lemma stop_car_judge_eq:
  fixes im :: image
  assumes "length (stop_car s) = 20" "after_stop_car s = Some w"
  defines "b \<equiv> (if finish_seen im then 1 else (0::int))"
  shows "stop_car_judge im s = Some (s\<lparr>stop_car := b # b # butlast (tl (stop_car s)),
      after_stop_car := Some (last (stop_car s)),
      stop_car_flag := (if 15 \<le> length (filter (\<lambda>x. x \<noteq> 0) (b # tl (stop_car s))) then 1 else 0)\<rparr>)"
proof -
  obtain y ys where ys: "stop_car s = y # ys" "length ys = 19" using assms by (cases "stop_car s") auto
  have ne: "ys \<noteq> []" using ys by auto
  have sp: "ys = butlast ys @ [last ys]" using ne by simp
  have put: "c_put (stop_car s) 0 (if int (black_pixels im) > 150 then 1 else 0) = Some (b # ys)"
    using ys by (simp add: b_def finish_seen_def)
  have "for_down stop_cell 20 0 ((b # ys) @ [w], 0)
     = Some (b # (b # ys), int (length (filter (\<lambda>x. x \<noteq> 0) (b # ys))))"
    using stop_cell_loop [of 20 "(b # ys) @ [w]" 0] ys by simp
  moreover have "take 20 (b # b # ys) = b # b # butlast ys" "(b # b # ys) ! 20 = last ys"
    using ys ne by (simp_all add: butlast_conv_take last_conv_nth)
  ultimately show ?thesis
    unfolding stop_car_judge_def black_count_eq using put ys ne assms(2) by simp
qed

text \<open>Frames, as the main loop sees them.\<close>

fun stop_frames :: "image list \<Rightarrow> track \<Rightarrow> track option" where
  "stop_frames [] s = Some s"
| "stop_frames (im # ims) s = do { s \<leftarrow> stop_car_judge im s; stop_frames ims s }"

definition last_n :: "nat \<Rightarrow> 'a list \<Rightarrow> 'a list" where
  "last_n n xs = drop (length xs - n) xs"

lemma last_n_snoc: "last_n (Suc n) (xs @ [x]) = last_n n xs @ [x]"
  by (simp add: last_n_def)

definition seen :: "image list \<Rightarrow> int list" where
  "seen ims = map (\<lambda>im. if finish_seen im then 1 else 0) ims"

text \<open>Cells 1 to 19 hold the last 19 frames, the latest first.\<close>

definition stop_inv :: "image list \<Rightarrow> track \<Rightarrow> bool" where
  "stop_inv ims s \<longleftrightarrow> length (stop_car s) = 20 \<and> after_stop_car s \<noteq> None
     \<and> tl (stop_car s) = rev (last_n 19 (replicate 19 0 @ seen ims))
     \<and> stop_car_flag s = (if 15 \<le> length (filter finish_seen (last_n 20 ims)) then 1 else 0)"

lemma filter_seen: "length (filter (\<lambda>x. x \<noteq> 0) (seen ims)) = length (filter finish_seen ims)"
  by (induction ims) (simp_all add: seen_def)

lemma last_n_zeros:
  "length (filter (\<lambda>x. x \<noteq> 0) (last_n n (replicate n (0::int) @ xs))) = length (filter (\<lambda>x. x \<noteq> 0) (last_n n xs))"
  by (simp add: last_n_def)

lemma last_n_map: "last_n n (map f xs) = map f (last_n n xs)"
  by (simp add: last_n_def drop_map)

lemma stop_step:
  assumes "stop_inv ims s"
  shows "runs (stop_car_judge im s) (stop_inv (ims @ [im]))"
proof -
  define b where "b = (if finish_seen im then 1 else (0::int))"
  define h where "h = replicate 19 0 @ seen ims"
  have len: "length (stop_car s) = 20" and t: "tl (stop_car s) = rev (last_n 19 h)"
    using assms by (simp_all add: stop_inv_def h_def)
  obtain w where w: "after_stop_car s = Some w" using assms by (auto simp: stop_inv_def)
  have h: "19 \<le> length h" by (simp add: h_def)
  have s': "seen (ims @ [im]) = seen ims @ [b]" by (simp add: seen_def b_def)
  have new: "b # butlast (tl (stop_car s)) = rev (last_n 19 (h @ [b]))"
  proof -
    have "last_n 19 h = h ! (length h - 19) # last_n 18 h"
      using h by (simp add: last_n_def Cons_nth_drop_Suc [symmetric] Suc_diff_le flip: Suc_diff_le)
    then show ?thesis using last_n_snoc [of 18 h b] by (simp add: t)
  qed
  have "length (filter (\<lambda>x. x \<noteq> 0) (b # tl (stop_car s)))
      = length (filter (\<lambda>x. x \<noteq> 0) (last_n 20 (h @ [b])))"
    using last_n_snoc [of 19 h b] by (simp add: t rev_filter [symmetric])
  also have "last_n 20 (h @ [b]) = last_n 20 (replicate 19 0 @ seen (ims @ [im]))"
    by (simp add: h_def s')
  also have "length (filter (\<lambda>x. x \<noteq> 0) \<dots>) = length (filter finish_seen (last_n 20 (ims @ [im])))"
    by (simp add: last_n_def seen_def drop_map filter_map o_def)
  finally have "length (filter (\<lambda>x. x \<noteq> 0) (b # tl (stop_car s))) = length (filter finish_seen (last_n 20 (ims @ [im])))" .
  moreover have "length (last_n 19 (replicate 19 0 @ seen (ims @ [im]))) = 19" by (simp add: last_n_def)
  ultimately show ?thesis
    unfolding stop_car_judge_eq [OF len w]
    using new len by (simp add: stop_inv_def b_def [symmetric] h_def s' [symmetric])
qed

text \<open>
  C14: the function writes one element behind its array of 20.  Where the linker leaves a free word there, whatever it
  holds, the car is told to stop exactly when at least 15 of the last 20 frames, the present one included, showed more
  than 150 black pixels just in front of it; where another object lies there, the first frame is undefined behaviour.
\<close>

theorem stop_car_majority:
  "runs (stop_frames ims (track_init (Some a) b))
     (\<lambda>s. stop_car_flag s = (if 15 \<le> length (filter finish_seen (last_n 20 ims)) then 1 else 0))
   \<and> stop_frames (im # ims) (track_init None b) = None"
proof -
  have "runs (stop_frames ims s) (stop_inv (js @ ims))" if "stop_inv js s" for s js
    using that
  proof (induction ims arbitrary: s js)
    case (Cons im ims)
    then show ?case using stop_step [OF Cons.prems, of im] Cons.IH [of "js @ [im]"]
      by (auto simp: runs_bind intro: runs_mono)
  qed simp
  from this [of "[]" "track_init (Some a) b"]
  have "runs (stop_frames ims (track_init (Some a) b)) (stop_inv ims)"
    by (simp add: stop_inv_def track_init_def last_n_def seen_def)
  then have "runs (stop_frames ims (track_init (Some a) b))
      (\<lambda>s. stop_car_flag s = (if 15 \<le> length (filter finish_seen (last_n 20 ims)) then 1 else 0))"
    by (rule runs_mono) (simp add: stop_inv_def)
  moreover have "after_stop_car (track_init None b) = None" by (simp add: track_init_def)
  ultimately show ?thesis by (simp add: stop_car_judge_overruns)
qed

section \<open>The weighted middle line\<close>

lemma flit_0 [simp]: "flit 0 = Fin 0"
  using rd64_int [of 0] rd32_int [of 0] by (simp add: flit_def)

lemma flit_1 [simp]: "flit 1 = Fin 1"
  using rd64_int [of 1] rd32_int [of 1] by (simp add: flit_def)

definition weight_ok :: "fl \<Rightarrow> bool" where
  "weight_ok x \<longleftrightarrow> x = Fin 0 \<or> (\<exists>w. x = Fin w \<and> 1 \<le> w \<and> w \<le> 3 \<and> rd32 w = Fin w)"

lemma flit_weight: "1 \<le> r \<Longrightarrow> r \<le> 3 \<Longrightarrow> weight_ok (flit r)"
proof -
  assume r: "1 \<le> r" "r \<le> 3"
  have "fl_btw 1 3 (rd64 r)" by (rule rd64_btw) (use r in simp_all)
  then obtain v where v: "rd64 r = Fin v" "of_int 1 \<le> v" "v \<le> of_int 3" by (rule fl_btwE)
  have "fl_btw 1 3 (rd32 v)" by (rule rd32_btw) (use v in simp_all)
  then obtain w where w: "rd32 v = Fin w" "1 \<le> w" "w \<le> 3" by (auto elim: fl_btwE)
  then show ?thesis using rd32_idem [OF w(1)] by (simp add: weight_ok_def flit_def v)
qed

lemma length_weights [simp]: "length mid_line_weight = 120"
  by (simp add: mid_line_weight_def)

lemma weights_ok: "x \<in> set mid_line_weight \<Longrightarrow> weight_ok x"
  using flit_weight [of "1"] flit_weight [of "13 / 10"] flit_weight [of "18 / 10"] flit_weight [of "25 / 10"]
  by (auto simp: mid_line_weight_def weight_ok_def simp del: flit_1)

lemma weight_cell:
  assumes "0 \<le> i" "i < 120"
  obtains w where "c_get mid_line_weight i = Some (Fin w)" "w = 0 \<or> 1 \<le> w \<and> w \<le> 3 \<and> rd32 w = Fin w"
proof -
  have "weight_ok (mid_line_weight ! nat i)" using assms by (intro weights_ok nth_mem) simp
  then show ?thesis using that assms
    by (auto simp: weight_ok_def)
qed

lemma low_weights: "110 \<le> i \<Longrightarrow> i < 120 \<Longrightarrow> c_get mid_line_weight i = Some (Fin 0)"
proof -
  assume i: "110 \<le> i" "i < 120"
  then have n: "nat i - 110 < 10" "110 \<le> nat i" by linarith+
  have "mid_line_weight ! nat i = replicate 10 (flit 0) ! (nat i - 110)"
    using n(2) by (auto simp: mid_line_weight_def nth_append)
  then show ?thesis using i n by simp
qed

text \<open>The rows the error is computed from lie within 1024 columns of the image's left edge.\<close>

definition midline_ok :: "lines \<Rightarrow> bool" where
  "midline_ok l \<longleftrightarrow> length (midline (f1 l)) = 120 \<and> (\<forall>m \<in> set (midline (f1 l)). \<bar>m\<bar> \<le> 1024)"

lemma midline_cell:
  assumes "midline_ok l" "0 \<le> i" "i < 120"
  obtains m where "ML l i = Some m" "\<bar>m\<bar> \<le> 1024" "rd32 (of_int m) = Fin (of_int m)"
proof -
  have m: "\<bar>midline (f1 l) ! nat i\<bar> \<le> 1024" using assms by (simp add: midline_ok_def)
  then have "rd32 (of_int (midline (f1 l) ! nat i)) = Fin (of_int (midline (f1 l) ! nat i))"
    by (intro rd32_int) simp
  with that m show ?thesis using assms by (simp add: cell_def midline_ok_def)
qed

definition weigh_inv :: "int \<Rightarrow> fl \<times> fl \<Rightarrow> bool" where
  "weigh_inv i p \<longleftrightarrow> (\<exists>c w. p = (Fin c, Fin w) \<and> \<bar>c\<bar> \<le> 1024 * w \<and> (w = 0 \<or> 1 \<le> w) \<and> w \<le> of_int (3 * (119 - i)))"

lemma weigh_row_run:
  assumes l: "midline_ok l" and i: "0 \<le> i" "i \<le> 119" and p: "weigh_inv i p"
  shows "runs (weigh_row l i p) (flow_post (weigh_inv (i - 1)) Q)"
proof -
  obtain m where m: "ML l i = Some m" "\<bar>m\<bar> \<le> 1024" "rd32 (of_int m) = Fin (of_int m)"
    using midline_cell [OF l, of i] i by auto
  obtain w where w: "c_get mid_line_weight i = Some (Fin w)" "w = 0 \<or> 1 \<le> w \<and> w \<le> 3 \<and> rd32 w = Fin w"
    using weight_cell [of i] i by auto
  obtain c v where cv: "p = (Fin c, Fin v)" "\<bar>c\<bar> \<le> 1024 * v" "v = 0 \<or> 1 \<le> v" "v \<le> of_int (3 * (119 - i))"
    using p by (auto simp: weigh_inv_def)
  have "of_int (3 * (119 - i)) \<le> (of_int 360 :: rat)" unfolding of_int_le_iff using i by simp
  with cv(4) have v360: "v \<le> 360" by simp
  have mr: "\<bar>of_int m :: rat\<bar> \<le> 1024"
    using m(2) of_int_le_iff [of "\<bar>m\<bar>" 1024, where ?'a = rat] by simp
  show ?thesis
  proof (cases "w = 0")
    case True
    obtain c' v' where r: "rd32 c = Fin c'" "rd32 v = Fin v'" "\<bar>c'\<bar> \<le> 1024 * v'" "v' = 0 \<or> 1 \<le> v'"
    proof (cases "v = 0")
      case True
      then show ?thesis using that [of 0 0] cv rd32_int [of 0] by simp
    next
      case False
      then have "\<exists>a b. rd32 c = Fin a \<and> rd32 v = Fin b \<and> \<bar>a\<bar> \<le> 2 ^ 10 * b \<and> 1 \<le> b"
        using cv v360 by (intro rd32_ratio) auto
      then show ?thesis using that by auto
    qed
    have "fl_btw 0 (3 * (119 - i)) (rd32 v)" by (rule rd32_btw) (use cv i in auto)
    then have "v' \<le> of_int (3 * (119 - (i - 1)))" by (simp add: r)
    then show ?thesis using True m w cv r rd32_int [of 0]
      by (simp add: weigh_row_def weigh_inv_def)
  next
    case False
    with w have w1: "1 \<le> w" "w \<le> 3" "rd32 w = Fin w" by auto
    have mw: "\<bar>of_int m * w\<bar> \<le> 2 ^ 10 * w" using mr w1 by (simp add: abs_mult)
    then have "\<exists>a b. rd32 (of_int m * w) = Fin a \<and> rd32 w = Fin b \<and> \<bar>a\<bar> \<le> 2 ^ 10 * b \<and> 1 \<le> b"
      by (rule rd32_ratio) (use w1 in simp_all)
    then obtain q where q: "rd32 (of_int m * w) = Fin q" "\<bar>q\<bar> \<le> 1024 * w" using w1 by auto
    have "\<bar>c + q\<bar> \<le> 2 ^ 10 * (v + w)" using cv q by (simp add: abs_le_iff)
    then have "\<exists>a b. rd32 (c + q) = Fin a \<and> rd32 (v + w) = Fin b \<and> \<bar>a\<bar> \<le> 2 ^ 10 * b \<and> 1 \<le> b"
      by (rule rd32_ratio) (use w1 cv v360 in auto)
    then obtain a b where ab: "rd32 (c + q) = Fin a" "rd32 (v + w) = Fin b" "\<bar>a\<bar> \<le> 1024 * b" "1 \<le> b" by auto
    have "fl_btw 0 (3 * (119 - (i - 1))) (rd32 (v + w))" by (rule rd32_btw) (use cv w1 i in auto)
    then have "b \<le> of_int (3 * (119 - (i - 1)))" by (simp add: ab)
    then show ?thesis using m w cv q ab by (simp add: weigh_row_def weigh_inv_def)
  qed
qed

lemma weigh_total:
  assumes l: "midline_ok l" and top: "- 1 \<le> vtop l"
  shows "runs (for_down (weigh_row l) 119 (vtop l) (Fin 0, Fin 0))
    (\<lambda>(c, w). \<exists>a b. c = Fin a \<and> w = Fin b \<and> \<bar>a\<bar> \<le> 1024 * b \<and> (b = 0 \<or> 1 \<le> b))"
proof (rule for_down_rule [where I = weigh_inv])
  show "weigh_inv 119 (Fin 0, Fin 0)" by (simp add: weigh_inv_def)
next
  fix i p assume "vtop l < i" "i \<le> 119" "weigh_inv i p"
  then show "runs (weigh_row l i p) (flow_post (weigh_inv (i - 1))
      (\<lambda>(c, w). \<exists>a b. c = Fin a \<and> w = Fin b \<and> \<bar>a\<bar> \<le> 1024 * b \<and> (b = 0 \<or> 1 \<le> b)))"
    using weigh_row_run [OF l, of i p] top by simp
next
  fix p assume "weigh_inv (min 119 (vtop l)) p"
  then show "case p of (c, w) \<Rightarrow> \<exists>a b. c = Fin a \<and> w = Fin b \<and> \<bar>a\<bar> \<le> 1024 * b \<and> (b = 0 \<or> 1 \<le> b)"
    unfolding weigh_inv_def by blast
qed

lemma steer_target_run:
  assumes "midline_ok l" "- 1 \<le> vtop l"
  shows "runs (steer_target l) (\<lambda>e. - 1104 \<le> e \<and> e \<le> 944)"
proof -
  obtain a b where ab: "for_down (weigh_row l) 119 (vtop l) (Fin 0, Fin 0) = Some (Fin a, Fin b)"
    "\<bar>a\<bar> \<le> 1024 * b" "b = 0 \<or> 1 \<le> b"
    using weigh_total [OF assms] by (auto elim!: runsE)
  define c where "c = (if fl_eq (Fin b) (Fin 0) then Fin 0 else fl_div rd32 (Fin a) (Fin b))"
  have "fl_btw (- 1024) 1024 c"
  proof (cases "b = 0")
    case False
    with ab have b: "0 < b" by linarith
    then have "a / b \<le> 1024" "- 1024 \<le> a / b"
      using ab(2) by (simp_all add: divide_le_eq le_divide_eq abs_le_iff)
    then show ?thesis using False by (auto simp: c_def fl_eq_def intro!: rd32_btw)
  qed (simp add: c_def fl_eq_def)
  from fsub_btw [OF this, of 80 80 "Fin 80"]
  have "fl_btw (- 1104) 944 (fl_sub rd32 c (Fin 80))" by simp
  then show ?thesis unfolding steer_target_def ab(1) bind.bind_lunit prod.case Let_def c_def [symmetric]
    by (rule fl_to_int_btw) simp_all
qed

lemma steer_target_lost:
  assumes "midline_ok l" "109 \<le> vtop l"
  shows "steer_target l = Some (- 80)"
proof -
  have "runs (for_down (weigh_row l) 119 (vtop l) (Fin 0, Fin 0)) (\<lambda>p. p = (Fin 0, Fin 0))"
  proof (rule for_down_inv)
    fix i p assume i: "vtop l < i" "i \<le> 119" and p: "p = (Fin 0, Fin 0)"
    have w: "c_get mid_line_weight i = Some (Fin 0)" by (rule low_weights) (use i assms in simp_all)
    obtain m where "ML l i = Some m" "rd32 (of_int m) = Fin (of_int m)"
      using midline_cell [OF assms(1), of i] i assms(2) by auto
    then show "runs (weigh_row l i p) (flow_post (\<lambda>p. p = (Fin 0, Fin 0)) (\<lambda>p. p = (Fin 0, Fin 0)))"
      using w p rd32_int [of 0] by (simp add: weigh_row_def)
  qed simp
  moreover have "rd32 (- 80) = Fin (- 80)" using rd32_int [of "- 80"] by simp
  ultimately show ?thesis
    by (auto simp: steer_target_def fl_eq_def fl_sub_def fl_to_int_def elim!: runsE)
qed

section \<open>Limiting the error\<close>

text \<open>The error is cut to 80 columns, and moves by at most 15 from the last one.\<close>

definition slew :: "int \<Rightarrow> int \<Rightarrow> int" where
  "slew p e = max (p - 15) (min (p + 15) (max (- 80) (min 80 e)))"

lemma limit_error_eq:
  assumes "length xs = 30" "\<bar>xs ! 1\<bar> \<le> 80"
  shows "limit_error xs = Some (xs[0 := slew (xs ! 1) (xs ! 0)])"
proof -
  obtain e p ys where xs: "xs = e # p # ys" using assms(1) by (cases xs; cases "tl xs") auto
  have p: "- 80 \<le> p" "p \<le> 80" using assms(2) xs by auto
  consider "80 < e" | "- 80 \<le> e" "e \<le> 80" | "e < - 80" by linarith
  then show ?thesis
  proof cases
    case 1
    then show ?thesis using p by (simp add: limit_error_def xs slew_def)
  next
    case 2
    then show ?thesis using p by (auto simp: limit_error_def xs slew_def)
  next
    case 3
    then show ?thesis using p by (auto simp: limit_error_def xs slew_def)
  qed
qed

lemma slew_range: "\<bar>p\<bar> \<le> 80 \<Longrightarrow> \<bar>slew p e\<bar> \<le> 80" "\<bar>slew p e - p\<bar> \<le> 15"
  by (auto simp: slew_def)

section \<open>The error of a frame\<close>

text \<open>Cells 0 and 1 agree between frames: cell 0 is shifted into cell 1 and kept.\<close>

definition error_ok :: "track \<Rightarrow> bool" where
  "error_ok s \<longleftrightarrow> length (steer_error s) = 30 \<and> steer_error s ! 1 = steer_error s ! 0 \<and> \<bar>steer_error s ! 0\<bar> \<le> 80"

definition speeds_ok :: "fl list \<Rightarrow> bool" where
  "speeds_ok xs \<longleftrightarrow> length xs = 5 \<and> (\<forall>x \<in> set xs. fl_btw (- 20000) 20000 x)"

lemma speed_cell:
  assumes "speeds_ok xs" "0 \<le> i" "i < 5"
  obtains r where "c_get xs i = Some (Fin r)" "- 20000 \<le> r" "r \<le> 20000"
proof -
  have "fl_btw (- 20000) 20000 (xs ! nat i)" using assms by (simp add: speeds_ok_def)
  then obtain r where "xs ! nat i = Fin r" "of_int (- 20000) \<le> r" "r \<le> of_int 20000" by (rule fl_btwE)
  then show ?thesis using assms by (intro that) (simp_all add: speeds_ok_def)
qed

lemma average_speed_run:
  assumes "speeds_ok xs"
  shows "runs (average_speed xs) (\<lambda>_. True)"
proof -
  obtain a where a: "c_get xs 0 = Some (Fin a)" "- 20000 \<le> a" "a \<le> 20000" using speed_cell [OF assms, of 0] by auto
  obtain b where b: "c_get xs 1 = Some (Fin b)" "- 20000 \<le> b" "b \<le> 20000" using speed_cell [OF assms, of 1] by auto
  obtain c where c: "c_get xs 2 = Some (Fin c)" "- 20000 \<le> c" "c \<le> 20000" using speed_cell [OF assms, of 2] by auto
  have "fl_in (1 / 2 ^ 2) (3 / 2 ^ 2) (rd64 (6 / 10))" using rd64_in_dyadic [of 1 2 "6 / 10" 3] by simp
  then obtain p where p: "rd64 (6 / 10) = Fin p" "1 / 4 \<le> p" "p \<le> 3 / 4" by (auto simp: fl_in_iff)
  have "fl_in (1 / 2 ^ 3) (1 / 2 ^ 2) (rd64 (2 / 10))"
    using rd64_in_dyadic [of 1 3 "2 / 10" 2] by simp
  then obtain q where q: "rd64 (2 / 10) = Fin q" "1 / 8 \<le> q" "q \<le> 1 / 4" by (auto simp: fl_in_iff)
  have pa: "\<bar>p * a\<bar> \<le> 3 / 4 * 20000" unfolding abs_mult by (rule mult_mono) (use a p in auto)
  have qb: "\<bar>q * b\<bar> \<le> 1 / 4 * 20000" unfolding abs_mult by (rule mult_mono) (use b q in auto)
  have qc: "\<bar>q * c\<bar> \<le> 1 / 4 * 20000" unfolding abs_mult by (rule mult_mono) (use c q in auto)
  have "fl_btw (- 15000) 15000 (rd64 (p * a))" by (rule rd64_btw) (use pa in \<open>auto simp: abs_le_iff\<close>)
  then obtain u where u: "rd64 (p * a) = Fin u" "- 15000 \<le> u" "u \<le> 15000" by (auto elim: fl_btwE)
  have "fl_btw (- 5000) 5000 (rd64 (q * b))" by (rule rd64_btw) (use qb in \<open>auto simp: abs_le_iff\<close>)
  then obtain v where v: "rd64 (q * b) = Fin v" "- 5000 \<le> v" "v \<le> 5000" by (auto elim: fl_btwE)
  have "fl_btw (- 5000) 5000 (rd64 (q * c))" by (rule rd64_btw) (use qc in \<open>auto simp: abs_le_iff\<close>)
  then obtain w where w: "rd64 (q * c) = Fin w" "- 5000 \<le> w" "w \<le> 5000" by (auto elim: fl_btwE)
  have "fl_btw (- 20000) 20000 (rd64 (u + v))" by (rule rd64_btw) (use u v in auto)
  then obtain x where x: "rd64 (u + v) = Fin x" "- 20000 \<le> x" "x \<le> 20000" by (auto elim: fl_btwE)
  have "fl_btw (- 25000) 25000 (rd64 (x + w))" by (rule rd64_btw) (use x w in auto)
  then have "runs (fl_to_int (- 32768) 32767 (rd64 (x + w))) (\<lambda>n. - 25000 \<le> n \<and> n \<le> 25000)"
    by (rule fl_to_int_btw) simp_all
  then show ?thesis
    unfolding average_speed_def a(1) b(1) c(1) bind.bind_lunit p(1) q(1) fl_mul.simps u(1) v(1) w(1) fl_add.simps x(1)
    by (rule runs_mono) simp
qed

lemma compute_error_eq:
  assumes "speeds_ok v" "error_ok s" "steer_target l = Some e"
  defines "e' \<equiv> slew (steer_error s ! 0) e"
  shows "runs (compute_error v l s) (\<lambda>t. \<exists>a. t = s\<lparr>speed_avg := a,
     steer_error := e' # e' # butlast (tl (steer_error s)),
     steer_error_ave := e', steer_error_ll := steer_error_l s, steer_error_l := e'\<rparr>)"
proof -
  obtain a where a: "average_speed v = Some a" using average_speed_run [OF assms(1)] by (rule runsE)
  obtain x y ys where xs: "steer_error s = x # y # ys" "length ys = 28"
    using assms(2) unfolding error_ok_def by (cases "steer_error s"; cases "tl (steer_error s)") auto
  have y: "y = x" "\<bar>x\<bar> \<le> 80" using assms(2) xs by (simp_all add: error_ok_def)
  have lim: "limit_error (e # y # ys) = Some (e' # y # ys)"
    using limit_error_eq [of "e # y # ys"] xs y by (simp add: e'_def)
  have sh: "for_down shift_cell 29 0 (e' # y # ys) = Some (e' # e' # butlast (y # ys))"
    using shift_history [of "e' # y # ys" 29 e'] xs by simp
  show ?thesis unfolding compute_error_def a assms(3) bind.bind_lunit
    using lim sh by (simp add: xs) (auto intro: exI [of _ a])
qed

text \<open>
  C15: from any middle line within 1024 columns and any plausible speeds, the steering error
  is computed without a trap, ends within 80, moves by at most 15 per frame, and its history
  is shifted by one.
\<close>

theorem compute_error_bounded:
  assumes "speeds_ok v" "midline_ok l" "- 1 \<le> vtop l" "error_ok s"
  shows "runs (compute_error v l s) (\<lambda>t. error_ok t \<and> \<bar>steer_error t ! 0 - steer_error s ! 0\<bar> \<le> 15
     \<and> steer_error_ave t = steer_error t ! 0 \<and> (\<forall>i. 2 \<le> i \<and> i < 30 \<longrightarrow> steer_error t ! i = steer_error s ! (i - 1)))"
proof -
  obtain e where e: "steer_target l = Some e" using steer_target_run [OF assms(2,3)] by (rule runsE)
  show ?thesis
  proof (rule runs_mono [OF compute_error_eq [OF assms(1,4) e]])
    fix t assume t: "\<exists>a. t = s\<lparr>speed_avg := a,
       steer_error := slew (steer_error s ! 0) e # slew (steer_error s ! 0) e # butlast (tl (steer_error s)),
       steer_error_ave := slew (steer_error s ! 0) e, steer_error_ll := steer_error_l s,
       steer_error_l := slew (steer_error s ! 0) e\<rparr>"
    have "(x # x # butlast (tl (steer_error s))) ! i = steer_error s ! (i - 1)" if "2 \<le> i" "i < 30" for i x
    proof -
      define k where "k = i - 2"
      have k: "i = Suc (Suc k)" using that(1) unfolding k_def by linarith
      have len: "length (steer_error s) = 30" using assms(4) by (simp add: error_ok_def)
      have "butlast (tl (steer_error s)) ! k = tl (steer_error s) ! k"
        by (rule nth_butlast) (use that(2) len k in simp)
      also have "\<dots> = steer_error s ! Suc k" by (rule nth_tl) (use that(2) len k in simp)
      finally show ?thesis by (simp add: k)
    qed
    moreover define x where "x = slew (steer_error s ! 0) e"
    ultimately have h: "\<forall>i. 2 \<le> i \<and> i < 30 \<longrightarrow> (x # x # butlast (tl (steer_error s))) ! i = steer_error s ! (i - 1)"
      by blast
    have st: "steer_error t = x # x # butlast (tl (steer_error s))" "steer_error_ave t = x"
      using t by (auto simp: x_def)
    have len: "length (steer_error s) = 30" "\<bar>steer_error s ! 0\<bar> \<le> 80" using assms(4) by (simp_all add: error_ok_def)
    have x: "\<bar>x\<bar> \<le> 80" "\<bar>x - steer_error s ! 0\<bar> \<le> 15"
      unfolding x_def using slew_range [of "steer_error s ! 0" e] len(2) by blast+
    show "error_ok t \<and> \<bar>steer_error t ! 0 - steer_error s ! 0\<bar> \<le> 15
       \<and> steer_error_ave t = steer_error t ! 0 \<and> (\<forall>i. 2 \<le> i \<and> i < 30 \<longrightarrow> steer_error t ! i = steer_error s ! (i - 1))"
      unfolding st using h x len by (simp add: error_ok_def st)
  qed
qed

theorem compute_error_bounded_witness:
  "\<exists>t. compute_error (replicate 5 (Fin 0)) (lines_init\<lparr>f1 := (f1 lines_init)\<lparr>midline := replicate 120 159\<rparr>\<rparr>) (track_init (Some 0) (Some 0)) = Some t
     \<and> \<bar>steer_error t ! 0\<bar> \<le> 15"
proof -
  have "runs (compute_error (replicate 5 (Fin 0)) (lines_init\<lparr>f1 := (f1 lines_init)\<lparr>midline := replicate 120 159\<rparr>\<rparr>) (track_init (Some 0) (Some 0)))
      (\<lambda>t. error_ok t \<and> \<bar>steer_error t ! 0 - steer_error (track_init (Some 0) (Some 0)) ! 0\<bar> \<le> 15
     \<and> steer_error_ave t = steer_error t ! 0
     \<and> (\<forall>i. 2 \<le> i \<and> i < 30 \<longrightarrow> steer_error t ! i = steer_error (track_init (Some 0) (Some 0)) ! (i - 1)))"
    by (rule compute_error_bounded)
      (auto simp: speeds_ok_def midline_ok_def error_ok_def track_init_def lines_init_def f1_zero_def f2_zero_def)
  then show ?thesis by (auto simp: track_init_def elim!: runsE)
qed

text \<open>
  C16: when the vertex is found in the last ten rows, whose weights are all 0, the sum of the weights is 0 and the guard
  against dividing by it leaves the mean column at 0: the target is -80, as for a line at the left border of the picture, and
  the error does not hold its value but moves towards -80 by 15 per frame, whichever way the track goes.
\<close>

theorem compute_error_lost:
  assumes "speeds_ok v" "midline_ok l" "109 \<le> vtop l" "error_ok s"
  shows "steer_target l = Some (- 80)
    \<and> runs (compute_error v l s) (\<lambda>t. steer_error_ave t = max (- 80) (steer_error s ! 0 - 15))"
proof (intro conjI)
  show "steer_target l = Some (- 80)" by (rule steer_target_lost [OF assms(2,3)])
  have "\<bar>steer_error s ! 0\<bar> \<le> 80" using assms(4) by (simp add: error_ok_def)
  then have "slew (steer_error s ! 0) (- 80) = max (- 80) (steer_error s ! 0 - 15)" by (simp add: slew_def)
  then show "runs (compute_error v l s) (\<lambda>t. steer_error_ave t = max (- 80) (steer_error s ! 0 - 15))"
    by (intro runs_mono [OF compute_error_eq [OF assms(1,4) steer_target_lost [OF assms(2,3)]]]) auto
qed

theorem compute_error_lost_witness:
  "\<exists>t. compute_error (replicate 5 (Fin 0)) (lines_init\<lparr>f1 := (f1 lines_init)\<lparr>midline := replicate 120 159\<rparr>,
       f2 := (f2 lines_init)\<lparr>toppoint := 115\<rparr>\<rparr>) (track_init (Some 0) (Some 0)) = Some t \<and> steer_error_ave t = - 15"
proof -
  have "runs (compute_error (replicate 5 (Fin 0)) (lines_init\<lparr>f1 := (f1 lines_init)\<lparr>midline := replicate 120 159\<rparr>,
       f2 := (f2 lines_init)\<lparr>toppoint := 115\<rparr>\<rparr>) (track_init (Some 0) (Some 0)))
     (\<lambda>t. steer_error_ave t = max (- 80) (steer_error (track_init (Some 0) (Some 0)) ! 0 - 15))"
    by (rule compute_error_lost [THEN conjunct2])
      (auto simp: speeds_ok_def midline_ok_def error_ok_def track_init_def lines_init_def f1_zero_def)
  then show ?thesis by (auto simp: track_init_def elim!: runsE)
qed

section \<open>The straight's slope\<close>

lemma slope_sum_run:
  assumes "midline_ok l"
  shows "runs (slope_sum l) (\<lambda>n. - 32768 \<le> n \<and> n \<le> 32767)"
  unfolding slope_sum_def
proof (rule for_down_inv)
  fix i n :: int assume i: "30 < i" "i \<le> 100"
  obtain m where "ML l i = Some m" using midline_cell [OF assms, of i] i by auto
  then show "runs (do { m \<leftarrow> ML l i; Some (Next (i16 (n + m))) })
      (flow_post (\<lambda>n. - 32768 \<le> n \<and> n \<le> 32767) (\<lambda>n. - 32768 \<le> n \<and> n \<le> 32767))" by simp
qed simp

lemma slope_squares_run:
  assumes l: "midline_ok l" and Av: "fl_btw (- 469) 469 Av"
  shows "runs (slope_squares Av l) (\<lambda>v. \<exists>r. v = Fin r \<and> 0 \<le> r \<and> r \<le> 70 * 2 ^ 22)"
  unfolding slope_squares_def
proof (rule for_down_rule [where I = "\<lambda>i v. \<exists>r. v = Fin r \<and> 0 \<le> r \<and> r \<le> of_int (100 - i) * 2 ^ 22"])
  fix i v assume i: "30 < i" "i \<le> (100::int)"
    and v: "\<exists>r. v = Fin r \<and> 0 \<le> r \<and> r \<le> of_int (100 - i) * 2 ^ 22"
  obtain m where m: "ML l i = Some m" "\<bar>m\<bar> \<le> 1024" using midline_cell [OF l, of i] i by auto
  obtain r where r: "v = Fin r" "0 \<le> r" "r \<le> of_int (100 - i) * 2 ^ 22" using v by blast
  have "(of_int (- 1024) :: rat) \<le> of_int m" "of_int m \<le> (of_int 1024 :: rat)"
    unfolding of_int_le_iff using m(2) by simp_all
  then have "fl_btw (- 1024) 1024 (rd32 (of_int m))" by (intro rd32_btw) simp_all
  from fsub_btw [OF this Av] have "fl_btw (- 1493) 1493 (fl_sub rd32 (rd32 (of_int m)) Av)" by simp
  from fsquare_btw [OF this]
  have "fl_btw 0 2229049 (fl_mul rd32 (fl_sub rd32 (rd32 (of_int m)) Av) (fl_sub rd32 (rd32 (of_int m)) Av))"
    by simp
  then obtain q where q: "fl_mul rd32 (fl_sub rd32 (rd32 (of_int m)) Av) (fl_sub rd32 (rd32 (of_int m)) Av) = Fin q"
    "0 \<le> q" "q \<le> 2229049" by (auto elim: fl_btwE)
  have "\<exists>x. rd32 (r + q) = Fin x \<and> 0 \<le> x \<and> x \<le> of_int (100 - (i - 1)) * 2 ^ 22"
    by (rule rd32_upto_scaled) (use r q i in \<open>auto simp: algebra_simps\<close>)
  then show "runs (do { m \<leftarrow> ML l i; m' \<leftarrow> ML l i;
      Some (Next (fl_add rd32 v (fl_mul rd32 (fl_sub rd32 (rd32 (of_int m)) Av) (fl_sub rd32 (rd32 (of_int m')) Av)))) })
     (flow_post (\<lambda>v. \<exists>r. v = Fin r \<and> 0 \<le> r \<and> r \<le> of_int (100 - (i - 1)) * 2 ^ 22)
       (\<lambda>v. \<exists>r. v = Fin r \<and> 0 \<le> r \<and> r \<le> 70 * 2 ^ 22))"
    using m q by (simp add: r)
qed simp_all

lemma solve_midline_slope_run:
  assumes "midline_ok l"
  shows "runs (solve_midline_slope l) (fl_btw 0 2049)"
proof -
  obtain n where n: "slope_sum l = Some n" "- 32768 \<le> n" "n \<le> 32767"
    using slope_sum_run [OF assms] by (auto elim: runsE)
  define Av where "Av = fl_map rd32 (fl_div rd64 (Fin (of_int n)) (Fin 70))"
  have b: "(of_int (- 32768) :: rat) \<le> of_int n" "of_int n \<le> (of_int 32767 :: rat)"
    unfolding of_int_le_iff using n by simp_all
  have "fl_btw (- 469) 469 (rd64 (of_int n / 70))" by (rule rd64_btw) (use b in simp_all)
  then obtain r where r: "rd64 (of_int n / 70) = Fin r" "of_int (- 469) \<le> r" "r \<le> of_int 469" by (rule fl_btwE)
  have Av: "fl_btw (- 469) 469 Av" unfolding Av_def using r by (simp add: rd32_btw)
  obtain q where q: "slope_squares Av l = Some (Fin q)" "0 \<le> q" "q \<le> 70 * 2 ^ 22"
    using slope_squares_run [OF assms Av] by (auto elim!: runsE)
  have "fl_btw 0 (int (2048 * 2048)) (rd64 (q / 70))" by (rule rd64_btw) (use q in simp_all)
  from sqrt_btw [OF this] have "fl_btw 0 2049 (fl_sqrt rd64 (rd64 (q / 70)))" by simp
  then obtain x where x: "fl_sqrt rd64 (rd64 (q / 70)) = Fin x" "of_int 0 \<le> x" "x \<le> of_int 2049" by (rule fl_btwE)
  have "fl_btw 0 2049 (rd32 x)" by (rule rd32_btw) (use x in simp_all)
  then show ?thesis
    unfolding solve_midline_slope_def n(1) bind.bind_lunit Let_def Av_def [symmetric] q(1)
    by (simp add: x)
qed

lemma short_straight_run:
  assumes "midline_ok l"
  shows "runs (short_straight_judge l s) (\<lambda>t. \<exists>d. t = s\<lparr>stdDeviation := d,
     shortstraight_flag := (if d \<le> 6 then 1 else if d \<le> 11 then 2 else shortstraight_flag s)\<rparr>)"
proof -
  obtain S where S: "solve_midline_slope l = Some S" "fl_btw 0 2049 S"
    using solve_midline_slope_run [OF assms] by (rule runsE)
  have "runs (fl_to_int (- 32768) 32767 S) (\<lambda>n. 0 \<le> n \<and> n \<le> 2049)"
    by (rule fl_to_int_btw [OF S(2)]) simp_all
  then obtain d where "fl_to_int (- 32768) 32767 S = Some d" by (rule runsE)
  then have "short_straight_judge l s = Some (s\<lparr>stdDeviation := d,
     shortstraight_flag := (if d \<le> 6 then 1 else if d \<le> 11 then 2 else shortstraight_flag s)\<rparr>)"
    by (simp add: short_straight_judge_def S(1))
  then show ?thesis by (simp only: runs_Some) blast
qed

lemma flag_cells:
  assumes "f1_ok (f1 l)" "0 \<le> i" "i < 120"
  shows "ML l i = Some (midline (f1 l) ! nat i)" "LF l i = Some (leftlineflag (f1 l) ! nat i)"
    "RF l i = Some (rightlineflag (f1 l) ! nat i)"
proof -
  have "i < int (length (midline (f1 l)))" "i < int (length (leftlineflag (f1 l)))" "i < int (length (rightlineflag (f1 l)))"
    using assms(1,3) by simp_all
  then show "ML l i = Some (midline (f1 l) ! nat i)" "LF l i = Some (leftlineflag (f1 l) ! nat i)"
    "RF l i = Some (rightlineflag (f1 l) ! nat i)"
    unfolding cell_def using assms(2) by (simp_all only: c_get_Some)
qed

lemma runs_eqE:
  assumes "runs m (\<lambda>t. \<exists>d. t = F d)"
  obtains d where "m = Some (F d)"
  using assms by (auto elim!: runsE)

lemma long_straight_run:
  assumes ok: "f1_ok (f1 l)"
  shows "runs (long_straight_judge l s) (\<lambda>t. \<exists>b. t = s\<lparr>long_straight_flag := b\<rparr>)"
proof -
  let ?b1 = "\<lambda>i (flag1::int). do {
         c \<leftarrow> any_c [gt_c (ML l i) (Some 88), lt_c (ML l i) (Some 72)];
         Some (if c then Break 0 else Next flag1) }"
  let ?b2 = "\<lambda>i n. do {
             c \<leftarrow> any_c [eq_c (LF l i) 0, eq_c (RF l i) 0];
             Some (Next (if c then i16 (n + 1) else n)) }"
  have "runs (for_down ?b1 118 35 1) (\<lambda>_. True)"
    by (rule for_down_inv) (simp_all add: flag_cells [OF ok] flow_post_def split: flow.split)
  then obtain g where g: "for_down ?b1 118 35 1 = Some g" by (rule runsE)
  have "runs (for_down ?b2 100 35 0) (\<lambda>_. True)"
    by (rule for_down_inv) (simp_all add: flag_cells [OF ok] flow_post_def split: flow.split)
  then obtain h where h: "for_down ?b2 100 35 0 = Some h" by (rule runsE)
  have e: "\<exists>b. s = s\<lparr>long_straight_flag := b\<rparr>" by (rule exI [of _ "long_straight_flag s"]) simp
  show ?thesis unfolding long_straight_judge_def g h bind.bind_lunit
    using e by (cases "g \<noteq> 0") (simp_all only: if_True if_False bind.bind_lunit runs_Some split: if_splits, blast+)
qed

section \<open>The speed\<close>

definition frame_ok :: "lines \<Rightarrow> bool" where
  "frame_ok l \<longleftrightarrow> f1_ok (f1 l) \<and> midline_ok l"

lemma judges_run:
  assumes "frame_ok l"
  shows "runs (straight_judges l s)
    (\<lambda>t. \<exists>b d f. t = s\<lparr>long_straight_flag := b, stdDeviation := d, shortstraight_flag := f\<rparr>
       \<and> (shortstraight_flag s \<noteq> 0 \<longrightarrow> f \<noteq> 0))"
proof (cases "shiziflag1 (f2 l) = 0")
  case True
  from assms have ok: "f1_ok (f1 l)" "midline_ok l" by (simp_all only: frame_ok_def)
  obtain b where b: "long_straight_judge l s = Some (s\<lparr>long_straight_flag := b\<rparr>)"
    by (rule runs_eqE [OF long_straight_run [OF ok(1)]])
  define u where "u = s\<lparr>long_straight_flag := b\<rparr>"
  obtain d where d: "short_straight_judge l u = Some (u\<lparr>stdDeviation := d,
     shortstraight_flag := (if d \<le> 6 then 1 else if d \<le> 11 then 2 else shortstraight_flag u)\<rparr>)"
    by (rule runs_eqE [OF short_straight_run [OF ok(2)]])
  have "shortstraight_flag u = shortstraight_flag s" by (simp add: u_def)
  then have "shortstraight_flag s \<noteq> 0 \<longrightarrow> (if d \<le> 6 then 1 else if d \<le> 11 then 2 else shortstraight_flag u) \<noteq> 0"
    by simp
  then show ?thesis
    unfolding straight_judges_def if_P [OF True] b bind.bind_lunit u_def [symmetric] d runs_Some unfolding u_def by blast
next
  case False
  have "s = s\<lparr>long_straight_flag := long_straight_flag s, stdDeviation := stdDeviation s,
      shortstraight_flag := shortstraight_flag s\<rparr>" by simp
  then show ?thesis unfolding straight_judges_def if_not_P [OF False] runs_Some by blast
qed

text \<open>What the parameters allow: every speed lies between \<open>lo\<close> and \<open>hi\<close>.\<close>

definition params_ok :: "int \<Rightarrow> int \<Rightarrow> track \<Rightarrow> bool" where
  "params_ok lo hi s \<longleftrightarrow> 0 \<le> lo \<and> hi \<le> 10000 \<and> lo \<le> s_huan s \<and> s_huan s \<le> hi \<and> lo \<le> s_cross s \<and> s_cross s \<le> hi
     \<and> lo \<le> s_max s \<and> s_max s \<le> hi \<and> lo \<le> s_zhi s - 70 \<and> s_zhi s \<le> hi \<and> lo \<le> s_wan1 s - 30
     \<and> s_wan1 s \<le> s_zhi s \<and> lo \<le> s_wan2 s \<and> s_wan2 s \<le> s_wan1 s"

definition track_ok :: "track \<Rightarrow> bool" where
  "track_ok s \<longleftrightarrow> length (road_type s) = 200 \<and> length (stop_car s) = 20 \<and> \<bar>steer_error_ave s\<bar> \<le> 80"

lemma sdiv35: "\<bar>a\<bar> \<le> 80 \<Longrightarrow> 0 \<le> \<bar>a\<bar> sdiv 35 \<and> \<bar>a\<bar> sdiv 35 \<le> (2::int)"
  by (auto simp: sdiv_pos)

lemma short_straight_speed_run:
  assumes "params_ok lo hi s" "track_ok s"
  shows "runs (short_straight_speed s) (\<lambda>t. \<exists>v. t = s\<lparr>speed_set := v\<rparr> \<and> lo \<le> v \<and> v \<le> hi)"
proof -
  have len: "length (road_type s) = 200" using assms(2) by (simp add: track_ok_def)
  define a where "a = s_zhi s - s_wan1 s"
  define k where "k = \<bar>steer_error_ave s\<bar> sdiv 35"
  have p: "0 \<le> lo" "hi \<le> 10000" "lo \<le> s_zhi s - 70" "s_zhi s \<le> hi" "lo \<le> s_wan1 s - 30" "s_wan1 s \<le> s_zhi s"
    using assms(1) by (simp_all add: params_ok_def)
  have k: "0 \<le> k" "k \<le> 2" using sdiv35 assms(2) by (simp_all add: k_def track_ok_def)
  have ak: "0 \<le> a * k" "a * k \<le> 20000"
    using p k mult_mono [of a 10000 k 2] by (simp_all add: a_def)
  have z: "i16 (s_zhi s - a * k) = s_zhi s - a * k" "i16 (s_zhi s - 70) = s_zhi s - 70"
    using ak p by (intro i16_id; linarith)+
  have c: "ck32 (a * k) = Some (a * k)" "ck32 (s_zhi s - a * k) = Some (s_zhi s - a * k)"
    using ak p by (simp_all add: ck32_def)
  have "runs (all_c [eq_c (road s 6) 1, eq_c (road s 7) 1, eq_c (road s 8) 1, eq_c (road s 9) 1, eq_c (road s 10) 1]) (\<lambda>_. True)" using len by (simp add: runs_if)
  then obtain b1 where b1: "all_c [eq_c (road s 6) 1, eq_c (road s 7) 1, eq_c (road s 8) 1, eq_c (road s 9) 1, eq_c (road s 10) 1] = Some b1" by (rule runsE)
  have "runs (all_c [eq_c (road s 3) 3, eq_c (road s 4) 3, eq_c (road s 5) 3]) (\<lambda>_. True)" using len by (simp add: runs_if)
  then obtain b2 where b2: "all_c [eq_c (road s 3) 3, eq_c (road s 4) 3, eq_c (road s 5) 3] = Some b2" by (rule runsE)
  show ?thesis
    unfolding short_straight_speed_def b1 b2 bind.bind_lunit a_def [symmetric] k_def [symmetric] c Let_def
    using p ak z by (auto simp: c intro!: exI)
qed

lemma curve_speed_run:
  assumes "params_ok lo hi s" "track_ok s"
  shows "runs (curve_speed s) (\<lambda>t. \<exists>v g h. t = s\<lparr>g_highest_speed := g, g_lowest_speed := h, speed_set := v\<rparr> \<and> lo \<le> v \<and> v \<le> hi)"
proof -
  have len: "length (road_type s) = 200" using assms(2) by (simp add: track_ok_def)
  define a where "a = s_wan1 s - s_wan2 s"
  define q where "q = steer_error_ave s * steer_error_ave s"
  have p: "0 \<le> lo" "hi \<le> 10000" "s_zhi s \<le> hi" "lo \<le> s_wan1 s - 30" "s_wan1 s \<le> s_zhi s" "lo \<le> s_wan2 s" "s_wan2 s \<le> s_wan1 s"
    using assms(1) by (simp_all add: params_ok_def)
  have "\<bar>steer_error_ave s\<bar> * \<bar>steer_error_ave s\<bar> \<le> 80 * 80"
    using assms(2) by (intro mult_mono) (simp_all add: track_ok_def)
  then have q: "0 \<le> q" "q \<le> 6400" by (simp_all add: q_def)
  have aq: "0 \<le> a * q" "a * q \<le> 10000 * 6400"
    using p q mult_mono [of a 10000 q 6400] by (simp_all add: a_def)
  have d: "0 \<le> a * q sdiv 1600" "a * q sdiv 1600 \<le> 40000"
    using sdiv_pos [of "a * q" 1600] aq by auto
  have c: "ck32 q = Some q" "ck32 (a * q) = Some (a * q)" "ck32 (s_wan1 s - a * q sdiv 1600) = Some (s_wan1 s - a * q sdiv 1600)"
    using aq q d p by (simp_all add: ck32_def)
  have "runs (all_c [eq_c (road s 9) 1, eq_c (road s 10) 1, eq_c (road s 11) 1, eq_c (road s 12) 1, eq_c (road s 13) 1]) (\<lambda>_. True)" using len by (simp add: runs_if)
  then obtain b1 where b1: "all_c [eq_c (road s 9) 1, eq_c (road s 10) 1, eq_c (road s 11) 1, eq_c (road s 12) 1, eq_c (road s 13) 1] = Some b1" by (rule runsE)
  have w: "i16 (s_wan1 s - 30) = s_wan1 s - 30" using p by (intro i16_id; linarith)
  have e: "\<exists>g h. s\<lparr>speed_set := v\<rparr> = s\<lparr>g_highest_speed := g, g_lowest_speed := h, speed_set := v\<rparr>" for v
    by (rule exI [of _ "g_highest_speed s"], rule exI [of _ "g_lowest_speed s"]) simp
  show ?thesis
  proof (cases b1)
    case True
    then show ?thesis unfolding curve_speed_def b1 bind.bind_lunit using w e [of "s_wan1 s - 30"] p
      by (simp only: if_True runs_Some) (rule exI [of _ "s_wan1 s - 30"], simp)
  next
    case False
    define v where "v = i16 (s_wan1 s - a * q sdiv 1600)"
    show ?thesis unfolding curve_speed_def b1 bind.bind_lunit Let_def
      using False p by (auto simp: c q_def [symmetric] a_def [symmetric] v_def [symmetric] intro!: exI)
  qed
qed

lemma shift_road_eq:
  assumes "length (road_type s) = 200" "after_road_type s = Some w"
  shows "shift_road s = Some (s\<lparr>road_type := hd (road_type s) # butlast (road_type s), after_road_type := Some (last (road_type s))\<rparr>)"
proof -
  obtain r rs where r: "road_type s = r # rs" "length rs = 199" "rs \<noteq> []"
    using assms by (cases "road_type s") fastforce+
  have "for_down shift_cell 200 0 (road_type s @ [w]) = Some (r # r # rs)"
    using shift_cell_loop [of 200 "road_type s @ [w]"] r by simp
  moreover have "take 200 (r # r # rs) = r # r # butlast rs" "(r # r # rs) ! 200 = last rs"
    using r by (simp_all add: butlast_conv_take last_conv_nth)
  ultimately show ?thesis using r assms(2) by (simp add: shift_road_def)
qed

text \<open>The kind of track a frame is recorded as.\<close>

definition ring :: "lines \<Rightarrow> bool" where
  "ring l \<longleftrightarrow> huanleftflag (f2 l) \<noteq> 0 \<or> huanrightflag (f2 l) \<noteq> 0 \<or> huan (f2 l) = 1"

definition road_kind :: "lines \<Rightarrow> track \<Rightarrow> int" where
  "road_kind l s = (if ring l then 4 else if shiziflag1 (f2 l) = 1 then 5
     else if long_straight_flag s = 1 then 1 else if shortstraight_flag s \<noteq> 0 then 2 else 3)"

text \<open>The variables that \<open>velocity_set\<close> leaves alone.\<close>

definition keeps :: "track \<Rightarrow> track \<Rightarrow> bool" where
  "keeps s t \<longleftrightarrow> s_zhi t = s_zhi s \<and> s_max t = s_max s \<and> s_wan1 t = s_wan1 s \<and> s_wan2 t = s_wan2 s
     \<and> s_cross t = s_cross s \<and> s_huan t = s_huan s \<and> steer_error t = steer_error s
     \<and> steer_error_ave t = steer_error_ave s \<and> stop_car t = stop_car s \<and> stop_car_flag t = stop_car_flag s
     \<and> length (road_type t) = length (road_type s)
     \<and> (after_stop_car t = None) = (after_stop_car s = None) \<and> (after_road_type t = None) = (after_road_type s = None)"

lemma keeps_refl [simp]: "keeps s s"
  by (simp add: keeps_def)

lemma keeps_trans: "keeps s t \<Longrightarrow> keeps t u \<Longrightarrow> keeps s u"
  by (simp add: keeps_def)

lemma keeps_params: "keeps s t \<Longrightarrow> params_ok lo hi t = params_ok lo hi s"
  by (simp add: keeps_def params_ok_def)

lemma keeps_track: "keeps s t \<Longrightarrow> track_ok t = track_ok s"
  by (simp add: keeps_def track_ok_def)

lemma set_road_eq: "track_ok s \<Longrightarrow> set_road k s = Some (s\<lparr>road_type := (road_type s)[0 := k]\<rparr>)"
  by (simp add: set_road_def track_ok_def)

lemma choose_speed_run:
  fixes l :: lines
  assumes p: "params_ok lo hi s" and ok: "track_ok s"
  defines "k \<equiv> road_kind l s"
  shows "runs (choose_speed l s) (\<lambda>(t, beep). keeps s t \<and> road_type t = (road_type s)[0 := k]
     \<and> lo \<le> speed_set t \<and> speed_set t \<le> hi
     \<and> (k = 4 \<longrightarrow> speed_set t = s_huan s) \<and> (k = 5 \<longrightarrow> speed_set t = s_cross s) \<and> (k = 1 \<longrightarrow> speed_set t = s_max s)
     \<and> long_straight_flag t = long_straight_flag s \<and> shortstraight_flag t = shortstraight_flag s
     \<and> beep = (if k = 4 \<and> road_type s ! 1 \<noteq> 4 then Some (1, 50, 100)
               else if k = 5 \<and> road_type s ! 1 \<noteq> 5 then Some (2, 50, 100) else None))"
proof -
  define u where "u j = s\<lparr>road_type := (road_type s)[0 := j]\<rparr>" for j
  have len: "length (road_type s) = 200" using ok by (simp add: track_ok_def)
  have put: "set_road j s = Some (u j)" for j using set_road_eq [OF ok] by (simp add: u_def)
  have r1: "road (u j) 1 = Some (road_type s ! 1)" for j using len by (simp add: u_def)
  have ku: "keeps s (u j)" for j by (simp add: keeps_def u_def)
  have pu: "params_ok lo hi (u j)" "track_ok (u j)" for j
    using keeps_params [OF ku] keeps_track [OF ku] p ok by simp_all
  have b: "lo \<le> s_huan s" "s_huan s \<le> hi" "lo \<le> s_cross s" "s_cross s \<le> hi" "lo \<le> s_max s" "s_max s \<le> hi"
    using p by (simp_all add: params_ok_def)
  have "k \<in> {1, 2, 3, 4, 5}" by (simp add: k_def road_kind_def)
  then consider "k = 4" | "k = 5" | "k = 1" | "k = 2" | "k = 3" by auto
  then show ?thesis
  proof cases
    case 1
    then have "ring l" by (auto simp: k_def road_kind_def split: if_splits)
    then show ?thesis using 1 b by (simp add: choose_speed_def ring_def put r1) (simp add: u_def keeps_def)
  next
    case 2
    then have "\<not> ring l" "shiziflag1 (f2 l) = 1" by (auto simp: k_def road_kind_def split: if_splits)
    then show ?thesis using 2 b by (simp add: choose_speed_def ring_def put r1) (simp add: u_def keeps_def)
  next
    case 3
    then have "\<not> ring l" "shiziflag1 (f2 l) \<noteq> 1" "long_straight_flag s = 1"
      by (auto simp: k_def road_kind_def split: if_splits)
    then show ?thesis using 3 b by (simp add: choose_speed_def ring_def put) (simp add: u_def keeps_def)
  next
    case 4
    then have c: "\<not> ring l" "shiziflag1 (f2 l) \<noteq> 1" "long_straight_flag s \<noteq> 1" "shortstraight_flag s \<noteq> 0"
      by (auto simp: k_def road_kind_def split: if_splits)
    obtain v where v: "short_straight_speed (u 2) = Some (u 2\<lparr>speed_set := v\<rparr>)" "lo \<le> v" "v \<le> hi"
      using short_straight_speed_run [OF pu, of 2] by (auto elim!: runsE)
    then show ?thesis using 4 c by (simp add: choose_speed_def ring_def put) (simp add: u_def keeps_def)
  next
    case 5
    then have c: "\<not> ring l" "shiziflag1 (f2 l) \<noteq> 1" "long_straight_flag s \<noteq> 1" "shortstraight_flag s = 0"
      by (auto simp: k_def road_kind_def split: if_splits)
    obtain v g h where v: "curve_speed (u 3) = Some (u 3\<lparr>g_highest_speed := g, g_lowest_speed := h, speed_set := v\<rparr>)"
      "lo \<le> v" "v \<le> hi"
      using curve_speed_run [OF pu, of 3] by (auto elim!: runsE)
    then show ?thesis using 5 c by (simp add: choose_speed_def ring_def put) (simp add: u_def keeps_def)
  qed
qed

lemma velocity_set_run:
  assumes l: "frame_ok l" and p: "params_ok lo hi s" and ok: "track_ok s" and w: "after_road_type s \<noteq> None"
  shows "runs (velocity_set l s) (\<lambda>(t, beep). keeps s t
     \<and> road_type t = road_kind l t # road_kind l t # butlast (tl (road_type s))
     \<and> lo \<le> speed_set t \<and> speed_set t \<le> hi
     \<and> (road_kind l t = 4 \<longrightarrow> speed_set t = s_huan s) \<and> (road_kind l t = 5 \<longrightarrow> speed_set t = s_cross s)
     \<and> (road_kind l t = 1 \<longrightarrow> speed_set t = s_max s)
     \<and> (shortstraight_flag s \<noteq> 0 \<longrightarrow> shortstraight_flag t \<noteq> 0)
     \<and> beep = (if road_kind l t = 4 \<and> road_type s ! 1 \<noteq> 4 then Some (1, 50, 100)
               else if road_kind l t = 5 \<and> road_type s ! 1 \<noteq> 5 then Some (2, 50, 100) else None))"
proof -
  obtain b d f where j: "straight_judges l (s\<lparr>long_straight_flag := 0\<rparr>)
      = Some (s\<lparr>long_straight_flag := b, stdDeviation := d, shortstraight_flag := f\<rparr>)"
    and f: "shortstraight_flag s \<noteq> 0 \<longrightarrow> f \<noteq> 0"
    using judges_run [OF l, of "s\<lparr>long_straight_flag := 0\<rparr>"] by (auto elim!: runsE)
  define u where "u = s\<lparr>long_straight_flag := b, stdDeviation := d, shortstraight_flag := f\<rparr>"
  have ku: "keeps s u" by (simp add: keeps_def u_def)
  have u: "params_ok lo hi u" "track_ok u" "road_type u = road_type s" "shortstraight_flag u = f"
    "s_huan u = s_huan s" "s_cross u = s_cross s" "s_max u = s_max s"
    using keeps_params [OF ku] keeps_track [OF ku] p ok by (simp_all add: u_def)
  obtain t beep where t: "choose_speed l u = Some (t, beep)" "keeps u t" "road_type t = (road_type s)[0 := road_kind l u]"
     "lo \<le> speed_set t" "speed_set t \<le> hi"
     "road_kind l u = 4 \<longrightarrow> speed_set t = s_huan s" "road_kind l u = 5 \<longrightarrow> speed_set t = s_cross s"
     "road_kind l u = 1 \<longrightarrow> speed_set t = s_max s"
     "long_straight_flag t = long_straight_flag u" "shortstraight_flag t = f"
     "beep = (if road_kind l u = 4 \<and> road_type s ! 1 \<noteq> 4 then Some (1, 50, 100)
               else if road_kind l u = 5 \<and> road_type s ! 1 \<noteq> 5 then Some (2, 50, 100) else None)"
    using choose_speed_run [OF u(1,2), of l] unfolding u by (elim runsE) auto
  obtain r rs where r: "road_type s = r # rs" "length rs = 199" "rs \<noteq> []"
    using ok unfolding track_ok_def by (cases "road_type s") fastforce+
  have len: "length (road_type t) = 200" using t(3) r by simp
  obtain w' where w': "after_road_type t = Some w'" using w ku t(2) by (auto simp: keeps_def)
  define t' where "t' = t\<lparr>road_type := hd (road_type t) # butlast (road_type t), after_road_type := Some (last (road_type t))\<rparr>"
  have k: "road_kind l t' = road_kind l u" using t(9,10) u(4) by (simp add: road_kind_def t'_def)
  have rt: "road_type t' = road_kind l u # road_kind l u # butlast rs"
    using t(3) r by (simp add: t'_def)
  have kt: "keeps s t'" using keeps_trans [OF ku t(2)] len r rt w by (simp add: keeps_def t'_def)
  have v: "velocity_set l s = Some (t', beep)"
    unfolding velocity_set_def j bind.bind_lunit u_def [symmetric] t(1) prod.case shift_road_eq [OF len w'] t'_def ..
  have e: "speed_set t' = speed_set t" "shortstraight_flag t' = f" "butlast (tl (road_type s)) = butlast rs"
    using t(10) r by (simp_all add: t'_def)
  show ?thesis
    unfolding v runs_Some prod.case k e rt using t(4-8,11) f kt by blast
qed

text \<open>With another object behind \<open>road_type\<close> the function has undefined behaviour.\<close>

lemma velocity_set_overruns:
  assumes l: "frame_ok l" and p: "params_ok lo hi s" and ok: "track_ok s" and w: "after_road_type s = None"
  shows "velocity_set l s = None"
proof -
  obtain u where j: "straight_judges l (s\<lparr>long_straight_flag := 0\<rparr>) = Some u" and ku: "keeps s u"
    using judges_run [OF l, of "s\<lparr>long_straight_flag := 0\<rparr>"] by (auto simp: keeps_def elim!: runsE)
  obtain t beep where t: "choose_speed l u = Some (t, beep)" "keeps u t"
    using choose_speed_run [of lo hi u l] keeps_params [OF ku] keeps_track [OF ku] p ok by (auto elim!: runsE)
  have "after_road_type t = None" using w ku t(2) by (simp add: keeps_def)
  then show ?thesis unfolding velocity_set_def j bind.bind_lunit t(1) prod.case by (simp add: shift_road_def)
qed

section \<open>Convergence of the error\<close>

text \<open>Frames of the same picture.\<close>

fun same_frames :: "nat \<Rightarrow> fl list \<Rightarrow> lines \<Rightarrow> track \<Rightarrow> track option" where
  "same_frames 0 v l s = Some s"
| "same_frames (Suc n) v l s = do { s \<leftarrow> compute_error v l s; same_frames n v l s }"

text \<open>Each frame closes the gap to the limited target by 15, until it is closed.\<close>

lemma slew_gap:
  assumes "\<bar>p\<bar> \<le> 80" "t = max (- 80) (min 80 e)"
  shows "\<bar>slew p e - t\<bar> = max 0 (\<bar>p - t\<bar> - 15)"
proof -
  have "slew p e = max (p - 15) (min (p + 15) t)" by (simp add: slew_def assms(2))
  then show ?thesis by (simp add: max_def min_def abs_if)
qed

lemma same_frames_gap:
  assumes "speeds_ok v" "steer_target l = Some e" "error_ok s"
  shows "runs (same_frames n v l s) (\<lambda>t. error_ok t \<and>
     \<bar>steer_error t ! 0 - max (- 80) (min 80 e)\<bar> = max 0 (\<bar>steer_error s ! 0 - max (- 80) (min 80 e)\<bar> - 15 * int n))"
  using assms(3)
proof (induction n arbitrary: s)
  case 0
  then show ?case by simp
next
  case (Suc n)
  define T where "T = max (- 80) (min 80 e)"
  obtain u where u: "compute_error v l s = Some u" "steer_error u = slew (steer_error s ! 0) e # slew (steer_error s ! 0) e # butlast (tl (steer_error s))"
    using compute_error_eq [OF assms(1) Suc.prems assms(2)] by (auto elim!: runsE)
  have p: "\<bar>steer_error s ! 0\<bar> \<le> 80" "length (steer_error s) = 30" using Suc.prems by (simp_all add: error_ok_def)
  have ok: "error_ok u" using slew_range(1) [OF p(1), of e] p(2) by (simp add: error_ok_def u(2))
  have g: "\<bar>steer_error u ! 0 - T\<bar> = max 0 (\<bar>steer_error s ! 0 - T\<bar> - 15)"
    using slew_gap [OF p(1) T_def] by (simp add: u(2))
  show ?case unfolding same_frames.simps u(1) bind.bind_lunit T_def [symmetric]
    by (rule runs_mono [OF Suc.IH [OF ok]]) (use g in \<open>simp add: T_def [symmetric]\<close>)
qed

text \<open>
  C17: on an unchanging picture the steering error reaches the limited target within eleven
  frames from anywhere, and stays there.
\<close>

theorem compute_error_converges:
  assumes "speeds_ok v" "midline_ok l" "- 1 \<le> vtop l" "error_ok s" "11 \<le> n"
  shows "\<exists>e. steer_target l = Some e
     \<and> runs (same_frames n v l s) (\<lambda>t. steer_error t ! 0 = max (- 80) (min 80 e))"
proof -
  obtain e where e: "steer_target l = Some e" using steer_target_run [OF assms(2,3)] by (rule runsE)
  define T where "T = max (- 80) (min 80 e)"
  have "\<bar>steer_error s ! 0\<bar> \<le> 80" using assms(4) by (simp add: error_ok_def)
  then have "\<bar>steer_error s ! 0 - T\<bar> \<le> 160" by (simp add: T_def)
  then have z: "max 0 (\<bar>steer_error s ! 0 - T\<bar> - 15 * int n) = 0" using assms(5) by simp
  have "runs (same_frames n v l s) (\<lambda>t. steer_error t ! 0 = T)"
    by (rule runs_mono [OF same_frames_gap [OF assms(1) e assms(4), folded T_def]]) (use z in simp)
  then show ?thesis using e by (auto simp: T_def)
qed

theorem compute_error_converges_witness:
  "\<exists>e. steer_target (lines_init\<lparr>f1 := (f1 lines_init)\<lparr>midline := replicate 120 159\<rparr>\<rparr>) = Some e
     \<and> runs (same_frames 11 (replicate 5 (Fin 0)) (lines_init\<lparr>f1 := (f1 lines_init)\<lparr>midline := replicate 120 159\<rparr>\<rparr>) (track_init (Some 0) (Some 0)))
         (\<lambda>t. steer_error t ! 0 = max (- 80) (min 80 e))"
  by (rule compute_error_converges)
    (auto simp: speeds_ok_def midline_ok_def error_ok_def track_init_def lines_init_def f1_zero_def f2_zero_def)

section \<open>Properties of the speed\<close>


lemma lines_init_frame [simp]: "frame_ok lines_init"
  by (simp add: frame_ok_def midline_ok_def lines_init_def f1_zero_def f1_ok_def)


text \<open>
  C19: \<open>shortstraight_flag\<close> is set by the first frame whose deviation is at most 11 and never
  cleared, so from then on no frame is ever taken for a bend: the speed \<open>s_wan2\<close> of sharp
  bends is out of use.  (The function goes through exactly if it may write behind \<open>road_type\<close>.)
\<close>

theorem no_curve_after_straight:
  assumes "frame_ok l" "params_ok lo hi s" "track_ok s" "shortstraight_flag s \<noteq> 0"
  shows "if after_road_type s = None then velocity_set l s = None
    else runs (velocity_set l s) (\<lambda>(t, beep). shortstraight_flag t \<noteq> 0 \<and> road_type t ! 0 \<noteq> 3)"
proof (cases "after_road_type s = None")
  case True
  then show ?thesis using velocity_set_overruns [OF assms(1-3)] by simp
next
  case False
  have "road_kind l t \<noteq> 3" if "shortstraight_flag t \<noteq> 0" for t using that by (simp add: road_kind_def)
  then have "runs (velocity_set l s) (\<lambda>(t, beep). shortstraight_flag t \<noteq> 0 \<and> road_type t ! 0 \<noteq> 3)"
    using assms(4) by (intro runs_mono [OF velocity_set_run [OF assms(1-3) False]]) auto
  then show ?thesis by (simp only: False if_False)
qed

theorem no_curve_after_straight_witness:
  "\<exists>t beep. velocity_set lines_init ((track_init (Some 0) (Some 0))\<lparr>shortstraight_flag := 1\<rparr>) = Some (t, beep) \<and> road_type t ! 0 \<noteq> 3"
proof -
  have "frame_ok lines_init" "params_ok 80 200 ((track_init (Some 0) (Some 0))\<lparr>shortstraight_flag := 1\<rparr>)"
    "track_ok ((track_init (Some 0) (Some 0))\<lparr>shortstraight_flag := 1\<rparr>)" "shortstraight_flag ((track_init (Some 0) (Some 0))\<lparr>shortstraight_flag := 1\<rparr>) \<noteq> 0"
    by (simp_all add: params_ok_def track_ok_def track_init_def)
  from no_curve_after_straight [OF this] show ?thesis by (auto simp: track_init_def [of "Some 0"] elim!: runsE)
qed

end
