(* ===== verification/EasyBlink.thy ===== *)
theory EasyBlink
  imports Prelude "HOL-Library.Word"
begin

text \<open>
  \<open>FlexBlink/easyblink.c\<close>: LEDs and the beeper, blinked by a daemon thread.  A handle is
  the LED's index in \<open>eb_leds\<close>.  A pin is its number, and of the GPIO block the model keeps
  the level each output pin is driven to; \<open>gpio_port.h\<close> maps the \<open>rt_pin_*\<close> calls to
  \<open>zf_gpio.c\<close>.  The mutex and the shell command are compiled out, \<open>RT_TICK_PER_SECOND\<close> is
  1000 and \<open>PKG_EASYBLINK_MAX_LED_NUMS\<close> is 2.

  The daemon is a state machine: it computes how long nothing will happen, waits for that
  many ticks or for the semaphore, and then switches the LEDs that are due.  The tick count
  \<open>now\<close> is the environment's and runs while the daemon waits.
\<close>

unbundle bit_operations_syntax

section \<open>Pins\<close>

type_synonym pins = "int \<Rightarrow> int"

definition gpio_set :: "int \<Rightarrow> int \<Rightarrow> pins \<Rightarrow> pins" where
  "gpio_set pin dat g = g(pin := if dat \<noteq> 0 then 1 else 0)"

definition gpio_get :: "int \<Rightarrow> pins \<Rightarrow> int" where
  "gpio_get pin g = g pin"

text \<open>\<open>rt_pin_mode(pin, PIN_MODE_OUTPUT)\<close> is \<open>gpio_init(pin, GPO, 0, ...)\<close>: it drives the pin low.
  An input (\<open>out\<close> false) is no longer driven.\<close>

definition rt_pin_mode :: "int \<Rightarrow> bool \<Rightarrow> pins \<Rightarrow> pins" where
  "rt_pin_mode pin out g = (if out then g(pin := 0) else g)"

section \<open>State\<close>

record led =
  led_pin :: int
  active_level :: int
  flag :: "16 word"
  nums :: int
  nums_bak :: int
  pulse :: int
  pulse_bak :: int
  npulse :: int
  npulse_bak :: int
  ticks :: int

datatype daemon = Computing | Waiting int int | Switching int

text \<open>\<open>Waiting w t\<close>: in \<open>rt_sem_take\<close> for at most \<open>w\<close> ticks since tick \<open>t\<close>.\<close>

record blinker =
  eb_leds :: "led list"
  eb_sem :: "int option"
  eb_thread :: bool
  daemon :: daemon
  now :: int
  pin_level :: pins

definition led_zero :: led where
  "led_zero = \<lparr>led_pin = 0, active_level = 0, flag = 0, nums = 0, nums_bak = 0, pulse = 0, pulse_bak = 0,
     npulse = 0, npulse_bak = 0, ticks = 0\<rparr>"

definition EB_INIT :: "16 word" where "EB_INIT = 1"
definition EB_ACTIVE :: "16 word" where "EB_ACTIVE = 2"
definition EB_CORRECT :: "16 word" where "EB_CORRECT = 4"
definition EB_SHOULD_ON :: "16 word" where "EB_SHOULD_ON = 8"

definition is_flag :: "led \<Rightarrow> 16 word \<Rightarrow> bool" where
  "is_flag l m \<longleftrightarrow> flag l AND m \<noteq> 0"

definition set_flag :: "16 word \<Rightarrow> led \<Rightarrow> led" where
  "set_flag m l = l\<lparr>flag := flag l OR m\<rparr>"

definition clear_flag :: "16 word \<Rightarrow> led \<Rightarrow> led" where
  "clear_flag m l = l\<lparr>flag := flag l AND NOT m\<rparr>"

definition ms_to_tick :: "int \<Rightarrow> int" where
  "ms_to_tick ms = u32 (ms * 1000) div 1000"

section \<open>Switching one LED\<close>

definition eb_led_on :: "led \<Rightarrow> pins \<Rightarrow> pins" where
  "eb_led_on l g = gpio_set (led_pin l) (active_level l) g"

definition eb_led_off :: "led \<Rightarrow> pins \<Rightarrow> pins" where
  "eb_led_off l g = gpio_set (led_pin l) (if active_level l = 1 then 0 else 1) g"

definition eb_led_toggle :: "led \<Rightarrow> pins \<Rightarrow> pins" where
  "eb_led_toggle l g = gpio_set (led_pin l) (if gpio_get (led_pin l) g = 1 then 0 else 1) g"

definition blink_data_set :: "int \<Rightarrow> int \<Rightarrow> int \<Rightarrow> led \<Rightarrow> led" where
  "blink_data_set n p t l =
     l\<lparr>nums := n, pulse := u16 (ms_to_tick p), npulse := u16 (ms_to_tick (t - p))\<rparr>"

definition led_delay :: "int \<Rightarrow> led \<Rightarrow> led" where
  "led_delay d l = set_flag (EB_SHOULD_ON OR EB_ACTIVE OR EB_CORRECT) (l\<lparr>ticks := i32 (ms_to_tick d)\<rparr>)"

definition put_led :: "int \<Rightarrow> led \<Rightarrow> blinker \<Rightarrow> blinker option" where
  "put_led i l s = do { ls \<leftarrow> c_put (eb_leds s) i l; Some (s\<lparr>eb_leds := ls\<rparr>) }"

text \<open>\<open>rt_sem_release(eb_sem)\<close>; releasing a null semaphore is a trap.\<close>

definition sem_release :: "blinker \<Rightarrow> blinker option" where
  "sem_release s = do { n \<leftarrow> eb_sem s; Some (s\<lparr>eb_sem := Some (n + 1)\<rparr>) }"

definition led_blink_delay :: "int \<Rightarrow> int \<Rightarrow> blinker \<Rightarrow> blinker option" where
  "led_blink_delay i d s = do {
     l \<leftarrow> c_get (eb_leds s) i;
     s \<leftarrow> put_led i (led_delay d l) s;
     sem_release s }"

section \<open>The interface\<close>

text \<open>The LED is switched off before its pin becomes an output.  When no entry is free the
  handle returned is that of the last one.\<close>

definition init_entry :: "int \<Rightarrow> int \<Rightarrow> led \<Rightarrow> led" where
  "init_entry pin act l = (set_flag EB_INIT l)\<lparr>led_pin := pin, active_level := act\<rparr>"

definition easyblink_init_led :: "int \<Rightarrow> int \<Rightarrow> blinker \<Rightarrow> (int \<times> blinker) option" where
  "easyblink_init_led pin act s = for_up (\<lambda>i (r, s). do {
       l \<leftarrow> c_get (eb_leds s) i;
       if \<not> is_flag l EB_INIT then do {
         let l = init_entry pin act l;
         s \<leftarrow> put_led i l s;
         let s = s\<lparr>pin_level := rt_pin_mode pin True (eb_led_off l (pin_level s))\<rparr>;
         let s = (if \<not> eb_thread s then s\<lparr>eb_thread := True, daemon := Computing, eb_sem := Some 0\<rparr> else s);
         Some (Break (i, s)) }
       else Some (Next (i, s)) }) 0 2 (- 1, s)"

definition easyblink_deinit :: "int \<Rightarrow> blinker \<Rightarrow> blinker option" where
  "easyblink_deinit i s = do {
     l \<leftarrow> c_get (eb_leds s) i;
     let s = s\<lparr>pin_level := rt_pin_mode (led_pin l) False (pin_level s)\<rparr>;
     s \<leftarrow> put_led i led_zero s;
     noled \<leftarrow> for_up (\<lambda>i n. do {
         l \<leftarrow> c_get (eb_leds s) i;
         Some (if is_flag l EB_INIT then Break False else Next n) }) 0 2 True;
     Some (if noled then s\<lparr>eb_sem := None, eb_thread := False\<rparr> else s) }"

text \<open>The assertion on \<open>pulse\<close> and \<open>period\<close> is the first condition.\<close>

definition easyblink :: "int \<Rightarrow> int \<Rightarrow> int \<Rightarrow> int \<Rightarrow> blinker \<Rightarrow> blinker option" where
  "easyblink i n p t s = do {
     l \<leftarrow> c_get (eb_leds s) i;
     if \<not> p \<le> t then None
     else if nums l = - 1 then do {
       let l = l\<lparr>nums_bak := nums l, pulse_bak := pulse l, npulse_bak := npulse l\<rparr>;
       let s = s\<lparr>pin_level := eb_led_off l (pin_level s)\<rparr>;
       s \<leftarrow> put_led i (blink_data_set n p t l) s;
       led_blink_delay i 500 s }
     else if is_flag l EB_ACTIVE then
       put_led i (l\<lparr>nums_bak := n, pulse_bak := u16 (ms_to_tick p), npulse_bak := u16 (ms_to_tick (t - p))\<rparr>) s
     else do {
       s \<leftarrow> put_led i (blink_data_set n p t l) s;
       led_blink_delay i 0 s } }"

definition easyblink_stop :: "int \<Rightarrow> blinker \<Rightarrow> blinker option" where
  "easyblink_stop i s = do {
     l \<leftarrow> c_get (eb_leds s) i;
     let s = s\<lparr>pin_level := eb_led_off l (pin_level s)\<rparr>;
     put_led i (clear_flag EB_ACTIVE (l\<lparr>nums_bak := 0, pulse_bak := 0, npulse_bak := 0\<rparr>)) s }"

section \<open>The daemon\<close>

text \<open>\<open>correct_or_get_min_ticks\<close>: \<open>el\<close> is the tick difference when \<open>corr\<close> is set.\<close>

definition correct_led :: "bool \<Rightarrow> int \<Rightarrow> led \<Rightarrow> led" where
  "correct_led corr el l =
     (if corr then
        if is_flag l EB_CORRECT then clear_flag EB_CORRECT l else l\<lparr>ticks := i32 (ticks l - el)\<rparr>
      else l)"

definition correct_or_get_min_ticks :: "int \<Rightarrow> bool \<Rightarrow> blinker \<Rightarrow> (int \<times> blinker) option" where
  "correct_or_get_min_ticks tick corr s = do {
     let tick = (if corr then u32 (u32 (now s) - tick) else tick);
     (m, s) \<leftarrow> for_up (\<lambda>i (m, s). do {
         l \<leftarrow> c_get (eb_leds s) i;
         if is_flag l EB_ACTIVE then do {
           let l = correct_led corr tick l;
           s \<leftarrow> put_led i l s;
           Some (Next (if ticks l < m then ticks l else m, s)) }
         else Some (Next (m, s)) }) 0 2 (2147483646, s);
     Some (if m < 0 then 0 else u32 m, s) }"

text \<open>One LED of the daemon's switching loop.\<close>

definition switch_led :: "int \<Rightarrow> led \<Rightarrow> pins \<Rightarrow> led \<times> pins" where
  "switch_led w l g = (
     let l = l\<lparr>ticks := i32 (ticks l - w)\<rparr> in
     if is_flag l EB_ACTIVE \<and> ticks l \<le> 0 then
       if is_flag l EB_SHOULD_ON then
         if nums l > 0 \<or> nums l = - 1 then
           ((clear_flag EB_SHOULD_ON l)\<lparr>ticks := pulse l\<rparr>, eb_led_on l g)
         else if pulse_bak l \<noteq> 0 then
           let l = l\<lparr>nums := nums_bak l, pulse := pulse_bak l, npulse := npulse_bak l\<rparr>;
               l = l\<lparr>nums_bak := 0, pulse_bak := 0, npulse_bak := 0\<rparr>;
               l = l\<lparr>ticks := 0\<rparr>
           in (if nums l = - 1 then l\<lparr>ticks := i32 (ms_to_tick 5000)\<rparr> else l, g)
         else (clear_flag EB_ACTIVE l, g)
       else
         let g = eb_led_off l g;
             l = (set_flag EB_SHOULD_ON l)\<lparr>ticks := npulse l\<rparr>
         in (if nums l > 0 then l\<lparr>nums := i16 (nums l - 1)\<rparr> else l, g)
     else (l, g))"

definition switch_leds :: "int \<Rightarrow> blinker \<Rightarrow> blinker option" where
  "switch_leds w s = for_up (\<lambda>i s. do {
       l \<leftarrow> c_get (eb_leds s) i;
       let (l, g) = switch_led w l (pin_level s);
       s \<leftarrow> put_led i l s;
       Some (Next (s\<lparr>pin_level := g\<rparr>)) }) 0 2 s"

text \<open>
  The daemon between two scheduling points.  \<open>Computing\<close>: the head of the loop; \<open>Waiting\<close>: in
  \<open>rt_sem_take\<close>, which takes the semaphore when it is up and gives up when the ticks are
  over; \<open>Switching\<close>: the loop over the LEDs.  \<open>None\<close> while it is blocked or does not exist.
\<close>

definition wait_or_switch :: "int \<times> blinker \<Rightarrow> blinker" where
  "wait_or_switch p = (case p of (w, s) \<Rightarrow>
     if w = 0 then s\<lparr>daemon := Switching 0\<rparr> else s\<lparr>daemon := Waiting w (now s)\<rparr>)"

definition daemon_step :: "blinker \<Rightarrow> blinker option" where
  "daemon_step s = (if \<not> eb_thread s then None else case daemon s of
      Computing \<Rightarrow> map_option wait_or_switch (correct_or_get_min_ticks 0 False s)
    | Waiting w t \<Rightarrow> (case eb_sem s of
          None \<Rightarrow> None
        | Some n \<Rightarrow>
            if n > 0 then map_option wait_or_switch (correct_or_get_min_ticks (u32 t) True (s\<lparr>eb_sem := Some (n - 1)\<rparr>))
            else if now s \<ge> t + w then Some (s\<lparr>daemon := Switching w\<rparr>)
            else None)
    | Switching w \<Rightarrow> map_option (\<lambda>s. s\<lparr>daemon := Computing\<rparr>) (switch_leds w s))"

section \<open>Flags\<close>

lemmas eb_flags = EB_INIT_def EB_ACTIVE_def EB_CORRECT_def EB_SHOULD_ON_def

lemma flag_exp: "EB_INIT = 2 ^ 0" "EB_ACTIVE = 2 ^ 1" "EB_CORRECT = 2 ^ 2" "EB_SHOULD_ON = 2 ^ 3"
  by (simp_all add: eb_flags)

lemma is_flag_exp: "k < 16 \<Longrightarrow> is_flag l (2 ^ k) = bit (flag l) k"
  by (simp add: is_flag_def and_exp_eq_0_iff_not_bit)

lemma is_flag_bit:
  "is_flag l EB_INIT = bit (flag l) 0" "is_flag l EB_ACTIVE = bit (flag l) 1"
  "is_flag l EB_CORRECT = bit (flag l) 2" "is_flag l EB_SHOULD_ON = bit (flag l) 3"
  unfolding flag_exp by (rule is_flag_exp; simp)+

lemma mask_bits [simp]:
  "bit EB_INIT k = (k = 0)" "bit EB_ACTIVE k = (k = 1)" "bit EB_CORRECT k = (k = 2)" "bit EB_SHOULD_ON k = (k = 3)"
  unfolding flag_exp bit_exp_iff by auto

lemma flag_bits [simp]:
  "k < 16 \<Longrightarrow> bit (flag (set_flag m l)) k = (bit (flag l) k \<or> bit m k)"
  "k < 16 \<Longrightarrow> bit (flag (clear_flag m l)) k = (bit (flag l) k \<and> \<not> bit m k)"
  by (simp_all add: set_flag_def clear_flag_def bit_simps)

end
