(* ===== verification/EasyBlinkFacts.thy ===== *)
theory EasyBlinkFacts
  imports EasyBlink
begin

text \<open>
  The blinker as a state machine under a punctual daemon, its callers and the clock: the steps of such
  a run and the invariant they keep, on the LEDs' data, their lights and the times of their next changes.
\<close>

declare is_flag_bit [simp]

abbreviation "inited l \<equiv> bit (flag l) 0"
abbreviation "act l \<equiv> bit (flag l) (Suc 0)"
abbreviation "fresh l \<equiv> bit (flag l) 2"
abbreviation "dark l \<equiv> bit (flag l) 3"

lemma flag_fields [simp]:
  "ticks (set_flag m l) = ticks l" "nums (set_flag m l) = nums l" "pulse (set_flag m l) = pulse l"
  "npulse (set_flag m l) = npulse l" "led_pin (set_flag m l) = led_pin l" "active_level (set_flag m l) = active_level l"
  "nums_bak (set_flag m l) = nums_bak l" "pulse_bak (set_flag m l) = pulse_bak l" "npulse_bak (set_flag m l) = npulse_bak l"
  "ticks (clear_flag m l) = ticks l" "nums (clear_flag m l) = nums l" "pulse (clear_flag m l) = pulse l"
  "npulse (clear_flag m l) = npulse l" "led_pin (clear_flag m l) = led_pin l" "active_level (clear_flag m l) = active_level l"
  "nums_bak (clear_flag m l) = nums_bak l" "pulse_bak (clear_flag m l) = pulse_bak l" "npulse_bak (clear_flag m l) = npulse_bak l"
  by (simp_all add: set_flag_def clear_flag_def)

lemma or_bits [simp]: "bit (EB_SHOULD_ON OR EB_ACTIVE OR EB_CORRECT) k = (k = 3 \<or> k = 1 \<or> k = 2)"
  by (simp add: bit_simps)

lemma ms_to_tick_id [simp]: "0 \<le> ms \<Longrightarrow> ms \<le> 65535 \<Longrightarrow> ms_to_tick ms = ms"
  by (simp add: ms_to_tick_def)

section \<open>The loops over the two LEDs\<close>

lemma put_led_2 [simp]:
  "eb_leds s = [a, b] \<Longrightarrow> put_led 0 l s = Some (s\<lparr>eb_leds := [l, b]\<rparr>)"
  "eb_leds s = [a, b] \<Longrightarrow> put_led 1 l s = Some (s\<lparr>eb_leds := [a, l]\<rparr>)"
  by (simp_all add: put_led_def)

lemma for_up_2:
  assumes "body 0 s = Some (Next t)" "body 1 t = Some (Next u)"
  shows "for_up body 0 2 s = Some u"
  using assms by (simp add: for_up.simps [of body 0] for_up.simps [of body 1] for_up_done)

lemma switch_leds_2:
  assumes "eb_leds s = [a, b]" "switch_led w a (pin_level s) = (a', g)" "switch_led w b g = (b', g')"
  shows "switch_leds w s = Some (s\<lparr>eb_leds := [a', b'], pin_level := g'\<rparr>)"
  unfolding switch_leds_def using assms
  by (intro for_up_2 [where t = "s\<lparr>eb_leds := [a', b], pin_level := g\<rparr>"]) simp_all

definition corrected :: "bool \<Rightarrow> int \<Rightarrow> led \<Rightarrow> led" where
  "corrected corr el l = (if act l then correct_led corr el l else l)"

definition due :: "bool \<Rightarrow> int \<Rightarrow> led \<Rightarrow> int \<Rightarrow> int" where
  "due corr el l m = (if act l then min m (ticks (correct_led corr el l)) else m)"

lemma min_ticks_2:
  fixes tick :: int and corr :: bool
  assumes "eb_leds s = [a, b]"
  defines "el \<equiv> (if corr then u32 (u32 (now s) - tick) else tick)"
  defines "m \<equiv> due corr el b (due corr el a 2147483646)"
  shows "correct_or_get_min_ticks tick corr s
    = Some (if m < 0 then 0 else u32 m, s\<lparr>eb_leds := [corrected corr el a, corrected corr el b]\<rparr>)"
proof -
  have u: "s\<lparr>eb_leds := [a, b]\<rparr> = s" using assms(1) by simp
  have "for_up (\<lambda>i (m, s). do {
         l \<leftarrow> c_get (eb_leds s) i;
         if is_flag l EB_ACTIVE then do {
           let l = correct_led corr el l;
           s \<leftarrow> put_led i l s;
           Some (Next (if ticks l < m then ticks l else m, s)) }
         else Some (Next (m, s)) }) 0 2 (2147483646, s)
     = Some (m, s\<lparr>eb_leds := [corrected corr el a, corrected corr el b]\<rparr>)"
    by (rule for_up_2 [where t = "(due corr el a 2147483646, s\<lparr>eb_leds := [corrected corr el a, b]\<rparr>)"])
      (use assms(1) u in \<open>auto simp: m_def due_def corrected_def min_def Let_def\<close>)
  then show ?thesis unfolding correct_or_get_min_ticks_def Let_def el_def [symmetric] by simp
qed

section \<open>Runs\<close>

text \<open>
  What can happen: the daemon runs on, a tick passes while it waits and nobody has called it,
  and the interface is called, with arguments of its C types, while the daemon is not
  switching.  A pin is given to one LED only.
\<close>

definition free_pin :: "int \<Rightarrow> blinker \<Rightarrow> bool" where
  "free_pin pin s \<longleftrightarrow> (\<forall>l \<in> set (eb_leds s). inited l \<longrightarrow> led_pin l \<noteq> pin)"

definition idle_daemon :: "blinker \<Rightarrow> bool" where
  "idle_daemon s \<longleftrightarrow> (case daemon s of Switching w \<Rightarrow> False | _ \<Rightarrow> True)"

inductive eb_step :: "blinker \<Rightarrow> blinker \<Rightarrow> bool" where
  run: "daemon_step s = Some t \<Longrightarrow> eb_step s t"
| tick: "eb_thread s \<Longrightarrow> daemon s = Waiting w t \<Longrightarrow> eb_sem s = Some 0 \<Longrightarrow> now s < t + w \<Longrightarrow> eb_step s (s\<lparr>now := now s + 1\<rparr>)"
| init: "idle_daemon s \<Longrightarrow> free_pin pin s \<Longrightarrow> lev = 0 \<or> lev = 1 \<Longrightarrow> easyblink_init_led pin lev s = Some (i, t) \<Longrightarrow> eb_step s t"
| blink: "idle_daemon s \<Longrightarrow> 0 \<le> i \<Longrightarrow> i < 2 \<Longrightarrow> inited (eb_leds s ! nat i) \<Longrightarrow> - 32768 \<le> n \<Longrightarrow> n \<le> 32767
    \<Longrightarrow> 0 \<le> p \<Longrightarrow> p \<le> d \<Longrightarrow> d \<le> 65535 \<Longrightarrow> easyblink i n p d s = Some t \<Longrightarrow> eb_step s t"
| stop: "idle_daemon s \<Longrightarrow> 0 \<le> i \<Longrightarrow> i < 2 \<Longrightarrow> inited (eb_leds s ! nat i) \<Longrightarrow> easyblink_stop i s = Some t \<Longrightarrow> eb_step s t"

inductive eb_run :: "blinker \<Rightarrow> blinker \<Rightarrow> bool" where
  refl: "eb_run s s"
| step: "eb_run s t \<Longrightarrow> eb_step t u \<Longrightarrow> eb_run s u"

inductive_cases eb_stepE: "eb_step s t"

definition eb_start :: "pins \<Rightarrow> blinker" where
  "eb_start g = \<lparr>eb_leds = [led_zero, led_zero], eb_sem = None, eb_thread = False, daemon = Computing, now = 0, pin_level = g\<rparr>"

text \<open>An LED's data are in the ranges of their types, an active LED is an initialised one whose
  next change lies ahead, and nothing is left to resume when it is inactive.\<close>

definition led_ok :: "led \<Rightarrow> bool" where
  "led_ok l \<longleftrightarrow> 0 \<le> pulse l \<and> pulse l \<le> 65535 \<and> 0 \<le> npulse l \<and> npulse l \<le> 65535 \<and> 0 \<le> pulse_bak l \<and> pulse_bak l \<le> 65535
     \<and> 0 \<le> npulse_bak l \<and> npulse_bak l \<le> 65535 \<and> - 32768 \<le> nums l \<and> nums l \<le> 32767
     \<and> - 32768 \<le> nums_bak l \<and> nums_bak l \<le> 32767 \<and> (active_level l = 0 \<or> active_level l = 1)
     \<and> (if act l then inited l \<and> 0 \<le> ticks l \<and> ticks l \<le> 65535 else pulse_bak l = 0)"

text \<open>A dark LED with a high active level is off, and a lit one is on.\<close>

definition light_ok :: "led \<Rightarrow> pins \<Rightarrow> bool" where
  "light_ok l g \<longleftrightarrow> (inited l \<longrightarrow> (if act l \<and> \<not> dark l then g (led_pin l) = active_level l
     else active_level l = 1 \<longrightarrow> g (led_pin l) = 0))"

text \<open>The next change of an active LED lies behind the end of the daemon's wait, unless the LED was
  started during the wait; then the semaphore is up and no time has passed since.\<close>

definition time_ok :: "blinker \<Rightarrow> led \<Rightarrow> bool" where
  "time_ok s l \<longleftrightarrow> (act l \<longrightarrow> (fresh l \<longrightarrow> eb_sem s \<noteq> Some 0) \<and>
     (case daemon s of Computing \<Rightarrow> True | Waiting w t \<Rightarrow> fresh l \<or> w \<le> ticks l | Switching w \<Rightarrow> w \<le> ticks l))"

definition daemon_ok :: "blinker \<Rightarrow> bool" where
  "daemon_ok s \<longleftrightarrow> (case daemon s of Computing \<Rightarrow> True
      | Waiting w t \<Rightarrow> 1 \<le> w \<and> w \<le> 2147483646 \<and> 0 \<le> t \<and> t \<le> now s \<and> now s \<le> t + w
      | Switching w \<Rightarrow> 0 \<le> w \<and> w \<le> 2147483646 \<and> (0 < w \<longrightarrow> eb_sem s = Some 0))"

definition eb_inv :: "blinker \<Rightarrow> bool" where
  "eb_inv s \<longleftrightarrow> (\<exists>a b. eb_leds s = [a, b] \<and> led_ok a \<and> led_ok b \<and> light_ok a (pin_level s) \<and> light_ok b (pin_level s)
       \<and> time_ok s a \<and> time_ok s b \<and> (inited a \<and> inited b \<longrightarrow> led_pin a \<noteq> led_pin b)
       \<and> (inited a \<or> inited b \<longrightarrow> eb_thread s))
     \<and> (eb_thread s \<longrightarrow> (\<exists>n \<ge> 0. eb_sem s = Some n)) \<and> daemon_ok s \<and> 0 \<le> now s"

lemma eb_invI:
  assumes "eb_leds s = [a, b]" "led_ok a" "led_ok b" "light_ok a (pin_level s)" "light_ok b (pin_level s)"
    "time_ok s a" "time_ok s b" "inited a \<Longrightarrow> inited b \<Longrightarrow> led_pin a \<noteq> led_pin b"
    "inited a \<or> inited b \<Longrightarrow> eb_thread s" "eb_thread s \<Longrightarrow> \<exists>n \<ge> 0. eb_sem s = Some n" "daemon_ok s" "0 \<le> now s"
  shows "eb_inv s"
  using assms unfolding eb_inv_def by blast

lemma eb_inv_start [simp]: "eb_inv (eb_start g)"
  by (simp add: eb_inv_def eb_start_def led_zero_def led_ok_def light_ok_def time_ok_def daemon_ok_def)

section \<open>Switching keeps the invariant\<close>

text \<open>What switching does to an active LED, by its phase.\<close>

definition switched :: "led \<Rightarrow> pins \<Rightarrow> led \<times> pins" where
  "switched l g =
     (if dark l then
        if nums l > 0 \<or> nums l = - 1 then ((clear_flag EB_SHOULD_ON l)\<lparr>ticks := pulse l\<rparr>, eb_led_on l g)
        else if pulse_bak l \<noteq> 0 then
          (l\<lparr>nums := nums_bak l, pulse := pulse_bak l, npulse := npulse_bak l, nums_bak := 0, pulse_bak := 0,
             npulse_bak := 0, ticks := (if nums_bak l = - 1 then 5000 else 0)\<rparr>, g)
        else (clear_flag EB_ACTIVE l, g)
      else ((set_flag EB_SHOULD_ON l)\<lparr>ticks := npulse l, nums := (if nums l > 0 then nums l - 1 else nums l)\<rparr>,
            eb_led_off l g))"

lemma switch_led_due:
  assumes "led_ok l" "act l" "ticks l = w"
  shows "switch_led w l g = switched (l\<lparr>ticks := 0\<rparr>) g"
proof -
  have "0 < nums l \<Longrightarrow> i16 (nums l - 1) = nums l - 1" using assms by (simp add: led_ok_def)
  then show ?thesis using assms by (simp add: switch_led_def switched_def eb_led_on_def eb_led_off_def)
qed

lemma switch_led_wait:
  assumes "led_ok l" "act l" "0 \<le> w" "w < ticks l"
  shows "switch_led w l g = (l\<lparr>ticks := ticks l - w\<rparr>, g)"
  using assms by (simp add: switch_led_def led_ok_def)

lemma switch_led_idle: "\<not> act l \<Longrightarrow> switch_led w l g = (l\<lparr>ticks := i32 (ticks l - w)\<rparr>, g)"
  by (simp add: switch_led_def)

definition kept :: "led \<Rightarrow> led \<Rightarrow> bool" where
  "kept l l' \<longleftrightarrow> inited l' = inited l \<and> led_pin l' = led_pin l \<and> active_level l' = active_level l \<and> fresh l' = fresh l
     \<and> (act l' \<longrightarrow> act l)"

lemma switched_ok:
  assumes "led_ok l" "light_ok l g" "act l"
  shows "case switched l g of (l', g') \<Rightarrow> led_ok l' \<and> light_ok l' g' \<and> kept l l' \<and> (\<forall>p. p \<noteq> led_pin l \<longrightarrow> g' p = g p)"
proof -
  consider "dark l" "nums l > 0 \<or> nums l = - 1" | "dark l" "\<not> (nums l > 0 \<or> nums l = - 1)" "pulse_bak l \<noteq> 0"
    | "dark l" "\<not> (nums l > 0 \<or> nums l = - 1)" "pulse_bak l = 0" | "\<not> dark l" by blast
  then show ?thesis
    using assms by cases (auto simp: switched_def led_ok_def light_ok_def kept_def eb_led_on_def eb_led_off_def gpio_set_def)
qed

lemma led_ok_ticks: "led_ok l \<Longrightarrow> (act l \<longrightarrow> 0 \<le> t \<and> t \<le> 65535) \<Longrightarrow> led_ok (l\<lparr>ticks := t\<rparr>)"
  by (simp add: led_ok_def)

lemma light_ok_ticks [simp]: "light_ok (l\<lparr>ticks := t\<rparr>) g = light_ok l g"
  by (simp add: light_ok_def)

lemma switch_led_ok:
  assumes l: "led_ok l" "light_ok l g" and w: "0 \<le> w" "act l \<longrightarrow> w \<le> ticks l"
  shows "case switch_led w l g of (l', g') \<Rightarrow> led_ok l' \<and> light_ok l' g' \<and> kept l l'
     \<and> (\<forall>p. (inited l \<longrightarrow> p \<noteq> led_pin l) \<longrightarrow> g' p = g p)"
proof -
  have i: "act l \<Longrightarrow> inited l" using l by (simp add: led_ok_def)
  consider "\<not> act l" | "act l" "ticks l = w" | "act l" "w < ticks l" using w(2) by linarith
  then show ?thesis
  proof cases
    case 1
    then show ?thesis using l by (simp add: switch_led_idle led_ok_ticks kept_def)
  next
    case 2
    have z: "led_ok (l\<lparr>ticks := 0\<rparr>)" "light_ok (l\<lparr>ticks := 0\<rparr>) g" "act (l\<lparr>ticks := 0\<rparr>)"
      using l 2 by (simp_all add: led_ok_ticks)
    show ?thesis using switched_ok [OF z] i [OF 2(1)] unfolding switch_led_due [OF l(1) 2]
      by (auto simp: kept_def)
  next
    case 3
    have "ticks l \<le> 65535" using l(1) 3(1) by (simp add: led_ok_def)
    then show ?thesis using l 3 w(1) by (simp add: switch_led_wait kept_def led_ok_ticks)
  qed
qed

lemma light_ok_other: "light_ok l g \<Longrightarrow> (inited l \<longrightarrow> g' (led_pin l) = g (led_pin l)) \<Longrightarrow> light_ok l g'"
  by (simp add: light_ok_def)

lemma kept_time: "time_ok s l \<Longrightarrow> kept l l' \<Longrightarrow> time_ok (s\<lparr>eb_leds := ls, pin_level := g, daemon := Computing\<rparr>) l'"
  by (auto simp: time_ok_def kept_def)

lemma switching_inv:
  assumes inv: "eb_inv s" and d: "daemon s = Switching w"
  shows "runs (switch_leds w s) (\<lambda>t. eb_inv (t\<lparr>daemon := Computing\<rparr>))"
proof -
  obtain a b where ab: "eb_leds s = [a, b]" "led_ok a" "led_ok b" "light_ok a (pin_level s)" "light_ok b (pin_level s)"
      "time_ok s a" "time_ok s b" "inited a \<and> inited b \<longrightarrow> led_pin a \<noteq> led_pin b" "inited a \<or> inited b \<longrightarrow> eb_thread s"
    and o: "eb_thread s \<longrightarrow> (\<exists>n \<ge> 0. eb_sem s = Some n)" "daemon_ok s" "0 \<le> now s"
    using inv unfolding eb_inv_def by blast
  have w: "0 \<le> w" "act a \<longrightarrow> w \<le> ticks a" "act b \<longrightarrow> w \<le> ticks b"
    using o(2) ab(6,7) by (simp_all add: daemon_ok_def time_ok_def d)
  obtain a' g where 1: "switch_led w a (pin_level s) = (a', g)" by force
  have A: "led_ok a'" "light_ok a' g" "kept a a'" "\<And>p. (inited a \<longrightarrow> p \<noteq> led_pin a) \<Longrightarrow> g p = pin_level s p"
    using switch_led_ok [OF ab(2,4) w(1,2)] unfolding 1 by auto
  have lb: "light_ok b g" by (rule light_ok_other [OF ab(5)]) (use A(4) [of "led_pin b"] ab(8) in auto)
  obtain b' g' where 2: "switch_led w b g = (b', g')" by force
  have B: "led_ok b'" "light_ok b' g'" "kept b b'" "\<And>p. (inited b \<longrightarrow> p \<noteq> led_pin b) \<Longrightarrow> g' p = g p"
    using switch_led_ok [OF ab(3) lb w(1,3)] unfolding 2 by auto
  have la: "light_ok a' g'"
    by (rule light_ok_other [OF A(2)]) (use B(4) [of "led_pin a"] ab(8) A(3) in \<open>auto simp: kept_def\<close>)
  have k: "inited a' = inited a" "inited b' = inited b" "led_pin a' = led_pin a" "led_pin b' = led_pin b"
    using A(3) B(3) by (simp_all add: kept_def)
  show ?thesis
    unfolding switch_leds_2 [OF ab(1) 1 2] runs_Some
    using A(1) B(1,2) la k ab o kept_time [OF ab(6) A(3)] kept_time [OF ab(7) B(3)]
    by (simp add: eb_inv_def daemon_ok_def)
qed

section \<open>Computing the wait\<close>

definition least_ticks :: "led \<Rightarrow> led \<Rightarrow> int" where
  "least_ticks a b = (let m = (if act a then min 2147483646 (ticks a) else 2147483646) in if act b then min m (ticks b) else m)"

lemma corrected_act [simp]: "act (correct_led c el l) = act l" "act (corrected c el l) = act l"
  by (simp_all add: corrected_def correct_led_def)

lemma min_ticks_least:
  fixes tick :: int and corr :: bool
  assumes "eb_leds s = [a, b]"
  defines "el \<equiv> (if corr then u32 (u32 (now s) - tick) else tick)"
  defines "a' \<equiv> corrected corr el a" and "b' \<equiv> corrected corr el b"
  assumes "act a \<longrightarrow> 0 \<le> ticks a'" "act b \<longrightarrow> 0 \<le> ticks b'"
  shows "correct_or_get_min_ticks tick corr s = Some (least_ticks a' b', s\<lparr>eb_leds := [a', b']\<rparr>)"
proof -
  have m: "due corr el b (due corr el a 2147483646) = least_ticks a' b'"
    by (simp add: due_def least_ticks_def a'_def b'_def corrected_def)
  have "0 \<le> least_ticks a' b'" "least_ticks a' b' \<le> 2147483646"
    using assms(5,6) by (auto simp: least_ticks_def Let_def min_def a'_def b'_def)
  then show ?thesis
    unfolding min_ticks_2 [OF assms(1)] el_def [symmetric] a'_def [symmetric] b'_def [symmetric] m by simp
qed

lemma least_ticks_le:
  "act a \<Longrightarrow> least_ticks a b \<le> ticks a" "act b \<Longrightarrow> least_ticks a b \<le> ticks b" "least_ticks a b \<le> 2147483646"
  by (auto simp: least_ticks_def Let_def min_def)

lemma least_ticks_nonneg:
  "(act a \<longrightarrow> 0 \<le> ticks a) \<Longrightarrow> (act b \<longrightarrow> 0 \<le> ticks b) \<Longrightarrow> 0 \<le> least_ticks a b"
  by (simp add: least_ticks_def)

lemma wait_or_switch_inv:
  assumes ab: "eb_leds s = [a, b]" "led_ok a" "led_ok b" "light_ok a (pin_level s)" "light_ok b (pin_level s)"
      "inited a \<and> inited b \<longrightarrow> led_pin a \<noteq> led_pin b" "inited a \<or> inited b \<longrightarrow> eb_thread s"
    and t: "eb_thread s \<longrightarrow> (\<exists>n \<ge> 0. eb_sem s = Some n)" "0 \<le> now s"
    and f: "act a \<and> fresh a \<or> act b \<and> fresh b \<longrightarrow> eb_sem s \<noteq> Some 0"
  shows "eb_inv (wait_or_switch (least_ticks a b, s))"
proof -
  have n: "act a \<longrightarrow> 0 \<le> ticks a" "act b \<longrightarrow> 0 \<le> ticks b" using ab(2,3) by (simp_all add: led_ok_def)
  have w: "0 \<le> least_ticks a b" using least_ticks_nonneg n by blast
  show ?thesis
  proof (cases "least_ticks a b = 0")
    case True
    then show ?thesis using ab t f n
      by (simp add: wait_or_switch_def eb_inv_def time_ok_def daemon_ok_def)
  next
    case False
    then show ?thesis using ab t f w least_ticks_le [of a b] least_ticks_le(2) [of b a]
      by (simp add: wait_or_switch_def eb_inv_def time_ok_def daemon_ok_def)
  qed
qed

lemma computing_inv:
  assumes inv: "eb_inv s" and d: "daemon s = Computing"
  shows "runs (correct_or_get_min_ticks 0 False s) (\<lambda>p. eb_inv (wait_or_switch p))"
proof -
  obtain a b where ab: "eb_leds s = [a, b]" "led_ok a" "led_ok b" "light_ok a (pin_level s)" "light_ok b (pin_level s)"
      "time_ok s a" "time_ok s b" "inited a \<and> inited b \<longrightarrow> led_pin a \<noteq> led_pin b" "inited a \<or> inited b \<longrightarrow> eb_thread s"
    and o: "eb_thread s \<longrightarrow> (\<exists>n \<ge> 0. eb_sem s = Some n)" "daemon_ok s" "0 \<le> now s"
    using inv unfolding eb_inv_def by blast
  have c: "corrected False 0 l = l" for l by (simp add: corrected_def correct_led_def)
  have "correct_or_get_min_ticks 0 False s = Some (least_ticks a b, s)"
    using min_ticks_least [OF ab(1), of False 0] ab by (simp add: c led_ok_def)
  moreover have "act a \<and> fresh a \<or> act b \<and> fresh b \<longrightarrow> eb_sem s \<noteq> Some 0"
    using ab(6,7) by (auto simp: time_ok_def)
  ultimately show ?thesis using wait_or_switch_inv [OF ab(1-5,8,9) o(1,3)] by simp
qed

lemma corrected_ok:
  assumes "led_ok l" "light_ok l g" "0 \<le> el" "act l \<longrightarrow> fresh l \<or> el \<le> ticks l"
  shows "led_ok (corrected True el l)" "light_ok (corrected True el l) g" "\<not> (act l \<and> fresh (corrected True el l))"
    "inited (corrected True el l) = inited l" "led_pin (corrected True el l) = led_pin l"
    "act l \<longrightarrow> 0 \<le> ticks (corrected True el l)"
  using assms by (auto simp: corrected_def correct_led_def led_ok_def light_ok_def)

lemma elapsed_ticks: "0 \<le> t \<Longrightarrow> t \<le> n \<Longrightarrow> n - t \<le> 4294967295 \<Longrightarrow> u32 (u32 n - u32 t) = n - t"
  unfolding u32_def by (simp add: mod_diff_eq)

lemma signal_inv:
  assumes inv: "eb_inv s" and d: "daemon s = Waiting w t" and n: "eb_sem s = Some n" "0 < n" and th: "eb_thread s"
  shows "runs (correct_or_get_min_ticks (u32 t) True (s\<lparr>eb_sem := Some (n - 1)\<rparr>)) (\<lambda>p. eb_inv (wait_or_switch p))"
proof -
  obtain a b where ab: "eb_leds s = [a, b]" "led_ok a" "led_ok b" "light_ok a (pin_level s)" "light_ok b (pin_level s)"
      "time_ok s a" "time_ok s b" "inited a \<and> inited b \<longrightarrow> led_pin a \<noteq> led_pin b" "inited a \<or> inited b \<longrightarrow> eb_thread s"
    and o: "eb_thread s \<longrightarrow> (\<exists>n \<ge> 0. eb_sem s = Some n)" "daemon_ok s" "0 \<le> now s"
    using inv unfolding eb_inv_def by blast
  define el where "el = now s - t"
  have el: "0 \<le> el" "el \<le> w" "w \<le> 2147483646" "0 \<le> t"
    using o(2) by (simp_all add: daemon_ok_def d el_def)
  have u: "u32 (u32 (now s) - u32 t) = el"
    using elapsed_ticks [of t "now s"] el by (simp add: el_def)
  have due: "act a \<longrightarrow> fresh a \<or> el \<le> ticks a" "act b \<longrightarrow> fresh b \<or> el \<le> ticks b"
    using ab(6,7) el(2) by (auto simp: time_ok_def d)
  note A = corrected_ok [OF ab(2,4) el(1) due(1)] and B = corrected_ok [OF ab(3,5) el(1) due(2)]
  have "correct_or_get_min_ticks (u32 t) True (s\<lparr>eb_sem := Some (n - 1)\<rparr>)
     = Some (least_ticks (corrected True el a) (corrected True el b),
             s\<lparr>eb_sem := Some (n - 1), eb_leds := [corrected True el a, corrected True el b]\<rparr>)"
    using min_ticks_least [of "s\<lparr>eb_sem := Some (n - 1)\<rparr>" a b True "u32 t"] ab(1) A(6) B(6) by (simp add: u)
  moreover have "eb_inv (wait_or_switch (least_ticks (corrected True el a) (corrected True el b),
             s\<lparr>eb_sem := Some (n - 1), eb_leds := [corrected True el a, corrected True el b]\<rparr>))"
    by (rule wait_or_switch_inv) (use A B ab o th n in auto)
  ultimately show ?thesis by simp
qed

lemma daemon_step_inv:
  assumes "eb_inv s" "daemon_step s = Some t"
  shows "eb_inv t"
proof (cases "daemon s")
  case Computing
  show ?thesis using computing_inv [OF assms(1) Computing] assms(2)
    by (auto simp: daemon_step_def Computing split: if_splits elim!: runsE)
next
  case (Switching w)
  show ?thesis using switching_inv [OF assms(1) Switching] assms(2)
    by (auto simp: daemon_step_def Switching split: if_splits elim!: runsE)
next
  case (Waiting w t0)
  have th: "eb_thread s" using assms(2) by (simp add: daemon_step_def split: if_splits)
  then obtain n where n: "eb_sem s = Some n" "0 \<le> n" using assms(1) by (auto simp: eb_inv_def)
  show ?thesis
  proof (cases "0 < n")
    case True
    then show ?thesis using signal_inv [OF assms(1) Waiting n(1) True th] assms(2) n th
      by (auto simp: daemon_step_def Waiting elim!: runsE)
  next
    case False
    with n have z: "eb_sem s = Some 0" by simp
    have t: "t = s\<lparr>daemon := Switching w\<rparr>" using assms(2) False n th
      by (simp add: daemon_step_def Waiting split: if_splits)
    show ?thesis using assms(1) z unfolding t eb_inv_def
      by (auto simp: time_ok_def daemon_ok_def Waiting)
  qed
qed

section \<open>Calls keep the invariant\<close>

definition start_led :: "int \<Rightarrow> int \<Rightarrow> int \<Rightarrow> int \<Rightarrow> led \<Rightarrow> led" where
  "start_led delay n p d l = led_delay delay (blink_data_set n p d l)"

lemma start_led_ok:
  fixes nb pb qb
  assumes "led_ok l" "inited l" "- 32768 \<le> n" "n \<le> 32767" "0 \<le> p" "p \<le> d" "d \<le> 65535" "delay = 0 \<or> delay = 500"
    "- 32768 \<le> nb" "nb \<le> 32767" "0 \<le> pb" "pb \<le> 65535" "0 \<le> qb" "qb \<le> 65535"
  defines "l' \<equiv> l\<lparr>nums_bak := nb, pulse_bak := pb, npulse_bak := qb\<rparr>"
  shows "led_ok (start_led delay n p d l')" "inited (start_led delay n p d l')" "dark (start_led delay n p d l')"
    "led_pin (start_led delay n p d l') = led_pin l" "active_level (start_led delay n p d l') = active_level l"
  using assms by (auto simp: start_led_def led_delay_def blink_data_set_def led_ok_def)

text \<open>A call replaces one LED; the semaphore is raised when it was started.\<close>

lemma call_inv:
  assumes inv: "eb_inv s" and idle: "idle_daemon s" and i: "i = 0 \<or> i = 1"
    and l: "led_ok l" "light_ok l g" "inited l" "led_pin l = led_pin (eb_leds s ! nat i)"
      "inited (eb_leds s ! nat i)" "\<forall>p. p \<noteq> led_pin l \<longrightarrow> g p = pin_level s p"
    and t: "act l \<longrightarrow> k = 1 \<or> time_ok s l" and k: "k = 0 \<or> k = 1" "k = 1 \<longrightarrow> fresh l"
    and n: "eb_sem s = Some n"
  shows "eb_inv (s\<lparr>eb_leds := (eb_leds s)[nat i := l], pin_level := g, eb_sem := Some (n + k)\<rparr>)"
proof -
  obtain a b where ab: "eb_leds s = [a, b]" "led_ok a" "led_ok b" "light_ok a (pin_level s)" "light_ok b (pin_level s)"
      "time_ok s a" "time_ok s b" "inited a \<and> inited b \<longrightarrow> led_pin a \<noteq> led_pin b" "inited a \<or> inited b \<longrightarrow> eb_thread s"
    and o: "eb_thread s \<longrightarrow> (\<exists>n \<ge> 0. eb_sem s = Some n)" "daemon_ok s" "0 \<le> now s"
    using inv unfolding eb_inv_def by blast
  have th: "eb_thread s" using i l(5) ab(1,9) by auto
  then have n0: "0 \<le> n" using o(1) n by auto
  have d: "daemon_ok (s\<lparr>eb_leds := ls, pin_level := g, eb_sem := Some (n + k)\<rparr>)" for ls
    using o(2) idle by (simp add: daemon_ok_def idle_daemon_def split: daemon.splits)
  have tl: "time_ok (s\<lparr>eb_leds := ls, pin_level := g, eb_sem := Some (n + k)\<rparr>) l" for ls
    using t k idle n n0 by (auto simp: time_ok_def idle_daemon_def split: daemon.splits)
  have to: "time_ok s x \<Longrightarrow> time_ok (s\<lparr>eb_leds := ls, pin_level := g, eb_sem := Some (n + k)\<rparr>) x" for ls x
    using k n n0 by (auto simp: time_ok_def split: daemon.splits)
  have lb: "light_ok b g" if "inited b \<longrightarrow> led_pin l \<noteq> led_pin b"
    by (rule light_ok_other [OF ab(5)]) (use that l(6) in auto)
  have la: "light_ok a g" if "inited a \<longrightarrow> led_pin l \<noteq> led_pin a"
    by (rule light_ok_other [OF ab(4)]) (use that l(6) in auto)
  from i show ?thesis
  proof
    assume "i = 0"
    then show ?thesis using ab l d tl to lb th o(3) n0 k(1) by (auto simp: eb_inv_def)
  next
    assume "i = 1"
    then show ?thesis using ab l d tl to la th o(3) n0 k(1) by (auto simp: eb_inv_def)
  qed
qed

lemma time_ok_baks [simp]: "time_ok s (l\<lparr>nums_bak := n, pulse_bak := p, npulse_bak := q\<rparr>) = time_ok s l"
  by (simp add: time_ok_def split: daemon.splits)

lemma easyblink_cases:
  assumes ab: "length (eb_leds s) = 2" and i: "i = 0 \<or> i = 1" and sem: "eb_sem s = Some k" and pd: "p \<le> d"
  defines "l \<equiv> eb_leds s ! nat i"
  shows "easyblink i n p d s = Some (
     if nums l = - 1 then
       s\<lparr>eb_leds := (eb_leds s)[nat i :=
           start_led 500 n p d (l\<lparr>nums_bak := nums l, pulse_bak := pulse l, npulse_bak := npulse l\<rparr>)],
         pin_level := eb_led_off l (pin_level s), eb_sem := Some (k + 1)\<rparr>
     else if act l then
       s\<lparr>eb_leds := (eb_leds s)[nat i :=
           l\<lparr>nums_bak := n, pulse_bak := u16 (ms_to_tick p), npulse_bak := u16 (ms_to_tick (d - p))\<rparr>]\<rparr>
     else s\<lparr>eb_leds := (eb_leds s)[nat i := start_led 0 n p d l], eb_sem := Some (k + 1)\<rparr>)"
proof -
  obtain a b where "eb_leds s = [a, b]" using ab by (auto simp: numeral_2_eq_2 length_Suc_conv)
  with i sem pd show ?thesis
    by (auto simp: easyblink_def l_def led_blink_delay_def sem_release_def start_led_def eb_led_off_def Let_def)
qed

lemma easyblink_inv:
  assumes inv: "eb_inv s" and idle: "idle_daemon s" and i: "i = 0 \<or> i = 1" and a: "inited (eb_leds s ! nat i)"
    and r: "- 32768 \<le> n" "n \<le> 32767" "0 \<le> p" "p \<le> d" "d \<le> 65535" and e: "easyblink i n p d s = Some t"
  shows "eb_inv t"
proof -
  define l where "l = eb_leds s ! nat i"
  obtain a' b' where ab: "eb_leds s = [a', b']" "led_ok a'" "led_ok b'" "light_ok a' (pin_level s)" "light_ok b' (pin_level s)"
      "time_ok s a'" "time_ok s b'" "inited a' \<or> inited b' \<longrightarrow> eb_thread s"
    and o: "eb_thread s \<longrightarrow> (\<exists>n \<ge> 0. eb_sem s = Some n)"
    using inv unfolding eb_inv_def by blast
  have l: "led_ok l" "light_ok l (pin_level s)" "time_ok s l" "inited l" using ab i a by (auto simp: l_def)
  have "eb_thread s" using ab(1,8) i l(4) by (auto simp: l_def)
  then obtain k where k: "eb_sem s = Some k" using o by blast
  have len: "length (eb_leds s) = 2" by (simp add: ab(1))
  note t = easyblink_cases [OF len i k r(4), of n, folded l_def, unfolded e option.inject]
  note call = call_inv [OF inv idle i, of _ _ _ k, folded l_def]
  consider "nums l = - 1" | "nums l \<noteq> - 1" "act l" | "nums l \<noteq> - 1" "\<not> act l" by blast
  then show ?thesis
  proof cases
    case 1
    define l' where "l' = l\<lparr>nums_bak := nums l, pulse_bak := pulse l, npulse_bak := npulse l\<rparr>"
    have S: "led_ok (start_led 500 n p d l')" "inited (start_led 500 n p d l')" "dark (start_led 500 n p d l')"
      "led_pin (start_led 500 n p d l') = led_pin l" "active_level (start_led 500 n p d l') = active_level l"
      unfolding l'_def by (rule start_led_ok [OF l(1,4) r]; use l(1) in \<open>simp add: led_ok_def\<close>)+
    have "eb_inv (s\<lparr>eb_leds := (eb_leds s)[nat i := start_led 500 n p d l'], pin_level := eb_led_off l (pin_level s),
        eb_sem := Some (k + 1)\<rparr>)"
      by (rule call) (use S l k in \<open>auto simp: l'_def light_ok_def eb_led_off_def gpio_set_def start_led_def led_delay_def led_ok_def\<close>)
    then show ?thesis using 1 by (simp add: t l'_def)
  next
    case 2
    define l' where "l' = l\<lparr>nums_bak := n, pulse_bak := u16 (ms_to_tick p), npulse_bak := u16 (ms_to_tick (d - p))\<rparr>"
    have "eb_inv (s\<lparr>eb_leds := (eb_leds s)[nat i := l'], pin_level := pin_level s, eb_sem := Some (k + 0)\<rparr>)"
      by (rule call) (use l k r 2 in \<open>auto simp: l'_def light_ok_def led_ok_def\<close>)
    moreover have "s\<lparr>eb_leds := x, eb_sem := Some k\<rparr> = s\<lparr>eb_leds := x\<rparr>" for x using k by (cases s) simp
    ultimately show ?thesis using 2 by (simp add: t l'_def [symmetric])
  next
    case 3
    have S: "led_ok (start_led 0 n p d l)" "inited (start_led 0 n p d l)" "dark (start_led 0 n p d l)"
      "led_pin (start_led 0 n p d l) = led_pin l" "active_level (start_led 0 n p d l) = active_level l"
      using start_led_ok [OF l(1,4) r, of 0 "nums_bak l" "pulse_bak l" "npulse_bak l"] l(1) by (simp_all add: led_ok_def)
    have "eb_inv (s\<lparr>eb_leds := (eb_leds s)[nat i := start_led 0 n p d l], pin_level := pin_level s, eb_sem := Some (k + 1)\<rparr>)"
      by (rule call) (use S l k 3 in \<open>auto simp: light_ok_def start_led_def led_delay_def\<close>)
    then show ?thesis using 3 by (simp add: t)
  qed
qed

lemma easyblink_stop_inv:
  assumes inv: "eb_inv s" and idle: "idle_daemon s" and i: "i = 0 \<or> i = 1" and a: "inited (eb_leds s ! nat i)"
    and e: "easyblink_stop i s = Some t"
  shows "eb_inv t"
proof -
  define l where "l = eb_leds s ! nat i"
  define l' where "l' = clear_flag EB_ACTIVE (l\<lparr>nums_bak := 0, pulse_bak := 0, npulse_bak := 0\<rparr>)"
  obtain a' b' where ab: "eb_leds s = [a', b']" "led_ok a'" "led_ok b'" "light_ok a' (pin_level s)" "light_ok b' (pin_level s)"
      "inited a' \<or> inited b' \<longrightarrow> eb_thread s"
    and o: "eb_thread s \<longrightarrow> (\<exists>n \<ge> 0. eb_sem s = Some n)"
    using inv unfolding eb_inv_def by blast
  have l: "led_ok l" "light_ok l (pin_level s)" "inited l" using ab i a by (auto simp: l_def)
  have "eb_thread s" using ab(1,6) i l(3) by (auto simp: l_def)
  then obtain k where k: "eb_sem s = Some k" using o by blast
  have t: "t = s\<lparr>eb_leds := (eb_leds s)[nat i := l'], pin_level := eb_led_off l (pin_level s), eb_sem := Some (k + 0)\<rparr>"
    using e i ab(1) k by (auto simp: easyblink_stop_def l'_def l_def Let_def)
  have l': "led_ok l'" "inited l'" "led_pin l' = led_pin l" "active_level l' = active_level l" "\<not> act l'"
    using l by (simp_all add: l'_def led_ok_def)
  show ?thesis unfolding t
    by (rule call_inv [OF inv idle i])
      (use l l' k in \<open>auto simp: l_def [symmetric] light_ok_def eb_led_off_def gpio_set_def\<close>)
qed

text \<open>Initialising takes the first free entry, or none.\<close>

definition enter :: "led \<Rightarrow> blinker \<Rightarrow> blinker" where
  "enter l s = (let s = s\<lparr>pin_level := rt_pin_mode (led_pin l) True (eb_led_off l (pin_level s))\<rparr>
     in if \<not> eb_thread s then s\<lparr>eb_thread := True, daemon := Computing, eb_sem := Some 0\<rparr> else s)"

lemma init_led_cases:
  assumes "eb_leds s = [a, b]"
  shows "easyblink_init_led pin lev s = Some (
     if \<not> inited a then (0, enter (init_entry pin lev a) (s\<lparr>eb_leds := [init_entry pin lev a, b]\<rparr>))
     else if \<not> inited b then (1, enter (init_entry pin lev b) (s\<lparr>eb_leds := [a, init_entry pin lev b]\<rparr>))
     else (1, s))"
  using assms
  by (simp add: easyblink_init_led_def for_up.simps [where i = 0] for_up.simps [where i = 1] for_up_done enter_def
    init_entry_def Let_def)

lemma enter_fields:
  "pin_level (enter l s) = (pin_level s)(led_pin l := 0)" "eb_leds (enter l s) = eb_leds s" "now (enter l s) = now s"
  "eb_thread (enter l s)" "eb_sem (enter l s) = (if eb_thread s then eb_sem s else Some 0)"
  "daemon (enter l s) = (if eb_thread s then daemon s else Computing)"
  by (simp_all add: enter_def rt_pin_mode_def eb_led_off_def gpio_set_def Let_def fun_eq_iff)

lemma init_entry_ok:
  assumes "led_ok l" "\<not> inited l" "lev = 0 \<or> lev = 1"
  shows "led_ok (init_entry pin lev l)" "\<not> act (init_entry pin lev l)" "inited (init_entry pin lev l)"
    "led_pin (init_entry pin lev l) = pin"
  using assms by (auto simp: init_entry_def led_ok_def)

lemma easyblink_init_led_inv:
  assumes inv: "eb_inv s" and pin: "free_pin pin s" and lev: "lev = 0 \<or> lev = 1"
    and e: "easyblink_init_led pin lev s = Some (i, t)"
  shows "eb_inv t"
proof -
  obtain a b where ab: "eb_leds s = [a, b]" "led_ok a" "led_ok b" "light_ok a (pin_level s)" "light_ok b (pin_level s)"
      "time_ok s a" "time_ok s b" "inited a \<and> inited b \<longrightarrow> led_pin a \<noteq> led_pin b" "inited a \<or> inited b \<longrightarrow> eb_thread s"
    and o: "eb_thread s \<longrightarrow> (\<exists>n \<ge> 0. eb_sem s = Some n)" "daemon_ok s" "0 \<le> now s"
    using inv unfolding eb_inv_def by blast
  have q: "inited a \<Longrightarrow> led_pin a \<noteq> pin" "inited b \<Longrightarrow> led_pin b \<noteq> pin" "act a \<Longrightarrow> inited a" "act b \<Longrightarrow> inited b"
    using pin ab(1-3) by (simp_all add: free_pin_def led_ok_def)
  have n: "time_ok (enter l s') x" if "time_ok s x" "act x \<longrightarrow> eb_thread s" "daemon s' = daemon s" "eb_sem s' = eb_sem s"
      "eb_thread s' = eb_thread s" for l s' x
    using that by (auto simp: time_ok_def enter_fields)
  consider "\<not> inited a" | "inited a" "\<not> inited b" | "inited a" "inited b" by blast
  then show ?thesis
  proof cases
    case 1
    note E = init_entry_ok [OF ab(2) 1 lev, of pin]
    have t: "t = enter (init_entry pin lev a) (s\<lparr>eb_leds := [init_entry pin lev a, b]\<rparr>)"
      using e 1 by (simp add: init_led_cases [OF ab(1)])
    show ?thesis unfolding t
    proof (rule eb_invI [of _ "init_entry pin lev a" b])
      show "light_ok b (pin_level (enter (init_entry pin lev a) (s\<lparr>eb_leds := [init_entry pin lev a, b]\<rparr>)))"
        by (rule light_ok_other [OF ab(5)]) (use q E in \<open>simp add: enter_fields\<close>)
      show "time_ok (enter (init_entry pin lev a) (s\<lparr>eb_leds := [init_entry pin lev a, b]\<rparr>)) b"
        by (rule n [OF ab(7)]) (use q ab(9) in simp_all)
    qed (use E ab(3) q(2) o in \<open>simp_all add: enter_fields light_ok_def daemon_ok_def time_ok_def split: daemon.splits\<close>)
  next
    case 2
    note E = init_entry_ok [OF ab(3) 2(2) lev, of pin]
    have t: "t = enter (init_entry pin lev b) (s\<lparr>eb_leds := [a, init_entry pin lev b]\<rparr>)"
      using e 2 by (simp add: init_led_cases [OF ab(1)])
    show ?thesis unfolding t
    proof (rule eb_invI [of _ a "init_entry pin lev b"])
      show "light_ok a (pin_level (enter (init_entry pin lev b) (s\<lparr>eb_leds := [a, init_entry pin lev b]\<rparr>)))"
        by (rule light_ok_other [OF ab(4)]) (use q E in \<open>simp add: enter_fields\<close>)
      show "time_ok (enter (init_entry pin lev b) (s\<lparr>eb_leds := [a, init_entry pin lev b]\<rparr>)) a"
        by (rule n [OF ab(6)]) (use q ab(9) in simp_all)
    qed (use E ab(2) q(1) o in \<open>simp_all add: enter_fields light_ok_def daemon_ok_def time_ok_def split: daemon.splits\<close>)
  next
    case 3
    then show ?thesis using e inv by (simp add: init_led_cases [OF ab(1)])
  qed
qed

lemma tick_inv:
  assumes "eb_inv s" "daemon s = Waiting w t" "eb_sem s = Some 0" "now s < t + w"
  shows "eb_inv (s\<lparr>now := now s + 1\<rparr>)"
proof -
  obtain a b where ab: "eb_leds s = [a, b]" "led_ok a" "led_ok b" "light_ok a (pin_level s)" "light_ok b (pin_level s)"
      "time_ok s a" "time_ok s b" "inited a \<and> inited b \<longrightarrow> led_pin a \<noteq> led_pin b" "inited a \<or> inited b \<longrightarrow> eb_thread s"
    and o: "eb_thread s \<longrightarrow> (\<exists>n \<ge> 0. eb_sem s = Some n)" "daemon_ok s" "0 \<le> now s"
    using assms(1) unfolding eb_inv_def by blast
  show ?thesis
    by (rule eb_invI [of _ a b]; use ab o assms(2-4) in \<open>simp add: time_ok_def daemon_ok_def; blast?\<close>)
qed

lemma eb_step_inv:
  assumes "eb_step s t" "eb_inv s"
  shows "eb_inv t"
  using assms(1)
proof cases
  case run
  then show ?thesis using daemon_step_inv assms(2) by blast
next
  case (tick w t0)
  then show ?thesis using tick_inv assms(2) by blast
next
  case (init pin lev i)
  then show ?thesis using easyblink_init_led_inv assms(2) by blast
next
  case (blink i n p d)
  from blink(2,3) have "i = 0 \<or> i = 1" by linarith
  then show ?thesis using easyblink_inv [OF assms(2) blink(1) _ blink(4-10)] by blast
next
  case (stop i)
  from stop(2,3) have "i = 0 \<or> i = 1" by linarith
  then show ?thesis using easyblink_stop_inv [OF assms(2) stop(1) _ stop(4,5)] by blast
qed

lemma eb_run_inv: "eb_run s t \<Longrightarrow> eb_inv s \<Longrightarrow> eb_inv t"
  by (induction rule: eb_run.induct) (auto intro: eb_step_inv)

end
