(* ===== verification/EasyBlinkSafe.thy ===== *)
theory EasyBlinkSafe
  imports EasyBlinkFacts
begin

text \<open>
  The blinker when nothing is assumed about when its daemon runs: the clock may tick at any time, also while the daemon is
  ready and late, and calls may come between any two steps of the daemon.  Nothing that holds here depends on the ticks of an
  LED.
\<close>

section \<open>Steps at any time\<close>

inductive eb_any :: "blinker \<Rightarrow> blinker \<Rightarrow> bool" where
  run: "daemon_step s = Some t \<Longrightarrow> eb_any s t"
| tick: "eb_any s (s\<lparr>now := now s + 1\<rparr>)"
| init: "free_pin pin s \<Longrightarrow> lev = 0 \<or> lev = 1 \<Longrightarrow> easyblink_init_led pin lev s = Some (i, t) \<Longrightarrow> eb_any s t"
| blink: "i = 0 \<or> i = 1 \<Longrightarrow> inited (eb_leds s ! nat i) \<Longrightarrow> - 32768 \<le> n \<Longrightarrow> n \<le> 32767
    \<Longrightarrow> 0 \<le> p \<Longrightarrow> p \<le> d \<Longrightarrow> d \<le> 65535 \<Longrightarrow> easyblink i n p d s = Some t \<Longrightarrow> eb_any s t"
| stop: "i = 0 \<or> i = 1 \<Longrightarrow> inited (eb_leds s ! nat i) \<Longrightarrow> easyblink_stop i s = Some t \<Longrightarrow> eb_any s t"
| deinit: "i = 0 \<or> i = 1 \<Longrightarrow> easyblink_deinit i s = Some t \<Longrightarrow> eb_any s t"

inductive eb_any_run :: "blinker \<Rightarrow> blinker \<Rightarrow> bool" where
  refl: "eb_any_run s s"
| step: "eb_any_run s t \<Longrightarrow> eb_any t u \<Longrightarrow> eb_any_run s u"

section \<open>The invariant\<close>

abbreviation "sound l \<equiv> led_ok (l\<lparr>ticks := 0\<rparr>)"

definition eb_safe :: "blinker \<Rightarrow> bool" where
  "eb_safe s \<longleftrightarrow> (\<exists>a b. eb_leds s = [a, b] \<and> sound a \<and> sound b \<and> light_ok a (pin_level s) \<and> light_ok b (pin_level s)
       \<and> (inited a \<and> inited b \<longrightarrow> led_pin a \<noteq> led_pin b) \<and> (inited a \<or> inited b \<longrightarrow> eb_thread s))
     \<and> (eb_thread s \<longrightarrow> (\<exists>n \<ge> 0. eb_sem s = Some n))"

lemma eb_safeI:
  assumes "eb_leds s = [a, b]" "sound a" "sound b" "light_ok a (pin_level s)" "light_ok b (pin_level s)"
    "inited a \<Longrightarrow> inited b \<Longrightarrow> led_pin a \<noteq> led_pin b" "inited a \<or> inited b \<Longrightarrow> eb_thread s"
    "eb_thread s \<Longrightarrow> \<exists>n \<ge> 0. eb_sem s = Some n"
  shows "eb_safe s"
  using assms unfolding eb_safe_def by blast

lemma eb_safeE:
  assumes "eb_safe s"
  obtains a b where "eb_leds s = [a, b]" "sound a" "sound b" "light_ok a (pin_level s)" "light_ok b (pin_level s)"
    "inited a \<and> inited b \<longrightarrow> led_pin a \<noteq> led_pin b" "inited a \<or> inited b \<longrightarrow> eb_thread s"
    "eb_thread s \<longrightarrow> (\<exists>n \<ge> 0. eb_sem s = Some n)"
  using assms unfolding eb_safe_def by blast

lemma eb_inv_safe: "eb_inv s \<Longrightarrow> eb_safe s"
  unfolding eb_inv_def eb_safe_def by (auto simp: led_ok_ticks)

lemma eb_safe_other [simp]:
  "eb_safe (s\<lparr>now := n\<rparr>) = eb_safe s" "eb_safe (s\<lparr>daemon := d\<rparr>) = eb_safe s"
  by (simp_all add: eb_safe_def)

lemma eb_safe_wait [simp]: "eb_safe (wait_or_switch (w, s)) = eb_safe s"
  by (simp add: wait_or_switch_def)

section \<open>The daemon\<close>

lemma switched_sound:
  assumes "sound l" "light_ok l g" "act l"
  shows "case switched l g of (l', g') \<Rightarrow> sound l' \<and> light_ok l' g' \<and> kept l l' \<and> (\<forall>p. p \<noteq> led_pin l \<longrightarrow> g' p = g p)"
proof -
  consider "dark l" "nums l > 0 \<or> nums l = - 1" | "dark l" "\<not> (nums l > 0 \<or> nums l = - 1)" "pulse_bak l \<noteq> 0"
    | "dark l" "\<not> (nums l > 0 \<or> nums l = - 1)" "pulse_bak l = 0" | "\<not> dark l" by blast
  then show ?thesis
    using assms by cases (auto simp: switched_def led_ok_def light_ok_def kept_def eb_led_on_def eb_led_off_def gpio_set_def)
qed

lemma switch_led_late:
  assumes "sound l" "act l" "i32 (ticks l - w) \<le> 0"
  shows "switch_led w l g = switched (l\<lparr>ticks := i32 (ticks l - w)\<rparr>) g"
proof -
  have "0 < nums l \<Longrightarrow> i16 (nums l - 1) = nums l - 1" using assms by (simp add: led_ok_def)
  then show ?thesis using assms by (simp add: switch_led_def switched_def eb_led_on_def eb_led_off_def)
qed

lemma switch_led_early: "\<not> (act l \<and> i32 (ticks l - w) \<le> 0) \<Longrightarrow> switch_led w l g = (l\<lparr>ticks := i32 (ticks l - w)\<rparr>, g)"
  by (auto simp: switch_led_def)

lemma switch_led_sound:
  assumes "sound l" "light_ok l g"
  shows "case switch_led w l g of (l', g') \<Rightarrow> sound l' \<and> light_ok l' g' \<and> kept l l'
     \<and> (\<forall>p. (inited l \<longrightarrow> p \<noteq> led_pin l) \<longrightarrow> g' p = g p)"
proof (cases "act l \<and> i32 (ticks l - w) \<le> 0")
  case True
  have "inited l" using assms(1) True by (simp add: led_ok_def)
  then show ?thesis
    using switched_sound [of "l\<lparr>ticks := i32 (ticks l - w)\<rparr>" g] assms True
    unfolding switch_led_late [OF assms(1) True [THEN conjunct1] True [THEN conjunct2]]
    by (auto simp: kept_def)
next
  case False
  then show ?thesis using assms by (simp add: switch_led_early kept_def)
qed

lemma switching_safe:
  assumes "eb_safe s"
  shows "runs (switch_leds w s) eb_safe"
proof -
  obtain a b where ab: "eb_leds s = [a, b]" "sound a" "sound b" "light_ok a (pin_level s)" "light_ok b (pin_level s)"
    "inited a \<and> inited b \<longrightarrow> led_pin a \<noteq> led_pin b" "inited a \<or> inited b \<longrightarrow> eb_thread s"
    "eb_thread s \<longrightarrow> (\<exists>n \<ge> 0. eb_sem s = Some n)" by (rule eb_safeE [OF assms])
  obtain a' g where 1: "switch_led w a (pin_level s) = (a', g)" by force
  have A: "sound a'" "light_ok a' g" "kept a a'" "\<And>p. (inited a \<longrightarrow> p \<noteq> led_pin a) \<Longrightarrow> g p = pin_level s p"
    using switch_led_sound [OF ab(2,4), of w] unfolding 1 by auto
  have lb: "light_ok b g" by (rule light_ok_other [OF ab(5)]) (use A(4) [of "led_pin b"] ab(6) in auto)
  obtain b' g' where 2: "switch_led w b g = (b', g')" by force
  have B: "sound b'" "light_ok b' g'" "kept b b'" "\<And>p. (inited b \<longrightarrow> p \<noteq> led_pin b) \<Longrightarrow> g' p = g p"
    using switch_led_sound [OF ab(3) lb, of w] unfolding 2 by auto
  have la: "light_ok a' g'"
    by (rule light_ok_other [OF A(2)]) (use B(4) [of "led_pin a"] ab(6) A(3) in \<open>auto simp: kept_def\<close>)
  have k: "inited a' = inited a" "inited b' = inited b" "led_pin a' = led_pin a" "led_pin b' = led_pin b"
    using A(3) B(3) by (simp_all add: kept_def)
  show ?thesis unfolding switch_leds_2 [OF ab(1) 1 2] runs_Some
    by (rule eb_safeI [of _ a' b']) (use A(1) B(1,2) la k ab(6-8) in simp_all)
qed

lemma corrected_sound [simp]: "sound (corrected c el l) = sound l" "light_ok (corrected c el l) g = light_ok l g"
    "inited (corrected c el l) = inited l" "led_pin (corrected c el l) = led_pin l"
  by (auto simp: corrected_def correct_led_def led_ok_def light_ok_def)

lemma computing_safe:
  assumes "eb_safe s"
  shows "runs (correct_or_get_min_ticks tick corr s) (\<lambda>(w, t). eb_safe t)"
proof -
  obtain a b where ab: "eb_leds s = [a, b]" "sound a" "sound b" "light_ok a (pin_level s)" "light_ok b (pin_level s)"
    "inited a \<and> inited b \<longrightarrow> led_pin a \<noteq> led_pin b" "inited a \<or> inited b \<longrightarrow> eb_thread s"
    "eb_thread s \<longrightarrow> (\<exists>n \<ge> 0. eb_sem s = Some n)" by (rule eb_safeE [OF assms])
  show ?thesis unfolding min_ticks_2 [OF ab(1)] runs_Some prod.case
    by (rule eb_safeI [of _ "corrected corr (if corr then u32 (u32 (now s) - tick) else tick) a"
          "corrected corr (if corr then u32 (u32 (now s) - tick) else tick) b"]) (use ab in simp_all)
qed

lemma eb_safe_sem: "eb_safe s \<Longrightarrow> eb_sem s = Some n \<Longrightarrow> 0 \<le> m \<Longrightarrow> eb_safe (s\<lparr>eb_sem := Some m\<rparr>)"
  by (simp add: eb_safe_def)

text \<open>The daemon stops only to wait.\<close>

lemma daemon_step_safe:
  assumes "eb_safe s"
  shows "(case daemon_step s of None \<Rightarrow> eb_thread s \<longrightarrow> (\<exists>w t. daemon s = Waiting w t \<and> now s < t + w \<and> eb_sem s = Some 0)
    | Some t \<Rightarrow> eb_safe t)"
proof (cases "eb_thread s")
  case False
  then show ?thesis by (simp add: daemon_step_def)
next
  case True
  then obtain n where n: "eb_sem s = Some n" "0 \<le> n" using assms by (auto elim: eb_safeE)
  show ?thesis
  proof (cases "daemon s")
    case Computing
    obtain w t where "correct_or_get_min_ticks 0 False s = Some (w, t)" "eb_safe t"
      using computing_safe [OF assms, of 0 False] by (auto elim: runsE)
    then show ?thesis using True Computing by (simp add: daemon_step_def)
  next
    case (Switching w)
    obtain t where "switch_leds w s = Some t" "eb_safe t" using switching_safe [OF assms] by (rule runsE)
    then show ?thesis using True Switching by (simp add: daemon_step_def)
  next
    case (Waiting w t)
    show ?thesis
    proof (cases "0 < n")
      case True
      have "eb_safe (s\<lparr>eb_sem := Some (n - 1)\<rparr>)" by (rule eb_safe_sem [OF assms n(1)]) (use True in simp)
      then have "runs (correct_or_get_min_ticks (u32 t) True (s\<lparr>eb_sem := Some (n - 1)\<rparr>)) (\<lambda>(w, t). eb_safe t)"
        by (rule computing_safe)
      then obtain w' t' where "correct_or_get_min_ticks (u32 t) True (s\<lparr>eb_sem := Some (n - 1)\<rparr>) = Some (w', t')" "eb_safe t'"
        by (auto elim: runsE)
      then show ?thesis using \<open>eb_thread s\<close> Waiting n True by (simp add: daemon_step_def)
    next
      case False
      then show ?thesis using \<open>eb_thread s\<close> Waiting n assms by (simp add: daemon_step_def)
    qed
  qed
qed

section \<open>Calls\<close>

lemma call_safe:
  assumes "eb_safe s" and i: "i = 0 \<or> i = 1"
    and l: "sound l" "light_ok l g" "inited l" "led_pin l = led_pin (eb_leds s ! nat i)"
      "inited (eb_leds s ! nat i)" "\<forall>p. p \<noteq> led_pin l \<longrightarrow> g p = pin_level s p"
    and n: "eb_sem s = Some n" "0 \<le> k"
  shows "eb_safe (s\<lparr>eb_leds := (eb_leds s)[nat i := l], pin_level := g, eb_sem := Some (n + k)\<rparr>)"
proof -
  obtain a b where ab: "eb_leds s = [a, b]" "sound a" "sound b" "light_ok a (pin_level s)" "light_ok b (pin_level s)"
    "inited a \<and> inited b \<longrightarrow> led_pin a \<noteq> led_pin b" "inited a \<or> inited b \<longrightarrow> eb_thread s"
    "eb_thread s \<longrightarrow> (\<exists>n \<ge> 0. eb_sem s = Some n)" by (rule eb_safeE [OF assms(1)])
  have th: "eb_thread s" using i l(5) ab(1,7) by auto
  then have n0: "0 \<le> n + k" using ab(8) n by auto
  have lb: "light_ok b g" if "inited b \<longrightarrow> led_pin l \<noteq> led_pin b"
    by (rule light_ok_other [OF ab(5)]) (use that l(6) in auto)
  have la: "light_ok a g" if "inited a \<longrightarrow> led_pin l \<noteq> led_pin a"
    by (rule light_ok_other [OF ab(4)]) (use that l(6) in auto)
  from i show ?thesis
  proof
    assume "i = 0"
    then show ?thesis using ab l lb th n0 by (auto simp: eb_safe_def)
  next
    assume "i = 1"
    then show ?thesis using ab l la th n0 by (auto simp: eb_safe_def)
  qed
qed

lemma call_safe_index:
  assumes "eb_safe s" "i = 0 \<or> i = 1" "inited (eb_leds s ! nat i)"
  obtains k where "length (eb_leds s) = 2" "eb_sem s = Some k" "sound (eb_leds s ! nat i)"
    "light_ok (eb_leds s ! nat i) (pin_level s)" "nat i < length (eb_leds s)"
proof -
  obtain a b where ab: "eb_leds s = [a, b]" "sound a" "sound b" "light_ok a (pin_level s)" "light_ok b (pin_level s)"
    "inited a \<and> inited b \<longrightarrow> led_pin a \<noteq> led_pin b" "inited a \<or> inited b \<longrightarrow> eb_thread s"
    "eb_thread s \<longrightarrow> (\<exists>n \<ge> 0. eb_sem s = Some n)"
    by (rule eb_safeE [OF assms(1)])
  have "eb_thread s" using ab(1,7) assms(2,3) by auto
  then obtain k where "eb_sem s = Some k" using ab(8) by blast
  with that show ?thesis using ab assms(2) by auto
qed

lemma start_led_sound:
  fixes nb pb qb
  assumes "sound l" "inited l" "- 32768 \<le> n" "n \<le> 32767" "0 \<le> p" "p \<le> d" "d \<le> 65535" "delay = 0 \<or> delay = 500"
    "- 32768 \<le> nb" "nb \<le> 32767" "0 \<le> pb" "pb \<le> 65535" "0 \<le> qb" "qb \<le> 65535"
  defines "l' \<equiv> l\<lparr>nums_bak := nb, pulse_bak := pb, npulse_bak := qb\<rparr>"
  shows "sound (start_led delay n p d l')" "inited (start_led delay n p d l')" "dark (start_led delay n p d l')"
    "led_pin (start_led delay n p d l') = led_pin l" "active_level (start_led delay n p d l') = active_level l"
  using assms by (auto simp: start_led_def led_delay_def blink_data_set_def led_ok_def)

lemma easyblink_safe:
  assumes safe: "eb_safe s" and i: "i = 0 \<or> i = 1" and a: "inited (eb_leds s ! nat i)"
    and r: "- 32768 \<le> n" "n \<le> 32767" "0 \<le> p" "p \<le> d" "d \<le> 65535"
  shows "runs (easyblink i n p d s) (\<lambda>t. eb_safe t \<and> inited (eb_leds t ! nat i))"
proof -
  define l where "l = eb_leds s ! nat i"
  obtain k where k: "length (eb_leds s) = 2" "eb_sem s = Some k" "sound l" "light_ok l (pin_level s)" "nat i < length (eb_leds s)"
    using call_safe_index [OF safe i a] unfolding l_def by metis
  have l: "inited l" using a by (simp add: l_def)
  note t = easyblink_cases [OF k(1) i k(2) r(4), of n, folded l_def]
  note call = call_safe [OF safe i, of _ _ k, folded l_def]
  consider "nums l = - 1" | "nums l \<noteq> - 1" "act l" | "nums l \<noteq> - 1" "\<not> act l" by blast
  then show ?thesis
  proof cases
    case 1
    define l' where "l' = l\<lparr>nums_bak := nums l, pulse_bak := pulse l, npulse_bak := npulse l\<rparr>"
    have S: "sound (start_led 500 n p d l')" "inited (start_led 500 n p d l')" "dark (start_led 500 n p d l')"
      "led_pin (start_led 500 n p d l') = led_pin l" "active_level (start_led 500 n p d l') = active_level l"
      unfolding l'_def by (rule start_led_sound [OF k(3) l r]; use k(3) in \<open>simp add: led_ok_def\<close>)+
    have "eb_safe (s\<lparr>eb_leds := (eb_leds s)[nat i := start_led 500 n p d l'], pin_level := eb_led_off l (pin_level s),
        eb_sem := Some (k + 1)\<rparr>)"
      by (rule call) (use S l k in \<open>auto simp: light_ok_def eb_led_off_def gpio_set_def\<close>)
    then show ?thesis using 1 S(2) k(5) by (simp add: t l'_def)
  next
    case 2
    define l' where "l' = l\<lparr>nums_bak := n, pulse_bak := u16 (ms_to_tick p), npulse_bak := u16 (ms_to_tick (d - p))\<rparr>"
    have "eb_safe (s\<lparr>eb_leds := (eb_leds s)[nat i := l'], pin_level := pin_level s, eb_sem := Some (k + 0)\<rparr>)"
      by (rule call) (use l k r 2 in \<open>auto simp: l'_def light_ok_def led_ok_def\<close>)
    moreover have "s\<lparr>eb_leds := x, eb_sem := Some k\<rparr> = s\<lparr>eb_leds := x\<rparr>" for x using k by (cases s) simp
    ultimately show ?thesis using 2 l k(5) by (simp add: t l'_def [symmetric]) (simp add: l'_def)
  next
    case 3
    have S: "sound (start_led 0 n p d l)" "inited (start_led 0 n p d l)" "dark (start_led 0 n p d l)"
      "led_pin (start_led 0 n p d l) = led_pin l" "active_level (start_led 0 n p d l) = active_level l"
      using start_led_sound [OF k(3) l r, of 0 "nums_bak l" "pulse_bak l" "npulse_bak l"] k(3) by (simp_all add: led_ok_def)
    have "eb_safe (s\<lparr>eb_leds := (eb_leds s)[nat i := start_led 0 n p d l], pin_level := pin_level s, eb_sem := Some (k + 1)\<rparr>)"
      by (rule call) (use S l k 3 in \<open>auto simp: light_ok_def\<close>)
    then show ?thesis using 3 S(2) k(5) by (simp add: t)
  qed
qed

lemma easyblink_stop_safe:
  assumes safe: "eb_safe s" and i: "i = 0 \<or> i = 1" and a: "inited (eb_leds s ! nat i)"
  shows "runs (easyblink_stop i s) eb_safe"
proof -
  define l where "l = eb_leds s ! nat i"
  define l' where "l' = clear_flag EB_ACTIVE (l\<lparr>nums_bak := 0, pulse_bak := 0, npulse_bak := 0\<rparr>)"
  obtain k where k: "length (eb_leds s) = 2" "eb_sem s = Some k" "sound l" "light_ok l (pin_level s)" "nat i < length (eb_leds s)"
    using call_safe_index [OF safe i a] unfolding l_def by metis
  obtain x y where xy: "eb_leds s = [x, y]" using k(1) by (auto simp: numeral_2_eq_2 length_Suc_conv)
  have t: "easyblink_stop i s = Some (s\<lparr>eb_leds := (eb_leds s)[nat i := l'], pin_level := eb_led_off l (pin_level s), eb_sem := Some (k + 0)\<rparr>)"
    using i xy k(2) by (auto simp: easyblink_stop_def l'_def l_def Let_def)
  have l: "inited l" using a by (simp add: l_def)
  have l': "sound l'" "inited l'" "led_pin l' = led_pin l" "active_level l' = active_level l" "\<not> act l'"
    using k(3) l by (simp_all add: l'_def led_ok_def)
  show ?thesis unfolding t runs_Some
    by (rule call_safe [OF safe i]) (use l l' k in \<open>auto simp: l_def [symmetric] light_ok_def led_ok_def eb_led_off_def gpio_set_def\<close>)
qed

lemma init_entry_sound:
  assumes "sound l" "\<not> inited l" "lev = 0 \<or> lev = 1"
  shows "sound (init_entry pin lev l)" "\<not> act (init_entry pin lev l)" "inited (init_entry pin lev l)"
    "led_pin (init_entry pin lev l) = pin"
  using assms by (auto simp: init_entry_def led_ok_def)

lemma enter_safe:
  assumes "eb_leds s = [a, b]" "sound a" "sound b" "light_ok a g" "light_ok b g"
    "inited a \<Longrightarrow> inited b \<Longrightarrow> led_pin a \<noteq> led_pin b" "eb_thread s \<longrightarrow> (\<exists>n \<ge> 0. eb_sem s = Some n)"
    "g = (pin_level s)(led_pin l := 0)"
  shows "eb_safe (enter l s)"
  by (rule eb_safeI [of _ a b]) (use assms in \<open>simp_all add: enter_fields split: if_splits\<close>)

lemma easyblink_init_led_safe:
  assumes "eb_safe s" and pin: "free_pin pin s" and lev: "lev = 0 \<or> lev = 1"
  shows "runs (easyblink_init_led pin lev s) (\<lambda>(i, t). eb_safe t)"
proof -
  obtain a b where ab: "eb_leds s = [a, b]" "sound a" "sound b" "light_ok a (pin_level s)" "light_ok b (pin_level s)"
    "inited a \<and> inited b \<longrightarrow> led_pin a \<noteq> led_pin b" "inited a \<or> inited b \<longrightarrow> eb_thread s"
    "eb_thread s \<longrightarrow> (\<exists>n \<ge> 0. eb_sem s = Some n)" by (rule eb_safeE [OF assms(1)])
  have q: "inited a \<Longrightarrow> led_pin a \<noteq> pin" "inited b \<Longrightarrow> led_pin b \<noteq> pin"
    using pin ab(1) by (simp_all add: free_pin_def)
  consider "\<not> inited a" | "inited a" "\<not> inited b" | "inited a" "inited b" by blast
  then show ?thesis
  proof cases
    case 1
    note E = init_entry_sound [OF ab(2) 1 lev, of pin]
    have "eb_safe (enter (init_entry pin lev a) (s\<lparr>eb_leds := [init_entry pin lev a, b]\<rparr>))"
      by (rule enter_safe [of _ "init_entry pin lev a" b "(pin_level s)(pin := 0)"])
        (use E q ab in \<open>auto simp: light_ok_def\<close>)
    then show ?thesis using 1 by (simp add: init_led_cases [OF ab(1)])
  next
    case 2
    note E = init_entry_sound [OF ab(3) 2(2) lev, of pin]
    have "eb_safe (enter (init_entry pin lev b) (s\<lparr>eb_leds := [a, init_entry pin lev b]\<rparr>))"
      by (rule enter_safe [of _ a "init_entry pin lev b" "(pin_level s)(pin := 0)"])
        (use E q ab in \<open>auto simp: light_ok_def\<close>)
    then show ?thesis using 2 by (simp add: init_led_cases [OF ab(1)])
  next
    case 3
    then show ?thesis using assms(1) by (simp add: init_led_cases [OF ab(1)])
  qed
qed

lemma deinit_cases:
  assumes "eb_leds s = [a, b]" "i = 0 \<or> i = 1"
  defines "t \<equiv> s\<lparr>eb_leds := (eb_leds s)[nat i := led_zero]\<rparr>"
  shows "easyblink_deinit i s
    = Some (if inited (eb_leds t ! 0) \<or> inited (eb_leds t ! 1) then t else t\<lparr>eb_sem := None, eb_thread := False\<rparr>)"
  using assms
  by (auto simp: easyblink_deinit_def rt_pin_mode_def for_up.simps [where i = 0] for_up.simps [where i = 1] for_up_done Let_def)

lemma led_zero_sound [simp]: "\<not> bit (flag led_zero) k" "sound led_zero" "light_ok led_zero g"
  by (simp_all add: led_zero_def led_ok_def light_ok_def)

lemma easyblink_deinit_safe:
  assumes "eb_safe s" "i = 0 \<or> i = 1"
  shows "runs (easyblink_deinit i s) eb_safe"
proof -
  obtain a b where ab: "eb_leds s = [a, b]" "sound a" "sound b" "light_ok a (pin_level s)" "light_ok b (pin_level s)"
    "inited a \<and> inited b \<longrightarrow> led_pin a \<noteq> led_pin b" "inited a \<or> inited b \<longrightarrow> eb_thread s"
    "eb_thread s \<longrightarrow> (\<exists>n \<ge> 0. eb_sem s = Some n)" by (rule eb_safeE [OF assms(1)])
  show ?thesis using assms(2) ab
    by (auto simp: deinit_cases [OF ab(1) assms(2)] eb_safe_def)
qed

lemma eb_any_safe:
  assumes "eb_any s t" "eb_safe s"
  shows "eb_safe t"
  using assms(1)
proof cases
  case run
  then show ?thesis using daemon_step_safe [OF assms(2)] by simp
next
  case (init pin lev i)
  then show ?thesis using easyblink_init_led_safe [OF assms(2) init(1,2)] by simp
next
  case (blink i n p d)
  then show ?thesis using easyblink_safe [OF assms(2) blink(1-7)] by simp
next
  case (stop i)
  then show ?thesis using easyblink_stop_safe [OF assms(2) stop(1,2)] by simp
next
  case (deinit i)
  then show ?thesis using easyblink_deinit_safe [OF assms(2) deinit(1)] by simp
qed (use assms(2) in simp)

lemma eb_any_run_safe: "eb_any_run s t \<Longrightarrow> eb_safe s \<Longrightarrow> eb_safe t"
  by (induction rule: eb_any_run.induct) (auto intro: eb_any_safe)

lemma eb_safe_start [simp]: "eb_safe (eb_start g)"
  by (rule eb_inv_safe) simp

lemma eb_any_step:
  assumes "eb_step s t"
  shows "eb_any s t"
  using assms
proof cases
  case (blink i n p d)
  from blink(2,3) have "i = 0 \<or> i = 1" by linarith
  then show ?thesis by (rule eb_any.blink [OF _ blink(4-10)])
next
  case (stop i)
  from stop(2,3) have "i = 0 \<or> i = 1" by linarith
  then show ?thesis by (rule eb_any.stop [OF _ stop(4,5)])
next
  case (init pin lev i)
  show ?thesis by (rule eb_any.init [OF init(2-4)])
qed (simp_all add: eb_any.run eb_any.tick)

lemma eb_run_any: "eb_run s t \<Longrightarrow> eb_any_run s t"
  by (induction rule: eb_run.induct) (auto intro: eb_any_run.intros eb_any_step)

section \<open>What a light shows\<close>

text \<open>An LED shows its state when it is on in a pulse and off outside one, whatever its active level.\<close>

definition showing :: "led \<Rightarrow> pins \<Rightarrow> bool" where
  "showing l g \<longleftrightarrow> g (led_pin l) = (if act l \<and> \<not> dark l then active_level l else 1 - active_level l)"

lemma showing_other: "showing l g \<Longrightarrow> g' (led_pin l) = g (led_pin l) \<Longrightarrow> showing l g'"
  by (simp add: showing_def)

lemma switch_led_showing:
  assumes "sound l" "showing l g"
  shows "case switch_led w l g of (l', g') \<Rightarrow> showing l' g'"
proof (cases "act l \<and> i32 (ticks l - w) \<le> 0")
  case True
  then show ?thesis
    using assms unfolding switch_led_late [OF assms(1) True [THEN conjunct1] True [THEN conjunct2]]
    by (auto simp: switched_def showing_def led_ok_def eb_led_on_def eb_led_off_def gpio_set_def)
next
  case False
  then show ?thesis using assms(2) by (simp add: switch_led_early showing_def)
qed

lemma corrected_showing [simp]: "showing (corrected c el l) g = showing l g"
  by (auto simp: corrected_def correct_led_def showing_def)

definition showing_at :: "int \<Rightarrow> blinker \<Rightarrow> bool" where
  "showing_at i s \<longleftrightarrow> inited (eb_leds s ! nat i) \<and> showing (eb_leds s ! nat i) (pin_level s)"

lemma switching_showing:
  assumes "eb_safe s" "i = 0 \<or> i = 1" "showing_at i s"
  shows "runs (switch_leds w s) (showing_at i)"
proof -
  obtain a b where ab: "eb_leds s = [a, b]" "sound a" "sound b" "light_ok a (pin_level s)" "light_ok b (pin_level s)"
    "inited a \<and> inited b \<longrightarrow> led_pin a \<noteq> led_pin b"
    by (rule eb_safeE [OF assms(1)])
  obtain a' g where 1: "switch_led w a (pin_level s) = (a', g)" by force
  have A: "light_ok a' g" "kept a a'" "\<And>p. (inited a \<longrightarrow> p \<noteq> led_pin a) \<Longrightarrow> g p = pin_level s p"
    using switch_led_sound [OF ab(2,4), of w] unfolding 1 by auto
  have lb: "light_ok b g" by (rule light_ok_other [OF ab(5)]) (use A(3) [of "led_pin b"] ab(6) in auto)
  obtain b' g' where 2: "switch_led w b g = (b', g')" by force
  have B: "kept b b'" "\<And>p. (inited b \<longrightarrow> p \<noteq> led_pin b) \<Longrightarrow> g' p = g p"
    using switch_led_sound [OF ab(3) lb, of w] unfolding 2 by auto
  have k: "inited a' = inited a" "inited b' = inited b" "led_pin a' = led_pin a" "led_pin b' = led_pin b"
    using A(2) B(1) by (simp_all add: kept_def)
  from assms(2) show ?thesis
  proof
    assume i: "i = 0"
    then have "inited a" "showing a (pin_level s)" using assms(3) ab(1) by (simp_all add: showing_at_def)
    then have "showing a' g" using switch_led_showing [OF ab(2), of "pin_level s" w] 1 by simp
    then have "showing a' g'" by (rule showing_other) (use B(2) k ab(6) \<open>inited a\<close> in auto)
    then show ?thesis using i k \<open>inited a\<close> by (simp add: switch_leds_2 [OF ab(1) 1 2] showing_at_def)
  next
    assume i: "i = 1"
    then have b: "inited b" "showing b (pin_level s)" using assms(3) ab(1) by (simp_all add: showing_at_def)
    have "showing b g" by (rule showing_other [OF b(2)]) (use A(3) ab(6) b(1) in auto)
    then have "showing b' g'" using switch_led_showing [OF ab(3), of g w] 2 by simp
    then show ?thesis using i k b(1) by (simp add: switch_leds_2 [OF ab(1) 1 2] showing_at_def)
  qed
qed

lemma showing_at_other [simp]:
  "showing_at i (s\<lparr>now := n\<rparr>) = showing_at i s" "showing_at i (s\<lparr>daemon := d\<rparr>) = showing_at i s"
  "showing_at i (s\<lparr>eb_sem := k\<rparr>) = showing_at i s" "showing_at i (wait_or_switch (w, s)) = showing_at i s"
  by (simp_all add: showing_at_def wait_or_switch_def)

lemma computing_showing:
  assumes "eb_safe s" "i = 0 \<or> i = 1" "showing_at i s"
  shows "runs (correct_or_get_min_ticks tick corr s) (\<lambda>(w, t). showing_at i t)"
proof -
  obtain a b where ab: "eb_leds s = [a, b]" by (rule eb_safeE [OF assms(1)])
  show ?thesis unfolding min_ticks_2 [OF ab] using assms(2,3) ab by (auto simp: showing_at_def)
qed

lemma daemon_showing:
  assumes "eb_safe s" "i = 0 \<or> i = 1" "showing_at i s" "daemon_step s = Some t"
  shows "showing_at i t"
proof (cases "daemon s")
  case Computing
  then show ?thesis using computing_showing [OF assms(1-3), of 0 False] assms(4)
    by (auto simp: daemon_step_def split: if_splits)
next
  case (Switching w)
  then show ?thesis using switching_showing [OF assms(1-3), of w] assms(4)
    by (auto simp: daemon_step_def split: if_splits)
next
  case (Waiting w u)
  show ?thesis
  proof (cases "\<exists>n > 0. eb_sem s = Some n")
    case True
    then obtain n where n: "eb_sem s = Some n" "0 < n" by blast
    have "eb_safe (s\<lparr>eb_sem := Some (n - 1)\<rparr>)" by (rule eb_safe_sem [OF assms(1) n(1)]) (use n in simp)
    then have "runs (correct_or_get_min_ticks (u32 u) True (s\<lparr>eb_sem := Some (n - 1)\<rparr>)) (\<lambda>(w, t). showing_at i t)"
      by (rule computing_showing [OF _ assms(2)]) (use assms(3) in simp)
    then show ?thesis using assms(4) Waiting n by (auto simp: daemon_step_def split: if_splits)
  next
    case False
    then show ?thesis using assms(3,4) Waiting
      by (auto simp: daemon_step_def split: if_splits option.splits)
  qed
qed

lemma init_showing:
  assumes "eb_safe s" "i = 0 \<or> i = 1" "showing_at i s" "free_pin pin s" "easyblink_init_led pin lev s = Some (j, t)"
  shows "showing_at i t"
proof -
  obtain a b where ab: "eb_leds s = [a, b]" by (rule eb_safeE [OF assms(1)])
  have q: "inited a \<Longrightarrow> led_pin a \<noteq> pin" "inited b \<Longrightarrow> led_pin b \<noteq> pin"
    using assms(4) ab by (simp_all add: free_pin_def)
  have p: "led_pin (init_entry pin lev l) = pin" for l by (simp add: init_entry_def)
  have other: "showing_at i (enter x (s\<lparr>eb_leds := ls\<rparr>))"
    if "ls ! nat i = eb_leds s ! nat i" "led_pin x = pin" for x ls
    using assms(2,3) q ab that by (auto simp: showing_at_def enter_fields intro: showing_other)
  consider "t = s" | "i = 1" "\<not> inited a" "t = enter (init_entry pin lev a) (s\<lparr>eb_leds := [init_entry pin lev a, b]\<rparr>)"
    | "i = 0" "\<not> inited b" "t = enter (init_entry pin lev b) (s\<lparr>eb_leds := [a, init_entry pin lev b]\<rparr>)"
    using assms(2,3,5) ab by (auto simp: init_led_cases [OF ab] showing_at_def split: if_splits)
  then show ?thesis
  proof cases
    case 2
    show ?thesis unfolding 2(3) by (rule other) (use ab p 2(1) in simp_all)
  next
    case 3
    show ?thesis unfolding 3(3) by (rule other) (use ab p 3(1) in simp_all)
  qed (use assms(3) in simp)
qed

text \<open>A call of one LED leaves the other alone.\<close>

lemma call_showing:
  assumes "eb_safe s" "i = 0 \<or> i = 1" "j = 0 \<or> j = 1" "showing_at i s" "inited (eb_leds s ! nat j)"
    "\<forall>p. p \<noteq> led_pin (eb_leds s ! nat j) \<longrightarrow> g p = pin_level s p" "i = j \<longrightarrow> inited l \<and> showing l g"
  shows "showing_at i (s\<lparr>eb_leds := (eb_leds s)[nat j := l], pin_level := g, eb_sem := k\<rparr>)"
proof -
  obtain a b where ab: "eb_leds s = [a, b]" "inited a \<and> inited b \<longrightarrow> led_pin a \<noteq> led_pin b" by (rule eb_safeE [OF assms(1)])
  show ?thesis using assms(2-7) ab by (auto simp: showing_at_def intro: showing_other)
qed

lemma easyblink_showing:
  assumes "eb_safe s" "i = 0 \<or> i = 1" "j = 0 \<or> j = 1" "showing_at i s" "inited (eb_leds s ! nat j)" "p \<le> d"
    and e: "easyblink j n p d s = Some t"
  shows "showing_at i t"
proof -
  define l where "l = eb_leds s ! nat j"
  obtain k where k: "length (eb_leds s) = 2" "eb_sem s = Some k" "sound l"
    using call_safe_index [OF assms(1,3,5)] unfolding l_def by metis
  note t = easyblink_cases [OF k(1) assms(3) k(2) assms(6), of n, folded l_def, unfolded e option.inject]
  note call = call_showing [OF assms(1-5), folded l_def]
  have l: "inited l" "i = j \<Longrightarrow> showing l (pin_level s)" using assms(4,5) by (simp_all add: l_def showing_at_def)
  consider "nums l = - 1" | "nums l \<noteq> - 1" "act l" | "nums l \<noteq> - 1" "\<not> act l" by blast
  then show ?thesis
  proof cases
    case 1
    have "showing_at i (s\<lparr>eb_leds := (eb_leds s)[nat j := start_led 500 n p d
        (l\<lparr>nums_bak := nums l, pulse_bak := pulse l, npulse_bak := npulse l\<rparr>)], pin_level := eb_led_off l (pin_level s), eb_sem := Some (k + 1)\<rparr>)"
      by (rule call) (use l k(3) in \<open>auto simp: showing_def led_ok_def start_led_def led_delay_def blink_data_set_def eb_led_off_def gpio_set_def\<close>)
    then show ?thesis using 1 by (simp add: t)
  next
    case 2
    have "showing_at i (s\<lparr>eb_leds := (eb_leds s)[nat j :=
        l\<lparr>nums_bak := n, pulse_bak := u16 (ms_to_tick p), npulse_bak := u16 (ms_to_tick (d - p))\<rparr>], pin_level := pin_level s, eb_sem := Some k\<rparr>)"
      by (rule call) (use l in \<open>auto simp: showing_def\<close>)
    then show ?thesis using 2 by (simp add: t showing_at_def)
  next
    case 3
    have "showing_at i (s\<lparr>eb_leds := (eb_leds s)[nat j := start_led 0 n p d l], pin_level := pin_level s, eb_sem := Some (k + 1)\<rparr>)"
      by (rule call) (use l 3 in \<open>auto simp: showing_def start_led_def led_delay_def blink_data_set_def\<close>)
    then show ?thesis using 3 by (simp add: t showing_at_def)
  qed
qed

lemma easyblink_stop_showing:
  assumes "eb_safe s" "i = 0 \<or> i = 1" "j = 0 \<or> j = 1" "inited (eb_leds s ! nat j)" "easyblink_stop j s = Some t"
  shows "showing_at i s \<Longrightarrow> showing_at i t" "showing_at j t"
proof -
  define l where "l = eb_leds s ! nat j"
  define l' where "l' = clear_flag EB_ACTIVE (l\<lparr>nums_bak := 0, pulse_bak := 0, npulse_bak := 0\<rparr>)"
  obtain k where k: "length (eb_leds s) = 2" "eb_sem s = Some k" "sound l" "nat j < length (eb_leds s)"
    using call_safe_index [OF assms(1,3,4)] unfolding l_def by metis
  obtain x y where xy: "eb_leds s = [x, y]" using k(1) by (auto simp: numeral_2_eq_2 length_Suc_conv)
  have t: "t = s\<lparr>eb_leds := (eb_leds s)[nat j := l'], pin_level := eb_led_off l (pin_level s), eb_sem := Some k\<rparr>"
    using assms(3,5) xy k(2) by (auto simp: easyblink_stop_def l'_def l_def Let_def)
  have l': "inited l'" "showing l' (eb_led_off l (pin_level s))"
    using k(3) assms(4) by (auto simp: l'_def l_def showing_def led_ok_def eb_led_off_def gpio_set_def)
  show "showing_at i t" if "showing_at i s" unfolding t
    by (rule call_showing [OF assms(1-3) that assms(4)]) (use l' in \<open>auto simp: l_def eb_led_off_def gpio_set_def\<close>)
  show "showing_at j t" using k(4) l' by (simp add: t showing_at_def)
qed

text \<open>Once an LED shows its state, it does so as long as it stays initialised.\<close>

lemma eb_any_showing:
  assumes "eb_any s t" "eb_safe s" "i = 0 \<or> i = 1" "showing_at i s" "inited (eb_leds t ! nat i)"
  shows "showing_at i t"
  using assms(1)
proof cases
  case run
  then show ?thesis by (rule daemon_showing [OF assms(2-4)])
next
  case tick
  then show ?thesis using assms(4) by simp
next
  case (init pin lev j)
  show ?thesis by (rule init_showing [OF assms(2,3,4) init(1,3)])
next
  case (blink j n p d)
  then show ?thesis by (intro easyblink_showing [OF assms(2,3) blink(1) assms(4) blink(2,6,8)])
next
  case (stop j)
  then show ?thesis using easyblink_stop_showing(1) [OF assms(2,3) stop assms(4)] by simp
next
  case (deinit j)
  obtain a b where ab: "eb_leds s = [a, b]" by (rule eb_safeE [OF assms(2)])
  show ?thesis using assms(3-5) deinit ab
    by (auto simp: deinit_cases [OF ab deinit(1)] showing_at_def split: if_splits)
qed

end
