(* ===== verification/EasyBlinkSpec.thy ===== *)
theory EasyBlinkSpec
  imports EasyBlinkSafe
begin

text \<open>
  What the blinker promises.  Its abstract state is the time and, for every LED, whether it
  glows, when it changes next and what it does then.  \<open>ideal\<close> is the scheduler over these
  states that makes every change exactly at its time; the daemon with its semaphore, its relative
  tick counts and their corrections refines it.  The schedule of a single LED follows by counting
  its beats.
\<close>

section \<open>The ideal scheduler\<close>

text \<open>An LED is to glow \<open>left\<close> times, or for ever when that is \<open>- 1\<close>, for \<open>width\<close> ticks with \<open>gap\<close> ticks between,
  and then to take up the count, width and gap that are queued.  Absolute times, no flags, no daemon.\<close>

record lamp =
  glow :: bool
  deadline :: "int option"
  left :: int
  width :: int
  gap :: int
  queued :: "int \<times> int \<times> int"

type_synonym schedule = "int \<times> lamp list"

text \<open>What happens at its deadline \<open>n\<close>.  A queued endless blink is taken up five seconds later, and a
  queue of width 0 is empty.\<close>

definition change :: "int \<Rightarrow> lamp \<Rightarrow> lamp" where
  "change n x = (if glow x then x\<lparr>glow := False, deadline := Some (n + gap x), left := (if left x > 0 then left x - 1 else left x)\<rparr>
     else if left x > 0 \<or> left x = - 1 then x\<lparr>glow := True, deadline := Some (n + width x)\<rparr>
     else case queued x of (m, p, q) \<Rightarrow>
       if p = 0 then x\<lparr>deadline := None\<rparr>
       else x\<lparr>deadline := Some (if m = - 1 then n + 5000 else n), left := m, width := p, gap := q, queued := (0, 0, 0)\<rparr>)"

text \<open>A request for \<open>k\<close> blinks: an endless blink is queued and the new one begins half a second later;
  otherwise it is queued when the LED is busy, and begins at once when it is not.\<close>

definition request :: "int \<Rightarrow> int \<Rightarrow> int \<Rightarrow> int \<Rightarrow> lamp \<Rightarrow> lamp" where
  "request n k p d x =
     (if left x = - 1 then x\<lparr>glow := False, deadline := Some (n + 500), left := k, width := p, gap := d - p,
          queued := (- 1, width x, gap x)\<rparr>
      else if deadline x \<noteq> None then x\<lparr>queued := (k, p, d - p)\<rparr>
      else x\<lparr>deadline := Some n, left := k, width := p, gap := d - p\<rparr>)"

definition halt :: "lamp \<Rightarrow> lamp" where
  "halt x = x\<lparr>glow := False, deadline := None, queued := (0, 0, 0)\<rparr>"

inductive ideal :: "schedule \<Rightarrow> schedule \<Rightarrow> bool" where
  stutter: "ideal x x"
| pass: "(\<And>x e. x \<in> set ls \<Longrightarrow> deadline x = Some e \<Longrightarrow> n < e) \<Longrightarrow> ideal (n, ls) (n + 1, ls)"
| switch: "ideal (n, ls) (n, map (\<lambda>x. if deadline x = Some n then change n x else x) ls)"
| request: "ideal (n, ls) (n, ls[i := request n k p d (ls ! i)])"
| halt: "ideal (n, ls) (n, ls[i := halt (ls ! i)])"

text \<open>The tick from which the tick count of an LED runs.\<close>

definition base :: "blinker \<Rightarrow> led \<Rightarrow> int" where
  "base s l = (case daemon s of Computing \<Rightarrow> now s | Waiting w t \<Rightarrow> if fresh l then now s else t | Switching w \<Rightarrow> now s - w)"

definition view :: "blinker \<Rightarrow> led \<Rightarrow> lamp" where
  "view s l = \<lparr>glow = act l \<and> \<not> dark l, deadline = (if act l then Some (base s l + ticks l) else None),
     left = nums l, width = pulse l, gap = npulse l, queued = (nums_bak l, pulse_bak l, npulse_bak l)\<rparr>"

definition eb_abs :: "blinker \<Rightarrow> schedule" where
  "eb_abs s = (now s, map (view s) (eb_leds s))"

lemma base_simps:
  "daemon s = Computing \<Longrightarrow> base s l = now s"
  "daemon s = Waiting w t \<Longrightarrow> base s l = (if fresh l then now s else t)"
  "daemon s = Switching w \<Longrightarrow> base s l = now s - w"
  by (simp_all add: base_def)

lemma eb_absI: "eb_leds s = [a, b] \<Longrightarrow> eb_abs s = (now s, [view s a, view s b])"
  by (simp add: eb_abs_def)

section \<open>Each step refines it\<close>

lemma eb_inv_cases:
  assumes "eb_inv s"
  obtains a b where "eb_leds s = [a, b]" "led_ok a" "led_ok b" "light_ok a (pin_level s)" "light_ok b (pin_level s)"
      "time_ok s a" "time_ok s b" "inited a \<and> inited b \<longrightarrow> led_pin a \<noteq> led_pin b" "inited a \<or> inited b \<longrightarrow> eb_thread s"
      "eb_thread s \<longrightarrow> (\<exists>n \<ge> 0. eb_sem s = Some n)" "daemon_ok s" "0 \<le> now s"
  using assms unfolding eb_inv_def by blast

lemma wait_or_switch_fields [simp]:
  "now (wait_or_switch (w, s)) = now s" "eb_leds (wait_or_switch (w, s)) = eb_leds s"
  by (simp_all add: wait_or_switch_def)

lemma base_wait_or_switch [simp]: "base (wait_or_switch (w, s)) l = now s"
  by (simp add: wait_or_switch_def base_def)

lemma computing_refines:
  assumes inv: "eb_inv s" and d: "daemon s = Computing" and e: "correct_or_get_min_ticks 0 False s = Some p"
  shows "eb_abs (wait_or_switch p) = eb_abs s"
proof -
  from inv obtain a b where ab: "eb_leds s = [a, b]" "led_ok a" "led_ok b" by (rule eb_inv_cases)
  have c: "corrected False 0 l = l" for l by (simp add: corrected_def correct_led_def)
  have "p = (least_ticks a b, s)"
    using min_ticks_least [OF ab(1), of False 0] ab e by (simp add: c led_ok_def)
  then show ?thesis using ab(1) by (simp add: eb_abs_def view_def base_simps [of s] d)
qed

lemma signal_refines:
  assumes inv: "eb_inv s" and d: "daemon s = Waiting w t" and n: "eb_sem s = Some n" "0 < n"
    and e: "correct_or_get_min_ticks (u32 t) True (s\<lparr>eb_sem := Some (n - 1)\<rparr>) = Some p"
  shows "eb_abs (wait_or_switch p) = eb_abs s"
proof -
  from inv obtain a b where ab: "eb_leds s = [a, b]" "led_ok a" "led_ok b" "light_ok a (pin_level s)" "light_ok b (pin_level s)"
      "time_ok s a" "time_ok s b" and o: "daemon_ok s"
    by (rule eb_inv_cases)
  define el where "el = now s - t"
  have el: "0 \<le> el" "el \<le> w" "w \<le> 2147483646" "0 \<le> t"
    using o by (simp_all add: daemon_ok_def d el_def)
  have u: "u32 (u32 (now s) - u32 t) = el"
    using elapsed_ticks [of t "now s"] el by (simp add: el_def)
  have due: "act a \<longrightarrow> fresh a \<or> el \<le> ticks a" "act b \<longrightarrow> fresh b \<or> el \<le> ticks b"
    using ab(6,7) el(2) by (auto simp: time_ok_def d)
  note A = corrected_ok [OF ab(2,4) el(1) due(1)] and B = corrected_ok [OF ab(3,5) el(1) due(2)]
  have p: "p = (least_ticks (corrected True el a) (corrected True el b),
             s\<lparr>eb_sem := Some (n - 1), eb_leds := [corrected True el a, corrected True el b]\<rparr>)"
    using min_ticks_least [of "s\<lparr>eb_sem := Some (n - 1)\<rparr>" a b True "u32 t"] ab(1) A(6) B(6) e by (simp add: u)
  have v: "view (wait_or_switch (w', s\<lparr>eb_sem := x, eb_leds := ls\<rparr>)) (corrected True el l) = view s l"
    if "led_ok l" "act l \<longrightarrow> fresh l \<or> el \<le> ticks l" for w' x ls l
    using that el(1) by (auto simp: view_def base_simps [of s] d corrected_def correct_led_def led_ok_def el_def)
  show ?thesis unfolding p using ab(1) v [OF ab(2) due(1)] v [OF ab(3) due(2)] by (simp add: eb_abs_def)
qed

abbreviation "kept_or_changed n x \<equiv> if deadline x = Some n then change n x else x"

lemma switched_view:
  assumes "act l" "ticks l = 0" "base s l = n" "base s' (fst (switched l g)) = n"
  shows "view s' (fst (switched l g)) = change n (view s l)"
  using assms by (simp add: switched_def view_def change_def)

lemma switch_led_refines:
  assumes l: "led_ok l" and w: "0 \<le> w" "act l \<longrightarrow> w \<le> ticks l" and s: "daemon s = Switching w"
    and e: "switch_led w l g = (l', g')" and s': "daemon s' = Computing" "now s' = now s"
  shows "view s' l' = kept_or_changed (now s) (view s l)"
proof -
  consider "\<not> act l" | "act l" "ticks l = w" | "act l" "w < ticks l" using w(2) by linarith
  then show ?thesis
  proof cases
    case 1
    then show ?thesis using e by (auto simp: switch_led_idle view_def)
  next
    case 2
    have l': "l' = fst (switched (l\<lparr>ticks := 0\<rparr>) g)" using e switch_led_due [OF l 2, of g] by (metis fst_conv)
    have "view s' l' = change (now s) (view (s\<lparr>daemon := Computing\<rparr>) (l\<lparr>ticks := 0\<rparr>))"
      unfolding l' by (rule switched_view) (use 2 s' in \<open>simp_all add: base_simps\<close>)
    also have "view (s\<lparr>daemon := Computing\<rparr>) (l\<lparr>ticks := 0\<rparr>) = view s l" using 2 by (simp add: view_def base_simps s)
    finally show ?thesis using 2 by (simp add: view_def base_simps s)
  next
    case 3
    have "l' = l\<lparr>ticks := ticks l - w\<rparr>" using e by (simp add: switch_led_wait [OF l 3(1) w(1) 3(2)])
    then show ?thesis using 3 by (simp add: view_def base_simps s s')
  qed
qed

lemma switching_refines:
  assumes inv: "eb_inv s" and d: "daemon s = Switching w" and e: "switch_leds w s = Some t"
  shows "ideal (eb_abs s) (eb_abs (t\<lparr>daemon := Computing\<rparr>))"
proof -
  from inv obtain a b where ab: "eb_leds s = [a, b]" "led_ok a" "led_ok b" "time_ok s a" "time_ok s b" "daemon_ok s"
    by (rule eb_inv_cases)
  have w: "0 \<le> w" "act a \<longrightarrow> w \<le> ticks a" "act b \<longrightarrow> w \<le> ticks b"
    using ab(4-6) by (simp_all add: daemon_ok_def time_ok_def d)
  obtain a' g where 1: "switch_led w a (pin_level s) = (a', g)" by force
  obtain b' g' where 2: "switch_led w b g = (b', g')" by force
  have t: "t = s\<lparr>eb_leds := [a', b'], pin_level := g'\<rparr>" using e by (simp add: switch_leds_2 [OF ab(1) 1 2])
  show ?thesis unfolding t eb_abs_def
    using switch_led_refines [OF ab(2) w(1,2) d 1, of "t\<lparr>daemon := Computing\<rparr>"]
      switch_led_refines [OF ab(3) w(1,3) d 2, of "t\<lparr>daemon := Computing\<rparr>"]
      ideal.switch [of "now s" "[view s a, view s b]"]
    by (simp add: ab(1) t)
qed

lemma daemon_step_refines:
  assumes inv: "eb_inv s" and e: "daemon_step s = Some t"
  shows "ideal (eb_abs s) (eb_abs t)"
proof (cases "daemon s")
  case Computing
  then show ?thesis using computing_refines [OF inv Computing] e
    by (auto simp: daemon_step_def ideal.stutter split: if_splits)
next
  case (Switching w)
  then show ?thesis using switching_refines [OF inv Switching] e
    by (auto simp: daemon_step_def split: if_splits)
next
  case (Waiting w t0)
  from inv obtain a b where ab: "eb_leds s = [a, b]" "time_ok s a" "time_ok s b" "daemon_ok s"
      "eb_thread s \<longrightarrow> (\<exists>n \<ge> 0. eb_sem s = Some n)"
    by (rule eb_inv_cases)
  have th: "eb_thread s" using e by (simp add: daemon_step_def split: if_splits)
  then obtain n where n: "eb_sem s = Some n" "0 \<le> n" using ab(5) by blast
  show ?thesis
  proof (cases "0 < n")
    case True
    then show ?thesis using signal_refines [OF inv Waiting n(1) True] e th n
      by (auto simp: daemon_step_def Waiting ideal.stutter)
  next
    case False
    then have t: "t = s\<lparr>daemon := Switching w\<rparr>" and "t0 + w \<le> now s"
      using e n th by (simp_all add: daemon_step_def Waiting split: if_splits)
    then have "view t a = view s a" "view t b = view s b"
      using ab(2-4) False n by (simp_all add: view_def base_simps Waiting time_ok_def daemon_ok_def)
    then have "eb_abs t = eb_abs s" using ab(1) by (simp add: eb_abs_def t)
    then show ?thesis by (simp add: ideal.stutter)
  qed
qed

lemma tick_refines:
  assumes inv: "eb_inv s" and d: "daemon s = Waiting w t" "eb_sem s = Some 0" "now s < t + w"
  shows "ideal (eb_abs s) (eb_abs (s\<lparr>now := now s + 1\<rparr>))"
proof -
  from inv obtain a b where ab: "eb_leds s = [a, b]" "time_ok s a" "time_ok s b" by (rule eb_inv_cases)
  have v: "view (s\<lparr>now := now s + 1\<rparr>) l = view s l" "deadline (view s l) = Some e \<Longrightarrow> now s < e" if "time_ok s l" for l e
    using that d by (auto simp: view_def time_ok_def base_simps split: if_splits)
  have "eb_abs (s\<lparr>now := now s + 1\<rparr>) = (now s + 1, [view s a, view s b])"
    using v(1) [OF ab(2)] v(1) [OF ab(3)] ab(1) by (simp add: eb_abs_def)
  moreover have "ideal (now s, [view s a, view s b]) (now s + 1, [view s a, view s b])"
    by (rule ideal.pass) (use v(2) [OF ab(2)] v(2) [OF ab(3)] in auto)
  ultimately show ?thesis using ab(1) by (simp add: eb_abs_def)
qed

lemma view_other [simp]:
  "view (s\<lparr>eb_leds := ls\<rparr>) l = view s l" "view (s\<lparr>pin_level := g\<rparr>) l = view s l" "view (s\<lparr>eb_sem := k\<rparr>) l = view s l"
  by (simp_all add: view_def base_def split: daemon.split)

text \<open>A call changes one LED.\<close>

lemma call_abs:
  assumes "view s l = f (view s (eb_leds s ! i))" "i < length (eb_leds s)"
    "eb_leds t = (eb_leds s)[i := l]" "now t = now s" "view t = view s"
  shows "eb_abs t = (now s, (snd (eb_abs s))[i := f (snd (eb_abs s) ! i)])"
  using assms by (simp add: eb_abs_def map_update)

lemma easyblink_refines:
  assumes inv: "eb_inv s" and idle: "idle_daemon s" and i: "i = 0 \<or> i = 1" and a: "inited (eb_leds s ! nat i)"
    and e: "easyblink i n p d s = Some t" and r: "0 \<le> p" "p \<le> d" "d \<le> 65535"
  shows "ideal (eb_abs s) (eb_abs t)"
proof -
  define l where "l = eb_leds s ! nat i"
  from inv obtain a' b' where ab: "eb_leds s = [a', b']" "led_ok a'" "led_ok b'" "inited a' \<or> inited b' \<longrightarrow> eb_thread s"
      "eb_thread s \<longrightarrow> (\<exists>n \<ge> 0. eb_sem s = Some n)"
    by (rule eb_inv_cases)
  have "eb_thread s" using ab(1,4) i a by auto
  then obtain k where k: "eb_sem s = Some k" using ab(5) by blast
  have len: "length (eb_leds s) = 2" "nat i < length (eb_leds s)" using i by (auto simp: ab(1))
  note t = easyblink_cases [OF len(1) i k r(2), of n, folded l_def, unfolded e option.inject]
  have base: "base s (start_led m n p d x) = now s" for m x
    using idle by (simp add: base_def start_led_def led_delay_def idle_daemon_def split: daemon.splits)
  have start: "view s (start_led m n p d x) = \<lparr>glow = False, deadline = Some (now s + m), left = n, width = p, gap = d - p,
      queued = (nums_bak x, pulse_bak x, npulse_bak x)\<rparr>" if "m = 0 \<or> m = 500" for m x
    using that r unfolding view_def base by (auto simp: start_led_def led_delay_def blink_data_set_def)
  have "eb_abs t = (now s, (snd (eb_abs s))[nat i := request (now s) n p d (snd (eb_abs s) ! nat i)])"
  proof -
    consider "nums l = - 1" | "nums l \<noteq> - 1" "act l" | "nums l \<noteq> - 1" "\<not> act l" by blast
    then show ?thesis
    proof cases
      case 1
      then show ?thesis using t len(2)
        by (intro call_abs [of _ "start_led 500 n p d (l\<lparr>nums_bak := nums l, pulse_bak := pulse l, npulse_bak := npulse l\<rparr>)"])
          (simp_all add: start fun_eq_iff request_def view_def [of s l] l_def [symmetric])
    next
      case 2
      then show ?thesis using t len(2) r
        by (intro call_abs [of _ "l\<lparr>nums_bak := n, pulse_bak := p, npulse_bak := d - p\<rparr>"])
          (simp_all add: fun_eq_iff request_def view_def l_def [symmetric] base_def split: daemon.split)
    next
      case 3
      then show ?thesis using t len(2)
        by (intro call_abs [of _ "start_led 0 n p d l"])
          (simp_all add: start fun_eq_iff request_def view_def [of s l] l_def [symmetric])
    qed
  qed
  then show ?thesis using ideal.request [of "now s" "snd (eb_abs s)" "nat i" n p d] by (simp add: eb_abs_def)
qed

lemma easyblink_stop_refines:
  assumes inv: "eb_inv s" and i: "i = 0 \<or> i = 1" and e: "easyblink_stop i s = Some t"
  shows "ideal (eb_abs s) (eb_abs t)"
proof -
  define l where "l = eb_leds s ! nat i"
  define l' where "l' = clear_flag EB_ACTIVE (l\<lparr>nums_bak := 0, pulse_bak := 0, npulse_bak := 0\<rparr>)"
  from inv obtain a b where ab: "eb_leds s = [a, b]" by (rule eb_inv_cases)
  have t: "t = s\<lparr>eb_leds := (eb_leds s)[nat i := l'], pin_level := eb_led_off l (pin_level s)\<rparr>"
    using e i ab by (auto simp: easyblink_stop_def l'_def l_def Let_def)
  have V: "view t = view s" by (simp add: t fun_eq_iff)
  have v: "view s l' = halt (view s l)" by (simp add: l'_def view_def halt_def)
  have "eb_abs t = (now s, (snd (eb_abs s))[nat i := halt (snd (eb_abs s) ! nat i)])"
    by (rule call_abs [of _ l']) (use i ab V v in \<open>auto simp: t l_def\<close>)
  then show ?thesis using ideal.halt [of "now s" "snd (eb_abs s)" "nat i"] by (simp add: eb_abs_def)
qed

lemma easyblink_init_led_refines:
  assumes inv: "eb_inv s" and e: "easyblink_init_led pin lev s = Some (i, t)"
  shows "ideal (eb_abs s) (eb_abs t)"
proof -
  from inv obtain a b where ab: "eb_leds s = [a, b]" "led_ok a" "led_ok b" "inited a \<or> inited b \<longrightarrow> eb_thread s"
    by (rule eb_inv_cases)
  have idle: "\<not> inited l \<Longrightarrow> led_ok l \<Longrightarrow> \<not> act l" "\<not> act l \<Longrightarrow> view s (init_entry pin lev l) = view s l" for l
    by (auto simp: led_ok_def init_entry_def view_def)
  have act_init: "act (init_entry pin lev l) = act l" for l by (simp add: init_entry_def)
  have v: "view (enter x (s\<lparr>eb_leds := y\<rparr>)) l = view s l" if "act l \<longrightarrow> eb_thread s" for x y l
    using that by (simp add: view_def base_def enter_fields split: daemon.split)
  have act: "act a \<longrightarrow> eb_thread s" "act b \<longrightarrow> eb_thread s" using ab(2-4) by (auto simp: led_ok_def)
  consider "\<not> inited a" | "inited a" "\<not> inited b" | "inited a" "inited b" by blast
  then have "eb_abs t = eb_abs s"
  proof cases
    case 1
    then have "t = enter (init_entry pin lev a) (s\<lparr>eb_leds := [init_entry pin lev a, b]\<rparr>)" "\<not> act a"
      using e idle(1) [OF _ ab(2)] by (simp_all add: init_led_cases [OF ab(1)])
    then show ?thesis using ab(1) act idle(2) [of a] act_init [of a] by (simp add: eb_abs_def enter_fields v)
  next
    case 2
    then have "t = enter (init_entry pin lev b) (s\<lparr>eb_leds := [a, init_entry pin lev b]\<rparr>)" "\<not> act b"
      using e idle(1) [OF _ ab(3)] by (simp_all add: init_led_cases [OF ab(1)])
    then show ?thesis using ab(1) act idle(2) [of b] act_init [of b] by (simp add: eb_abs_def enter_fields v)
  next
    case 3
    then show ?thesis using e by (simp add: init_led_cases [OF ab(1)])
  qed
  then show ?thesis by (simp add: ideal.stutter)
qed

lemma eb_step_refines:
  assumes "eb_step s t" "eb_inv s"
  shows "ideal (eb_abs s) (eb_abs t)"
  using assms(1)
proof cases
  case run
  then show ?thesis using daemon_step_refines assms(2) by blast
next
  case (tick w t0)
  then show ?thesis using tick_refines assms(2) by blast
next
  case (init pin lev i)
  then show ?thesis using easyblink_init_led_refines assms(2) by blast
next
  case (blink i n p d)
  from blink(2,3) have "i = 0 \<or> i = 1" by linarith
  then show ?thesis using easyblink_refines [OF assms(2) blink(1) _ blink(4,10,7-9)] by blast
next
  case (stop i)
  from stop(2,3) have "i = 0 \<or> i = 1" by linarith
  then show ?thesis using easyblink_stop_refines [OF assms(2) _ stop(5)] by blast
qed

section \<open>Runs\<close>

lemma reachable_inv: "eb_run (eb_start g) s \<Longrightarrow> eb_inv s"
  using eb_run_inv eb_inv_start by blast

section \<open>The beats of one LED\<close>

text \<open>A beat is the LED's switching at its next deadline, with the time it happens.\<close>

definition beat :: "led \<times> pins \<times> int \<Rightarrow> led \<times> pins \<times> int" where
  "beat x = (case x of (l, g, t) \<Rightarrow> case switch_led (ticks l) l g of (l', g') \<Rightarrow> (l', g', t + ticks l))"

definition params :: "led \<Rightarrow> int list" where
  "params l = [led_pin l, active_level l, pulse l, npulse l, nums_bak l, pulse_bak l, npulse_bak l]"

definition beating :: "bool \<Rightarrow> int \<Rightarrow> int list \<Rightarrow> led \<Rightarrow> bool" where
  "beating b m ps l \<longleftrightarrow> led_ok l \<and> act l \<and> dark l = b \<and> nums l = m \<and> params l = ps"

abbreviation "lit l g \<equiv> g (led_pin l) = active_level l"

lemma beat_switched:
  assumes "led_ok l" "act l"
  shows "beat (l, g, t) = (fst (switched (l\<lparr>ticks := 0\<rparr>) g), snd (switched (l\<lparr>ticks := 0\<rparr>) g), t + ticks l)"
  using assms by (simp add: beat_def switch_led_due split: prod.split)

lemma beat_on:
  assumes "beating True m ps l" "0 < m"
  obtains l' g' where "beat (l, g, t) = (l', g', t + ticks l)" "beating False m ps l'" "ticks l' = pulse l" "lit l' g'"
  using assms
  by (auto simp: beating_def beat_switched switched_def led_ok_def params_def eb_led_on_def gpio_set_def)

lemma beat_off:
  assumes "beating False m ps l" "0 < m"
  obtains l' g' where "beat (l, g, t) = (l', g', t + ticks l)" "beating True (m - 1) ps l'" "ticks l' = npulse l"
    "g' (led_pin l') = 1 - active_level l'"
  using assms
  by (auto simp: beating_def beat_switched switched_def led_ok_def params_def eb_led_off_def gpio_set_def)

lemma beat_last:
  assumes "beating True 0 ps l" "pulse_bak l = 0"
  obtains l' where "beat (l, g, t) = (l', g, t + ticks l)" "\<not> act l'"
  using assms by (auto simp: beating_def beat_switched switched_def led_ok_def)

lemma beat_resume:
  assumes "beating True 0 ps l" "pulse_bak l \<noteq> 0"
  obtains l' where "beat (l, g, t) = (l', g, t + ticks l)" "act l'" "dark l'" "nums l' = nums_bak l" "pulse l' = pulse_bak l"
    "npulse l' = npulse_bak l" "ticks l' = (if nums_bak l = - 1 then 5000 else 0)"
  using assms by (auto simp: beating_def beat_switched switched_def led_ok_def)

lemma beating_same:
  assumes "beating b m ps l" "beating c k ps l'"
  shows "led_pin l' = led_pin l" "active_level l' = active_level l" "pulse l' = pulse l" "npulse l' = npulse l"
    "nums_bak l' = nums_bak l" "pulse_bak l' = pulse_bak l" "npulse_bak l' = npulse_bak l"
  using assms by (auto simp: beating_def params_def)

text \<open>Each blink is two beats.\<close>

lemma one_blink:
  assumes "beating True m ps l" "0 < m"
  obtains l1 g1 l2 g2 where
    "beat (l, g, t) = (l1, g1, t + ticks l)" "beating False m ps l1" "lit l1 g1"
    "beat (l1, g1, t + ticks l) = (l2, g2, t + ticks l + pulse l)" "beating True (m - 1) ps l2" "ticks l2 = npulse l"
    "g2 (led_pin l2) = 1 - active_level l2"
proof -
  obtain l1 g1 where 1: "beat (l, g, t) = (l1, g1, t + ticks l)" "beating False m ps l1" "ticks l1 = pulse l" "lit l1 g1"
    by (rule beat_on [OF assms])
  obtain l2 g2 where 2: "beat (l1, g1, t + ticks l) = (l2, g2, t + ticks l + ticks l1)" "beating True (m - 1) ps l2"
      "ticks l2 = npulse l1" "g2 (led_pin l2) = 1 - active_level l2"
    by (rule beat_off [OF 1(2) assms(2)])
  have q: "ticks l2 = npulse l" "ticks l1 = pulse l" using 1(3) 2(3) beating_same [OF assms(1) 1(2)] by simp_all
  show ?thesis by (rule that [OF 1(1,2,4) 2(1) [unfolded q(2)] 2(2) q(1) 2(4)])
qed

definition blinked :: "nat \<Rightarrow> int \<Rightarrow> int list \<Rightarrow> led \<Rightarrow> int \<Rightarrow> led \<times> pins \<times> int \<Rightarrow> bool" where
  "blinked j n ps l t x \<longleftrightarrow> (case x of (l', g', t') \<Rightarrow> beating True (n - int j) ps l'
     \<and> t' + ticks l' = t + ticks l + int j * (pulse l + npulse l)
     \<and> (0 < j \<longrightarrow> g' (led_pin l') = 1 - active_level l' \<and> t' = t + ticks l + (int j - 1) * (pulse l + npulse l) + pulse l))"

lemma blinks:
  assumes "beating True n ps l"
  shows "int j \<le> n \<Longrightarrow> blinked j n ps l t ((beat ^^ (2 * j)) (l, g, t))"
proof (induction j)
  case 0
  then show ?case using assms by (simp add: blinked_def)
next
  case (Suc j)
  obtain l' g' t' where x: "(beat ^^ (2 * j)) (l, g, t) = (l', g', t')" by (metis prod_cases3)
  with Suc have IH: "beating True (n - int j) ps l'" "t' + ticks l' = t + ticks l + int j * (pulse l + npulse l)"
    by (simp_all add: blinked_def)
  have m: "0 < n - int j" using Suc.prems by simp
  obtain l1 g1 l2 g2 where b: "beat (l', g', t') = (l1, g1, t' + ticks l')"
      "beat (l1, g1, t' + ticks l') = (l2, g2, t' + ticks l' + pulse l')" "beating True (n - int j - 1) ps l2"
      "ticks l2 = npulse l'" "g2 (led_pin l2) = 1 - active_level l2"
    by (rule one_blink [OF IH(1) m])
  have "(beat ^^ (2 * Suc j)) (l, g, t) = (l2, g2, t' + ticks l' + pulse l')" by (simp add: x b(1,2))
  moreover have "n - int (Suc j) = n - int j - 1" by simp
  ultimately show ?case
    using b(3-5) IH(2) beating_same [OF assms IH(1)] by (simp add: blinked_def algebra_simps)
qed

text \<open>The lit half of blink \<open>j\<close>.\<close>

lemma blink_lit:
  assumes "beating True n ps l" "int j < n"
  shows "case (beat ^^ (2 * j + 1)) (l, g, t) of (l', g', t') \<Rightarrow>
     act l' \<and> lit l' g' \<and> t' = t + ticks l + int j * (pulse l + npulse l) \<and> led_pin l' = led_pin l \<and> active_level l' = active_level l"
proof -
  obtain l' g' t' where x: "(beat ^^ (2 * j)) (l, g, t) = (l', g', t')" by (metis prod_cases3)
  have B: "beating True (n - int j) ps l'" "t' + ticks l' = t + ticks l + int j * (pulse l + npulse l)"
    using blinks [OF assms(1), of j t g] assms(2) by (simp_all add: blinked_def x)
  have m: "0 < n - int j" using assms(2) by simp
  obtain l1 g1 where b: "beat (l', g', t') = (l1, g1, t' + ticks l')" "beating False (n - int j) ps l1" "lit l1 g1"
    by (rule one_blink [OF B(1) m])
  then show ?thesis using x B(2) beating_same [OF assms(1) b(2)] by (simp add: beating_def)
qed

lemma start_beating:
  fixes nb pb qb
  assumes "led_ok l" "inited l" "0 < n" "n \<le> 32767" "0 \<le> p" "p \<le> d" "d \<le> 65535" "delay = 0 \<or> delay = 500"
    "- 32768 \<le> nb" "nb \<le> 32767" "0 \<le> pb" "pb \<le> 65535" "0 \<le> qb" "qb \<le> 65535"
  defines "l' \<equiv> l\<lparr>nums_bak := nb, pulse_bak := pb, npulse_bak := qb\<rparr>"
  shows "beating True n [led_pin l, active_level l, p, d - p, nb, pb, qb] (start_led delay n p d l')"
    "ticks (start_led delay n p d l') = delay"
  using assms by (auto simp: start_led_def led_delay_def blink_data_set_def led_ok_def beating_def params_def)

lemma call_index:
  assumes "eb_inv s" "i = 0 \<or> i = 1" "inited (eb_leds s ! nat i)"
  obtains k where "length (eb_leds s) = 2" "eb_sem s = Some k" "led_ok (eb_leds s ! nat i)" "nat i < length (eb_leds s)"
proof -
  from assms(1) obtain a b where ab: "eb_leds s = [a, b]" "led_ok a" "led_ok b" "inited a \<or> inited b \<longrightarrow> eb_thread s"
      "eb_thread s \<longrightarrow> (\<exists>n \<ge> 0. eb_sem s = Some n)"
    by (rule eb_inv_cases)
  have "eb_thread s" using ab(1,4) assms(2,3) by auto
  then obtain k where "eb_sem s = Some k" using ab(5) by blast
  with that show ?thesis using ab(1-3) assms(2) by auto
qed

definition beats :: "nat \<Rightarrow> int \<Rightarrow> blinker \<Rightarrow> led \<times> pins \<times> int" where
  "beats k i s = (beat ^^ k) (eb_leds s ! nat i, pin_level s, now s)"

definition light_at :: "bool \<Rightarrow> led \<Rightarrow> int \<Rightarrow> led \<times> pins \<times> int \<Rightarrow> bool" where
  "light_at on l t x \<longleftrightarrow> (case x of (l', g', t') \<Rightarrow>
     t' = t \<and> g' (led_pin l) = (if on then active_level l else 1 - active_level l))"

lemma blink_lights:
  assumes "beating True n ps l" "int j < n"
  shows "light_at True l (t + ticks l + int j * (pulse l + npulse l)) ((beat ^^ (2 * j + 1)) (l, g, t))"
    "light_at False l (t + ticks l + int j * (pulse l + npulse l) + pulse l) ((beat ^^ (2 * j + 2)) (l, g, t))"
proof -
  obtain l' g' t' where x: "(beat ^^ (2 * Suc j)) (l, g, t) = (l', g', t')" by (metis prod_cases3)
  have B: "beating True (n - int (Suc j)) ps l'" "g' (led_pin l') = 1 - active_level l'"
      "t' = t + ticks l + int j * (pulse l + npulse l) + pulse l"
    using blinks [OF assms(1), of "Suc j" t g, unfolded x] assms(2) by (simp_all add: blinked_def)
  have "(beat ^^ (2 * j + 2)) (l, g, t) = (l', g', t')" using x by simp
  then show "light_at False l (t + ticks l + int j * (pulse l + npulse l) + pulse l) ((beat ^^ (2 * j + 2)) (l, g, t))"
    using B beating_same [OF assms(1) B(1)] by (simp add: light_at_def del: funpow.simps)
  show "light_at True l (t + ticks l + int j * (pulse l + npulse l)) ((beat ^^ (2 * j + 1)) (l, g, t))"
    using blink_lit [OF assms, where g = g and t = t] by (auto simp: light_at_def simp del: funpow.simps split: prod.splits)
qed

lemma blinks_over:
  assumes "beating True n ps l" "0 \<le> n"
  obtains l' g' t' where "(beat ^^ (2 * nat n)) (l, g, t) = (l', g', t')" "beating True 0 ps l'"
    "t' + ticks l' = t + ticks l + n * (pulse l + npulse l)"
proof -
  obtain l' g' t' where x: "(beat ^^ (2 * nat n)) (l, g, t) = (l', g', t')" by (metis prod_cases3)
  show ?thesis using blinks [OF assms(1), of "nat n" t g] assms(2)
    by (intro that [OF x]) (simp_all add: blinked_def x)
qed

section \<open>Properties\<close>

text \<open>
  C20: The clock may tick at any time, however late the daemon is, and LEDs may be initialised, blinked, stopped and
  deinitialised between any two steps of the daemon, its switching loop being one step.  In every state reached from any start: an initialised LED is driven to
  its active level while it is in a pulse, and a high-active one is driven low whenever it is not; every call of \<open>easyblink\<close> and
  \<open>easyblink_stop\<close> on it goes through, and a stopped LED is off; an LED that shows its state (on in a pulse, off outside) shows it
  after every further step for as long as it is initialised; and the daemon stops only to wait for a time that lies ahead with the
  semaphore down.  A low-active LED is left out of the second clause because the initialisation drives its pin low: it
  is lit until its first stop or until the end of its first pulse.
\<close>

theorem blinker_safe:
  assumes "eb_any_run (eb_start g) s"
  shows "(\<forall>i. (i = 0 \<or> i = 1) \<and> inited (eb_leds s ! nat i) \<longrightarrow>
        (let l = eb_leds s ! nat i; level = pin_level s (led_pin l); pulse = act l \<and> \<not> dark l in
           (pulse \<longrightarrow> level = active_level l) \<and> (\<not> pulse \<and> active_level l = 1 \<longrightarrow> level = 0))
        \<and> (\<forall>n p d. p \<le> d \<longrightarrow> easyblink i n p d s \<noteq> None) \<and> runs (easyblink_stop i s) (showing_at i))
    \<and> (\<forall>i t. (i = 0 \<or> i = 1) \<and> showing_at i s \<and> eb_any s t \<and> inited (eb_leds t ! nat i) \<longrightarrow> showing_at i t)
    \<and> (eb_thread s \<and> daemon_step s = None \<longrightarrow> (\<exists>w t. daemon s = Waiting w t \<and> now s < t + w \<and> eb_sem s = Some 0))"
proof -
  have safe: "eb_safe s" by (rule eb_any_run_safe [OF assms]) simp
  show ?thesis
  proof (intro conjI allI impI; (elim conjE)?)
    fix i :: int
    assume i: "i = 0 \<or> i = 1" "inited (eb_leds s ! nat i)"
    obtain k where k: "length (eb_leds s) = 2" "eb_sem s = Some k" "light_ok (eb_leds s ! nat i) (pin_level s)"
      by (rule call_safe_index [OF safe i])
    show "let l = eb_leds s ! nat i; level = pin_level s (led_pin l); pulse = act l \<and> \<not> dark l in
           (pulse \<longrightarrow> level = active_level l) \<and> (\<not> pulse \<and> active_level l = 1 \<longrightarrow> level = 0)"
      using k(3) i(2) by (simp add: light_ok_def Let_def)
    show "easyblink i n p d s \<noteq> None" if "p \<le> d" for n p d
      using easyblink_cases [OF k(1) i(1) k(2) that, of n] by simp
    show "runs (easyblink_stop i s) (showing_at i)"
      using easyblink_stop_safe [OF safe i] easyblink_stop_showing(2) [OF safe i(1) i] by (auto elim!: runsE)
  qed (use eb_any_showing [OF _ safe] daemon_step_safe [OF safe] in auto)
qed

text \<open>
  C21: With a daemon that runs, when it is ready, before the next tick, and calls that come while it is not switching, it
  refines the ideal scheduler: every step of a run leaves the absolute schedule as it is, or makes exactly the change due
  now on every LED whose deadline is now (from dark to a pulse of the LED's width, from the pulse to its gap with one blink
  less to go, to the queued blink, or to rest), or makes the request or the halt that was called for; and a tick passes
  only when no deadline is now.
\<close>

theorem blinker_refines:
  assumes "eb_run (eb_start g) s" "eb_step s t"
  shows "ideal (eb_abs s) (eb_abs t)"
  using eb_step_refines [OF assms(2) reachable_inv [OF assms(1)]] .

text \<open>No deadline is missed: in every state of a run the next change of each active LED is
  now or ahead.\<close>

theorem no_deadline_missed:
  assumes "eb_run (eb_start g) s" "l \<in> set (eb_leds s)" "act l"
  shows "now s \<le> base s l + ticks l"
proof -
  from reachable_inv [OF assms(1)] obtain a b where ab: "eb_leds s = [a, b]" "led_ok a" "led_ok b" "time_ok s a" "time_ok s b"
    "daemon_ok s" by (rule eb_inv_cases)
  then have "led_ok l" "time_ok s l" using assms(2) by auto
  then show ?thesis using ab(6) assms(3)
    by (auto simp: led_ok_def time_ok_def daemon_ok_def base_def split: daemon.splits)
qed

text \<open>C22: A call for \<open>n\<close> blinks on an idle LED gives exactly \<open>n\<close> blinks: the LED's switchings
  light it at \<open>0, d, 2 d, ...\<close> after the call and darken it \<open>p\<close> later each time, and the LED is
  idle again after \<open>n\<close> periods.\<close>

theorem blink_schedule:
  assumes "eb_run (eb_start g) s" "i = 0 \<or> i = 1" "inited (eb_leds s ! nat i)" "\<not> act (eb_leds s ! nat i)"
    "nums (eb_leds s ! nat i) \<noteq> - 1" "0 < n" "n \<le> 32767" "0 \<le> p" "p \<le> d" "d \<le> 65535" "easyblink i n p d s = Some t"
  shows "(\<forall>j. int j < n \<longrightarrow> light_at True (eb_leds s ! nat i) (now s + int j * d) (beats (2 * j + 1) i t)
           \<and> light_at False (eb_leds s ! nat i) (now s + int j * d + p) (beats (2 * j + 2) i t))
    \<and> (case beats (2 * nat n + 1) i t of (l, g, t') \<Rightarrow> \<not> act l \<and> t' = now s + n * d)"
proof -
  define l where "l = eb_leds s ! nat i"
  define l' where "l' = start_led 0 n p d l"
  define ps where "ps = [led_pin l, active_level l, p, d - p, nums_bak l, pulse_bak l, npulse_bak l]"
  obtain k where k: "length (eb_leds s) = 2" "eb_sem s = Some k" "led_ok l" "nat i < length (eb_leds s)"
    using call_index [OF reachable_inv [OF assms(1)] assms(2,3)] unfolding l_def by metis
  have t: "eb_leds t ! nat i = l'" "now t = now s" "pin_level t = pin_level s"
    using easyblink_cases [OF k(1) assms(2) k(2) assms(9), of n] assms(4,5,11) k(4) by (simp_all add: l'_def l_def)
  have B: "beating True n ps l'" "ticks l' = 0"
    using start_beating [of l n p d 0 "nums_bak l" "pulse_bak l" "npulse_bak l"] k(3) assms(3,6-10)
    by (simp_all add: l_def l'_def ps_def led_ok_def)
  then have P: "pulse l' = p" "npulse l' = d - p" "led_pin l' = led_pin l" "active_level l' = active_level l" "pulse_bak l' = 0"
    using k(3) assms(4) by (simp_all add: beating_def params_def ps_def led_ok_def l_def)
  have "light_at b l' = light_at b l" for b using P by (simp add: light_at_def fun_eq_iff)
  then have L: "int j < n \<Longrightarrow> light_at True l (now s + int j * d) (beats (2 * j + 1) i t)"
      "int j < n \<Longrightarrow> light_at False l (now s + int j * d + p) (beats (2 * j + 2) i t)" for j
    using blink_lights [OF B(1), of j "now s" "pin_level s"] P B(2) by (simp_all add: beats_def t del: funpow.simps)
  obtain l2 g2 t2 where x: "(beat ^^ (2 * nat n)) (l', pin_level s, now s) = (l2, g2, t2)" "beating True 0 ps l2"
      "t2 + ticks l2 = now s + ticks l' + n * (pulse l' + npulse l')"
    by (rule blinks_over [OF B(1), of "pin_level s" "now s"]) (use assms(6) in simp_all)
  obtain l3 where e: "beat (l2, g2, t2) = (l3, g2, t2 + ticks l2)" "\<not> act l3"
    by (rule beat_last [OF x(2)]) (use beating_same [OF B(1) x(2)] P in simp)
  have "case beats (2 * nat n + 1) i t of (l, g, t') \<Rightarrow> \<not> act l \<and> t' = now s + n * d"
    using x e B(2) P by (simp add: beats_def t)
  with L show ?thesis by (simp add: l_def)
qed

text \<open>C23: \<open>easyblink_stop\<close> does not end an endless blink for good: after it, a call for \<open>n\<close> blinks
  makes the LED take up the endless blink again when they are over.\<close>

theorem stopped_blink_resumes:
  assumes "eb_run (eb_start g) s" "idle_daemon s" "i = 0 \<or> i = 1" "inited (eb_leds s ! nat i)" "nums (eb_leds s ! nat i) = - 1"
    "0 < pulse (eb_leds s ! nat i)" "easyblink_stop i s = Some u"
    "0 < n" "n \<le> 32767" "0 \<le> p" "p \<le> d" "d \<le> 65535" "easyblink i n p d u = Some t"
  shows "case beats (2 * nat n + 1) i t of (l, g, t') \<Rightarrow>
    act l \<and> nums l = - 1 \<and> pulse l = pulse (eb_leds s ! nat i) \<and> t' = now s + 500 + n * d"
proof -
  define k where "k = eb_leds u ! nat i"
  define l where "l = start_led 500 n p d (k\<lparr>nums_bak := nums k, pulse_bak := pulse k, npulse_bak := npulse k\<rparr>)"
  define ps where "ps = [led_pin k, active_level k, p, d - p, nums k, pulse k, npulse k]"
  note inv = reachable_inv [OF assms(1)]
  then obtain a b where ab: "eb_leds s = [a, b]" by (rule eb_inv_cases)
  have u: "k = clear_flag EB_ACTIVE ((eb_leds s ! nat i)\<lparr>nums_bak := 0, pulse_bak := 0, npulse_bak := 0\<rparr>)" "now u = now s"
    using assms(3,7) ab by (auto simp: easyblink_stop_def k_def Let_def)
  have inv': "eb_inv u" using easyblink_stop_inv [OF inv assms(2-4,7)] .
  have ki: "inited k" using assms(4) u(1) by simp
  obtain m where m: "length (eb_leds u) = 2" "eb_sem u = Some m" "led_ok k" "nat i < length (eb_leds u)"
    using call_index [OF inv' assms(3)] ki unfolding k_def by metis
  have t: "eb_leds t ! nat i = l" "now t = now u"
    using easyblink_cases [OF m(1) assms(3) m(2) assms(11), of n] assms(5,13) m(4) u(1) by (simp_all add: l_def k_def)
  have B: "beating True n ps l" "ticks l = 500"
    using start_beating [of k n p d 500 "nums k" "pulse k" "npulse k"] m(3) ki assms(8-12)
    by (simp_all add: l_def ps_def led_ok_def)
  then have P: "pulse l = p" "npulse l = d - p" "nums_bak l = - 1" "pulse_bak l = pulse (eb_leds s ! nat i)"
    using u(1) assms(5) by (simp_all add: beating_def params_def ps_def)
  obtain l2 g2 t2 where x: "(beat ^^ (2 * nat n)) (l, pin_level t, now s) = (l2, g2, t2)" "beating True 0 ps l2"
      "t2 + ticks l2 = now s + ticks l + n * (pulse l + npulse l)"
    by (rule blinks_over [OF B(1), of "pin_level t" "now s"]) (use assms(8) in simp_all)
  note same = beating_same [OF B(1) x(2)]
  obtain l3 where e: "beat (l2, g2, t2) = (l3, g2, t2 + ticks l2)" "act l3" "nums l3 = nums_bak l2" "pulse l3 = pulse_bak l2"
    by (rule beat_resume [OF x(2)]) (use same P assms(6) in simp_all)
  show ?thesis using x e B(2) P same u(2) by (simp add: beats_def t)
qed

section \<open>Witnesses\<close>

text \<open>A run: an LED on pin 5, lit by a high level, is initialised and set blinking.\<close>

definition demo_led :: led where
  "demo_led = init_entry 5 1 led_zero"

definition demo0 :: blinker where
  "demo0 = enter demo_led ((eb_start (\<lambda>_. 0))\<lparr>eb_leds := [demo_led, led_zero]\<rparr>)"

definition demo1 :: blinker where
  "demo1 = demo0\<lparr>eb_leds := [start_led 0 (- 1) 200 500 demo_led, led_zero], eb_sem := Some 1\<rparr>"

lemma zero_bits [simp]: "\<not> bit (flag led_zero) k" "led_ok led_zero"
  by (simp_all add: led_zero_def led_ok_def)

lemma demo_bits [simp]:
  "bit (flag demo_led) 0" "\<not> bit (flag demo_led) (Suc 0)" "nums demo_led = 0" "bit (flag (start_led x n p d demo_led)) 0"
  "nums (start_led x n p d demo_led) = n" "0 \<le> p \<Longrightarrow> p \<le> 65535 \<Longrightarrow> pulse (start_led x n p d demo_led) = p"
  "bit (flag (start_led x n p d demo_led)) (Suc 0)"
  by (simp_all add: demo_led_def init_entry_def led_zero_def start_led_def led_delay_def blink_data_set_def)

lemma demo0_fields [simp]: "eb_leds demo0 = [demo_led, led_zero]" "idle_daemon demo0" "eb_sem demo0 = Some 0" "now demo0 = 0"
  by (simp_all add: demo0_def enter_fields idle_daemon_def eb_start_def)

lemma demo1_fields [simp]: "eb_leds demo1 = [start_led 0 (- 1) 200 500 demo_led, led_zero]" "idle_daemon demo1" "eb_sem demo1 = Some 1" "now demo1 = 0"
  by (simp_all add: demo1_def) (simp add: demo0_def enter_fields idle_daemon_def eb_start_def)

lemma demo0_run: "eb_run (eb_start (\<lambda>_. 0)) demo0"
proof (rule eb_run.step [OF eb_run.refl], rule eb_step.init)
  show "easyblink_init_led 5 1 (eb_start (\<lambda>_. 0)) = Some (0, demo0)"
    by (simp add: init_led_cases [of _ led_zero led_zero] demo0_def demo_led_def eb_start_def)
qed (simp_all add: eb_start_def idle_daemon_def free_pin_def)

lemma demo1_step: "easyblink 0 (- 1) 200 500 demo0 = Some demo1"
  by (simp add: easyblink_cases [of _ _ 0] demo1_def)

lemma demo1_run: "eb_run (eb_start (\<lambda>_. 0)) demo1"
  by (rule eb_run.step [OF demo0_run], rule eb_step.blink [OF _ _ _ _ _ _ _ _ _ demo1_step]) simp_all

text \<open>The clock runs on for a tick while the daemon is ready: it is late.\<close>

lemma late_run: "eb_any_run (eb_start (\<lambda>_. 0)) (demo1\<lparr>now := 1\<rparr>)"
  using eb_any_run.step [OF eb_run_any [OF demo1_run] eb_any.tick] by simp

lemma blinker_safe_witness:
  "pin_level (demo1\<lparr>now := 1\<rparr>) 5 = 0 \<and> easyblink 0 3 100 200 (demo1\<lparr>now := 1\<rparr>) \<noteq> None
    \<and> runs (easyblink_stop 0 (demo1\<lparr>now := 1\<rparr>)) (showing_at 0)"
proof -
  have l: "led_pin (start_led 0 (- 1) 200 500 demo_led) = 5" "active_level (start_led 0 (- 1) 200 500 demo_led) = 1"
    "dark (start_led 0 (- 1) 200 500 demo_led)"
    by (simp_all add: start_led_def led_delay_def blink_data_set_def demo_led_def init_entry_def)
  show ?thesis using blinker_safe [OF late_run] l by (auto simp: Let_def dest: spec [where x = 0])
qed

lemma blinker_refines_witness:
  "ideal (eb_abs demo0) (eb_abs demo1)
    \<and> eb_abs demo1 = (0, (snd (eb_abs demo0))[0 := request 0 (- 1) 200 500 (snd (eb_abs demo0) ! 0)])"
proof (rule conjI)
  show "ideal (eb_abs demo0) (eb_abs demo1)"
    by (rule blinker_refines [OF demo0_run], rule eb_step.blink [OF _ _ _ _ _ _ _ _ _ demo1_step]) simp_all
  show "eb_abs demo1 = (0, (snd (eb_abs demo0))[0 := request 0 (- 1) 200 500 (snd (eb_abs demo0) ! 0)])"
    by (simp add: eb_abs_def request_def view_def base_def demo1_def start_led_def led_delay_def blink_data_set_def)
      (simp add: demo0_def enter_fields eb_start_def demo_led_def init_entry_def led_zero_def)
qed

lemma no_deadline_missed_witness:
  "0 \<le> base demo1 (start_led 0 (- 1) 200 500 demo_led) + ticks (start_led 0 (- 1) 200 500 demo_led)"
  using no_deadline_missed [OF demo1_run, of "start_led 0 (- 1) 200 500 demo_led"] by simp

lemma blink_schedule_witness:
  "light_at True demo_led 1000 (beats 5 0 (demo0\<lparr>eb_leds := [start_led 0 3 200 500 demo_led, led_zero], eb_sem := Some 1\<rparr>))"
  using blink_schedule [OF demo0_run, of 0 3 200 500 "demo0\<lparr>eb_leds := [start_led 0 3 200 500 demo_led, led_zero], eb_sem := Some 1\<rparr>"]
  by (auto simp: easyblink_cases [of _ _ 0] numeral_eq_Suc dest!: spec [where x = 2])

definition demo2 :: blinker where
  "demo2 = the (easyblink_stop 0 demo1)"

lemma stopped_blink_resumes_witness:
  "case beats 5 0 (the (easyblink 0 2 100 300 demo2)) of (l, g, t') \<Rightarrow> act l \<and> nums l = - 1 \<and> pulse l = 200 \<and> t' = 1100"
proof -
  have u: "easyblink_stop 0 demo1 = Some demo2"
    by (simp add: demo2_def easyblink_stop_def Let_def)
  have "eb_inv demo2" using easyblink_stop_inv [OF reachable_inv [OF demo1_run] _ _ _ u] by simp
  moreover have "inited (eb_leds demo2 ! nat 0)" by (simp add: demo2_def easyblink_stop_def Let_def)
  ultimately obtain k where k: "length (eb_leds demo2) = 2" "eb_sem demo2 = Some k"
    using call_index [of demo2 0] by blast
  obtain t where t: "easyblink 0 2 100 300 demo2 = Some t"
    using easyblink_cases [OF k(1) _ k(2), of 0 100 300 2] by simp
  show ?thesis using stopped_blink_resumes [OF demo1_run _ _ _ _ _ u _ _ _ _ _ t] t by (simp add: numeral_eq_Suc)
qed

end
