(* ===== verification/Upload.thy ===== *)
theory Upload
  imports FindLines Util
begin

text \<open>
  The outputs of \<open>util.c\<close>: the images sent over \<open>USART_1\<close>, with the markers of the program's own
  viewer or the preamble of the camera vendor's, and the printed road widths.  What leaves on
  the console and the port is a list.
\<close>

datatype out = Text string | Byte int | Number int | Click int int int

definition put_image :: "(int \<Rightarrow> int \<Rightarrow> int) \<Rightarrow> out list \<Rightarrow> out list option" where
  "put_image f os = for_up (\<lambda>i os. do {
       os \<leftarrow> for_up (\<lambda>j os. Some (Next (os @ [Byte (f i j)]))) 0 160 os;
       Some (Next os) }) 0 120 os"

definition bin_byte :: "image \<Rightarrow> int \<Rightarrow> int \<Rightarrow> int" where
  "bin_byte im i j = (if px im i j \<noteq> 0 then 255 else 0)"

definition upload_my_bin :: "image \<Rightarrow> out list \<Rightarrow> out list option" where
  "upload_my_bin bin os = do {
     let os = os @ [Text ''START''];
     os \<leftarrow> put_image (bin_byte bin) os;
     Some (os @ [Text (''END'' @ [CHR 0x0A])]) }"

definition upload_my_gray :: "image \<Rightarrow> out list \<Rightarrow> out list option" where
  "upload_my_gray im os = do {
     let os = os @ [Text ''START''];
     os \<leftarrow> put_image (px im) os;
     Some (os @ [Text (''END'' @ [CHR 0x0A])]) }"

definition upload_zf_bin :: "image \<Rightarrow> out list \<Rightarrow> out list option" where
  "upload_zf_bin bin os = put_image (bin_byte bin) (os @ [Byte 0, Byte 255, Byte 1, Byte 1])"

definition upload_zf_gray :: "image \<Rightarrow> out list \<Rightarrow> out list option" where
  "upload_zf_gray im os = put_image (px im) (os @ [Byte 0, Byte 255, Byte 1, Byte 1])"

definition test_road_width :: "lines \<Rightarrow> out list \<Rightarrow> out list option" where
  "test_road_width s os = for_up (\<lambda>i os. do {
       r \<leftarrow> c_get (rightline (f1 s)) i;
       l \<leftarrow> c_get (leftline (f1 s)) i;
       Some (Next (os @ [Number ((r - l) sdiv 2)])) }) 0 120 os"

section \<open>What is sent\<close>

lemma for_up_append:
  assumes "\<And>i os. lo \<le> i \<Longrightarrow> i < hi \<Longrightarrow> body i os = Some (Next (os @ g i))"
  shows "for_up body lo hi os = Some (os @ concat (map g [lo..hi - 1]))"
  using assms
proof (induction "nat (hi - lo)" arbitrary: lo os)
  case 0
  then show ?case by (simp add: for_up_done)
next
  case (Suc n)
  then have n: "n = nat (hi - (lo + 1))" and lt: "lo < hi" by linarith+
  have "for_up body (lo + 1) hi (os @ g lo) = Some ((os @ g lo) @ concat (map g [lo + 1..hi - 1]))"
    by (rule Suc.hyps(1) [OF n]) (use Suc.prems in auto)
  then show ?case using lt Suc.prems [of lo os] by (simp add: for_up_next upto.simps [of lo])
qed

text \<open>All pixels, row by row.\<close>

definition pixels :: "(int \<Rightarrow> int \<Rightarrow> int) \<Rightarrow> out list" where
  "pixels f = concat (map (\<lambda>i. map (\<lambda>j. Byte (f i j)) [0..159]) [0..119])"

lemma put_image_pixels: "put_image f os = Some (os @ pixels f)"
proof -
  have "for_up (\<lambda>j os. Some (Next (os @ [Byte (f i j)]))) 0 160 os = Some (os @ map (\<lambda>j. Byte (f i j)) [0..159])" for i os
    by (subst for_up_append [where g = "\<lambda>j. [Byte (f i j)]"]) simp_all
  then show ?thesis unfolding put_image_def pixels_def
    by (subst for_up_append [where g = "\<lambda>i. map (\<lambda>j. Byte (f i j)) [0..159]"]) simp_all
qed

lemma length_concat_rows: "(\<And>r. r \<in> set rows \<Longrightarrow> length r = w) \<Longrightarrow> length (concat rows) = length rows * w"
  by (induction rows) auto

lemma nth_concat_rows:
  assumes "\<And>r. r \<in> set rows \<Longrightarrow> length r = w" "i < length rows" "j < w"
  shows "concat rows ! (i * w + j) = rows ! i ! j"
  using assms
proof (induction rows arbitrary: i)
  case (Cons r rows)
  then show ?case using Cons.IH [of "i - 1"] by (cases i) (auto simp: nth_append)
qed simp

lemma pixels_nth:
  assumes "0 \<le> i" "i < 120" "0 \<le> j" "j < 160"
  shows "pixels f ! nat (i * 160 + j) = Byte (f i j)" "length (pixels f) = 19200"
proof -
  have n: "nat (i * 160 + j) = nat i * 160 + nat j" using assms by (simp add: nat_add_distrib nat_mult_distrib)
  have [simp]: "nat i < 120" "nat j < 160" using assms by auto
  show "pixels f ! nat (i * 160 + j) = Byte (f i j)" unfolding pixels_def n
    by (subst nth_concat_rows) (use assms in \<open>auto simp: nth_upto\<close>)
  show "length (pixels f) = 19200" unfolding pixels_def
    by (subst length_concat_rows [where w = 160]) auto
qed

text \<open>The viewer's reading of an upload: drop the marker, cut the bytes into rows.\<close>

definition received :: "nat \<Rightarrow> out list \<Rightarrow> int \<Rightarrow> int \<Rightarrow> out" where
  "received skip os i j = os ! (skip + nat (i * 160 + j))"

lemma pixels_flat: "pixels f = map (\<lambda>k. Byte (f (k div 160) (k mod 160))) [0..19199]"
proof (rule nth_equalityI)
  show "length (pixels f) = length (map (\<lambda>k. Byte (f (k div 160) (k mod 160))) [0..19199])"
    using pixels_nth(2) [of 0 0] by simp
  fix n assume "n < length (pixels f)"
  then have n: "n < 19200" using pixels_nth(2) [of 0 0] by simp
  define i where "i = int n div 160"
  define j where "j = int n mod 160"
  have ij: "0 \<le> i" "i < 120" "0 \<le> j" "j < 160" "int n = i * 160 + j" using n by (auto simp: i_def j_def)
  have "pixels f ! n = Byte (f i j)" using pixels_nth(1) [OF ij(1-4), of f] by (simp flip: ij(5))
  then show "pixels f ! n = map (\<lambda>k. Byte (f (k div 160) (k mod 160))) [0..19199] ! n"
    using n by (simp add: i_def j_def)
qed

lemma put_px: "put_image (px im) os = Some (os @ map (\<lambda>k. Byte (uint (im k))) [0..19199])"
  by (simp add: put_image_pixels pixels_flat px_def)

lemma put_bin: "put_image (bin_byte im) os = Some (os @ map (\<lambda>k. Byte (if im k = 0 then 0 else 255)) [0..19199])"
proof -
  have "uint x = 0 \<longleftrightarrow> x = 0" for x :: "8 word" by (rule unsigned_eq_0_iff)
  then show ?thesis by (simp add: put_image_pixels pixels_flat bin_byte_def px_def if_distrib cong: if_cong)
qed

text \<open>C24: Each upload sends exactly its marker, the 19200 bytes of the image in their order, and its end mark, behind what was
  sent before: \<open>START\<close> and \<open>END\<close> with a line feed for the program's own viewer, the bytes 0, 255, 1, 1 and no end
  mark for the vendor's; grey pixels as they are, binary ones as 0 or 255.  So a reader that skips the marker finds every pixel.\<close>

theorem uploads_complete:
  assumes "0 \<le> i" "i < 120" "0 \<le> j" "j < 160"
  shows "(\<exists>b. upload_my_gray im os = Some (os @ b)
        \<and> b = [Text ''START''] @ map (\<lambda>k. Byte (uint (im k))) [0..19199] @ [Text (''END'' @ [CHR 0x0A])]
        \<and> received 1 b i j = Byte (px im i j))
    \<and> (\<exists>b. upload_my_bin im os = Some (os @ b)
        \<and> b = [Text ''START''] @ map (\<lambda>k. Byte (if im k = 0 then 0 else 255)) [0..19199] @ [Text (''END'' @ [CHR 0x0A])]
        \<and> received 1 b i j = Byte (if px im i j = 0 then 0 else 255))
    \<and> (\<exists>b. upload_zf_gray im os = Some (os @ b)
        \<and> b = [Byte 0, Byte 255, Byte 1, Byte 1] @ map (\<lambda>k. Byte (uint (im k))) [0..19199]
        \<and> received 4 b i j = Byte (px im i j))
    \<and> (\<exists>b. upload_zf_bin im os = Some (os @ b)
        \<and> b = [Byte 0, Byte 255, Byte 1, Byte 1] @ map (\<lambda>k. Byte (if im k = 0 then 0 else 255)) [0..19199]
        \<and> received 4 b i j = Byte (if px im i j = 0 then 0 else 255))"
proof -
  have n: "nat (i * 160 + j) < 19200" "0 \<le> i * 160 + j" using assms by linarith+
  have z: "px im i j = 0 \<longleftrightarrow> im (i * 160 + j) = 0" by (simp add: px_def unsigned_eq_0_iff)
  show ?thesis using n z
    by (simp add: upload_my_gray_def upload_my_bin_def upload_zf_gray_def upload_zf_bin_def put_px put_bin received_def
      nth_append px_def Let_def)
qed

lemma uploads_complete_witness:
  "\<exists>b. upload_my_gray (\<lambda>k. if k = 325 then 7 else 0) [Byte 3] = Some ([Byte 3] @ b) \<and> b ! 0 = Text ''START''
     \<and> received 1 b 2 5 = Byte 7 \<and> received 1 b 2 6 = Byte 0"
proof -
  have "\<exists>b. upload_my_gray im [Byte 3] = Some ([Byte 3] @ b) \<and> b ! 0 = Text ''START'' \<and> received 1 b 2 j = Byte (px im 2 j)"
    if "0 \<le> j" "j < 160" for im j
    using uploads_complete [of 2 j im "[Byte 3]"] that by force
  from this [of 5 "\<lambda>k. if k = 325 then 7 else 0"] this [of 6 "\<lambda>k. if k = 325 then 7 else 0"]
  show ?thesis by (auto simp: px_def)
qed

end
