(* ===== verification/Buttons.thy ===== *)
theory Buttons
  imports EasyBlink Upload
begin

text \<open>
  \<open>FlexButton/agile_button.c\<close> and \<open>buttonThread.c\<close>: the debounced keys, their events and
  what a click does, and the switches.  A button object is its index in the heap of allocated
  objects (\<open>None\<close> when freed), a null pointer is the handle \<open>None\<close>; \<open>agile_btn_list\<close> holds the
  handles of the started buttons in order.  The mutex makes each call and each pass of the
  thread atomic.  The tick count is unbounded; \<open>rt_tick_get\<close> reads it modulo \<open>2^32\<close>.
\<close>

section \<open>Data\<close>

datatype btn_event = BTN_PRESS_DOWN | BTN_HOLD | BTN_PRESS_UP | BTN_CLICK | BTN_EVENT_SUM

datatype btn_state = NONE_PRESS | CHECK_PRESS | PRESS_DOWN | PRESS_HOLD | PRESS_UP

text \<open>The functions the program registers as callbacks.\<close>

datatype callback = Click_cb | Hold_cb

record btn =
  active :: bool
  repeat_cnt :: int
  elimination_time :: int
  last_event :: btn_event
  btn_state :: btn_state
  hold_time :: int
  prev_hold_time :: int
  hold_cycle_time :: int
  pin :: int
  active_logic :: int
  tick_timeout :: int
  event_cb :: "btn_event \<Rightarrow> callback option"

text \<open>What the callbacks change: the two globals and the output, from the two images.\<close>

record app =
  is_chassis_running :: int
  disp_pic_type :: int
  outs :: "out list"
  bin_image :: image
  csi_image :: image

record panel =
  is_initialized :: bool
  btn_heap :: "btn option list"
  agile_btn_list :: "int list"
  key1 :: "int option"
  key2 :: "int option"
  key3 :: "int option"
  key4 :: "int option"

definition rt_tick_get :: "int \<Rightarrow> int" where
  "rt_tick_get t = u32 t"

definition rt_tick_from_millisecond :: "int \<Rightarrow> int" where
  "rt_tick_from_millisecond ms =
     (if ms < 0 then 4294967295 else u32 (1000 * (ms div 1000) + (1000 * (ms mod 1000) + 999) div 1000))"

section \<open>Handles\<close>

definition get_btn :: "int option \<Rightarrow> panel \<Rightarrow> btn option" where
  "get_btn h s = do { i \<leftarrow> h; b \<leftarrow> c_get (btn_heap s) i; b }"

definition put_btn :: "int option \<Rightarrow> btn \<Rightarrow> panel \<Rightarrow> panel option" where
  "put_btn h b s = do { i \<leftarrow> h; bs \<leftarrow> c_put (btn_heap s) i (Some b); Some (s\<lparr>btn_heap := bs\<rparr>) }"

section \<open>The interface\<close>

text \<open>\<open>mem\<close>: whether the allocation succeeds.\<close>

definition agile_btn_create :: "bool \<Rightarrow> int \<Rightarrow> int \<Rightarrow> int \<Rightarrow> panel \<Rightarrow> int option \<times> panel" where
  "agile_btn_create mem t p logic s =
     (if \<not> is_initialized s then (None, s)
      else if \<not> mem then (None, s)
      else (Some (int (length (btn_heap s))), s\<lparr>btn_heap := btn_heap s @ [Some
        \<lparr>active = False, repeat_cnt = 0, elimination_time = 15, last_event = BTN_EVENT_SUM, btn_state = NONE_PRESS,
         hold_time = 0, prev_hold_time = 0, hold_cycle_time = 1000, pin = p, active_logic = logic,
         tick_timeout = rt_tick_get t, event_cb = (\<lambda>_. None)\<rparr>]\<rparr>))"

definition agile_btn_delete :: "int option \<Rightarrow> panel \<Rightarrow> (int \<times> panel) option" where
  "agile_btn_delete h s = do {
     b \<leftarrow> get_btn h s;
     i \<leftarrow> h;
     let s = s\<lparr>agile_btn_list := remove1 i (agile_btn_list s)\<rparr>;
     bs \<leftarrow> c_put (btn_heap s) i None;
     Some (0, s\<lparr>btn_heap := bs\<rparr>) }"

definition start_btn :: "int \<Rightarrow> btn \<Rightarrow> btn" where
  "start_btn t b = b\<lparr>repeat_cnt := 0, last_event := BTN_EVENT_SUM, btn_state := NONE_PRESS, hold_time := 0,
     prev_hold_time := 0, tick_timeout := rt_tick_get t, active := True\<rparr>"

definition agile_btn_start :: "int \<Rightarrow> int option \<Rightarrow> panel \<Rightarrow> (int \<times> panel) option" where
  "agile_btn_start t h s = do {
     b \<leftarrow> get_btn h s;
     i \<leftarrow> h;
     if active b then Some (- 1, s)
     else do {
       s \<leftarrow> put_btn h (start_btn t b) s;
       Some (0, s\<lparr>agile_btn_list := agile_btn_list s @ [i]\<rparr>) } }"

definition agile_btn_stop :: "int option \<Rightarrow> panel \<Rightarrow> (int \<times> panel) option" where
  "agile_btn_stop h s = do {
     b \<leftarrow> get_btn h s;
     i \<leftarrow> h;
     if \<not> active b then Some (0, s)
     else do {
       s \<leftarrow> put_btn h (b\<lparr>active := False\<rparr>) s;
       Some (0, s\<lparr>agile_btn_list := remove1 i (agile_btn_list s)\<rparr>) } }"

definition agile_btn_set_elimination_time :: "int option \<Rightarrow> int \<Rightarrow> panel \<Rightarrow> (int \<times> panel) option" where
  "agile_btn_set_elimination_time h ms s = do {
     b \<leftarrow> get_btn h s;
     s \<leftarrow> put_btn h (b\<lparr>elimination_time := ms\<rparr>) s;
     Some (0, s) }"

definition agile_btn_set_hold_cycle_time :: "int option \<Rightarrow> int \<Rightarrow> panel \<Rightarrow> (int \<times> panel) option" where
  "agile_btn_set_hold_cycle_time h ms s = do {
     b \<leftarrow> get_btn h s;
     s \<leftarrow> put_btn h (b\<lparr>hold_cycle_time := ms\<rparr>) s;
     Some (0, s) }"

definition agile_btn_set_event_cb :: "int option \<Rightarrow> btn_event \<Rightarrow> callback \<Rightarrow> panel \<Rightarrow> (int \<times> panel) option" where
  "agile_btn_set_event_cb h e f s = do {
     b \<leftarrow> get_btn h s;
     if e = BTN_EVENT_SUM then Some (- 1, s)
     else do {
       s \<leftarrow> put_btn h (b\<lparr>event_cb := (event_cb b)(e := Some f)\<rparr>) s;
       Some (0, s) } }"

section \<open>What a click does\<close>

definition KEY1_PIN :: int where "KEY1_PIN = 108"
definition KEY2_PIN :: int where "KEY2_PIN = 111"
definition KEY3_PIN :: int where "KEY3_PIN = 110"
definition KEY4_PIN :: int where "KEY4_PIN = 113"
definition SWITCH_1 :: int where "SWITCH_1 = 43"
definition SWITCH_2 :: int where "SWITCH_2 = 42"
definition SWITCH_3 :: int where "SWITCH_3 = 41"
definition SWITCH_4 :: int where "SWITCH_4 = 95"

definition switch_get :: "int \<Rightarrow> pins \<Rightarrow> int" where
  "switch_get num g =
     (if num = 1 then gpio_get SWITCH_1 g
      else if num = 2 then gpio_get SWITCH_2 g
      else if num = 3 then gpio_get SWITCH_3 g
      else if num = 4 then gpio_get SWITCH_4 g
      else 1)"

definition key4_click :: "btn \<Rightarrow> app \<Rightarrow> app option" where
  "key4_click b a =
     (if repeat_cnt b = 1 then do { os \<leftarrow> upload_zf_bin (bin_image a) (outs a); Some (a\<lparr>outs := os\<rparr>) }
      else if repeat_cnt b = 2 then do { os \<leftarrow> upload_zf_gray (csi_image a) (outs a); Some (a\<lparr>outs := os\<rparr>) }
      else Some a)"

text \<open>The case of \<open>KEY3_PIN\<close> falls through to that of \<open>KEY4_PIN\<close> unless the count is 3.\<close>

definition btn_click_event_cb :: "btn \<Rightarrow> app \<Rightarrow> app option" where
  "btn_click_event_cb b a = (
     let a = a\<lparr>outs := outs a @ [Click (pin b) (repeat_cnt b) (hold_time b)]\<rparr> in
     if pin b = KEY1_PIN then Some (a\<lparr>is_chassis_running := if is_chassis_running a = 0 then 1 else 0\<rparr>)
     else if pin b = KEY2_PIN then do {
       n \<leftarrow> limit_loop (disp_pic_type a) 0 2;
       Some (a\<lparr>disp_pic_type := u8 n\<rparr>) }
     else if pin b = KEY3_PIN then
       if repeat_cnt b = 1 then do {
         os \<leftarrow> upload_my_bin (bin_image a) (outs a);
         key4_click b (a\<lparr>outs := os\<rparr>) }
       else if repeat_cnt b = 2 then do {
         os \<leftarrow> upload_my_gray (csi_image a) (outs a);
         key4_click b (a\<lparr>outs := os\<rparr>) }
       else if repeat_cnt b = 3 then Some a
       else key4_click b a
     else if pin b = KEY4_PIN then key4_click b a
     else Some a)"

definition btn_hold_event_cb :: "btn \<Rightarrow> app \<Rightarrow> app option" where
  "btn_hold_event_cb b a = Some a"

definition call_cb :: "btn_event \<Rightarrow> btn \<Rightarrow> app \<Rightarrow> app option" where
  "call_cb e b a = (case event_cb b e of None \<Rightarrow> Some a
     | Some Click_cb \<Rightarrow> btn_click_event_cb b a
     | Some Hold_cb \<Rightarrow> btn_hold_event_cb b a)"

section \<open>The thread\<close>

definition agile_btn_cal_hold_time :: "int \<Rightarrow> btn \<Rightarrow> btn" where
  "agile_btn_cal_hold_time t b = (
     let h = (if rt_tick_get t < tick_timeout b then u32 (4294967295 - tick_timeout b + rt_tick_get t)
              else u32 (rt_tick_get t - tick_timeout b))
     in b\<lparr>hold_time := u32 (h * 1)\<rparr>)"

definition timed_out :: "int \<Rightarrow> btn \<Rightarrow> bool" where
  "timed_out t b \<longleftrightarrow> u32 (rt_tick_get t - tick_timeout b) < 2147483647"

text \<open>One button in a pass of the thread, and the events it gave.  The tick is \<open>t\<close> before the
  callbacks and \<open>t'\<close> after them.\<close>

definition btn_step :: "int \<Rightarrow> int \<Rightarrow> pins \<Rightarrow> btn \<Rightarrow> app \<Rightarrow> (btn \<times> app \<times> btn_event list) option" where
  "btn_step t t' g b a = (case btn_state b of
      NONE_PRESS \<Rightarrow>
        if gpio_get (pin b) g = active_logic b then
          Some (b\<lparr>tick_timeout := u32 (rt_tick_get t + rt_tick_from_millisecond (elimination_time b)),
                  btn_state := CHECK_PRESS\<rparr>, a, [])
        else if repeat_cnt b \<noteq> 0 \<and> timed_out t b then Some (b\<lparr>repeat_cnt := 0\<rparr>, a, [])
        else Some (b, a, [])
    | CHECK_PRESS \<Rightarrow>
        if gpio_get (pin b) g = active_logic b then
          Some (if timed_out t b then b\<lparr>btn_state := PRESS_DOWN\<rparr> else b, a, [])
        else Some (b\<lparr>btn_state := NONE_PRESS\<rparr>, a, [])
    | PRESS_DOWN \<Rightarrow> do {
        let b = b\<lparr>hold_time := 0, prev_hold_time := 0, repeat_cnt := u8 (repeat_cnt b + 1), last_event := BTN_PRESS_DOWN\<rparr>;
        a \<leftarrow> call_cb BTN_PRESS_DOWN b a;
        Some (b\<lparr>tick_timeout := rt_tick_get t', btn_state := PRESS_HOLD\<rparr>, a, [BTN_PRESS_DOWN]) }
    | PRESS_HOLD \<Rightarrow>
        if gpio_get (pin b) g = active_logic b then
          let b = agile_btn_cal_hold_time t b in
          if u32 (hold_time b - prev_hold_time b) \<ge> hold_cycle_time b then do {
            let b = b\<lparr>last_event := BTN_HOLD\<rparr>;
            a \<leftarrow> call_cb BTN_HOLD b a;
            Some (b\<lparr>prev_hold_time := hold_time b\<rparr>, a, [BTN_HOLD]) }
          else Some (b, a, [])
        else Some (b\<lparr>btn_state := PRESS_UP\<rparr>, a, [])
    | PRESS_UP \<Rightarrow> do {
        let b = b\<lparr>last_event := BTN_PRESS_UP\<rparr>;
        a \<leftarrow> call_cb BTN_PRESS_UP b a;
        let b = b\<lparr>last_event := BTN_CLICK\<rparr>;
        a \<leftarrow> call_cb BTN_CLICK b a;
        Some (b\<lparr>tick_timeout := u32 (rt_tick_get t' + rt_tick_from_millisecond 500), btn_state := NONE_PRESS\<rparr>, a,
              [BTN_PRESS_UP, BTN_CLICK]) })"

text \<open>A pass over the list; \<open>clock\<close> gives the two ticks of each button.\<close>

fun btn_pass :: "(int \<Rightarrow> int \<times> int) \<Rightarrow> pins \<Rightarrow> int list \<Rightarrow> panel \<Rightarrow> app \<Rightarrow> (panel \<times> app) option" where
  "btn_pass clock g [] s a = Some (s, a)"
| "btn_pass clock g (i # is) s a = do {
     b \<leftarrow> get_btn (Some i) s;
     (b, a, es) \<leftarrow> btn_step (fst (clock i)) (snd (clock i)) g b a;
     s \<leftarrow> put_btn (Some i) b s;
     btn_pass clock g is s a }"

definition btn_process :: "(int \<Rightarrow> int \<times> int) \<Rightarrow> pins \<Rightarrow> panel \<Rightarrow> app \<Rightarrow> (panel \<times> app) option" where
  "btn_process clock g s a = btn_pass clock g (agile_btn_list s) s a"

section \<open>Initialisation\<close>

text \<open>\<open>mtx\<close> and \<open>thr\<close>: whether the mutex and the thread could be created.\<close>

definition agile_btn_init :: "bool \<Rightarrow> bool \<Rightarrow> panel \<Rightarrow> int \<times> panel" where
  "agile_btn_init mtx thr s =
     (if \<not> mtx then (- 5, s) else if \<not> thr then (- 5, s) else (0, s\<lparr>is_initialized := True\<rparr>))"

definition make_key :: "bool \<Rightarrow> int \<Rightarrow> int \<Rightarrow> panel \<Rightarrow> (int option \<times> panel) option" where
  "make_key mem t p s = do {
     let (k, s) = agile_btn_create mem t p 0 s;
     (_, s) \<leftarrow> agile_btn_set_event_cb k BTN_CLICK Click_cb s;
     (_, s) \<leftarrow> agile_btn_set_event_cb k BTN_HOLD Hold_cb s;
     (_, s) \<leftarrow> agile_btn_start t k s;
     Some (k, s) }"

definition key_create :: "bool \<Rightarrow> int \<Rightarrow> panel \<Rightarrow> (int \<times> panel) option" where
  "key_create mem t s = do {
     s \<leftarrow> (if key1 s = None then do { (k, s) \<leftarrow> make_key mem t KEY1_PIN s; Some (s\<lparr>key1 := k\<rparr>) } else Some s);
     s \<leftarrow> (if key2 s = None then do { (k, s) \<leftarrow> make_key mem t KEY2_PIN s; Some (s\<lparr>key2 := k\<rparr>) } else Some s);
     s \<leftarrow> (if key3 s = None then do { (k, s) \<leftarrow> make_key mem t KEY3_PIN s; Some (s\<lparr>key3 := k\<rparr>) } else Some s);
     s \<leftarrow> (if key4 s = None then do { (k, s) \<leftarrow> make_key mem t KEY4_PIN s; Some (s\<lparr>key4 := k\<rparr>) } else Some s);
     Some (0, s) }"

end
