(* ===== verification/ButtonFacts.thy ===== *)
theory ButtonFacts
  imports Buttons
begin

text \<open>
  The keys: what one button reports over a run of samples (its events come in order, a press
  needs the whole debounce time, a clean gesture is one click), what the clicks do, and the
  panel of buttons, whose list holds exactly the started ones and whose thread never fails.
\<close>

section \<open>One button\<close>

lemma call_cb_total: "\<exists>a'. call_cb e b a = Some a'"
  by (simp add: call_cb_def btn_click_event_cb_def btn_hold_event_cb_def key4_click_def limit_loop_def Let_def
    upload_my_bin_def upload_my_gray_def upload_zf_bin_def upload_zf_gray_def put_image_pixels split: option.split callback.split)

text \<open>What does not depend on the callbacks' effects.\<close>

definition on_level :: "pins \<Rightarrow> btn \<Rightarrow> bool" where
  "on_level g b \<longleftrightarrow> gpio_get (pin b) g = active_logic b"

definition btn_core :: "int \<Rightarrow> int \<Rightarrow> bool \<Rightarrow> btn \<Rightarrow> btn \<times> btn_event list" where
  "btn_core t t' on b = (case btn_state b of
      NONE_PRESS \<Rightarrow>
        (if on then b\<lparr>tick_timeout := u32 (rt_tick_get t + rt_tick_from_millisecond (elimination_time b)), btn_state := CHECK_PRESS\<rparr>
         else if repeat_cnt b \<noteq> 0 \<and> timed_out t b then b\<lparr>repeat_cnt := 0\<rparr> else b, [])
    | CHECK_PRESS \<Rightarrow>
        (if on then if timed_out t b then b\<lparr>btn_state := PRESS_DOWN\<rparr> else b else b\<lparr>btn_state := NONE_PRESS\<rparr>, [])
    | PRESS_DOWN \<Rightarrow>
        (b\<lparr>hold_time := 0, prev_hold_time := 0, repeat_cnt := u8 (repeat_cnt b + 1), last_event := BTN_PRESS_DOWN,
           tick_timeout := rt_tick_get t', btn_state := PRESS_HOLD\<rparr>, [BTN_PRESS_DOWN])
    | PRESS_HOLD \<Rightarrow>
        if on then
          let b = agile_btn_cal_hold_time t b in
          if u32 (hold_time b - prev_hold_time b) \<ge> hold_cycle_time b
          then (b\<lparr>last_event := BTN_HOLD, prev_hold_time := hold_time b\<rparr>, [BTN_HOLD]) else (b, [])
        else (b\<lparr>btn_state := PRESS_UP\<rparr>, [])
    | PRESS_UP \<Rightarrow>
        (b\<lparr>last_event := BTN_CLICK, tick_timeout := u32 (rt_tick_get t' + rt_tick_from_millisecond 500), btn_state := NONE_PRESS\<rparr>,
         [BTN_PRESS_UP, BTN_CLICK]))"

lemma btn_step_core:
  "\<exists>a'. btn_step t t' g b a = Some (fst (btn_core t t' (on_level g b) b), a', snd (btn_core t t' (on_level g b) b))"
proof (cases "btn_state b")
  case PRESS_DOWN
  obtain a1 where a1: "call_cb BTN_PRESS_DOWN
      (b\<lparr>hold_time := 0, prev_hold_time := 0, repeat_cnt := u8 (repeat_cnt b + 1), last_event := BTN_PRESS_DOWN\<rparr>) a = Some a1"
    using call_cb_total by blast
  show ?thesis by (simp add: btn_step_def btn_core_def PRESS_DOWN a1 Let_def)
next
  case PRESS_HOLD
  obtain a1 where a1: "call_cb BTN_HOLD ((agile_btn_cal_hold_time t b)\<lparr>last_event := BTN_HOLD\<rparr>) a = Some a1"
    using call_cb_total by blast
  show ?thesis by (simp add: btn_step_def btn_core_def PRESS_HOLD a1 Let_def on_level_def)
next
  case PRESS_UP
  obtain a1 where a1: "call_cb BTN_PRESS_UP (b\<lparr>last_event := BTN_PRESS_UP\<rparr>) a = Some a1" using call_cb_total by blast
  obtain a2 where a2: "call_cb BTN_CLICK (b\<lparr>last_event := BTN_CLICK\<rparr>) a1 = Some a2" using call_cb_total by blast
  show ?thesis by (simp add: btn_step_def btn_core_def PRESS_UP a1 a2 Let_def)
qed (simp_all add: btn_step_def btn_core_def on_level_def)

text \<open>A button sampled again and again: at tick \<open>t\<close>, with the callbacks over at \<open>t'\<close>.\<close>

type_synonym sample = "int \<times> int \<times> pins"

fun btn_run :: "sample list \<Rightarrow> btn \<Rightarrow> app \<Rightarrow> (btn \<times> app \<times> btn_event list) option" where
  "btn_run [] b a = Some (b, a, [])"
| "btn_run ((t, t', g) # xs) b a = do {
     (b, a, es) \<leftarrow> btn_step t t' g b a;
     (b, a, fs) \<leftarrow> btn_run xs b a;
     Some (b, a, es @ fs) }"

fun core_run :: "(int \<times> int \<times> bool) list \<Rightarrow> btn \<Rightarrow> btn \<times> btn_event list" where
  "core_run [] b = (b, [])"
| "core_run ((t, t', on) # xs) b = (let r = btn_core t t' on b; q = core_run xs (fst r) in (fst q, snd r @ snd q))"

lemma btn_core_fields [simp]:
  "pin (fst (btn_core t t' on b)) = pin b" "active_logic (fst (btn_core t t' on b)) = active_logic b"
  "elimination_time (fst (btn_core t t' on b)) = elimination_time b" "active (fst (btn_core t t' on b)) = active b"
  by (simp_all add: btn_core_def agile_btn_cal_hold_time_def Let_def split: btn_state.split)

lemma on_level_core [simp]: "on_level g (fst (btn_core t t' on b)) = on_level g b"
  by (simp add: on_level_def)

definition levels :: "btn \<Rightarrow> sample list \<Rightarrow> (int \<times> int \<times> bool) list" where
  "levels b xs = map (\<lambda>(t, t', g). (t, t', on_level g b)) xs"

lemma levels_cong: "(\<And>g. on_level g c = on_level g b) \<Longrightarrow> levels c xs = levels b xs"
  by (simp add: levels_def)

lemma btn_run_core:
  "\<exists>a'. btn_run xs b a = Some (fst (core_run (levels b xs) b), a', snd (core_run (levels b xs) b))"
proof (induction xs arbitrary: b a)
  case (Cons x xs)
  obtain t t' g where x: "x = (t, t', g)" by (cases x)
  obtain a1 where a1: "btn_step t t' g b a = Some (fst (btn_core t t' (on_level g b) b), a1, snd (btn_core t t' (on_level g b) b))"
    using btn_step_core by blast
  define c where "c = fst (btn_core t t' (on_level g b) b)"
  obtain a2 where a2: "btn_run xs c a1 = Some (fst (core_run (levels c xs) c), a2, snd (core_run (levels c xs) c))"
    using Cons by blast
  have l: "levels c xs = levels b xs" by (rule levels_cong) (simp add: c_def)
  show ?case using a1 a2 by (simp add: x c_def [symmetric] l) (simp add: levels_def c_def Let_def)
qed (simp add: levels_def)

section \<open>Order of the events\<close>

definition pressed :: "btn \<Rightarrow> bool" where
  "pressed b \<longleftrightarrow> btn_state b = PRESS_HOLD \<or> btn_state b = PRESS_UP"

text \<open>The words of \<open>(DOWN HOLD* UP CLICK)*\<close>, with the state of the key before and after.\<close>

inductive ordered :: "bool \<Rightarrow> btn_event list \<Rightarrow> bool \<Rightarrow> bool" where
  "ordered p [] p"
| "ordered True es q \<Longrightarrow> ordered False (BTN_PRESS_DOWN # es) q"
| "ordered True es q \<Longrightarrow> ordered True (BTN_HOLD # es) q"
| "ordered False es q \<Longrightarrow> ordered True (BTN_PRESS_UP # BTN_CLICK # es) q"

lemma ordered_append: "ordered p es q \<Longrightarrow> ordered q fs r \<Longrightarrow> ordered p (es @ fs) r"
  by (induction rule: ordered.induct) (auto intro: ordered.intros)

lemma core_ordered: "ordered (pressed b) (snd (btn_core t t' on b)) (pressed (fst (btn_core t t' on b)))"
  by (cases "btn_state b") (auto simp: btn_core_def pressed_def Let_def agile_btn_cal_hold_time_def intro: ordered.intros)

lemma core_run_ordered: "ordered (pressed b) (snd (core_run xs b)) (pressed (fst (core_run xs b)))"
proof (induction xs arbitrary: b)
  case (Cons x xs)
  obtain t t' on where x: "x = (t, t', on)" by (cases x)
  show ?case
    using ordered_append [OF core_ordered [of b t t' on] Cons [of "fst (btn_core t t' on b)"]]
    by (simp add: x Let_def)
qed (auto intro: ordered.intros)

section \<open>Debouncing\<close>

lemma core_run_append:
  "core_run (xs @ ys) b = (fst (core_run ys (fst (core_run xs b))), snd (core_run xs b) @ snd (core_run ys (fst (core_run xs b))))"
  by (induction xs arbitrary: b) (auto simp: Let_def)

lemma core_run_fields [simp]:
  "pin (fst (core_run xs b)) = pin b" "active_logic (fst (core_run xs b)) = active_logic b"
  "elimination_time (fst (core_run xs b)) = elimination_time b"
  by (induction xs arbitrary: b) (auto simp: Let_def)

definition in_span :: "int \<Rightarrow> (int \<times> int \<times> bool) list \<Rightarrow> bool" where
  "in_span t0 xs \<longleftrightarrow> (\<forall>(t, t', on) \<in> set xs. t0 \<le> t \<and> t < t0 + 2147483000)"

abbreviation "all_on ys \<equiv> \<forall>(t, t', on) \<in> set ys. on"

definition settled :: "int \<Rightarrow> (int \<times> int \<times> bool) list \<Rightarrow> bool" where
  "settled e ys \<longleftrightarrow> ys \<noteq> [] \<and> all_on ys \<and> fst (hd ys) + e \<le> fst (last ys)"

lemma ticks_of_ms: "0 \<le> ms \<Longrightarrow> ms \<le> 65535 \<Longrightarrow> rt_tick_from_millisecond ms = ms"
  unfolding rt_tick_from_millisecond_def u32_def by simp presburger?

lemma timed_out_iff:
  assumes "0 \<le> e" "e \<le> 500" "T - 2147483000 \<le> t" "t < T + 2147483000" "tick_timeout b = u32 (rt_tick_get T + e)"
  shows "timed_out t b \<longleftrightarrow> T + e \<le> t"
proof -
  define x where "x = t - (T + e)"
  have "u32 (rt_tick_get t - tick_timeout b) = x mod 4294967296"
    unfolding assms(5) rt_tick_get_def u32_def x_def by (simp add: mod_simps)
  also have "\<dots> = (if 0 \<le> x then x else x + 4294967296)"
  proof (cases "0 \<le> x")
    case False
    have "x mod 4294967296 = (x + 4294967296) mod 4294967296" by simp
    also have "\<dots> = x + 4294967296" using assms(1-3) False by (intro mod_pos_pos_trivial) (auto simp: x_def)
    finally show ?thesis using False by simp
  qed (use assms(1-4) in \<open>simp add: x_def mod_pos_pos_trivial\<close>)
  finally show ?thesis using assms(1-4) by (auto simp: timed_out_def x_def)
qed

definition history :: "(int \<times> int \<times> bool) list \<Rightarrow> int \<Rightarrow> btn \<Rightarrow> bool" where
  "history xs e c \<longleftrightarrow> (case btn_state c of
      CHECK_PRESS \<Rightarrow> \<exists>zs ys. xs = zs @ ys \<and> ys \<noteq> [] \<and> all_on ys \<and> tick_timeout c = u32 (rt_tick_get (fst (hd ys)) + e)
    | PRESS_DOWN \<Rightarrow> \<exists>zs ys. xs = zs @ ys \<and> settled e ys
    | _ \<Rightarrow> True)"

lemma history_step:
  assumes h: "history xs (elimination_time c) c" and e: "0 \<le> elimination_time c" "elimination_time c \<le> 255"
    and sp: "in_span t0 xs" "t0 \<le> t" "t < t0 + 2147483000"
  shows "history (xs @ [(t, t', on)]) (elimination_time c) (fst (btn_core t t' on c))"
proof (cases "btn_state c")
  case NONE_PRESS
  have "on \<Longrightarrow> \<exists>zs ys. xs @ [(t, t', on)] = zs @ ys \<and> ys \<noteq> [] \<and> all_on ys
      \<and> u32 (rt_tick_get t + elimination_time c) = u32 (rt_tick_get (fst (hd ys)) + elimination_time c)"
    by (rule exI [of _ xs], rule exI [of _ "[(t, t', on)]"]) simp
  then show ?thesis using e by (simp add: btn_core_def NONE_PRESS history_def ticks_of_ms)
next
  case CHECK_PRESS
  then obtain zs ys where ys: "xs = zs @ ys" "ys \<noteq> []" "all_on ys"
      "tick_timeout c = u32 (rt_tick_get (fst (hd ys)) + elimination_time c)"
    using h by (auto simp: history_def)
  have "hd ys \<in> set xs" using ys(1,2) by simp
  then have T: "t0 \<le> fst (hd ys)" "fst (hd ys) < t0 + 2147483000" using sp(1) by (auto simp: in_span_def split_def)
  have w: "\<exists>zs ys'. xs @ [(t, t', on)] = zs @ ys' \<and> P ys'" if "P (ys @ [(t, t', on)])" for P
    using that ys(1) by (intro exI [of _ zs] exI [of _ "ys @ [(t, t', on)]"]) simp
  show ?thesis
  proof (cases "on \<and> timed_out t c")
    case True
    have "fst (hd ys) + elimination_time c \<le> t"
      using True e sp T ys(4) timed_out_iff [of "elimination_time c" "fst (hd ys)" t c] by simp
    then have "settled (elimination_time c) (ys @ [(t, t', on)])" using ys(2,3) True by (simp add: settled_def)
    then show ?thesis using True w by (simp add: btn_core_def CHECK_PRESS history_def)
  next
    case False
    have "on \<Longrightarrow> ys @ [(t, t', on)] \<noteq> [] \<and> all_on (ys @ [(t, t', on)])
       \<and> tick_timeout c = u32 (rt_tick_get (fst (hd (ys @ [(t, t', on)]))) + elimination_time c)"
      using ys(2-4) by simp
    then show ?thesis using False w [of "\<lambda>ys. ys \<noteq> [] \<and> all_on ys \<and> tick_timeout c = u32 (rt_tick_get (fst (hd ys)) + elimination_time c)"]
      by (auto simp: btn_core_def CHECK_PRESS history_def)
  qed
qed (simp_all add: btn_core_def history_def Let_def agile_btn_cal_hold_time_def)

lemma in_span_snoc: "in_span t0 (xs @ [(t, t', on)]) \<longleftrightarrow> in_span t0 xs \<and> t0 \<le> t \<and> t < t0 + 2147483000"
  by (auto simp: in_span_def)

lemma debounce_history:
  assumes "btn_state b = NONE_PRESS" "0 \<le> elimination_time b" "elimination_time b \<le> 255"
  shows "in_span t0 xs \<Longrightarrow> history xs (elimination_time b) (fst (core_run xs b))"
proof (induction xs rule: rev_induct)
  case Nil
  then show ?case using assms(1) by (simp add: history_def)
next
  case (snoc x xs)
  obtain t t' on where x: "x = (t, t', on)" by (cases x)
  have "history (xs @ [(t, t', on)]) (elimination_time b) (fst (btn_core t t' on (fst (core_run xs b))))"
    using history_step [of xs "fst (core_run xs b)" t0 t t' on] snoc assms by (simp add: x in_span_snoc)
  then show ?case by (simp add: core_run_append x Let_def)
qed

lemma press_settled:
  assumes "btn_state b = NONE_PRESS" "0 \<le> elimination_time b" "elimination_time b \<le> 255"
  shows "in_span t0 xs \<Longrightarrow> BTN_PRESS_DOWN \<in> set (snd (core_run xs b))
    \<Longrightarrow> \<exists>zs ys ws. xs = zs @ ys @ ws \<and> settled (elimination_time b) ys"
proof (induction xs rule: rev_induct)
  case (snoc x xs)
  obtain t t' on where x: "x = (t, t', on)" by (cases x)
  define c where "c = fst (core_run xs b)"
  have sp: "in_span t0 xs" using snoc.prems(1) by (simp add: x in_span_snoc)
  show ?case
  proof (cases "BTN_PRESS_DOWN \<in> set (snd (core_run xs b))")
    case True
    then obtain zs ys ws where "xs = zs @ ys @ ws" "settled (elimination_time b) ys" using snoc.IH [OF sp] by blast
    then show ?thesis by (intro exI [of _ zs] exI [of _ ys] exI [of _ "ws @ [x]"]) simp
  next
    case False
    then have "BTN_PRESS_DOWN \<in> set (snd (btn_core t t' on c))"
      using snoc.prems(2) by (simp add: core_run_append x c_def Let_def)
    then have "btn_state c = PRESS_DOWN"
      by (cases "btn_state c") (auto simp: btn_core_def Let_def split: if_splits)
    then obtain zs ys where "xs = zs @ ys" "settled (elimination_time b) ys"
      using debounce_history [OF assms sp] by (auto simp: history_def c_def)
    then show ?thesis by (intro exI [of _ zs] exI [of _ ys] exI [of _ "[x]"]) simp
  qed
qed simp

section \<open>A clean gesture\<close>

lemma hold_phase:
  assumes "btn_state b = PRESS_DOWN \<or> btn_state b = PRESS_HOLD" "all_on xs"
  shows "(btn_state (fst (core_run xs b)) = PRESS_DOWN \<or> btn_state (fst (core_run xs b)) = PRESS_HOLD)
    \<and> BTN_CLICK \<notin> set (snd (core_run xs b))"
  using assms
proof (induction xs arbitrary: b)
  case (Cons x xs)
  obtain t t' where x: "x = (t, t', True)" using Cons.prems(2) by (cases x) auto
  have "(btn_state (fst (btn_core t t' True b)) = PRESS_DOWN \<or> btn_state (fst (btn_core t t' True b)) = PRESS_HOLD)
      \<and> BTN_CLICK \<notin> set (snd (btn_core t t' True b))"
    using Cons.prems(1) by (auto simp: btn_core_def Let_def agile_btn_cal_hold_time_def split: if_splits)
  then show ?case using Cons.IH [of "fst (btn_core t t' True b)"] Cons.prems(2) by (simp add: x Let_def)
qed simp

lemma check_phase:
  assumes "btn_state b = CHECK_PRESS" "tick_timeout b = u32 (rt_tick_get T + e)" "0 \<le> e" "e \<le> 255"
    "T - 2147483000 \<le> t0" "t0 \<le> T" "all_on xs" "in_span t0 xs" "\<exists>(t, t', on) \<in> set xs. T + e \<le> t"
    "\<forall>(t, t', on) \<in> set xs. t < T + 2147483000"
  shows "(btn_state (fst (core_run xs b)) = PRESS_DOWN \<or> btn_state (fst (core_run xs b)) = PRESS_HOLD)
    \<and> BTN_CLICK \<notin> set (snd (core_run xs b))"
  using assms(1,2,7-10)
proof (induction xs arbitrary: b)
  case (Cons x xs)
  obtain t t' where x: "x = (t, t', True)" using Cons.prems(3) by (cases x) auto
  have "timed_out t b \<longleftrightarrow> T + e \<le> t"
    using timed_out_iff [of e T t b] Cons.prems(2,4,6) assms(3-6) by (simp add: x in_span_def)
  then have c: "btn_core t t' True b = (if T + e \<le> t then b\<lparr>btn_state := PRESS_DOWN\<rparr> else b, [])"
    using Cons.prems(1) by (simp add: btn_core_def)
  show ?case
  proof (cases "T + e \<le> t")
    case True
    then show ?thesis using hold_phase [of "b\<lparr>btn_state := PRESS_DOWN\<rparr>" xs] Cons.prems(3) by (simp add: x c Let_def)
  next
    case False
    then show ?thesis using Cons.IH [OF Cons.prems(1,2)] Cons.prems(3-6) by (simp add: x c Let_def in_span_def)
  qed
qed simp

abbreviation "all_off ys \<equiv> \<forall>(t, t', on) \<in> set ys. \<not> on"

lemma idle_phase:
  assumes "btn_state b = NONE_PRESS" "all_off xs"
  shows "btn_state (fst (core_run xs b)) = NONE_PRESS \<and> snd (core_run xs b) = []"
  using assms
proof (induction xs arbitrary: b)
  case (Cons x xs)
  obtain t t' where x: "x = (t, t', False)" using Cons.prems(2) by (cases x) auto
  have "btn_state (fst (btn_core t t' False b)) = NONE_PRESS \<and> snd (btn_core t t' False b) = []"
    using Cons.prems(1) by (simp add: btn_core_def)
  then show ?case using Cons.IH [of "fst (btn_core t t' False b)"] Cons.prems(2) by (simp add: x Let_def)
qed simp

lemma off_steps:
  "btn_state b = PRESS_DOWN \<Longrightarrow> btn_state (fst (btn_core t t' False b)) = PRESS_HOLD \<and> snd (btn_core t t' False b) = [BTN_PRESS_DOWN]"
  "btn_state b = PRESS_HOLD \<Longrightarrow> btn_state (fst (btn_core t t' False b)) = PRESS_UP \<and> snd (btn_core t t' False b) = []"
  "btn_state b = PRESS_UP \<Longrightarrow> btn_state (fst (btn_core t t' False b)) = NONE_PRESS \<and> snd (btn_core t t' False b) = [BTN_PRESS_UP, BTN_CLICK]"
  "btn_state b = NONE_PRESS \<Longrightarrow> btn_state (fst (btn_core t t' False b)) = NONE_PRESS \<and> snd (btn_core t t' False b) = []"
  by (simp_all add: btn_core_def)

lemma release_phase:
  assumes "btn_state b = PRESS_DOWN \<or> btn_state b = PRESS_HOLD" "all_off xs" "3 \<le> length xs"
  shows "btn_state (fst (core_run xs b)) = NONE_PRESS \<and> count_list (snd (core_run xs b)) BTN_CLICK = 1"
proof -
  obtain x y z ws where xs: "xs = x # y # z # ws"
    using assms(3) by (metis Suc_le_length_iff numeral_3_eq_3)
  obtain t1 u1 t2 u2 t3 u3 where xyz: "x = (t1, u1, False)" "y = (t2, u2, False)" "z = (t3, u3, False)"
    using assms(2) by (auto simp: xs)
  define d where "d = fst (core_run [x, y, z] b)"
  have d: "btn_state d = NONE_PRESS \<and> count_list (snd (core_run [x, y, z] b)) BTN_CLICK = 1"
  proof -
    define b1 where "b1 = fst (btn_core t1 u1 False b)"
    define b2 where "b2 = fst (btn_core t2 u2 False b1)"
    have "d = fst (btn_core t3 u3 False b2)"
      "snd (core_run [x, y, z] b) = snd (btn_core t1 u1 False b) @ snd (btn_core t2 u2 False b1) @ snd (btn_core t3 u3 False b2)"
      by (simp_all add: d_def xyz b1_def b2_def Let_def)
    then show ?thesis using assms(1) off_steps [of b t1 u1] off_steps [of b1 t2 u2] off_steps [of b2 t3 u3]
      unfolding b1_def [symmetric] b2_def [symmetric] by auto
  qed
  have "btn_state (fst (core_run ws d)) = NONE_PRESS \<and> snd (core_run ws d) = []"
    by (rule idle_phase) (use d assms(2) in \<open>simp_all add: xs\<close>)
  then show ?thesis using core_run_append [of "[x, y, z]" ws b] d by (simp add: xs d_def [symmetric])
qed

lemma click_gesture:
  assumes "btn_state b = NONE_PRESS" "0 < elimination_time b" "elimination_time b \<le> 255"
    "in_span t0 ps" "settled (elimination_time b) ps" "all_off qs" "3 \<le> length qs"
  shows "btn_state (fst (core_run (ps @ qs) b)) = NONE_PRESS \<and> count_list (snd (core_run (ps @ qs) b)) BTN_CLICK = 1"
proof -
  obtain t t' rs where ps: "ps = (t, t', True) # rs" using assms(5) by (cases ps) (auto simp: settled_def)
  have rs: "rs \<noteq> []" "all_on rs" using assms(2,5) by (auto simp: settled_def ps split: if_splits)
  define c where "c = fst (btn_core t t' True b)"
  have c: "btn_state c = CHECK_PRESS" "tick_timeout c = u32 (rt_tick_get t + elimination_time b)" "snd (btn_core t t' True b) = []"
    using assms(1-3) by (simp_all add: c_def btn_core_def ticks_of_ms)
  have "\<exists>(s, t', on) \<in> set rs. t + elimination_time b \<le> s"
    by (rule bexI [of _ "last rs"]) (use rs assms(5) in \<open>auto simp: settled_def ps\<close>)
  then have P: "(btn_state (fst (core_run rs c)) = PRESS_DOWN \<or> btn_state (fst (core_run rs c)) = PRESS_HOLD)
      \<and> BTN_CLICK \<notin> set (snd (core_run rs c))"
    by (intro check_phase [OF c(1,2), of t0]) (use assms(2-4) rs in \<open>auto simp: in_span_def ps\<close>)
  have "fst (core_run ps b) = fst (core_run rs c)" "snd (core_run ps b) = snd (core_run rs c)"
    using c(3) by (simp_all add: ps c_def Let_def)
  then show ?thesis
    using release_phase [of "fst (core_run rs c)" qs] P assms(6,7)
    by (simp add: core_run_append count_notin)
qed

section \<open>Properties\<close>

text \<open>C25: Sampled in whatever way, a button never fails and reports its events in order: a press,
  any number of holds, then the release and its click together.\<close>

theorem button_events_in_order:
  "\<exists>b' a' es. btn_run xs b a = Some (b', a', es) \<and> ordered (pressed b) es (pressed b')"
proof -
  obtain a' where "btn_run xs b a = Some (fst (core_run (levels b xs) b), a', snd (core_run (levels b xs) b))"
    using btn_run_core by blast
  then show ?thesis using core_run_ordered by blast
qed

text \<open>C26: A press is reported only after the key was sampled at its active level, and nothing else,
  for the whole debounce time.\<close>

theorem press_needs_debounce:
  assumes "btn_state b = NONE_PRESS" "0 \<le> elimination_time b" "elimination_time b \<le> 255"
    "\<forall>(t, t', g) \<in> set xs. t0 \<le> t \<and> t < t0 + 2147483000" "btn_run xs b a = Some (b', a', es)" "BTN_PRESS_DOWN \<in> set es"
  shows "\<exists>zs ys ws. xs = zs @ ys @ ws \<and> ys \<noteq> [] \<and> (\<forall>(t, t', g) \<in> set ys. gpio_get (pin b) g = active_logic b)
    \<and> fst (hd ys) + elimination_time b \<le> fst (last ys)"
proof -
  have sp: "in_span t0 (levels b xs)" using assms(4) by (auto simp: in_span_def levels_def)
  have "es = snd (core_run (levels b xs) b)" using btn_run_core [of xs b a] assms(5) by auto
  then obtain zs' ys' ws' where "levels b xs = zs' @ ys' @ ws'" and st: "settled (elimination_time b) ys'"
    using press_settled [OF assms(1-3) sp] assms(6) by blast
  then obtain zs ys ws where xs: "xs = zs @ ys @ ws" and ys: "ys' = levels b ys"
    by (auto simp: levels_def map_eq_append_conv append_eq_map_conv)
  have "ys \<noteq> []" using st by (auto simp: settled_def ys levels_def)
  moreover have "\<forall>(t, t', g) \<in> set ys. gpio_get (pin b) g = active_logic b"
    using st by (auto simp: settled_def ys levels_def on_level_def)
  moreover have "fst (hd ys) + elimination_time b \<le> fst (last ys)"
    using st \<open>ys \<noteq> []\<close> by (simp add: settled_def ys levels_def hd_map last_map split_def)
  ultimately show ?thesis using xs by blast
qed

text \<open>C27: A key held for the debounce time and then released for three samples is one click, and the
  button is back where it was.\<close>

theorem gesture_is_one_click:
  assumes "btn_state b = NONE_PRESS" "0 < elimination_time b" "elimination_time b \<le> 255"
    "\<forall>(t, t', g) \<in> set ps. t0 \<le> t \<and> t < t0 + 2147483000 \<and> gpio_get (pin b) g = active_logic b"
    "ps \<noteq> []" "fst (hd ps) + elimination_time b \<le> fst (last ps)"
    "\<forall>(t, t', g) \<in> set qs. gpio_get (pin b) g \<noteq> active_logic b" "3 \<le> length qs"
  shows "\<exists>b' a' es. btn_run (ps @ qs) b a = Some (b', a', es) \<and> btn_state b' = NONE_PRESS \<and> count_list es BTN_CLICK = 1"
proof -
  have l: "levels b (ps @ qs) = levels b ps @ levels b qs" by (simp add: levels_def)
  obtain a' where "btn_run (ps @ qs) b a
      = Some (fst (core_run (levels b (ps @ qs)) b), a', snd (core_run (levels b (ps @ qs)) b))"
    using btn_run_core by blast
  moreover have "btn_state (fst (core_run (levels b (ps @ qs)) b)) = NONE_PRESS
      \<and> count_list (snd (core_run (levels b (ps @ qs)) b)) BTN_CLICK = 1"
    unfolding l
  proof (rule click_gesture [OF assms(1-3)])
    show "in_span t0 (levels b ps)" using assms(4) by (auto simp: in_span_def levels_def)
    have on: "all_on (levels b ps)" using assms(4) by (auto simp: levels_def on_level_def)
    show "settled (elimination_time b) (levels b ps)"
      using on assms(5,6) by (simp add: settled_def levels_def hd_map last_map split_def)
    show "all_off (levels b qs)" using assms(7) by (auto simp: levels_def on_level_def)
  qed (use assms(8) in \<open>simp add: levels_def\<close>)
  ultimately show ?thesis by blast
qed

text \<open>One click of key 3 sends the binary image twice, for both viewers: its case runs on into
  that of key 4.\<close>

theorem key3_sends_twice:
  assumes "pin b = KEY3_PIN" "repeat_cnt b = 1"
  shows "btn_click_event_cb b a = Some (a\<lparr>outs := outs a @ [Click KEY3_PIN 1 (hold_time b)]
     @ Text ''START'' # pixels (bin_byte (bin_image a)) @ [Text (''END'' @ [CHR 0x0A])]
     @ [Byte 0, Byte 255, Byte 1, Byte 1] @ pixels (bin_byte (bin_image a))\<rparr>)"
  using assms
  by (simp add: btn_click_event_cb_def key4_click_def KEY1_PIN_def KEY2_PIN_def KEY3_PIN_def Let_def
    upload_my_bin_def upload_zf_bin_def put_image_pixels)

text \<open>The hold time is the time since the press, one short when the tick count has wrapped
  in between.\<close>

theorem hold_time_on_wrap:
  assumes "0 \<le> T" "T \<le> t" "t - T < 4294967296" "tick_timeout b = rt_tick_get T"
  shows "hold_time (agile_btn_cal_hold_time t b)
    = (if t div 4294967296 = T div 4294967296 then t - T else t - T - 1)"
proof -
  define q r where "q = T div 4294967296" and "r = t div 4294967296"
  define x y where "x = T mod 4294967296" and "y = t mod 4294967296"
  have T: "T = q * 4294967296 + x" "0 \<le> x" "x < 4294967296" by (simp_all add: q_def x_def)
  have t: "t = r * 4294967296 + y" "0 \<le> y" "y < 4294967296" by (simp_all add: r_def y_def)
  have k: "r = q \<and> x \<le> y \<or> r = q + 1 \<and> y < x" using assms(2,3) T t by linarith
  have "tick_timeout b = x" "rt_tick_get t = y" using assms(4) by (simp_all add: rt_tick_get_def u32_def x_def y_def)
  then show ?thesis using k T t unfolding agile_btn_cal_hold_time_def q_def [symmetric] r_def [symmetric]
    by (auto simp: Let_def)
qed

section \<open>Witnesses\<close>

definition demo_btn :: btn where
  "demo_btn = \<lparr>active = True, repeat_cnt = 0, elimination_time = 15, last_event = BTN_EVENT_SUM, btn_state = NONE_PRESS,
     hold_time = 0, prev_hold_time = 0, hold_cycle_time = 1000, pin = KEY1_PIN, active_logic = 0, tick_timeout = 0,
     event_cb = (\<lambda>e. if e = BTN_CLICK then Some Click_cb else None)\<rparr>"

definition demo_app :: app where
  "demo_app = \<lparr>is_chassis_running = 0, disp_pic_type = 0, outs = [], bin_image = (\<lambda>_. 0), csi_image = (\<lambda>_. 0)\<rparr>"

lemma gesture_is_one_click_witness:
  "\<exists>b' a' es. btn_run ([(100, 100, \<lambda>_. 0), (110, 110, \<lambda>_. 0), (120, 120, \<lambda>_. 0)] @ [(125, 125, \<lambda>_. 1), (130, 130, \<lambda>_. 1), (135, 135, \<lambda>_. 1)])
      demo_btn demo_app = Some (b', a', es) \<and> btn_state b' = NONE_PRESS \<and> count_list es BTN_CLICK = 1"
  by (rule gesture_is_one_click [of demo_btn _ 0]) (simp_all add: demo_btn_def gpio_get_def)

definition demo_press :: "sample list" where
  "demo_press = [(100, 100, \<lambda>_. 0), (120, 120, \<lambda>_. 0), (125, 125, \<lambda>_. 0)]"

lemma press_needs_debounce_witness:
  "\<exists>b' a' es. btn_run demo_press demo_btn demo_app = Some (b', a', es)
     \<and> BTN_PRESS_DOWN \<in> set es \<and> (\<exists>zs ys ws. demo_press = zs @ ys @ ws \<and> ys \<noteq> []
        \<and> (\<forall>(t, t', g) \<in> set ys. gpio_get (pin demo_btn) g = active_logic demo_btn)
        \<and> fst (hd ys) + elimination_time demo_btn \<le> fst (last ys))"
proof -
  obtain a' where r: "btn_run demo_press demo_btn demo_app
      = Some (fst (core_run (levels demo_btn demo_press) demo_btn), a', snd (core_run (levels demo_btn demo_press) demo_btn))"
    using btn_run_core by blast
  have d: "BTN_PRESS_DOWN \<in> set (snd (core_run (levels demo_btn demo_press) demo_btn))"
    by (simp add: demo_press_def levels_def on_level_def demo_btn_def gpio_get_def btn_core_def Let_def rt_tick_from_millisecond_def
      rt_tick_get_def timed_out_def)
  have "btn_state demo_btn = NONE_PRESS" "0 \<le> elimination_time demo_btn" "elimination_time demo_btn \<le> 255"
    by (simp_all add: demo_btn_def)
  then have "\<exists>zs ys ws. demo_press = zs @ ys @ ws \<and> ys \<noteq> []
        \<and> (\<forall>(t, t', g) \<in> set ys. gpio_get (pin demo_btn) g = active_logic demo_btn)
        \<and> fst (hd ys) + elimination_time demo_btn \<le> fst (last ys)"
    by (rule press_needs_debounce [of demo_btn demo_press 0, OF _ _ _ _ r d]) (simp add: demo_press_def)
  then show ?thesis by - (rule exI, rule exI, rule exI, rule conjI [OF r conjI [OF d]])
qed

lemma key3_sends_twice_witness:
  "btn_click_event_cb (demo_btn\<lparr>pin := KEY3_PIN, repeat_cnt := 1\<rparr>) demo_app \<noteq> Some demo_app"
  using key3_sends_twice [of "demo_btn\<lparr>pin := KEY3_PIN, repeat_cnt := 1\<rparr>" demo_app]
  by (simp add: demo_app_def)

lemma hold_time_on_wrap_witness:
  "hold_time (agile_btn_cal_hold_time 4294967396 (demo_btn\<lparr>tick_timeout := 4294967196\<rparr>)) = 199"
  using hold_time_on_wrap [of 4294967196 4294967396 "demo_btn\<lparr>tick_timeout := 4294967196\<rparr>"]
  by (simp add: rt_tick_get_def)

end
