(* ===== verification/PanelFacts.thy ===== *)
theory PanelFacts
  imports ButtonFacts
begin

text \<open>
  The panel of buttons as a whole.  Its heap is seen as a map from handles to buttons; the list the
  thread walks holds exactly the started buttons, once each, whatever calls are made.
\<close>

section \<open>The heap as a map\<close>

definition hmap :: "panel \<Rightarrow> int \<Rightarrow> btn option" where
  "hmap s i = get_btn (Some i) s"

lemma get_btn_hmap [simp]: "get_btn (Some i) s = hmap s i"
  by (simp add: hmap_def)

lemma get_btn_null [simp]: "get_btn None s = None"
  by (simp add: get_btn_def)

lemma hmap_range: "hmap s i = Some b \<Longrightarrow> 0 \<le> i \<and> i < int (length (btn_heap s))"
  by (auto simp: hmap_def get_btn_def c_get_def split: if_splits)

lemma hmap_nth: "0 \<le> i \<Longrightarrow> i < int (length (btn_heap s)) \<Longrightarrow> hmap s i = btn_heap s ! nat i"
  by (simp add: hmap_def get_btn_def)

lemma hmap_out: "\<not> (0 \<le> i \<and> i < int (length (btn_heap s))) \<Longrightarrow> hmap s i = None"
  by (auto simp: hmap_def get_btn_def c_get_def)

lemma hmap_update:
  assumes "hmap s i = Some b"
  shows "hmap (s\<lparr>btn_heap := (btn_heap s)[nat i := x]\<rparr>) = (hmap s)(i := x)"
proof
  fix j
  have i: "0 \<le> i" "i < int (length (btn_heap s))" using hmap_range [OF assms] by simp_all
  show "hmap (s\<lparr>btn_heap := (btn_heap s)[nat i := x]\<rparr>) j = ((hmap s)(i := x)) j"
    using i by (cases "0 \<le> j \<and> j < int (length (btn_heap s))") (auto simp: hmap_nth hmap_out nth_list_update nat_eq_iff2)
qed

lemma put_btn_hmap:
  assumes "hmap s i = Some b"
  shows "put_btn (Some i) b' s = Some (s\<lparr>btn_heap := (btn_heap s)[nat i := Some b']\<rparr>)"
  using hmap_range [OF assms] by (simp add: put_btn_def)

lemma hmap_create:
  "hmap (s\<lparr>btn_heap := btn_heap s @ [x]\<rparr>) = (hmap s)(int (length (btn_heap s)) := x)"
proof
  fix j
  show "hmap (s\<lparr>btn_heap := btn_heap s @ [x]\<rparr>) j = ((hmap s)(int (length (btn_heap s)) := x)) j"
    by (cases "0 \<le> j \<and> j < int (length (btn_heap s)) + 1") (auto simp: hmap_nth hmap_out nth_append)
qed

lemma hmap_list [simp]: "hmap (s\<lparr>agile_btn_list := l\<rparr>) = hmap s"
  by (simp add: hmap_def get_btn_def fun_eq_iff)

section \<open>The invariant\<close>

definition panel_ok :: "panel \<Rightarrow> bool" where
  "panel_ok s \<longleftrightarrow> distinct (agile_btn_list s)
     \<and> (\<forall>i. i \<in> set (agile_btn_list s) \<longleftrightarrow> (\<exists>b. hmap s i = Some b \<and> active b))"

lemma panel_okI:
  assumes "distinct (agile_btn_list s)" "\<And>i. i \<in> set (agile_btn_list s) \<longleftrightarrow> (\<exists>b. hmap s i = Some b \<and> active b)"
  shows "panel_ok s"
  using assms by (simp add: panel_ok_def)

text \<open>An update of one button that does not start or stop it.\<close>

lemma panel_ok_set:
  assumes "panel_ok s" "hmap s i = Some b" "active b' = active b"
  shows "panel_ok (s\<lparr>btn_heap := (btn_heap s)[nat i := Some b']\<rparr>)"
  using assms by (auto simp: panel_ok_def hmap_update [OF assms(2)])

lemma create_ok: "panel_ok s \<Longrightarrow> agile_btn_create mem t p logic s = (h, s') \<Longrightarrow> panel_ok s'"
  by (auto simp: agile_btn_create_def panel_ok_def hmap_create hmap_out split: if_splits)

lemma delete_ok:
  assumes "panel_ok s" "hmap s i = Some b"
  shows "runs (agile_btn_delete (Some i) s) (\<lambda>(r, s'). r = 0 \<and> panel_ok s' \<and> hmap s' i = None)"
proof -
  define s' where "s' = s\<lparr>agile_btn_list := remove1 i (agile_btn_list s), btn_heap := (btn_heap s)[nat i := None]\<rparr>"
  have "agile_btn_delete (Some i) s = Some (0, s')"
    using hmap_range [OF assms(2)] assms(2) by (simp add: agile_btn_delete_def s'_def)
  moreover have h: "hmap s' = (hmap s)(i := None)"
    using hmap_update [of "s\<lparr>agile_btn_list := remove1 i (agile_btn_list s)\<rparr>" i b None] assms(2) by (simp add: s'_def)
  moreover have "panel_ok s'" by (rule panel_okI) (use assms(1) h in \<open>auto simp: panel_ok_def s'_def\<close>)
  ultimately show ?thesis by simp
qed

lemma start_ok:
  assumes "panel_ok s" "hmap s i = Some b"
  shows "runs (agile_btn_start t (Some i) s) (\<lambda>(r, s'). panel_ok s' \<and> i \<in> set (agile_btn_list s'))"
proof (cases "active b")
  case True
  then show ?thesis using assms by (auto simp: agile_btn_start_def panel_ok_def)
next
  case False
  define s1 where "s1 = s\<lparr>btn_heap := (btn_heap s)[nat i := Some (start_btn t b)]\<rparr>"
  have "agile_btn_start t (Some i) s = Some (0, s1\<lparr>agile_btn_list := agile_btn_list s1 @ [i]\<rparr>)"
    using assms(2) False by (simp add: agile_btn_start_def put_btn_hmap s1_def)
  moreover have "hmap s1 = (hmap s)(i := Some (start_btn t b))" unfolding s1_def by (rule hmap_update [OF assms(2)])
  moreover have "i \<notin> set (agile_btn_list s)" using assms False by (auto simp: panel_ok_def)
  moreover have "agile_btn_list s1 = agile_btn_list s" by (simp add: s1_def)
  ultimately show ?thesis using assms(1) by (auto simp: panel_ok_def start_btn_def)
qed

lemma stop_ok:
  assumes "panel_ok s" "hmap s i = Some b"
  shows "runs (agile_btn_stop (Some i) s) (\<lambda>(r, s'). r = 0 \<and> panel_ok s' \<and> i \<notin> set (agile_btn_list s'))"
proof (cases "active b")
  case False
  then show ?thesis using assms by (auto simp: agile_btn_stop_def panel_ok_def)
next
  case True
  define s1 where "s1 = s\<lparr>btn_heap := (btn_heap s)[nat i := Some (b\<lparr>active := False\<rparr>)]\<rparr>"
  have "agile_btn_stop (Some i) s = Some (0, s1\<lparr>agile_btn_list := remove1 i (agile_btn_list s1)\<rparr>)"
    using assms(2) True by (simp add: agile_btn_stop_def put_btn_hmap s1_def)
  moreover have "hmap s1 = (hmap s)(i := Some (b\<lparr>active := False\<rparr>))" unfolding s1_def by (rule hmap_update [OF assms(2)])
  moreover have "agile_btn_list s1 = agile_btn_list s" by (simp add: s1_def)
  ultimately show ?thesis using assms(1) by (auto simp: panel_ok_def)
qed

lemma set_ok:
  assumes "panel_ok s" "hmap s i = Some b"
  shows "runs (agile_btn_set_elimination_time (Some i) ms s) (\<lambda>(r, s'). panel_ok s')"
    "runs (agile_btn_set_hold_cycle_time (Some i) ms s) (\<lambda>(r, s'). panel_ok s')"
    "runs (agile_btn_set_event_cb (Some i) e f s) (\<lambda>(r, s'). panel_ok s')"
  using assms panel_ok_set [OF assms]
  by (simp_all add: agile_btn_set_elimination_time_def agile_btn_set_hold_cycle_time_def agile_btn_set_event_cb_def put_btn_hmap)

lemma btn_pass_ok:
  assumes "panel_ok s" "\<forall>i \<in> set is. hmap s i \<noteq> None"
  shows "runs (btn_pass clock g is s a) (\<lambda>(s', a'). panel_ok s' \<and> agile_btn_list s' = agile_btn_list s)"
  using assms
proof (induction "is" arbitrary: s a)
  case (Cons i "is")
  obtain b where b: "hmap s i = Some b" using Cons.prems(2) by auto
  obtain a1 where a1: "btn_step (fst (clock i)) (snd (clock i)) g b a
      = Some (fst (btn_core (fst (clock i)) (snd (clock i)) (on_level g b) b), a1,
              snd (btn_core (fst (clock i)) (snd (clock i)) (on_level g b) b))"
    using btn_step_core by blast
  define c where "c = fst (btn_core (fst (clock i)) (snd (clock i)) (on_level g b) b)"
  define s1 where "s1 = s\<lparr>btn_heap := (btn_heap s)[nat i := Some c]\<rparr>"
  have s1: "panel_ok s1" "hmap s1 = (hmap s)(i := Some c)" "agile_btn_list s1 = agile_btn_list s"
    using panel_ok_set [OF Cons.prems(1) b] hmap_update [OF b] by (simp_all add: s1_def c_def)
  have "runs (btn_pass clock g is s1 a1) (\<lambda>(s', a'). panel_ok s' \<and> agile_btn_list s' = agile_btn_list s1)"
    by (rule Cons.IH) (use s1 Cons.prems(2) in auto)
  then show ?case using b s1(3)
    by (simp add: a1 c_def [symmetric] put_btn_hmap s1_def [symmetric])
qed simp

section \<open>Creating the keys\<close>

lemma panel_ok_fields [simp]:
  "panel_ok (s\<lparr>is_initialized := x\<rparr>) = panel_ok s" "panel_ok (s\<lparr>key1 := k\<rparr>) = panel_ok s" "panel_ok (s\<lparr>key2 := k\<rparr>) = panel_ok s"
  "panel_ok (s\<lparr>key3 := k\<rparr>) = panel_ok s" "panel_ok (s\<lparr>key4 := k\<rparr>) = panel_ok s"
  by (simp_all add: panel_ok_def hmap_def get_btn_def)

lemma init_ok: "panel_ok s \<Longrightarrow> agile_btn_init mtx thr s = (r, s') \<Longrightarrow> panel_ok s'"
  by (auto simp: agile_btn_init_def split: if_splits)

text \<open>A call that goes through was on a live button.\<close>

lemma event_cb_ok:
  assumes "panel_ok s" "agile_btn_set_event_cb h e f s = Some (r, s')"
  shows "panel_ok s'"
proof -
  obtain i b where h: "h = Some i" "hmap s i = Some b"
    using assms(2) by (cases h; cases "get_btn h s") (simp_all add: agile_btn_set_event_cb_def)
  from set_ok(3) [OF assms(1) h(2), of e f] show ?thesis using assms(2) by (simp add: h(1))
qed

lemma start_call_ok:
  assumes "panel_ok s" "agile_btn_start t h s = Some (r, s')"
  shows "panel_ok s'"
proof -
  obtain i b where h: "h = Some i" "hmap s i = Some b"
    using assms(2) by (cases h; cases "get_btn h s") (simp_all add: agile_btn_start_def)
  from start_ok [OF assms(1) h(2), of t] show ?thesis using assms(2) by (simp add: h(1))
qed

lemma make_key_ok:
  assumes "panel_ok s" "make_key mem t p s = Some (k, s')"
  shows "panel_ok s'"
proof -
  obtain k1 s1 where 1: "agile_btn_create mem t p 0 s = (k1, s1)" by force
  obtain r2 s2 r3 s3 r4 where s': "agile_btn_set_event_cb k1 BTN_CLICK Click_cb s1 = Some (r2, s2)"
    "agile_btn_set_event_cb k1 BTN_HOLD Hold_cb s2 = Some (r3, s3)" "agile_btn_start t k1 s3 = Some (r4, s')"
    using assms(2) by (auto simp: make_key_def 1 bind_eq_Some_conv)
  show ?thesis using create_ok [OF assms(1) 1] event_cb_ok s'(1,2) start_call_ok [OF _ s'(3)] by blast
qed

lemma key_made_ok:
  assumes "(if k = None then do { (k, s) \<leftarrow> make_key mem t p s; Some (f k s) } else Some s) = Some s'" "panel_ok s"
    "\<And>k s. panel_ok (f k s) = panel_ok s"
  shows "panel_ok s'"
  using assms by (auto simp: bind_eq_Some_conv dest: make_key_ok split: if_splits)

lemma key_create_ok:
  assumes "panel_ok s" "key_create mem t s = Some (r, s')"
  shows "panel_ok s'"
proof -
  from assms(2) obtain s1 s2 s3 where k:
    "(if key1 s = None then do { (k, s) \<leftarrow> make_key mem t KEY1_PIN s; Some (s\<lparr>key1 := k\<rparr>) } else Some s) = Some s1"
    "(if key2 s1 = None then do { (k, s) \<leftarrow> make_key mem t KEY2_PIN s1; Some (s\<lparr>key2 := k\<rparr>) } else Some s1) = Some s2"
    "(if key3 s2 = None then do { (k, s) \<leftarrow> make_key mem t KEY3_PIN s2; Some (s\<lparr>key3 := k\<rparr>) } else Some s2) = Some s3"
    "(if key4 s3 = None then do { (k, s) \<leftarrow> make_key mem t KEY4_PIN s3; Some (s\<lparr>key4 := k\<rparr>) } else Some s3) = Some s'"
    unfolding key_create_def bind_eq_Some_conv by blast
  have "panel_ok s1" by (rule key_made_ok [OF k(1) assms(1)]) simp
  then have "panel_ok s2" by (rule key_made_ok [OF k(2)]) simp
  then have "panel_ok s3" by (rule key_made_ok [OF k(3)]) simp
  then show ?thesis by (rule key_made_ok [OF k(4)]) simp
qed

section \<open>Properties\<close>

text \<open>What can happen to the panel: its initialisation, with or without memory for the mutex and the thread, the creation of the
  four keys, the calls of the interface on live buttons, and passes of the thread.\<close>

inductive panel_step :: "panel \<Rightarrow> panel \<Rightarrow> bool" where
  init: "agile_btn_init mtx thr s = (r, s') \<Longrightarrow> panel_step s s'"
| keys: "key_create mem t s = Some (r, s') \<Longrightarrow> panel_step s s'"
| create: "agile_btn_create mem t p logic s = (h, s') \<Longrightarrow> panel_step s s'"
| delete: "hmap s i \<noteq> None \<Longrightarrow> agile_btn_delete (Some i) s = Some (r, s') \<Longrightarrow> panel_step s s'"
| start: "hmap s i \<noteq> None \<Longrightarrow> agile_btn_start t (Some i) s = Some (r, s') \<Longrightarrow> panel_step s s'"
| stop: "hmap s i \<noteq> None \<Longrightarrow> agile_btn_stop (Some i) s = Some (r, s') \<Longrightarrow> panel_step s s'"
| elimination: "hmap s i \<noteq> None \<Longrightarrow> agile_btn_set_elimination_time (Some i) ms s = Some (r, s') \<Longrightarrow> panel_step s s'"
| hold_cycle: "hmap s i \<noteq> None \<Longrightarrow> agile_btn_set_hold_cycle_time (Some i) ms s = Some (r, s') \<Longrightarrow> panel_step s s'"
| callback: "hmap s i \<noteq> None \<Longrightarrow> agile_btn_set_event_cb (Some i) e f s = Some (r, s') \<Longrightarrow> panel_step s s'"
| pass: "btn_process clock g s a = Some (s', a') \<Longrightarrow> panel_step s s'"

inductive panel_run :: "panel \<Rightarrow> panel \<Rightarrow> bool" where
  refl: "panel_run s s"
| step: "panel_run s t \<Longrightarrow> panel_step t u \<Longrightarrow> panel_run s u"

definition panel_start :: panel where
  "panel_start = \<lparr>is_initialized = False, btn_heap = [], agile_btn_list = [], key1 = None, key2 = None, key3 = None, key4 = None\<rparr>"

lemma btn_process_ok:
  assumes "panel_ok s"
  shows "runs (btn_process clock g s a) (\<lambda>(s', a'). panel_ok s' \<and> agile_btn_list s' = agile_btn_list s)"
  unfolding btn_process_def by (rule btn_pass_ok [OF assms]) (use assms in \<open>auto simp: panel_ok_def\<close>)

lemma panel_step_ok:
  assumes "panel_step s s'" "panel_ok s"
  shows "panel_ok s'"
  using assms(1)
proof cases
  case (init mtx thr r)
  then show ?thesis using init_ok [OF assms(2)] by blast
next
  case (keys mem t r)
  then show ?thesis using key_create_ok [OF assms(2)] by blast
next
  case (create mem t p logic h)
  then show ?thesis using create_ok [OF assms(2)] by blast
next
  case (delete i r)
  then obtain b where "hmap s i = Some b" by blast
  from delete_ok [OF assms(2) this] delete(2) show ?thesis by (fastforce simp: runs_iff)
next
  case (start i t r)
  then obtain b where "hmap s i = Some b" by blast
  from start_ok [OF assms(2) this, of t] start(2) show ?thesis by (fastforce simp: runs_iff)
next
  case (stop i r)
  then obtain b where "hmap s i = Some b" by blast
  from stop_ok [OF assms(2) this] stop(2) show ?thesis by (fastforce simp: runs_iff)
next
  case (elimination i ms r)
  then obtain b where "hmap s i = Some b" by blast
  from set_ok(1) [OF assms(2) this, of ms] elimination(2) show ?thesis by (fastforce simp: runs_iff)
next
  case (hold_cycle i ms r)
  then obtain b where "hmap s i = Some b" by blast
  from set_ok(2) [OF assms(2) this, of ms] hold_cycle(2) show ?thesis by (fastforce simp: runs_iff)
next
  case (callback i e f r)
  then obtain b where "hmap s i = Some b" by blast
  from set_ok(3) [OF assms(2) this, of e f] callback(2) show ?thesis by (fastforce simp: runs_iff)
next
  case (pass clock g a a')
  then show ?thesis using btn_process_ok [OF assms(2), of clock g a] by simp
qed

lemma panel_run_ok: "panel_run s t \<Longrightarrow> panel_ok s \<Longrightarrow> panel_ok t"
  by (induction rule: panel_run.induct) (auto intro: panel_step_ok)

lemma panel_start_ok: "panel_ok panel_start"
  by (simp add: panel_ok_def panel_start_def hmap_out)

text \<open>
  C28: Whatever happens to the panel from power-on on (its initialisation, the creation of the keys, any calls on live buttons and any
  passes of the thread), the thread's list holds exactly the started buttons, once each, and its next pass goes through.  On every live
  button the next call goes through and does its work: after a start the button is in the list, after a stop it is not, and after a
  delete it is in neither the list nor the heap.
\<close>

theorem panel_consistent:
  assumes "panel_run panel_start s"
  shows "distinct (agile_btn_list s)
    \<and> (\<forall>i. i \<in> set (agile_btn_list s) \<longleftrightarrow> (\<exists>b. get_btn (Some i) s = Some b \<and> active b))
    \<and> btn_process clock g s a \<noteq> None
    \<and> (\<forall>i. get_btn (Some i) s \<noteq> None \<longrightarrow>
        runs (agile_btn_start t (Some i) s) (\<lambda>(r, s'). i \<in> set (agile_btn_list s'))
        \<and> runs (agile_btn_stop (Some i) s) (\<lambda>(r, s'). r = 0 \<and> i \<notin> set (agile_btn_list s'))
        \<and> runs (agile_btn_delete (Some i) s) (\<lambda>(r, s'). r = 0 \<and> i \<notin> set (agile_btn_list s') \<and> get_btn (Some i) s' = None))"
proof -
  have ok: "panel_ok s" using panel_run_ok [OF assms panel_start_ok] .
  then have "btn_process clock g s a \<noteq> None" using btn_process_ok [of s clock g a] by (auto simp: runs_iff)
  moreover have "runs (agile_btn_start t (Some i) s) (\<lambda>(r, s'). i \<in> set (agile_btn_list s'))"
    "runs (agile_btn_stop (Some i) s) (\<lambda>(r, s'). r = 0 \<and> i \<notin> set (agile_btn_list s'))"
    "runs (agile_btn_delete (Some i) s) (\<lambda>(r, s'). r = 0 \<and> i \<notin> set (agile_btn_list s') \<and> get_btn (Some i) s' = None)"
    if b: "hmap s i = Some b" for i b
    by (rule runs_mono [OF start_ok [OF ok b]], force, rule runs_mono [OF stop_ok [OF ok b]], force,
        rule runs_mono [OF delete_ok [OF ok b]]) (auto simp: panel_ok_def)
  ultimately show ?thesis using ok by (auto simp: panel_ok_def)
qed

text \<open>Initialisation: with memory, the four keys are started in order; before \<open>agile_btn_init\<close> has run,
  the assertion on the null handle fails.\<close>

lemma key_create_early: "key_create mem t panel_start = None"
  by (simp add: key_create_def panel_start_def make_key_def agile_btn_create_def agile_btn_set_event_cb_def)

lemma key_create_starts:
  "\<exists>s. key_create True t (panel_start\<lparr>is_initialized := True\<rparr>) = Some (0, s) \<and> agile_btn_list s = [0, 1, 2, 3]
     \<and> map (map_option pin) (btn_heap s) = map Some [KEY1_PIN, KEY2_PIN, KEY3_PIN, KEY4_PIN]"
  by (simp add: key_create_def panel_start_def make_key_def agile_btn_create_def agile_btn_set_event_cb_def agile_btn_start_def
    get_btn_def put_btn_def start_btn_def numeral_eq_Suc)

text \<open>The panel of the car: initialised, with its four keys started.\<close>

definition four_keys :: panel where
  "four_keys = snd (the (key_create True 0 (snd (agile_btn_init True True panel_start))))"

lemma four_keys_run: "panel_run panel_start four_keys" "agile_btn_list four_keys = [0, 1, 2, 3]"
proof -
  obtain s where s: "key_create True 0 (panel_start\<lparr>is_initialized := True\<rparr>) = Some (0, s)" "agile_btn_list s = [0, 1, 2, 3]"
    using key_create_starts [of 0] by blast
  have i: "agile_btn_init True True panel_start = (0, panel_start\<lparr>is_initialized := True\<rparr>)" by (simp add: agile_btn_init_def)
  have k: "four_keys = s" by (simp add: four_keys_def i s(1))
  show "panel_run panel_start four_keys" unfolding k
    by (rule panel_run.step [OF panel_run.step [OF panel_run.refl panel_step.init [OF i]] panel_step.keys [OF s(1)]])
  show "agile_btn_list four_keys = [0, 1, 2, 3]" using s(2) k by simp
qed

lemma panel_consistent_witness:
  "agile_btn_list four_keys = [0, 1, 2, 3] \<and> btn_process (\<lambda>_. (0, 0)) (\<lambda>_. 0) four_keys demo_app \<noteq> None
    \<and> runs (agile_btn_stop (Some 2) four_keys) (\<lambda>(r, s'). 2 \<notin> set (agile_btn_list s'))"
proof -
  note C = panel_consistent [OF four_keys_run(1), of "\<lambda>_. (0, 0)" "\<lambda>_. 0" demo_app 0]
  have "2 \<in> set (agile_btn_list four_keys)" by (simp add: four_keys_run(2))
  then have "get_btn (Some 2) four_keys \<noteq> None" using C by blast
  then have "runs (agile_btn_stop (Some 2) four_keys) (\<lambda>(r, s'). r = 0 \<and> 2 \<notin> set (agile_btn_list s'))" using C by blast
  then show ?thesis using C four_keys_run(2) by (auto elim!: runs_mono)
qed

end
