(* ===== verification/MainLoop.thy ===== *)
theory MainLoop
  imports MidlineRepair ImageProcess Chassis DistinguishFacts EasyBlinkSpec PanelFacts
begin

text \<open>
  \<open>main.c\<close>: the start, the loop over the camera's frames, and its shell commands.  The loop
  runs beside the chassis thread, the blinker's daemon and the button thread; what they share
  is one state here: the speeds and wheels (\<open>chs\<close>), the LEDs (\<open>blk\<close>), the picture buffers and
  \<open>disp_pic_type\<close> (\<open>ui\<close>), and the PWM outputs inside \<open>chs\<close>.  A round of the loop, a round of the
  chassis thread, a pass over the buttons and a step of the daemon are atomic: \<open>chassis_dmutex\<close>
  and the button mutex make the calls so, the rest is an abstraction.
\<close>

section \<open>State\<close>

record car =
  lns :: lines
  trk :: track
  chs :: chassis
  blk :: blinker
  pnl :: panel
  ui :: app
  errno_led :: int
  info_beep :: int
  rho_err_pid :: "controller_t option"
  FilterImage :: image
  ImageThreshold :: int
  steer_out :: fl
  steer_basic_kp :: fl
  steer_kp_j :: fl
  steer_kp :: fl
  steer_ki :: fl
  steer_kd :: fl
  steer_kp_max :: fl
  is_steer_debug :: int
  use_time :: int
  pit0 :: pit
  console :: "(int \<times> int \<times> int \<times> fl) list"
  screen :: "image option \<times> (int \<times> int \<times> int) list"

text \<open>What the outside gives a round: the camera's image, the levels of the switches, the word on
  the stack that \<open>find_curve1\<close> reads, the tick, and what timer 0 then shows.\<close>

record frame =
  csi :: image
  levels :: pins
  stack_word :: int
  frame_tick :: int
  elapsed :: int
  overflowed :: bool

section \<open>The display\<close>

definition RED :: int where "RED = 63488"
definition GREEN :: int where "GREEN = 2016"
definition BLUE :: int where "BLUE = 31"

text \<open>The picture and the points drawn over it; \<open>lcd_drawpoint\<close> takes its coordinates as \<open>uint16\<close>.\<close>

definition draw_row :: "lines \<Rightarrow> int \<Rightarrow> (int \<times> int \<times> int) list \<Rightarrow> (int \<times> int \<times> int) list flow option" where
  "draw_row s i ps = do {
     l \<leftarrow> LL s i;
     m \<leftarrow> ML s i;
     r \<leftarrow> RL s i;
     Some (Next (ps @ [(u16 l, i, RED), (u16 m, i, BLUE), (u16 r, i, GREEN)])) }"

definition show_tft_img :: "car \<Rightarrow> car option" where
  "show_tft_img c = do {
     let im = (if disp_pic_type (ui c) = 0 then Some (bin_image (ui c))
               else if disp_pic_type (ui c) = 1 then Some (FilterImage c)
               else if disp_pic_type (ui c) = 2 then Some (csi_image (ui c)) else None);
     ps \<leftarrow> for_up (draw_row (lns c)) (vtop (lns c)) 120 [];
     Some (c\<lparr>screen := (im, ps)\<rparr>) }"

section \<open>Start\<close>

definition LED1_PIN :: int where "LED1_PIN = 41"
definition BEEP_PIN :: int where "BEEP_PIN = 55"

text \<open>Up to the loop; \<open>mem\<close> holds the old contents of the controller's block.  The chassis thread
  is created here and starts on its own.\<close>

definition main_start :: "pos_pid_controller option \<Rightarrow> car \<Rightarrow> car option" where
  "main_start mem c = do {
     (led, b) \<leftarrow> easyblink_init_led LED1_PIN 0 (blk c);
     b \<leftarrow> easyblink led (- 1) 500 1000 b;
     (beep, b) \<leftarrow> easyblink_init_led BEEP_PIN 1 b;
     b \<leftarrow> easyblink beep 2 50 200 b;
     let c = c\<lparr>blk := b, errno_led := led, info_beep := beep\<rparr>;
     let h = hw (chs c);
     let c = c\<lparr>chs := (chs c)\<lparr>hw := h\<lparr>pwm_out := servo_init (pwm_out h)\<rparr>\<rparr>\<rparr>;
     pid \<leftarrow> pos_pid_controller_create mem (steer_kp c) (steer_ki c) (steer_kd c) (Fin 1000) (Fin (- 1000)) 10;
     pid \<leftarrow> pid;
     Some (c\<lparr>rho_err_pid := Some (controller_set_target (Fin 0) (Pos pid))\<rparr>) }"

section \<open>A round of the loop\<close>

text \<open>The picture: smoothing, binarisation, lines.\<close>

definition see_track :: "frame \<Rightarrow> car \<Rightarrow> car option" where
  "see_track e c = do {
     let c = c\<lparr>ui := (ui c)\<lparr>csi_image := csi e\<rparr>\<rparr>;
     let c = c\<lparr>FilterImage := gray_mean_filter (csi_image (ui c)) (FilterImage c)\<rparr>;
     (thr, bin) \<leftarrow> gray_to_binary (FilterImage c) (bin_image (ui c)) 1;
     let c = c\<lparr>ImageThreshold := thr, ui := (ui c)\<lparr>bin_image := bin\<rparr>\<rparr>;
     l \<leftarrow> findline1 (bin_image (ui c)) (lns c);
     l \<leftarrow> findline2 (bin_image (ui c)) (shortstraight_flag (trk c)) (stack_word e) l;
     Some (c\<lparr>lns := l\<rparr>) }"

text \<open>The decisions: steering error, speed, finish line; \<open>velocity_set\<close> may start the beeper.\<close>

definition decide :: "car \<Rightarrow> car option" where
  "decide c = do {
     t \<leftarrow> compute_error (speed_now (chs c)) (lns c) (trk c);
     (t, beep) \<leftarrow> velocity_set (lns c) t;
     b \<leftarrow> (case beep of None \<Rightarrow> Some (blk c) | Some (n, p, d) \<Rightarrow> easyblink (info_beep c) n p d (blk c));
     t \<leftarrow> stop_car_judge (bin_image (ui c)) t;
     let t = (if stop_car_flag t \<noteq> 0 then t\<lparr>speed_set := 0\<rparr> else t);
     Some (c\<lparr>trk := t, blk := b\<rparr>) }"

definition drive :: "frame \<Rightarrow> car \<Rightarrow> car" where
  "drive e c =
     (if switch_get 4 (levels e) = 0
      then c\<lparr>chs := snd (set_velocity (rd32 (of_int (speed_set (trk c)))) (steer_error_ave (trk c)) (chs c))\<rparr>
      else c)"

text \<open>The gain grows with the square of the error, up to a limit.\<close>

definition steer_gain :: "car \<Rightarrow> fl option" where
  "steer_gain c = do {
     q \<leftarrow> ck32 (steer_error_ave (trk c) * steer_error_ave (trk c));
     let kp = fadd (steer_basic_kp c) (fmul (rd32 (of_int q)) (steer_kp_j c));
     Some (if fl_le (steer_kp_max c) kp then steer_kp_max c else kp) }"

definition steer :: "frame \<Rightarrow> car \<Rightarrow> car option" where
  "steer e c = do {
     kp \<leftarrow> steer_gain c;
     pid \<leftarrow> rho_err_pid c;
     let pid = controller_set_param kp (steer_ki c) (steer_kd c) pid;
     x \<leftarrow> c_get (steer_error (trk c)) 0;
     let pid = controller_update (frame_tick e) (rd32 (of_int x)) pid;
     let c = c\<lparr>steer_kp := kp, rho_err_pid := Some pid, steer_out := controller_output pid\<rparr>;
     angle \<leftarrow> (if switch_get 1 (levels e) = 0 then fl_to_int (- 2147483648) 2147483647 (steer_out c) else Some 0);
     let h = hw (chs c);
     p \<leftarrow> servo1_set_angle angle (pwm_out h);
     Some (c\<lparr>chs := (chs c)\<lparr>hw := h\<lparr>pwm_out := p\<rparr>\<rparr>\<rparr>) }"

definition main_round :: "frame \<Rightarrow> car \<Rightarrow> car option" where
  "main_round e c = do {
     let c = c\<lparr>pit0 := pit_start (pit0 c)\<rparr>;
     c \<leftarrow> see_track e c;
     c \<leftarrow> decide c;
     c \<leftarrow> steer e (drive e c);
     let c = (if is_steer_debug c \<noteq> 0
              then c\<lparr>console := console c @ [(use_time c, speed_set (trk c), steer_error_ave (trk c), steer_out c)]\<rparr>
              else c);
     let (ms, t) = pit_get_ms (pit_clock (hw (chs c))) ((pit0 c)\<lparr>pit_count := elapsed e, pit_flag := overflowed e\<rparr>);
     show_tft_img (c\<lparr>use_time := u32 ms, pit0 := pit_close t\<rparr>) }"

section \<open>Shell commands\<close>

definition set_steer_pid_param_cmd :: "string list \<Rightarrow> car \<Rightarrow> (int \<times> car) option" where
  "set_steer_pid_param_cmd argv c = do {
     a1 \<leftarrow> arg argv 1; a2 \<leftarrow> arg argv 2; a3 \<leftarrow> arg argv 3; a4 \<leftarrow> arg argv 4; a5 \<leftarrow> arg argv 5;
     Some (0, c\<lparr>steer_basic_kp := to_float (myatof a1), steer_kp_j := to_float (myatof a2),
                steer_kp_max := to_float (myatof a3), steer_ki := to_float (myatof a4),
                steer_kd := to_float (myatof a5)\<rparr>) }"

definition set_steer_debug_cmd :: "string list \<Rightarrow> car \<Rightarrow> (int \<times> car) option" where
  "set_steer_debug_cmd argv c =
     (if length argv = 1 then Some (1, c)
      else do { a \<leftarrow> arg argv 1; Some (0, c\<lparr>is_steer_debug := str2bool a\<rparr>) })"

definition set_angle_cmd :: "string list \<Rightarrow> car \<Rightarrow> (int \<times> car) option" where
  "set_angle_cmd argv c =
     (if length argv = 1 then Some (1, c)
      else do {
        servo_value \<leftarrow> atoi_arg argv 1;
        let h = hw (chs c);
        p \<leftarrow> servo1_set_angle servo_value (pwm_out h);
        Some (0, c\<lparr>chs := (chs c)\<lparr>hw := h\<lparr>pwm_out := p\<rparr>\<rparr>\<rparr>) })"

definition set_disp_pic_type_cmd :: "string list \<Rightarrow> car \<Rightarrow> (int \<times> car) option" where
  "set_disp_pic_type_cmd argv c =
     (if length argv = 1 then Some (1, c)
      else do {
        v \<leftarrow> atoi_arg argv 1;
        Some (0, c\<lparr>ui := (ui c)\<lparr>disp_pic_type := u8 v\<rparr>\<rparr>) })"

end
