(* ===== verification/MainLoopFacts.thy ===== *)
theory MainLoopFacts
  imports MainLoop
begin

text \<open>
  What the components' invariants give for the car as a whole: a round of the main loop runs
  under them and keeps them, and so does whatever the other threads do in between.
\<close>

section \<open>The track\<close>

text \<open>Nothing lies behind the two arrays that \<open>distinguish.c\<close> writes past.\<close>

definition slack_ok :: "track \<Rightarrow> bool" where
  "slack_ok t \<longleftrightarrow> after_stop_car t \<noteq> None \<and> after_road_type t \<noteq> None"

definition track_inv :: "int \<Rightarrow> int \<Rightarrow> track \<Rightarrow> bool" where
  "track_inv lo hi t \<longleftrightarrow> error_ok t \<and> params_ok lo hi t \<and> track_ok t \<and> slack_ok t"

text \<open>The history of the finish line is kept.\<close>

definition same_finish :: "track \<Rightarrow> track \<Rightarrow> bool" where
  "same_finish s t \<longleftrightarrow> (\<forall>ims. stop_inv ims s \<longrightarrow> stop_inv ims t)"

lemma same_finishI:
  "stop_car t = stop_car s \<Longrightarrow> stop_car_flag t = stop_car_flag s \<Longrightarrow> (after_stop_car t = None) = (after_stop_car s = None)
    \<Longrightarrow> same_finish s t"
  by (simp add: same_finish_def stop_inv_def)

definition speed_ok :: "int \<Rightarrow> track \<Rightarrow> bool" where
  "speed_ok hi t \<longleftrightarrow> 0 \<le> speed_set t \<and> speed_set t \<le> hi"

lemma mid_frame:
  assumes "mid_ok l"
  shows "frame_ok l" "midline_ok l" "- 1 \<le> vtop l" "0 \<le> vtop l" "vtop l \<le> 118"
proof -
  have m: "f1_ok (f1 l)" "\<And>k. 0 \<le> k \<Longrightarrow> k < 120 \<Longrightarrow> - 259 \<le> midline (f1 l) ! nat k \<and> midline (f1 l) ! nat k \<le> 419"
    using assms by (simp_all add: mid_ok_def mids_def)
  have "set (midline (f1 l)) \<subseteq> {- 1024..1024}"
    by (rule set_within) (use m in force)+
  then have "\<forall>x \<in> set (midline (f1 l)). \<bar>x\<bar> \<le> 1024" by force
  then show "midline_ok l" using m(1) by (simp add: midline_ok_def)
  with m(1) show "frame_ok l" by (simp add: frame_ok_def)
  show "- 1 \<le> vtop l" "0 \<le> vtop l" "vtop l \<le> 118" using assms by (simp_all add: mid_ok_def)
qed

lemma error_step:
  assumes "speeds_ok v" "midline_ok l" "- 1 \<le> vtop l" "track_inv lo hi s"
  shows "runs (compute_error v l s) (\<lambda>t. track_inv lo hi t \<and> same_finish s t)"
proof -
  obtain e where e: "steer_target l = Some e" using steer_target_run [OF assms(2,3)] by (rule runsE)
  have s: "error_ok s" "params_ok lo hi s" "track_ok s" "slack_ok s" using assms(4) by (simp_all add: track_inv_def)
  have r: "\<bar>slew (steer_error s ! 0) e\<bar> \<le> 80" using slew_range(1) s(1) by (simp add: error_ok_def)
  have "length (slew (steer_error s ! 0) e # slew (steer_error s ! 0) e # butlast (tl (steer_error s))) = 30"
    using s(1) by (simp add: error_ok_def)
  then show ?thesis
    by (rule_tac runs_mono [OF compute_error_eq [OF assms(1) s(1) e]])
      (use s r in \<open>auto simp: track_inv_def error_ok_def params_ok_def track_ok_def slack_ok_def intro!: same_finishI\<close>)
qed

lemma speed_step:
  assumes "frame_ok l" "track_inv lo hi s"
  shows "runs (velocity_set l s) (\<lambda>(t, beep). track_inv lo hi t \<and> speed_ok hi t \<and> same_finish s t
     \<and> beep \<in> {None, Some (1, 50, 100), Some (2, 50, 100)})"
proof -
  have s: "error_ok s" "params_ok lo hi s" "track_ok s" "slack_ok s" using assms(2) by (simp_all add: track_inv_def)
  then have lo: "0 \<le> lo" and w: "after_road_type s \<noteq> None" by (simp_all add: params_ok_def slack_ok_def)
  have k: "track_inv lo hi t" if "DistinguishFacts.keeps s t" for t
    using that s keeps_params [OF that] keeps_track [OF that]
    by (simp add: track_inv_def error_ok_def slack_ok_def DistinguishFacts.keeps_def)
  have f: "same_finish s t" if "DistinguishFacts.keeps s t" for t
    using that by (intro same_finishI) (simp_all add: DistinguishFacts.keeps_def)
  show ?thesis
    by (rule runs_mono [OF velocity_set_run [OF assms(1) s(2,3) w]])
      (use k f lo in \<open>clarsimp simp: speed_ok_def split: prod.splits simp del: split_paired_All; simp\<close>)
qed

lemma stop_judge_step:
  assumes "track_inv lo hi s" "speed_ok hi s"
  shows "runs (stop_car_judge im s) (\<lambda>t. track_inv lo hi t \<and> speed_ok hi t
     \<and> (\<forall>ims. stop_inv ims s \<longrightarrow> stop_inv (ims @ [im]) t))"
proof -
  have f: "\<forall>ims. stop_inv ims s \<longrightarrow> stop_inv (ims @ [im]) t" if "stop_car_judge im s = Some t" for t
    using stop_step [of _ s im] that by simp
  obtain w where "length (stop_car s) = 20" "after_stop_car s = Some w"
    using assms(1) by (auto simp: track_inv_def track_ok_def slack_ok_def)
  then have "runs (stop_car_judge im s) (\<lambda>t. track_inv lo hi t \<and> speed_ok hi t)" using assms
    by (auto simp: stop_car_judge_eq track_inv_def error_ok_def params_ok_def track_ok_def slack_ok_def speed_ok_def)
  then show ?thesis using f by (auto elim!: runsE)
qed

section \<open>The beeper\<close>

definition beeper_ok :: "int \<Rightarrow> blinker \<Rightarrow> bool" where
  "beeper_ok h b \<longleftrightarrow> eb_safe b \<and> (h = 0 \<or> h = 1) \<and> inited (eb_leds b ! nat h)"

lemma beeper_call:
  assumes "beeper_ok h b" "n = 1 \<or> n = 2"
  shows "runs (easyblink h n 50 100 b) (beeper_ok h)"
proof -
  have b: "eb_safe b" "h = 0 \<or> h = 1" "inited (eb_leds b ! nat h)" using assms(1) by (simp_all add: beeper_ok_def)
  have n: "- 32768 \<le> n" "n \<le> 32767" using assms(2) by auto
  show ?thesis by (rule runs_mono [OF easyblink_safe [OF b n]]) (use b(2) in \<open>simp_all add: beeper_ok_def\<close>)
qed

lemma switch_led_inited: "inited (fst (switch_led w l g)) = inited l"
  by (simp add: switch_led_def Let_def)

lemma wait_or_switch_leds [simp]: "eb_leds (wait_or_switch p) = eb_leds (snd p)"
  by (cases p) (simp add: wait_or_switch_def)

lemma daemon_step_inited:
  assumes "eb_leds b = [x, y]" "daemon_step b = Some t"
  shows "\<exists>x' y'. eb_leds t = [x', y'] \<and> inited x' = inited x \<and> inited y' = inited y"
proof (cases "daemon b")
  case Computing
  then show ?thesis using assms min_ticks_2 [OF assms(1), where corr = False and tick = 0]
    by (auto simp: daemon_step_def split: if_splits)
next
  case (Waiting w t0)
  show ?thesis
  proof (cases "eb_sem b")
    case None
    then show ?thesis using assms Waiting by (simp add: daemon_step_def split: if_splits)
  next
    case (Some n)
    have "eb_leds (b\<lparr>eb_sem := Some (n - 1)\<rparr>) = [x, y]" using assms(1) by simp
    from min_ticks_2 [OF this, where corr = True and tick = "u32 t0"] show ?thesis
      using assms Waiting Some by (auto simp: daemon_step_def split: if_splits)
  qed
next
  case (Switching w)
  obtain x' g where 1: "switch_led w x (pin_level b) = (x', g)" by force
  obtain y' g' where 2: "switch_led w y g = (y', g')" by force
  have i: "inited x' = inited x" "inited y' = inited y"
    using switch_led_inited [of w x "pin_level b"] switch_led_inited [of w y g] 1 2 by simp_all
  show ?thesis using assms(2) Switching i unfolding daemon_step_def switch_leds_2 [OF assms(1) 1 2]
    by (auto simp: switch_leds_2 [OF assms(1) 1 2] split: if_splits)
qed

lemma beeper_daemon:
  assumes "beeper_ok h b" "daemon_step b = Some t"
  shows "beeper_ok h t"
proof -
  have b: "eb_safe b" "h = 0 \<or> h = 1" "inited (eb_leds b ! nat h)" using assms(1) by (simp_all add: beeper_ok_def)
  obtain x y where xy: "eb_leds b = [x, y]" by (rule eb_safeE [OF b(1)])
  obtain x' y' where "eb_leds t = [x', y']" "inited x' = inited x" "inited y' = inited y"
    using daemon_step_inited [OF xy assms(2)] by blast
  then show ?thesis using b xy daemon_step_safe [OF b(1)] assms(2) by (auto simp: beeper_ok_def)
qed

section \<open>The chassis and the servo\<close>

definition servo_ok :: "pwm \<Rightarrow> bool" where
  "servo_ok p \<longleftrightarrow> 690 \<le> duty p PWM4_MODULE2_CHA_C30 \<and> duty p PWM4_MODULE2_CHA_C30 \<le> 850"

text \<open>Before the chassis thread has made its wheels.\<close>

definition chassis_idle :: "chassis \<Rightarrow> bool" where
  "chassis_idle s \<longleftrightarrow> left_wheel s = None \<and> right_wheel s = None \<and> gain_ok (wheel_kp s) \<and> gain_ok (wheel_ki s)
     \<and> gain_ok (wheel_kd s) \<and> below 2 (wheel_diff_p s) \<and> length (speed_now s) = 5 \<and> bridges_ok (pwm_out (hw s))
     \<and> 1 \<le> pit_clock (hw s)"

definition chassis_inv :: "chassis \<Rightarrow> bool" where
  "chassis_inv s \<longleftrightarrow> (chassis_idle s \<or> chassis_ok s) \<and> servo_ok (pwm_out (hw s))"

text \<open>What the allocator must deliver: blocks of the wheels with a word to spare behind them, and blocks of the controllers in which
  the targets, which nobody sets before the first frame, are numbers of bounded size.\<close>

definition chassis_memory_ok :: "chassis_memory \<Rightarrow> bool" where
  "chassis_memory_ok mem \<longleftrightarrow> length (w_speed_now (mem_wheel1 mem)) = 5 \<and> length (w_speed_now (mem_wheel2 mem)) = 5
     \<and> word_after (mem_wheel1 mem) \<noteq> None \<and> word_after (mem_wheel2 mem) \<noteq> None
     \<and> below 21 (target (mem_pid1 mem)) \<and> below 21 (target (mem_pid2 mem))"

lemma motor_run_servo [simp]: "servo_ok (motor_run k t p) = servo_ok p"
  by (simp add: servo_ok_def motor_run_def Let_def pwm_duty_def)

lemma chassis_inv_bridges: "chassis_inv s \<Longrightarrow> bridges_ok (pwm_out (hw s)) \<and> 1 \<le> pit_clock (hw s)"
  by (auto simp: chassis_inv_def chassis_idle_def chassis_ok_def)

lemma chassis_inv_hw:
  assumes "chassis_inv s" "bridges_ok p" "servo_ok p"
  shows "chassis_inv (s\<lparr>hw := (hw s)\<lparr>pwm_out := p\<rparr>\<rparr>)"
  using assms by (auto simp: chassis_inv_def chassis_idle_def chassis_ok_def)

lemma chassis_inv_running [simp]: "chassis_inv (s\<lparr>chassis.is_chassis_running := r\<rparr>) = chassis_inv s"
  by (simp add: chassis_inv_def chassis_idle_def chassis_ok_def)

lemma start_servo:
  assumes "chassis_start mem s = Some t"
  shows "duty (pwm_out (hw t)) PWM4_MODULE2_CHA_C30 = duty (pwm_out (hw s)) PWM4_MODULE2_CHA_C30"
proof -
  obtain c1 c2 where c: "inc_pid_controller_create (Some (mem_pid1 mem)) (wheel_kp s) (wheel_ki s) (wheel_kd s) (Fin 1000) (Fin (- 1000)) 30 = Some c1"
    "inc_pid_controller_create (Some (mem_pid2 mem)) (wheel_kp s) (wheel_ki s) (wheel_kd s) (Fin 1000) (Fin (- 1000)) 30 = Some c2"
    by (simp add: inc_pid_controller_create_def controller_create_def)
  show ?thesis using assms c
    by (auto simp: chassis_start_def Let_def motor_create_def encoder_create_def pwm_init_def)
qed

lemma start_running:
  assumes start: "chassis_start mem s = Some t" and idle: "chassis_idle s" and mem: "chassis_memory_ok mem"
  shows "chassis_ok t \<and> pit_clock (hw t) = pit_clock (hw s)"
proof -
  have g: "gain_ok (wheel_kp s)" "gain_ok (wheel_ki s)" "gain_ok (wheel_kd s)" using idle by (simp_all add: chassis_idle_def)
  obtain c1 c2 where c: "inc_pid_controller_create (Some (mem_pid1 mem)) (wheel_kp s) (wheel_ki s) (wheel_kd s) (Fin 1000) (Fin (- 1000)) 30 = Some c1"
    "inc_pid_controller_create (Some (mem_pid2 mem)) (wheel_kp s) (wheel_ki s) (wheel_kd s) (Fin 1000) (Fin (- 1000)) 30 = Some c2"
    and tg: "target c1 = target (mem_pid1 mem)" "target c2 = target (mem_pid2 mem)"
    by (simp add: inc_pid_controller_create_def controller_create_def)
  have b: "below 21 (target c1)" "below 21 (target c2)" using mem tg by (simp_all add: chassis_memory_ok_def)
  have i: "ctrl_inv (- 1000) 1000 (Inc c1)" "ctrl_inv (- 1000) 1000 (Inc c2)"
    using inc_create_ok [OF c(1) g b(1)] inc_create_ok [OF c(2) g b(2)] by simp_all
  define l where "l = the (left_wheel t)"
  define r where "r = the (right_wheel t)"
  have lr: "left_wheel t = Some l" "right_wheel t = Some r"
    using start c by (auto simp: chassis_start_def l_def r_def Let_def split: prod.splits)
  have l: "wheel_ok 1 l"
    using start c mem i(1) speed_factor
    by (auto simp: chassis_start_def l_def Let_def chassis_memory_ok_def wheel_ok_def motor_create_def encoder_create_def wheel_create_def)
  have r: "wheel_ok 2 r"
    using start c mem i(2) speed_factor
    by (auto simp: chassis_start_def r_def Let_def chassis_memory_ok_def wheel_ok_def motor_create_def encoder_create_def wheel_create_def)
  have o: "length (speed_now t) = 5" "bridges_ok (pwm_out (hw t))" "1 \<le> pit_clock (hw t)" "below 2 (wheel_diff_p t)"
      "pit_clock (hw t) = pit_clock (hw s)"
    using start c idle
    by (auto simp: chassis_start_def Let_def chassis_idle_def motor_create_def encoder_create_def
        bridges_ok_def side_ok_def pwm_init_def)
  show ?thesis using lr l r o by (simp add: chassis_ok_def)
qed

lemma start_inv:
  assumes "chassis_start mem s = Some t" "chassis_inv s" "left_wheel s = None" "chassis_memory_ok mem"
  shows "chassis_inv t \<and> pit_clock (hw t) = pit_clock (hw s)"
proof -
  have "chassis_idle s" using assms(2,3) by (auto simp: chassis_inv_def chassis_ok_def)
  from start_running [OF assms(1) this assms(4)] start_servo [OF assms(1)] assms(2) show ?thesis
    by (simp add: chassis_inv_def servo_ok_def)
qed

text \<open>A round of the chassis thread leaves the servo's channel alone.\<close>

lemma wheel_update_servo:
  assumes "wheel_update w h = Some (w', h')"
  shows "servo_ok (pwm_out h') = servo_ok (pwm_out h)"
proof -
  obtain rpm enc h1 where m: "encoder_measure_rpm (w_encoder w) h = (rpm, enc, h1)" by (cases "encoder_measure_rpm (w_encoder w) h")
  then have "pwm_out h1 = pwm_out h" using encoder_measure_other(2) [of "w_encoder w" h] by simp
  then show ?thesis using assms m by (auto simp: wheel_update_def Let_def split: bind_splits)
qed

lemma average_loop_hw:
  assumes "for_up (speed_average l r) 0 5 s = Some t"
  shows "hw t = hw s"
proof -
  have "yields (\<lambda>t. hw t = hw s) (for_up (speed_average l r) i 5 u)" if "hw u = hw s" for i u
    using that
  proof (induction "nat (5 - i)" arbitrary: i u)
    case 0
    then show ?case by (simp add: for_up_done)
  next
    case (Suc n)
    then have lt: "i < 5" and n: "n = nat (5 - (i + 1))" by linarith+
    show ?case
    proof (cases "speed_average l r i u")
      case None
      then show ?thesis using lt by (subst for_up.simps) (simp add: yields_def)
    next
      case (Some x)
      then obtain v where "x = Next v" "hw v = hw u" by (auto simp: speed_average_def split: bind_splits)
      then show ?thesis using lt Some Suc.hyps(1) [OF n, of v] Suc.prems by (subst for_up.simps) simp
    qed
  qed
  from this [of s 0] assms show ?thesis by (simp add: yields_def)
qed

lemma round_servo:
  assumes "chassis_round switch s = Some t"
  shows "servo_ok (pwm_out (hw t)) = servo_ok (pwm_out (hw s))"
  using assms
  by (auto simp: chassis_round_def split: bind_splits if_splits dest!: average_loop_hw wheel_update_servo)

lemma round_inv:
  assumes "chassis_inv s" "left_wheel s \<noteq> None" "chassis_op_ok (pit_clock (hw s)) (Round switch t q1 q2 p1 p2)"
  shows "runs (chassis_step (Round switch t q1 q2 p1 p2) s) (\<lambda>u. chassis_inv u \<and> pit_clock (hw u) = pit_clock (hw s))"
proof -
  have ok: "chassis_ok s" using assms(1,2) by (auto simp: chassis_inv_def chassis_idle_def)
  obtain u where u: "chassis_step (Round switch t q1 q2 p1 p2) s = Some u" "chassis_ok u" "pit_clock (hw u) = pit_clock (hw s)"
    using chassis_step_ok [OF ok assms(3)] by (auto elim: runsE)
  then have "servo_ok (pwm_out (hw u)) = servo_ok (pwm_out (hw s))" using round_servo [of switch _ u] by force
  with u assms(1) show ?thesis by (simp add: chassis_inv_def)
qed

lemma velocity_inv:
  assumes "chassis_inv s" "0 \<le> v" "v \<le> 512" "\<bar>e\<bar> \<le> 80"
  shows "chassis_inv (snd (set_velocity (rd32 (of_int v)) e s)) \<and> hw (snd (set_velocity (rd32 (of_int v)) e s)) = hw s"
proof (cases "left_wheel s = None")
  case True
  then show ?thesis using assms(1) by (simp add: set_velocity_def)
next
  case False
  then have ok: "chassis_ok s" using assms(1) by (auto simp: chassis_inv_def chassis_idle_def)
  have "(of_int \<bar>v\<bar> :: rat) \<le> 2 ^ 9" by (rule of_int_le_pow2) (use assms in simp)
  then have "below 9 (rd32 (of_int v))" by (intro rd32_below) simp_all
  from set_velocity_ok [OF ok this, of e] assms(1,4) show ?thesis by (simp add: chassis_inv_def)
qed

end
