(* ===== verification/CarInv.thy ===== *)
theory CarInv
  imports MainLoopFacts
begin

text \<open>
  The invariant of the whole car and its steps: a round of the main loop, of the chassis thread,
  of the button thread, a step of the blinker's daemon, and the shell commands of \<open>main.c\<close>.
\<close>

section \<open>Steering\<close>

definition gains_ok :: "car \<Rightarrow> bool" where
  "gains_ok c \<longleftrightarrow> below 9 (steer_basic_kp c) \<and> fl_in (- (1 / 16)) (1 / 16) (steer_kp_j c) \<and> below 9 (steer_kp_max c)
     \<and> gain_ok (steer_ki c) \<and> gain_ok (steer_kd c)"

lemma gains_ok_fields [simp]:
  "gains_ok (c\<lparr>lns := v0\<rparr>) = gains_ok c"
  "gains_ok (c\<lparr>trk := v1\<rparr>) = gains_ok c"
  "gains_ok (c\<lparr>chs := v2\<rparr>) = gains_ok c"
  "gains_ok (c\<lparr>blk := v3\<rparr>) = gains_ok c"
  "gains_ok (c\<lparr>pnl := v4\<rparr>) = gains_ok c"
  "gains_ok (c\<lparr>ui := v5\<rparr>) = gains_ok c"
  "gains_ok (c\<lparr>rho_err_pid := v6\<rparr>) = gains_ok c"
  "gains_ok (c\<lparr>FilterImage := v7\<rparr>) = gains_ok c"
  "gains_ok (c\<lparr>ImageThreshold := v8\<rparr>) = gains_ok c"
  "gains_ok (c\<lparr>steer_out := v9\<rparr>) = gains_ok c"
  "gains_ok (c\<lparr>steer_kp := v10\<rparr>) = gains_ok c"
  "gains_ok (c\<lparr>is_steer_debug := v11\<rparr>) = gains_ok c"
  "gains_ok (c\<lparr>use_time := v12\<rparr>) = gains_ok c"
  "gains_ok (c\<lparr>pit0 := v13\<rparr>) = gains_ok c"
  "gains_ok (c\<lparr>console := v14\<rparr>) = gains_ok c"
  "gains_ok (c\<lparr>screen := v15\<rparr>) = gains_ok c"
  "gains_ok (c\<lparr>errno_led := v16\<rparr>) = gains_ok c"
  "gains_ok (c\<lparr>info_beep := v17\<rparr>) = gains_ok c"
  by (simp_all add: gains_ok_def)

lemma steer_gain_run:
  assumes "gains_ok c" "\<bar>steer_error_ave (trk c)\<bar> \<le> 80"
  shows "runs (steer_gain c) gain_ok"
proof -
  define q where "q = steer_error_ave (trk c) * steer_error_ave (trk c)"
  have "\<bar>q\<bar> \<le> 80 * 80" unfolding q_def abs_mult by (rule mult_mono) (use assms(2) in simp_all)
  then have q: "0 \<le> q" "q \<le> 6400" by (simp_all add: q_def)
  obtain r where r: "steer_kp_j c = Fin r" "- (1 / 16) \<le> r" "r \<le> 1 / 16"
    using assms(1) by (auto simp: gains_ok_def fl_in_iff)
  have Q: "rd32 (of_int q) = Fin (of_int q)" using q by (intro rd32_int) simp
  have "(of_int q :: rat) \<le> of_int 6400" using q(2) by (simp only: of_int_le_iff)
  then have q': "0 \<le> (of_int q :: rat)" "(of_int q :: rat) \<le> 6400" using q(1) by simp_all
  have "\<bar>of_int q * r\<bar> \<le> 6400 * (1 / 16)"
    unfolding abs_mult by (rule mult_mono) (use q' r in \<open>simp_all add: abs_le_iff\<close>)
  then have "\<bar>of_int q * r\<bar> \<le> 2 ^ 9" by simp
  then have "below 9 (rd32 (of_int q * r))" by (rule rd32_below) simp
  then have "below 10 (fadd (steer_basic_kp c) (fmul (rd32 (of_int q)) (steer_kp_j c)))"
    using below_add(1) [of 9 "steer_basic_kp c"] assms(1) by (simp add: Q r gains_ok_def)
  moreover have "below 10 (steer_kp_max c)" by (rule below_mono [of 9]) (use assms(1) in \<open>simp_all add: gains_ok_def\<close>)
  ultimately show ?thesis using q
    by (simp add: steer_gain_def ck32_def gain_ok_def Let_def flip: q_def)
qed

lemma servo_set:
  assumes "bridges_ok p"
  shows "runs (servo1_set_angle a p) (\<lambda>q. servo_ok q \<and> bridges_ok q)"
proof -
  obtain t where t: "servo_duty 770 80 a = Some (770 + t)" "- 80 \<le> t" "t \<le> 80" by (rule servo_duty_run)
  then show ?thesis using assms
    by (simp add: servo1_set_angle_def pwm_duty_def servo_ok_def bridges_ok_def)
qed

definition pid_ok :: "controller_t option \<Rightarrow> bool" where
  "pid_ok p \<longleftrightarrow> (\<exists>c. p = Some c \<and> ctrl_inv (- 1000) 1000 c)"

lemma steer_run:
  assumes g: "gains_ok c" and t: "track_inv lo hi (trk c)" and p: "pid_ok (rho_err_pid c)" and s: "chassis_inv (chs c)"
  shows "runs (steer e c) (\<lambda>d. gains_ok d \<and> pid_ok (rho_err_pid d) \<and> chassis_inv (chs d)
     \<and> pit_clock (hw (chs d)) = pit_clock (hw (chs c)) \<and> lns d = lns c \<and> trk d = trk c \<and> blk d = blk c
     \<and> pnl d = pnl c \<and> info_beep d = info_beep c \<and> ui d = ui c)"
proof -
  have a: "\<bar>steer_error_ave (trk c)\<bar> \<le> 80" "length (steer_error (trk c)) = 30" "\<bar>steer_error (trk c) ! 0\<bar> \<le> 80"
    using t by (simp_all add: track_inv_def track_ok_def error_ok_def)
  obtain kp where kp: "steer_gain c = Some kp" "gain_ok kp" using steer_gain_run [OF g a(1)] by (rule runsE)
  obtain pid where pid: "rho_err_pid c = Some pid" "ctrl_inv (- 1000) 1000 pid" using p by (auto simp: pid_ok_def)
  define x where "x = steer_error (trk c) ! 0"
  have "(of_int \<bar>x\<bar> :: rat) \<le> 2 ^ 7" by (rule of_int_le_pow2) (use a(3) in \<open>simp add: x_def\<close>)
  then have "below 7 (rd32 (of_int x))" by (intro rd32_below) simp_all
  then have x: "below 21 (rd32 (of_int x))" by (rule below_mono) simp
  have gx: "c_get (steer_error (trk c)) 0 = Some x" using a(2) by (simp add: x_def)
  define q where "q = controller_set_param kp (steer_ki c) (steer_kd c) pid"
  define u where "u = controller_update (frame_tick e) (rd32 (of_int x)) q"
  have q: "ctrl_inv (- 1000) 1000 q" unfolding q_def
    by (rule ctrl.param_inv [OF pid(2)]) (use kp(2) g in \<open>simp_all add: gains_ok_def gain_ok_def\<close>)
  have u: "ctrl_inv (- 1000) 1000 u" "fl_in (- 1000) 1000 (controller_output u)"
    unfolding u_def by (rule ctrl.update_inv [OF q x], rule ctrl.update_out [OF q x])
  have o: "fl_in (of_int (- 1000)) (of_int 1000) (controller_output u)" using u(2) by simp
  have "runs (if switch_get 1 (levels e) = 0 then fl_to_int (- 2147483648) 2147483647 (controller_output u) else Some 0) (\<lambda>_. True)"
    using runs_mono [OF fl_to_int_in [OF o, of "- 2147483648" 2147483647]] by simp
  then obtain n where n: "(if switch_get 1 (levels e) = 0 then fl_to_int (- 2147483648) 2147483647 (controller_output u) else Some 0) = Some n"
    by (rule runsE)
  obtain w where w: "servo1_set_angle n (pwm_out (hw (chs c))) = Some w" "servo_ok w" "bridges_ok w"
    using servo_set [of "pwm_out (hw (chs c))" n] chassis_inv_bridges [OF s] by (auto elim: runsE)
  have run: "steer e c = Some (c\<lparr>steer_kp := kp, rho_err_pid := Some u, steer_out := controller_output u,
      chs := (chs c)\<lparr>hw := (hw (chs c))\<lparr>pwm_out := w\<rparr>\<rparr>\<rparr>)"
    unfolding steer_def kp(1) pid(1) bind.bind_lunit Let_def gx q_def [symmetric] u_def [symmetric]
    using n w(1) by (auto split: if_splits)
  show ?thesis unfolding run
    using g u w chassis_inv_hw [OF s w(3,2)] by (simp add: gains_ok_def pid_ok_def)
qed

section \<open>The display\<close>

lemma draw_run:
  assumes "f1_ok (f1 s)" "0 \<le> i"
  shows "runs (for_up (draw_row s) i 120 ps) (\<lambda>_. True)"
  by (rule for_up_inv [where P = "\<lambda>_. True"]) (use assms in \<open>simp_all add: draw_row_def runs_simps\<close>)

section \<open>The invariant\<close>

definition car_inv :: "int \<Rightarrow> int \<Rightarrow> car \<Rightarrow> bool" where
  "car_inv lo hi c \<longleftrightarrow> mid_ok (lns c) \<and> track_inv lo hi (trk c) \<and> chassis_inv (chs c)
     \<and> beeper_ok (info_beep c) (blk c) \<and> panel_ok (pnl c) \<and> pid_ok (rho_err_pid c) \<and> gains_ok c"

lemma see_run:
  assumes "mid_ok (lns c)"
  shows "runs (see_track e c) (\<lambda>d. mid_ok (lns d) \<and> d = c\<lparr>ui := ui d, FilterImage := FilterImage d,
     ImageThreshold := ImageThreshold d, lns := lns d\<rparr>)"
proof -
  define f where "f = gray_mean_filter (csi e) (FilterImage c)"
  obtain thr bin where b: "gray_to_binary f (bin_image (ui c)) 1 = Some (thr, bin)"
    by (simp add: gray_to_binary_def)
  obtain l where l: "line_frame bin (shortstraight_flag (trk c)) (stack_word e) (lns c) = Some l" "mid_ok l"
    using line_frame_mid_ok [OF assms] by (rule runsE)
  show ?thesis using b l unfolding see_track_def line_frame_def
    by (auto simp: f_def Let_def split: bind_splits)
qed

lemma decide_run:
  assumes m: "mid_ok (lns c)" and t: "track_inv lo hi (trk c)" and v: "speeds_ok (speed_now (chs c))"
    and b: "beeper_ok (info_beep c) (blk c)"
  shows "runs (decide c) (\<lambda>d. track_inv lo hi (trk d) \<and> speed_ok hi (trk d) \<and> beeper_ok (info_beep c) (blk d)
     \<and> d = c\<lparr>trk := trk d, blk := blk d\<rparr> \<and> (\<forall>ims. stop_inv ims (trk c) \<longrightarrow> stop_inv (ims @ [bin_image (ui c)]) (trk d)))"
proof -
  obtain t1 where 1: "compute_error (speed_now (chs c)) (lns c) (trk c) = Some t1" "track_inv lo hi t1" "same_finish (trk c) t1"
    using error_step [OF v mid_frame(2,3) [OF m] t] by (auto elim: runsE)
  obtain t2 beep where 2: "velocity_set (lns c) t1 = Some (t2, beep)" "track_inv lo hi t2" "speed_ok hi t2" "same_finish t1 t2"
    "beep \<in> {None, Some (1, 50, 100), Some (2, 50, 100)}"
    using speed_step [OF mid_frame(1) [OF m] 1(2)] by (auto elim!: runsE)
  have "runs (case beep of None \<Rightarrow> Some (blk c) | Some (n, p, d) \<Rightarrow> easyblink (info_beep c) n p d (blk c)) (beeper_ok (info_beep c))"
    using 2(5) beeper_call [OF b, of 1] beeper_call [OF b, of 2] b by auto
  then obtain bl where 3: "(case beep of None \<Rightarrow> Some (blk c) | Some (n, p, d) \<Rightarrow> easyblink (info_beep c) n p d (blk c)) = Some bl"
    "beeper_ok (info_beep c) bl" by (rule runsE)
  obtain t3 where 4: "stop_car_judge (bin_image (ui c)) t2 = Some t3" "track_inv lo hi t3" "speed_ok hi t3"
    "\<forall>ims. stop_inv ims t2 \<longrightarrow> stop_inv (ims @ [bin_image (ui c)]) t3"
    by (rule runsE [OF stop_judge_step [OF 2(2,3), of "bin_image (ui c)"]]) blast
  define t4 where "t4 = (if stop_car_flag t3 \<noteq> 0 then t3\<lparr>speed_set := 0\<rparr> else t3)"
  have t4: "track_inv lo hi t4" "speed_ok hi t4"
    using 4(2,3) by (auto simp: t4_def track_inv_def error_ok_def params_ok_def track_ok_def slack_ok_def speed_ok_def)
  have f: "\<forall>ims. stop_inv ims (trk c) \<longrightarrow> stop_inv (ims @ [bin_image (ui c)]) t4"
    using 1(3) 2(4) 4(4) by (simp add: same_finish_def t4_def stop_inv_def)
  have "decide c = Some (c\<lparr>trk := t4, blk := bl\<rparr>)"
    unfolding decide_def 1(1) 2(1) bind.bind_lunit prod.case 3(1) 4(1) by (simp add: t4_def)
  then show ?thesis using t4 3(2) f by simp
qed

lemma drive_inv:
  assumes "chassis_inv (chs c)" "speed_ok hi (trk c)" "hi \<le> 512" "\<bar>steer_error_ave (trk c)\<bar> \<le> 80"
  shows "chassis_inv (chs (drive e c))" "hw (chs (drive e c)) = hw (chs c)"
    "drive e c = c\<lparr>chs := chs (drive e c)\<rparr>"
  using velocity_inv [OF assms(1), of "speed_set (trk c)" "steer_error_ave (trk c)"] assms
  by (simp_all add: drive_def speed_ok_def)

theorem main_round_ok:
  assumes inv: "car_inv lo hi c" and hi: "hi \<le> 512"
    and v: "speeds_ok (speed_now (chs c))"
  shows "runs (main_round e c) (\<lambda>d. car_inv lo hi d
     \<and> (\<forall>ims. stop_inv ims (trk c) \<longrightarrow> stop_inv (ims @ [bin_image (ui d)]) (trk d)))"
proof -
  have c: "mid_ok (lns c)" "track_inv lo hi (trk c)" "chassis_inv (chs c)" "beeper_ok (info_beep c) (blk c)"
      "panel_ok (pnl c)" "pid_ok (rho_err_pid c)" "gains_ok c"
    using inv by (simp_all add: car_inv_def)
  define c0 where "c0 = c\<lparr>pit0 := pit_start (pit0 c)\<rparr>"
  obtain c1 where 1: "see_track e c0 = Some c1" "mid_ok (lns c1)"
    "c1 = c0\<lparr>ui := ui c1, FilterImage := FilterImage c1, ImageThreshold := ImageThreshold c1, lns := lns c1\<rparr>"
    using see_run [of c0 e] c(1) by (auto simp: c0_def elim: runsE)
  have e1: "trk c1 = trk c" "chs c1 = chs c" "blk c1 = blk c" "pnl c1 = pnl c" "info_beep c1 = info_beep c"
    "rho_err_pid c1 = rho_err_pid c" "gains_ok c1 = gains_ok c"
    by (subst 1(3), simp add: c0_def)+
  obtain c2 where 2: "decide c1 = Some c2" "track_inv lo hi (trk c2)" "speed_ok hi (trk c2)"
      "beeper_ok (info_beep c1) (blk c2)" "c2 = c1\<lparr>trk := trk c2, blk := blk c2\<rparr>"
      "\<forall>ims. stop_inv ims (trk c1) \<longrightarrow> stop_inv (ims @ [bin_image (ui c1)]) (trk c2)"
    using decide_run [of c1 lo hi] 1(2) c v unfolding e1 by (auto elim: runsE)
  have e2: "ui c2 = ui c1" "lns c2 = lns c1" "chs c2 = chs c" "pnl c2 = pnl c" "info_beep c2 = info_beep c"
    "rho_err_pid c2 = rho_err_pid c" "gains_ok c2 = gains_ok c"
    by (subst 2(5), simp add: e1)+
  have a: "\<bar>steer_error_ave (trk c2)\<bar> \<le> 80" using 2(2) by (simp add: track_inv_def track_ok_def)
  define c3 where "c3 = drive e c2"
  have "chassis_inv (chs c2)" using c(3) e2(3) by simp
  note D = drive_inv [OF this 2(3) hi a, of e, folded c3_def]
  have e3: "ui c3 = ui c1" "lns c3 = lns c1" "trk c3 = trk c2" "blk c3 = blk c2" "pnl c3 = pnl c" "info_beep c3 = info_beep c"
    "rho_err_pid c3 = rho_err_pid c" "gains_ok c3 = gains_ok c2"
    by (subst D(3), simp add: e2)+
  obtain c4 where 4: "steer e c3 = Some c4" "gains_ok c4" "pid_ok (rho_err_pid c4)" "chassis_inv (chs c4)"
    "lns c4 = lns c3" "trk c4 = trk c3" "blk c4 = blk c3" "pnl c4 = pnl c3" "info_beep c4 = info_beep c3" "ui c4 = ui c3"
    using steer_run [of c3 lo hi e] c D(1) 2(2) unfolding e3 e2 by (auto elim: runsE)
  define c5 where "c5 = (if is_steer_debug c4 \<noteq> 0
              then c4\<lparr>console := console c4 @ [(use_time c4, speed_set (trk c4), steer_error_ave (trk c4), steer_out c4)]\<rparr>
              else c4)"
  obtain ms t where mt: "pit_get_ms (pit_clock (hw (chs c5))) ((pit0 c5)\<lparr>pit_count := elapsed e, pit_flag := overflowed e\<rparr>) = (ms, t)"
    by force
  define c6 where "c6 = c5\<lparr>use_time := u32 ms, pit0 := pit_close t\<rparr>"
  have inv6: "car_inv lo hi c6"
    using 4 e3 1(2) 2(2,4) e1 c(5) by (simp add: car_inv_def c6_def c5_def)
  then have "mid_ok (lns c6)" by (simp add: car_inv_def)
  then have f: "f1_ok (f1 (lns c6))" "0 \<le> vtop (lns c6)" by (simp_all add: mid_ok_def mids_def)
  obtain ps where ps: "for_up (draw_row (lns c6)) (vtop (lns c6)) 120 [] = Some ps"
    using draw_run [OF f] by (rule runsE)
  have "main_round e c = show_tft_img c6"
    unfolding main_round_def Let_def c0_def [symmetric] 1(1) 2(1) bind.bind_lunit c3_def [symmetric] 4(1)
      c5_def [symmetric] mt prod.case c6_def [symmetric] by simp
  moreover have "runs (show_tft_img c6) (\<lambda>d. car_inv lo hi d \<and> trk d = trk c2 \<and> ui d = ui c1)"
    using ps inv6 4 e3 by (simp add: show_tft_img_def Let_def car_inv_def c6_def c5_def)
  ultimately show ?thesis using 2(6) e1 by (auto elim!: runsE)
qed

end
