(* ===== verification/CarSafe.thy ===== *)
theory CarSafe
  imports CarInv
begin

text \<open>
  The car from power-on: its start, every interleaving of its threads, and what holds in every
  state it can reach.
\<close>

section \<open>Steps\<close>

text \<open>
  The sensors' part: the measured speeds are plausible when a frame is processed, and the
  timers show at least a millisecond when an encoder is read.  The operator's part: gains and
  speed parameters within bounds.  The heap's part: \<open>chassis_memory_ok\<close>.  The blinker's daemon and its clock
  run at any time, and the panel may be initialised, its keys made and its calls used at any time.
\<close>

inductive car_other :: "car \<Rightarrow> car \<Rightarrow> bool" where
  wheels: "left_wheel (chs c) = None \<Longrightarrow> chassis_memory_ok mem \<Longrightarrow> chassis_start mem (chs c) = Some s
    \<Longrightarrow> car_other c (c\<lparr>chs := s\<rparr>)"
| chassis: "left_wheel (chs c) \<noteq> None \<Longrightarrow> chassis_op_ok (pit_clock (hw (chs c))) (Round sw t q1 q2 p1 p2)
    \<Longrightarrow> chassis_step (Round sw t q1 q2 p1 p2) (chs c) = Some s \<Longrightarrow> car_other c (c\<lparr>chs := s\<rparr>)"
| buttons: "btn_process clock g (pnl c) (ui c) = Some (p, a)
    \<Longrightarrow> car_other c (c\<lparr>pnl := p, ui := a, chs := (chs c)\<lparr>chassis.is_chassis_running := app.is_chassis_running a\<rparr>\<rparr>)"
| panel: "panel_step (pnl c) p \<Longrightarrow> car_other c (c\<lparr>pnl := p\<rparr>)"
| daemon: "daemon_step (blk c) = Some b \<Longrightarrow> car_other c (c\<lparr>blk := b\<rparr>)"
| tick: "car_other c (c\<lparr>blk := (blk c)\<lparr>now := now (blk c) + 1\<rparr>\<rparr>)"
| gains: "set_steer_pid_param_cmd argv c = Some (r, d) \<Longrightarrow> gains_ok d \<Longrightarrow> car_other c d"
| speeds: "dym_param_set_cmd argv (trk c) = Some t \<Longrightarrow> params_ok 0 512 t \<Longrightarrow> car_other c (c\<lparr>trk := t\<rparr>)"
| angle: "set_angle_cmd argv c = Some (r, d) \<Longrightarrow> car_other c d"
| debug: "set_steer_debug_cmd argv c = Some (r, d) \<Longrightarrow> car_other c d"
| picture: "set_disp_pic_type_cmd argv c = Some (r, d) \<Longrightarrow> car_other c d"

inductive car_step :: "car \<Rightarrow> car \<Rightarrow> bool" where
  frame: "speeds_ok (speed_now (chs c)) \<Longrightarrow> main_round e c = Some d \<Longrightarrow> car_step c d"
| other: "car_other c d \<Longrightarrow> car_step c d"

inductive car_run :: "car \<Rightarrow> car \<Rightarrow> bool" where
  refl: "car_run c c"
| step: "car_run c d \<Longrightarrow> car_step d e \<Longrightarrow> car_run c e"

text \<open>The same runs, with the binary pictures of their frames.\<close>

inductive car_film :: "car \<Rightarrow> image list \<Rightarrow> car \<Rightarrow> bool" where
  refl: "car_film c [] c"
| frame: "car_film c ims d \<Longrightarrow> speeds_ok (speed_now (chs d)) \<Longrightarrow> main_round e d = Some f
    \<Longrightarrow> car_film c (ims @ [bin_image (ui f)]) f"
| other: "car_film c ims d \<Longrightarrow> car_other d f \<Longrightarrow> car_film c ims f"

lemma car_film_run: "car_film c ims d \<Longrightarrow> car_run c d"
  by (induction rule: car_film.induct) (auto intro: car_run.intros car_step.intros)

lemma car_run_film: "car_run c d \<Longrightarrow> \<exists>ims. car_film c ims d"
  by (induction rule: car_run.induct) (auto elim!: car_step.cases intro: car_film.intros)

section \<open>Every step keeps the invariant\<close>

abbreviation "car_ok \<equiv> car_inv 0 512"

lemma car_inv_chs: "car_ok c \<Longrightarrow> chassis_inv s \<Longrightarrow> car_ok (c\<lparr>chs := s\<rparr>)"
  by (simp add: car_inv_def)

lemma car_inv_blk: "car_ok c \<Longrightarrow> beeper_ok (info_beep c) b \<Longrightarrow> car_ok (c\<lparr>blk := b\<rparr>)"
  by (simp add: car_inv_def)

lemma car_inv_ui: "car_ok c \<Longrightarrow> panel_ok p \<Longrightarrow> car_ok (c\<lparr>pnl := p, ui := a\<rparr>)"
  by (simp add: car_inv_def gains_ok_def)

lemma dym_param_other:
  assumes "dym_param_set_cmd argv s = Some t"
  shows "error_ok t = error_ok s" "track_ok t = track_ok s" "slack_ok t = slack_ok s" "stop_inv ims t = stop_inv ims s"
  using assms by (auto simp: dym_param_set_cmd_def error_ok_def track_ok_def slack_ok_def stop_inv_def Let_def bind_eq_Some_conv)

lemma angle_inv:
  assumes "car_ok c" "set_angle_cmd argv c = Some (r, d)"
  shows "car_ok d"
proof -
  have i: "chassis_inv (chs c)" using assms(1) by (simp add: car_inv_def)
  show ?thesis
  proof (cases "length argv = 1")
    case True
    then show ?thesis using assms by (simp add: set_angle_cmd_def)
  next
    case False
    then obtain n p where p: "servo1_set_angle n (pwm_out (hw (chs c))) = Some p"
      and d: "d = c\<lparr>chs := (chs c)\<lparr>hw := (hw (chs c))\<lparr>pwm_out := p\<rparr>\<rparr>\<rparr>"
      using assms(2) unfolding set_angle_cmd_def Let_def by (simp add: bind_eq_Some_conv) blast
    have "servo_ok p \<and> bridges_ok p"
      using servo_set [of "pwm_out (hw (chs c))" n] chassis_inv_bridges [OF i] p by simp
    then show ?thesis unfolding d by (intro car_inv_chs assms chassis_inv_hw i) simp_all
  qed
qed

lemma car_other_inv:
  assumes "car_other c d" "car_ok c"
  shows "car_ok d"
  using assms(1)
proof cases
  case (wheels mem s)
  then show ?thesis using start_inv [OF wheels(4) _ wheels(2,3)] assms(2) car_inv_chs by (simp add: car_inv_def)
next
  case (chassis sw t q1 q2 p1 p2 s)
  then show ?thesis using round_inv [OF _ chassis(2,3)] assms(2) car_inv_chs by (simp add: car_inv_def)
next
  case (buttons clock g p a)
  have "panel_ok p" using btn_process_ok [of "pnl c" clock g "ui c"] buttons(2) assms(2) by (simp add: car_inv_def)
  then have 1: "car_ok (c\<lparr>pnl := p, ui := a\<rparr>)" by (rule car_inv_ui [OF assms(2)])
  have "chassis_inv ((chs c)\<lparr>chassis.is_chassis_running := app.is_chassis_running a\<rparr>)"
    using assms(2) by (simp add: car_inv_def)
  from car_inv_chs [OF 1 this] show ?thesis using buttons(1) by simp
next
  case (panel p)
  then show ?thesis using panel_step_ok [OF panel(2)] assms(2) by (simp add: car_inv_def)
next
  case (daemon b)
  then show ?thesis using beeper_daemon [OF _ daemon(2)] assms(2) car_inv_blk by (simp add: car_inv_def)
next
  case tick
  have "beeper_ok (info_beep c) (blk c)" using assms(2) by (simp add: car_inv_def)
  then have "beeper_ok (info_beep c) ((blk c)\<lparr>now := now (blk c) + 1\<rparr>)" by (simp add: beeper_ok_def)
  then show ?thesis unfolding tick by (rule car_inv_blk [OF assms(2)])
next
  case (gains argv r)
  then show ?thesis using assms(2) by (auto simp: set_steer_pid_param_cmd_def car_inv_def split: bind_splits)
next
  case (speeds argv t)
  have "track_inv 0 512 t" using dym_param_other [OF speeds(2)] speeds(3) assms(2) by (simp add: car_inv_def track_inv_def)
  then show ?thesis using speeds(1) assms(2) by (simp add: car_inv_def)
next
  case (angle argv r)
  then show ?thesis using angle_inv assms(2) by blast
next
  case (debug argv r)
  then show ?thesis using assms(2) by (auto simp: set_steer_debug_cmd_def car_inv_def split: bind_splits if_splits)
next
  case (picture argv r)
  then show ?thesis using assms(2) by (auto simp: set_disp_pic_type_cmd_def car_inv_def split: bind_splits if_splits)
qed

theorem car_step_inv:
  assumes "car_step c d" "car_ok c"
  shows "car_ok d"
  using assms(1)
proof cases
  case (frame e)
  then show ?thesis using main_round_ok [OF assms(2) _ frame(1), of e] by simp
next
  case other
  then show ?thesis using assms(2) by (rule car_other_inv)
qed

lemma car_run_inv: "car_run c d \<Longrightarrow> car_ok c \<Longrightarrow> car_ok d"
  by (induction rule: car_run.induct) (auto intro: car_step_inv)

text \<open>Only a frame changes the history of the finish line.\<close>

lemma car_other_finish:
  assumes "car_other c d" "stop_inv ims (trk c)"
  shows "stop_inv ims (trk d)"
  using assms(1)
proof cases
  case (gains argv r)
  then show ?thesis using assms(2) by (auto simp: set_steer_pid_param_cmd_def split: bind_splits)
next
  case (speeds argv t)
  then show ?thesis using dym_param_other(4) assms(2) by simp
next
  case (angle argv r)
  then show ?thesis using assms(2) by (auto simp: set_angle_cmd_def Let_def split: bind_splits if_splits)
next
  case (debug argv r)
  then show ?thesis using assms(2) by (auto simp: set_steer_debug_cmd_def split: bind_splits if_splits)
next
  case (picture argv r)
  then show ?thesis using assms(2) by (auto simp: set_disp_pic_type_cmd_def split: bind_splits if_splits)
qed (use assms(2) in simp_all)

lemma car_film_finish:
  assumes "car_film c ims d" "car_ok c" "stop_inv [] (trk c)"
  shows "stop_inv ims (trk d)"
  using assms
proof (induction rule: car_film.induct)
  case (frame c ims d e f)
  have "car_ok d" using car_run_inv [OF car_film_run [OF frame.hyps(1)]] frame.prems(1) .
  then show ?case using main_round_ok [OF _ _ frame.hyps(2), of 0 512 e] frame by simp
next
  case (other c ims d f)
  then show ?case by (simp add: car_other_finish)
qed

section \<open>Power-on\<close>

text \<open>\<open>p\<close>: the panel; \<open>a\<close> and \<open>b\<close>: the words behind the two arrays of \<open>distinguish.c\<close>, if they are free; \<open>im\<close>: the camera's buffer.\<close>

definition car_init :: "pins \<Rightarrow> panel \<Rightarrow> int option \<Rightarrow> int option \<Rightarrow> image \<Rightarrow> car" where
  "car_init g p a b im = \<lparr>lns = lines_init, trk = track_init a b, chs = chassis_init, blk = eb_start g, pnl = p,
     ui = \<lparr>is_chassis_running = 1, disp_pic_type = 0, outs = [], bin_image = (\<lambda>_. 0), csi_image = im\<rparr>,
     errno_led = - 1, info_beep = - 1, rho_err_pid = None, FilterImage = (\<lambda>_. 0), ImageThreshold = 0,
     steer_out = Fin 0, steer_basic_kp = Fin 12, steer_kp_j = Fin 0, steer_kp = Fin 20, steer_ki = Fin 0,
     steer_kd = Fin 0, steer_kp_max = Fin 16, is_steer_debug = 0, use_time = 0,
     pit0 = \<lparr>pit_running = False, pit_count = 0, pit_flag = False\<rparr>, console = [], screen = (None, [])\<rparr>"

lemma entry_bits [simp]: "k < 16 \<Longrightarrow> bit (flag (init_entry p v l)) k = (k = 0 \<or> bit (flag l) k)"
  "nums (init_entry p v l) = nums l" "led_pin (init_entry p v l) = p"
  by (auto simp: init_entry_def)

lemma start_led_bits [simp]: "inited (start_led d n p q l) = inited l" "led_pin (start_led d n p q l) = led_pin l"
  by (simp_all add: start_led_def led_delay_def blink_data_set_def)

lemma start_leds:
  "\<exists>b1 b2 b3 b4. easyblink_init_led LED1_PIN 0 (eb_start g) = Some (0, b1) \<and> easyblink 0 (- 1) 500 1000 b1 = Some b2
     \<and> easyblink_init_led BEEP_PIN 1 b2 = Some (1, b3) \<and> easyblink 1 2 50 200 b3 = Some b4 \<and> beeper_ok 1 b4"
proof -
  define A where "A = init_entry LED1_PIN 0 led_zero"
  define A' where "A' = start_led 0 (- 1) 500 1000 A"
  define B where "B = init_entry BEEP_PIN 1 led_zero"
  define b0 where "b0 = eb_start g"
  define b1 where "b1 = enter A (b0\<lparr>eb_leds := [A, led_zero]\<rparr>)"
  define b2 where "b2 = b1\<lparr>eb_leds := [A', led_zero], eb_sem := Some 1\<rparr>"
  define b3 where "b3 = enter B (b2\<lparr>eb_leds := [A', B]\<rparr>)"
  define b4 where "b4 = b3\<lparr>eb_leds := [A', start_led 0 2 50 200 B], eb_sem := Some 2\<rparr>"
  have 0: "eb_leds b0 = [led_zero, led_zero]" "eb_inv b0" "\<not> eb_thread b0"
    unfolding b0_def by (simp_all, simp_all add: eb_start_def)
  have bits: "inited A" "\<not> act A" "nums A = 0" "inited A'" "inited B" "\<not> act B" "nums B = 0" "led_pin A' = LED1_PIN"
    by (simp_all add: A_def A'_def B_def led_zero_def)
  have 1: "easyblink_init_led LED1_PIN 0 b0 = Some (0, b1)"
    by (simp add: init_led_cases [OF 0(1)] b1_def A_def)
  have f1: "eb_leds b1 = [A, led_zero]" "eb_thread b1" "eb_sem b1 = Some 0" "daemon b1 = Computing"
    using 0(3) by (simp_all add: b1_def enter_fields)
  have i1: "eb_inv b1" by (rule easyblink_init_led_inv [OF 0(2) _ _ 1]) (simp_all add: free_pin_def 0)
  have 2: "easyblink 0 (- 1) 500 1000 b1 = Some b2"
    using easyblink_cases [of b1 0 0 500 1000 "- 1"] f1 bits by (simp add: b2_def A'_def)
  have f2: "eb_leds b2 = [A', led_zero]" "eb_thread b2" "eb_sem b2 = Some 1" "daemon b2 = Computing"
    using f1 by (simp_all add: b2_def)
  have i2: "eb_inv b2"
    by (rule easyblink_inv [OF i1 _ _ _ _ _ _ _ _ 2]) (simp_all add: idle_daemon_def f1 bits)
  have 3: "easyblink_init_led BEEP_PIN 1 b2 = Some (1, b3)"
    using bits by (simp add: init_led_cases [OF f2(1)] b3_def B_def)
  have f3: "eb_leds b3 = [A', B]" "eb_thread b3" "eb_sem b3 = Some 1" "daemon b3 = Computing"
    using f2 by (simp_all add: b3_def enter_fields)
  have i3: "eb_inv b3"
    by (rule easyblink_init_led_inv [OF i2 _ _ 3]) (simp_all add: free_pin_def f2 bits LED1_PIN_def BEEP_PIN_def)
  have 4: "easyblink 1 2 50 200 b3 = Some b4"
    using easyblink_cases [of b3 1 1 50 200 2] f3 bits by (simp add: b4_def)
  have "eb_inv b4"
    by (rule easyblink_inv [OF i3 _ _ _ _ _ _ _ _ 4]) (simp_all add: idle_daemon_def f3 bits)
  then have "beeper_ok 1 b4" using bits by (simp add: beeper_ok_def eb_inv_safe) (simp add: b4_def bits)
  then show ?thesis using 1 2 3 4 unfolding b0_def by blast
qed

lemma pwm_off_bridges: "bridges_ok (servo_init pwm_off) \<and> servo_ok (servo_init pwm_off)"
  by (simp add: servo_init_def pwm_init_def pwm_off_def bridges_ok_def side_ok_def servo_ok_def)

theorem main_start_ok:
  assumes "panel_ok p"
  shows "runs (main_start (Some mem) (car_init g p (Some a) (Some b) im)) (\<lambda>c. car_ok c \<and> stop_inv [] (trk c))"
proof -
  let ?c = "car_init g p (Some a) (Some b) im"
  obtain b1 b2 b3 b4 where e: "easyblink_init_led LED1_PIN 0 (eb_start g) = Some (0, b1)" "easyblink 0 (- 1) 500 1000 b1 = Some b2"
    "easyblink_init_led BEEP_PIN 1 b2 = Some (1, b3)" "easyblink 1 2 50 200 b3 = Some b4" "beeper_ok 1 b4"
    using start_leds by blast
  obtain q where q: "pos_pid_controller_create (Some mem) (Fin 20) (Fin 0) (Fin 0) (Fin 1000) (Fin (- 1000)) 10 = Some (Some q)"
    by (simp add: pos_pid_controller_create_def controller_create_def)
  have "pos_inv (- 1000) 1000 (q\<lparr>target := Fin 0\<rparr>)"
    by (rule pos_create_inv [OF q]) (simp_all add: below_iff)
  then have pid: "pid_ok (Some (Pos (q\<lparr>target := Fin 0\<rparr>)))" by (simp add: pid_ok_def)
  have t: "track_inv 0 512 (track_init (Some a) (Some b))" "stop_inv [] (track_init (Some a) (Some b))"
    by (simp_all add: track_inv_def error_ok_def params_ok_def track_ok_def slack_ok_def track_init_def stop_inv_def seen_def last_n_def)
  have g: "gain_ok (fl_map rd32 (rd64 (4 / 10)))" "gain_ok (fl_map rd32 (rd64 (1 / 10)))"
      "below 2 (fl_map rd32 (rd64 (2 / 10)))" by (simp_all add: gain_ok_def gain_below)
  have s: "chassis_inv (chassis_init\<lparr>hw := (hw chassis_init)\<lparr>pwm_out := servo_init (pwm_out (hw chassis_init))\<rparr>\<rparr>)"
    using g pwm_off_bridges by (simp add: chassis_inv_def chassis_idle_def chassis_init_def gain_ok_def)
  show ?thesis using e q pid t s assms mid_ok_init
    by (simp add: main_start_def car_init_def Let_def car_inv_def gains_ok_def below_iff gain_ok_def fl_in_iff)
qed

section \<open>What a round does to the wheels\<close>

fun controller_target :: "controller_t \<Rightarrow> fl" where
  "controller_target (Inc c) = target c"
| "controller_target (Pos c) = target c"

lemma target_set [simp]: "controller_target (controller_set_target x c) = x"
  by (cases c) simp_all

lemma steer_other:
  assumes "steer e c = Some d"
  shows "trk d = trk c" "left_wheel (chs d) = left_wheel (chs c)" "right_wheel (chs d) = right_wheel (chs c)" "ui d = ui c"
    "speed_now (chs d) = speed_now (chs c)"
  using assms by (auto simp: steer_def Let_def bind_eq_Some_conv)

lemma show_other: "show_tft_img c = Some f \<Longrightarrow> trk f = trk c \<and> chs f = chs c \<and> ui f = ui c"
  by (auto simp: show_tft_img_def Let_def bind_eq_Some_conv)

lemma main_round_parts:
  assumes "main_round e c = Some f"
  obtains c1 c2 where "see_track e (c\<lparr>pit0 := pit_start (pit0 c)\<rparr>) = Some c1" "decide c1 = Some c2" "trk f = trk c2"
    "left_wheel (chs f) = left_wheel (chs (drive e c2))" "right_wheel (chs f) = right_wheel (chs (drive e c2))"
    "chs c2 = chs c" "bin_image (ui f) = bin_image (ui c1)" "speed_now (chs f) = speed_now (chs c)"
proof -
  obtain c1 where 1: "see_track e (c\<lparr>pit0 := pit_start (pit0 c)\<rparr>) = Some c1"
    using assms by (cases "see_track e (c\<lparr>pit0 := pit_start (pit0 c)\<rparr>)") (simp_all add: main_round_def)
  obtain c2 where 2: "decide c1 = Some c2"
    using assms 1 by (cases "decide c1") (simp_all add: main_round_def)
  obtain c4 where 4: "steer e (drive e c2) = Some c4"
    using assms 1 2 by (cases "steer e (drive e c2)") (simp_all add: main_round_def)
  have "trk f = trk c4 \<and> chs f = chs c4 \<and> ui f = ui c4"
    using assms 1 2 4 unfolding main_round_def Let_def
    by (simp split: prod.splits if_splits) (drule show_other, simp)+
  moreover have "trk (drive e c2) = trk c2" "ui (drive e c2) = ui c2" "speed_now (chs (drive e c2)) = speed_now (chs c2)"
    by (simp_all add: drive_def set_velocity_def Let_def split: option.splits)
  moreover have "chs c2 = chs c1 \<and> ui c2 = ui c1" using 2 by (auto simp: decide_def Let_def bind_eq_Some_conv)
  moreover have "chs c1 = chs c" using 1 by (auto simp: see_track_def Let_def bind_eq_Some_conv)
  ultimately show thesis using that [OF 1 2] steer_other [OF 4] by simp
qed


lemma decide_stop: "decide c = Some d \<Longrightarrow> stop_car_flag (trk d) \<noteq> 0 \<Longrightarrow> speed_set (trk d) = 0"
  by (auto simp: decide_def Let_def bind_eq_Some_conv split: if_splits)

lemma zero_velocity:
  assumes ok: "chassis_ok s" and e: "\<bar>e\<bar> \<le> 80"
  shows "\<exists>l r. left_wheel (snd (set_velocity (rd32 (of_int 0)) e s)) = Some l
     \<and> right_wheel (snd (set_velocity (rd32 (of_int 0)) e s)) = Some r
     \<and> controller_target (w_controller l) = Fin 0 \<and> controller_target (w_controller r) = Fin 0"
proof -
  from ok obtain l r where lr: "left_wheel s = Some l" "right_wheel s = Some r" "wheel_ok 1 l" "wheel_ok 2 r"
    and d: "below 2 (wheel_diff_p s)" by (auto simp: chassis_ok_def)
  have z: "rd32 0 = Fin 0" using rd32_int [of 0] by simp
  have "(of_int \<bar>e\<bar> :: rat) \<le> 2 ^ 7" by (rule of_int_le_pow2) (use e in simp)
  then have "below 7 (rd32 (of_int e))" by (intro rd32_below) simp_all
  from below_mul [OF d this] have "below 9 (fmul (wheel_diff_p s) (rd32 (of_int e)))" by simp
  then obtain q where q: "fmul (wheel_diff_p s) (rd32 (of_int e)) = Fin q" by (auto simp: below_iff)
  obtain a b where ab: "speed_to_rpm l = Fin a" "speed_to_rpm r = Fin b" using lr(3,4) by (auto simp: wheel_ok_def below_iff)
  show ?thesis using lr by (simp add: set_velocity_def Let_def q z wheel_set_speed_def ab fl_sub_def)
qed

section \<open>Properties\<close>



section \<open>Witnesses\<close>

text \<open>A state in which a frame can come: the car has started with its four keys and the chassis thread has made its wheels.\<close>

lemma car_with_wheels:
  assumes "below 21 x"
  obtains c s where "main_start (Some mem) (car_init g p (Some a) (Some b) im) = Some c" "chassis_start (memory_of x) (chs c) = Some s"
    "car_film c [] (c\<lparr>chs := s\<rparr>)" "speeds_ok (speed_now s)" "left_wheel s \<noteq> None"
proof -
  let ?h = "(hw chassis_init)\<lparr>pwm_out := servo_init (pwm_out (hw chassis_init))\<rparr>"
  obtain b1 b2 b3 b4 where e: "easyblink_init_led LED1_PIN 0 (eb_start g) = Some (0, b1)" "easyblink 0 (- 1) 500 1000 b1 = Some b2"
    "easyblink_init_led BEEP_PIN 1 b2 = Some (1, b3)" "easyblink 1 2 50 200 b3 = Some b4"
    using start_leds by blast
  obtain q where q: "pos_pid_controller_create (Some mem) (Fin 20) (Fin 0) (Fin 0) (Fin 1000) (Fin (- 1000)) 10 = Some (Some q)"
    by (simp add: pos_pid_controller_create_def controller_create_def)
  obtain c where c: "main_start (Some mem) (car_init g p (Some a) (Some b) im) = Some c" "chs c = chassis_init\<lparr>hw := ?h\<rparr>"
    using e q by (simp add: main_start_def car_init_def Let_def)
  obtain s where s: "chassis_start (memory_of x) (chs c) = Some s" using chassis_start_runs by blast
  obtain c1 c2 where k: "inc_pid_controller_create (Some (mem_pid1 (memory_of x))) (wheel_kp (chs c)) (wheel_ki (chs c)) (wheel_kd (chs c)) (Fin 1000) (Fin (- 1000)) 30 = Some c1"
    "inc_pid_controller_create (Some (mem_pid2 (memory_of x))) (wheel_kp (chs c)) (wheel_ki (chs c)) (wheel_kd (chs c)) (Fin 1000) (Fin (- 1000)) 30 = Some c2"
    by (simp add: inc_pid_controller_create_def controller_create_def)
  have "speed_now s = replicate 5 (Fin 0)" "left_wheel s \<noteq> None"
    using s k c(2) by (auto simp: chassis_start_def Let_def chassis_init_def split: prod.splits)
  moreover have "speeds_ok (replicate 5 (Fin 0))" by (simp add: speeds_ok_def)
  moreover have "car_film c [] (c\<lparr>chs := s\<rparr>)"
    by (rule car_film.other [OF car_film.refl], rule car_other.wheels [OF _ _ s])
      (use assms in \<open>simp_all add: c(2) chassis_init_def chassis_memory_ok_def memory_of_def Let_def\<close>)
  ultimately show thesis using that [OF c(1) s] by simp
qed

definition demo_frame :: frame where
  "demo_frame = \<lparr>csi = (\<lambda>_. 90), levels = (\<lambda>_. 0), stack_word = 7, frame_tick = 500, elapsed = 1500000, overflowed = False\<rparr>"


text \<open>The car on the finish line: black pictures.\<close>

lemma black_binary:
  assumes "\<And>r c. 0 \<le> r \<Longrightarrow> r \<le> 119 \<Longrightarrow> 0 \<le> c \<Longrightarrow> c \<le> 159 \<Longrightarrow> px f r c = 0" "gray_to_binary f out 1 = Some (t, bin)"
  shows "finish_seen bin"
proof -
  have z: "px bin r c = 0" if "r \<in> {116, 117, 118}" "30 \<le> c" "c \<le> 130" for r c
    using that assms mean_threshold_range [of f] by (auto simp: gray_to_binary_def px_rect)
  have len: "length (filter (\<lambda>j. px bin i j = 0) [30..130]) = 101" if "i \<in> {116, 117, 118}" for i
    using z [OF that] by simp
  have "black_pixels bin = 303" using len by (simp add: black_pixels_def)
  then show ?thesis by (simp add: finish_seen_def)
qed

lemma black_filtered:
  assumes "0 \<le> r" "r \<le> 119" "0 \<le> c" "c \<le> 159"
  shows "px (gray_mean_filter (\<lambda>_. 0) out) r c = 0"
  using gray_mean_filter_px [OF assms] by (simp add: filter_spec_def mean9_def px_def)

lemma black_seen: "see_track e c = Some d \<Longrightarrow> csi e = (\<lambda>_. 0) \<Longrightarrow> finish_seen (bin_image (ui d))"
  by (auto simp: see_track_def Let_def bind_eq_Some_conv intro: black_binary [OF black_filtered])

definition black_frame :: frame where
  "black_frame = demo_frame\<lparr>csi := (\<lambda>_. 0)\<rparr>"

lemma black_frames:
  assumes "car_film c [] d" "car_ok c" "speeds_ok (speed_now (chs d))" "left_wheel (chs d) \<noteq> None"
  shows "\<exists>f ims. car_film c ims f \<and> length ims = n \<and> (\<forall>im \<in> set ims. finish_seen im)
    \<and> speeds_ok (speed_now (chs f)) \<and> left_wheel (chs f) \<noteq> None"
proof (induction n)
  case 0
  then show ?case using assms by auto
next
  case (Suc n)
  then obtain f ims where f: "car_film c ims f" "length ims = n" "\<forall>im \<in> set ims. finish_seen im"
    "speeds_ok (speed_now (chs f))" "left_wheel (chs f) \<noteq> None" by blast
  have ok: "car_ok f" using car_run_inv [OF car_film_run [OF f(1)] assms(2)] .
  obtain h where h: "main_round black_frame f = Some h"
    using main_round_ok [OF ok _ f(4), of black_frame] by (auto elim: runsE)
  obtain c1 c2 where p: "see_track black_frame (f\<lparr>pit0 := pit_start (pit0 f)\<rparr>) = Some c1"
    "left_wheel (chs h) = left_wheel (chs (drive black_frame c2))" "chs c2 = chs f"
    "bin_image (ui h) = bin_image (ui c1)" "speed_now (chs h) = speed_now (chs f)"
    by (rule main_round_parts [OF h])
  have "finish_seen (bin_image (ui h))" using black_seen [OF p(1)] p(4) by (simp add: black_frame_def)
  moreover have "left_wheel (chs h) \<noteq> None" using p(2,3) f(5) by (auto simp: drive_def set_velocity_def Let_def split: option.splits)
  moreover have "car_film c (ims @ [bin_image (ui h)]) h" by (rule car_film.frame [OF f(1,4) h])
  ultimately show ?case using f p(5) by (intro exI [of _ h] exI [of _ "ims @ [bin_image (ui h)]"]) auto
qed


end
