(* ===== verification/ServoExact.thy ===== *)
theory ServoExact
  imports Actuators
begin

text \<open>
  The servo commands compute their duty in single precision.  This theory shows that the
  rounding errors never reach the result: the duty is the one of integer arithmetic.
\<close>

section \<open>The error of a rounding\<close>

abbreviation rnd32 :: "rat \<Rightarrow> rat" where "rnd32 \<equiv> rnd 24 (- 149)"

lemma rd32_rnd: "rd32 x = Fin q \<Longrightarrow> q = rnd32 x"
  by (auto simp: rd32_def to_fl_def Let_def split: if_splits)

definition ulp :: "rat \<Rightarrow> rat" where
  "ulp x = 2 powi (ilog2 x - 23)"

lemma ulp_pos [simp]: "0 < ulp x"
  by (simp add: ulp_def)

lemma rnd32_ulp:
  assumes "2 powi (- 126) \<le> x"
  shows "rnd32 x = of_int (rhe (x / ulp x)) * ulp x"
proof -
  have "0 < (2::rat) powi (- 126)" by (rule pow2_pos)
  with assms have x: "0 < x" by linarith
  have "(2::rat) powi (- 126) < 2 powi (ilog2 x + 1)" using ilog2_bounds(2) [OF x] assms by linarith
  then have "- 126 < ilog2 x + 1" by (rule pow2_less_cancel)
  then show ?thesis using x by (simp add: rnd_def rexp_def ulp_def Let_def)
qed

lemma rnd32_error:
  assumes "2 powi (- 126) \<le> x"
  shows "\<bar>rnd32 x - x\<bar> \<le> ulp x / 2" and "ulp x * 2 ^ 23 \<le> x"
proof -
  have "0 < (2::rat) powi (- 126)" by (rule pow2_pos)
  with assms have x: "0 < x" by linarith
  have "\<bar>of_int (rhe (x / ulp x)) - x / ulp x\<bar> \<le> 1 / 2"
    using rhe_bounds [of "x / ulp x"] unfolding abs_le_iff by linarith
  then have "\<bar>of_int (rhe (x / ulp x)) - x / ulp x\<bar> * ulp x \<le> 1 / 2 * ulp x"
    by (rule mult_right_mono) (simp add: less_imp_le)
  moreover have "ulp x \<noteq> 0" using ulp_pos [of x] by linarith
  then have "(of_int (rhe (x / ulp x)) - x / ulp x) * ulp x = rnd32 x - x"
    by (simp add: rnd32_ulp [OF assms] left_diff_distrib)
  then have "\<bar>of_int (rhe (x / ulp x)) - x / ulp x\<bar> * ulp x = \<bar>rnd32 x - x\<bar>"
    using ulp_pos [of x] by (metis abs_mult abs_of_pos)
  ultimately show "\<bar>rnd32 x - x\<bar> \<le> ulp x / 2" by simp
  have "ulp x * 2 powi 23 = 2 powi (ilog2 x)" by (simp add: ulp_def pow2_diff)
  then show "ulp x * 2 ^ 23 \<le> x" using ilog2_bounds(1) [OF x] by simp
qed

lemma rnd32_relative:
  assumes "2 powi (- 126) \<le> x"
  shows "\<bar>rnd32 x - x\<bar> \<le> x / 2 ^ 24"
  using rnd32_error [OF assms] by simp

text \<open>A number just below an integer with an even last place is rounded up to it.\<close>

lemma rhe_tie: "even m \<Longrightarrow> of_int m - y \<le> 1 / 2 \<Longrightarrow> m \<le> rhe y"
proof (cases "of_int m \<le> y")
  case True
  then show ?thesis using rhe_mono [of "of_int m" y] by simp
next
  case False
  assume m: "even m" "of_int m - y \<le> 1 / 2"
  then have "\<lfloor>y\<rfloor> = m - 1" using False by (simp add: floor_eq_iff)
  then show ?thesis using m by (auto simp: rhe_def Let_def)
qed

lemma rnd32_up:
  assumes z: "2 powi (- 126) \<le> z" and K: "K = of_int (2 * m) * ulp z" "2 * (K - z) \<le> ulp z"
  shows "K \<le> rnd32 z"
proof -
  have "ulp z \<noteq> 0" using ulp_pos [of z] by linarith
  then have "of_int (2 * m) - z / ulp z = (K - z) / ulp z" using K(1) by (simp add: diff_divide_distrib)
  also have "\<dots> \<le> 1 / 2" using K(2) by (simp add: divide_le_eq)
  finally have "2 * m \<le> rhe (z / ulp z)" by (intro rhe_tie) simp_all
  then have "(of_int (2 * m) :: rat) \<le> of_int (rhe (z / ulp z))" by (simp only: of_int_le_iff)
  then have "of_int (2 * m) * ulp z \<le> of_int (rhe (z / ulp z)) * ulp z" by (rule mult_right_mono) (simp add: less_imp_le)
  then show ?thesis using K(1) rnd32_ulp [OF z] by simp
qed

section \<open>The duty of a servo\<close>

lemma small: "1 / 1000 \<le> x \<Longrightarrow> (2::rat) powi (- 126) \<le> x"
proof -
  assume "1 / 1000 \<le> x"
  moreover have "(2::rat) powi (- 126) \<le> 2 powi (- 10)" by (rule pow2_mono) simp
  ultimately show ?thesis by (simp add: power_int_minus)
qed

text \<open>Between two integers the two roundings cannot reach either of them.\<close>

lemma two_roundings:
  assumes "1 / 1000 \<le> x" "x \<le> 1"
  shows "\<bar>rnd32 (rnd32 x * 80) - x * 80\<bar> \<le> 1 / 100"
proof -
  define q where "q = rnd32 x"
  have 1: "\<bar>q - x\<bar> \<le> 1 / 2 ^ 24" using rnd32_relative [OF small [OF assms(1)]] assms(2) by (simp add: q_def)
  then have q: "1 / 1000 \<le> q * 80" "q * 80 \<le> 81" using assms unfolding abs_le_iff by simp_all
  have "\<bar>rnd32 (q * 80) - q * 80\<bar> \<le> 81 / 2 ^ 24" using rnd32_relative [OF small [OF q(1)]] q(2) by simp
  then show ?thesis using 1 unfolding q_def [symmetric] abs_le_iff by simp
qed

text \<open>At an integer the first rounding error is at most two fifths of a unit, which the second one
  rounds away, in the worst case as a tie to the even neighbour.\<close>

lemma integer_kept:
  assumes "1 \<le> j" "j \<le> (40::int)"
  shows "of_int (2 * j) \<le> rnd32 (rnd32 (of_int j / 40) * 80)"
proof -
  define x where "x = (of_int j / 40 :: rat)"
  define e where "e = ilog2 x"
  define q where "q = rnd32 x"
  have j: "1 \<le> (of_int j :: rat)" "(of_int j :: rat) \<le> 40" using assms by simp_all
  have x: "1 / 1000 \<le> x" "x \<le> 1" "0 < x" using j by (simp_all add: x_def)
  note x126 = small [OF x(1)]
  have e: "e \<le> 0"
  proof -
    have "(2::rat) powi e < 2 powi 1" using ilog2_bounds(1) [OF x(3)] x(2) by (simp add: e_def)
    then show ?thesis using pow2_less_cancel [of e 1] by simp
  qed
  define N where "N = rhe (x / ulp x)"
  define w where "w = j * 2 ^ nat (20 - e)"
  have ulp: "ulp x = 2 powi e / 2 ^ 23" by (simp add: ulp_def pow2_diff flip: e_def)
  have "(2::rat) ^ nat (20 - e) = 2 powi (20 - e)" using e by (simp flip: pow2_nat)
  then have "(2::rat) ^ nat (20 - e) = 2 ^ 20 / 2 powi e" by (simp add: pow2_diff)
  moreover have "x / ulp x = x * 2 ^ 23 / 2 powi e" by (simp add: ulp)
  ultimately have w: "x / ulp x = of_int w / 5" by (simp add: w_def x_def)
  have "\<bar>of_int N - of_int w / (5::rat)\<bar> \<le> 1 / 2"
    using rhe_bounds [of "x / ulp x"] unfolding w N_def abs_le_iff by linarith
  then have "(of_int (2 * w - 10 * N) :: rat) \<le> of_int 5" unfolding abs_le_iff by simp
  then have "2 * w - 10 * N \<le> 5" by (simp only: of_int_le_iff)
  then have wN: "w \<le> 5 * N + 2" by linarith
  have q: "q = of_int N * ulp x" using rnd32_ulp [OF x126] by (simp add: q_def N_def)
  have near: "of_int (2 * j) - q * 80 \<le> 32 * ulp x"
  proof -
    have "ulp x \<noteq> 0" using ulp_pos [of x] by linarith
    then have "of_int (2 * j) = of_int w * 16 * ulp x" using w by (simp add: x_def field_simps)
    moreover have "(of_int w :: rat) \<le> of_int (5 * N + 2)" using wN by (simp only: of_int_le_iff)
    then have "of_int w * (16 * ulp x) \<le> of_int (5 * N + 2) * (16 * ulp x)" by (rule mult_right_mono) (simp add: less_imp_le)
    ultimately show ?thesis by (simp add: q algebra_simps)
  qed
  have "q * 80 \<ge> 2 powi (e + 6)"
  proof -
    have "2 ^ 23 \<le> x / ulp x" using rnd32_error(2) [OF x126] by (simp add: pos_le_divide_eq mult.commute)
    then have "rhe (of_int (2 ^ 23)) \<le> N" unfolding N_def by (intro rhe_mono) simp
    then have "2 ^ 23 \<le> N" by (simp only: rhe_of_int)
    then have "(of_int (2 ^ 23) :: rat) \<le> of_int N" by (simp only: of_int_le_iff)
    then have "of_int (2 ^ 23) * ulp x \<le> q" unfolding q by (rule mult_right_mono) (simp add: less_imp_le)
    then have "2 powi e \<le> q" by (simp add: ulp)
    moreover have "0 < (2::rat) powi e" by simp
    moreover have "(2::rat) powi (e + 6) = 2 powi e * 64" by (simp add: pow2_add)
    ultimately show ?thesis by linarith
  qed
  define z where "z = q * 80"
  have two: "\<bar>q - x\<bar> \<le> 1 / 2 ^ 24" using rnd32_relative [OF x126] x(2) by (simp add: q_def)
  then have z: "1 / 1000 \<le> z" "z < 2 powi 7" "0 < z" using x j unfolding z_def abs_le_iff by (simp_all add: x_def)
  have "(2::rat) powi (e + 6) < 2 powi (ilog2 z + 1)"
    using ilog2_bounds(2) [OF z(3)] \<open>q * 80 \<ge> 2 powi (e + 6)\<close> by (simp add: z_def)
  then have lo: "e + 6 \<le> ilog2 z" using pow2_less_cancel [of "e + 6" "ilog2 z + 1"] by simp
  have "(2::rat) powi (ilog2 z) < 2 powi 7" using ilog2_bounds(1) [OF z(3)] z(2) by linarith
  then have hi: "ilog2 z < 7" by (rule pow2_less_cancel)
  have "(2::rat) powi (e + 6 - 23) \<le> ulp z" unfolding ulp_def using lo by (intro pow2_mono) simp
  moreover have "(2::rat) powi (e + 6 - 23) = 64 * ulp x" by (simp add: ulp_def pow2_add pow2_diff flip: e_def)
  ultimately have u: "2 * (of_int (2 * j) - z) \<le> ulp z" using near by (simp add: z_def)
  have "(2::rat) ^ nat (23 - ilog2 z) = 2 powi (23 - ilog2 z)" using hi by (simp flip: pow2_nat)
  then have "(2::rat) ^ nat (23 - ilog2 z) * ulp z = 1" by (simp add: ulp_def flip: pow2_add)
  then have K: "of_int (2 * j) = of_int (2 * (j * 2 ^ nat (23 - ilog2 z))) * ulp z" by simp
  show ?thesis using rnd32_up [OF small [OF z(1)] K u] by (simp add: z_def q_def x_def)
qed

lemma floor_nonneg:
  assumes "0 \<le> n" "n \<le> 1000"
  shows "\<lfloor>rnd32 (rnd32 (of_int n / 1000) * 80)\<rfloor> = n * 80 div 1000"
proof (cases "n = 0")
  case True
  then show ?thesis by simp
next
  case False
  define r where "r = rnd32 (rnd32 (of_int n / 1000) * 80)"
  define k where "k = 2 * n div 25"
  define m where "m = 2 * n mod 25"
  have n: "1 \<le> (of_int n :: rat)" "(of_int n :: rat) \<le> 1000" using False assms by simp_all
  have near: "\<bar>r - of_int n / 1000 * 80\<bar> \<le> 1 / 100"
    unfolding r_def by (rule two_roundings) (use n in simp_all)
  have km: "2 * n = 25 * k + m" "0 \<le> m" "m < 25" by (simp_all add: k_def m_def)
  then have "(of_int (2 * n) :: rat) = of_int (25 * k + m)" by (simp only:)
  then have x: "of_int n / 1000 * 80 = of_int k + of_int m / (25 :: rat)" by simp
  have "(of_int m :: rat) \<le> of_int 24" using km(3) by (simp only: of_int_le_iff)
  then have m: "(of_int m :: rat) \<le> 24" by simp
  have lower: "of_int k \<le> r"
  proof (cases "m = 0")
    case True
    then have "even k" "n = 25 * (k div 2)" using km(1) by presburger+
    moreover from this have "1 \<le> k div 2" "k div 2 \<le> 40" using False assms by simp_all
    moreover have "(of_int n :: rat) / 1000 = of_int (k div 2) / 40" using calculation(2) by simp
    ultimately show ?thesis using integer_kept [of "k div 2"] by (simp add: r_def)
  next
    case False
    then have "(of_int 1 :: rat) \<le> of_int m" using km(2) by (simp only: of_int_le_iff)
    then show ?thesis using near x unfolding abs_le_iff by simp
  qed
  moreover have "r < of_int k + 1" using near x m unfolding abs_le_iff by simp
  ultimately have "\<lfloor>r\<rfloor> = k" by (simp add: floor_eq_iff)
  moreover have "n * 80 div 1000 = k"
  proof -
    have "n * 80 = 40 * (2 * n)" "(1000::int) = 40 * 25" by simp_all
    then show ?thesis unfolding k_def by (metis div_mult_mult1 zero_neq_numeral)
  qed
  ultimately show ?thesis by (simp add: r_def)
qed

lemma servo_duty_exact: "servo_duty 770 80 a = Some (770 + limit_int a 1000 * 80 sdiv 1000)"
proof -
  define n where "n = limit_int a 1000"
  have n: "- 1000 \<le> n" "n \<le> 1000" using limit_int_range [of 1000 a] by (simp_all add: n_def)
  define r where "r = rnd32 (rnd32 (of_int n / 1000) * 80)"
  obtain t where t: "servo_duty 770 80 a = Some (770 + t)"
    and et: "fl_to_int (- 2147483648) 2147483647
       (fl_mul rd32 (fl_div rd32 (Fin (of_int (limit_int a 1000))) (Fin 1000)) (Fin 80)) = Some t"
    by (rule servo_duty_run)
  obtain q where q: "rd32 (of_int n / 1000) = Fin q"
    using et by (cases "rd32 (of_int n / 1000)") (auto simp: fl_to_int_def fl_inf_def n_def)
  obtain v where v: "rd32 (q * 80) = Fin v"
    using et q by (cases "rd32 (q * 80)") (auto simp: fl_to_int_def n_def)
  have "v = r" using rd32_rnd [OF q] rd32_rnd [OF v] by (simp add: r_def)
  then have tr: "t = (if 0 \<le> r then \<lfloor>r\<rfloor> else \<lceil>r\<rceil>)" using et q v by (auto simp: fl_to_int_def Let_def simp flip: n_def split: if_splits)
  have "t = n * 80 sdiv 1000"
  proof (cases "0 \<le> n")
    case True
    then have "0 \<le> r" unfolding r_def by (intro rnd_nonneg mult_nonneg_nonneg divide_nonneg_nonneg) simp_all
    then show ?thesis using tr floor_nonneg [OF True n(2)] True by (simp add: r_def sdiv_pos)
  next
    case False
    define s where "s = rnd32 (rnd32 (of_int (- n) / 1000) * 80)"
    have "r = - s" by (simp add: r_def s_def rnd_minus flip: minus_divide_left)
    moreover have "0 \<le> s" unfolding s_def using False by (intro rnd_nonneg mult_nonneg_nonneg divide_nonneg_nonneg) simp_all
    moreover have "\<lfloor>s\<rfloor> = - n * 80 div 1000" unfolding s_def by (rule floor_nonneg) (use False n in simp_all)
    ultimately have "t = - (- n * 80 div 1000)" using tr by (auto simp: ceiling_minus)
    then show ?thesis using False by (simp add: signed_divide_int_def sgn_if)
  qed
  then show ?thesis using t by (simp add: n_def)
qed

section \<open>Properties\<close>

text \<open>
  C31: the servo commands, which divide, multiply and round in single precision, command exactly the
  duty of integer arithmetic: the middle position plus the angle, limited to 1000, times 80
  through 1000, cut off towards zero, with no rounding error for any angle.
\<close>

theorem servo_is_integer_arithmetic:
  "servo1_set_angle a p = Some (pwm_duty PWM4_MODULE2_CHA_C30 (770 + limit_int a 1000 * 80 sdiv 1000) p)
   \<and> servo2_set_angle a p = Some (pwm_duty PWM1_MODULE0_CHA_D12 (770 + limit_int a 1000 * 80 sdiv 1000) p)
   \<and> servo3_set_angle a p = Some (pwm_duty PWM1_MODULE0_CHB_D13 (770 + limit_int a 1000 * 80 sdiv 1000) p)"
  by (simp add: servo1_set_angle_def servo2_set_angle_def servo3_set_angle_def servo_duty_exact)

end
