(* ===== verification/Camera.thy ===== *)
theory Camera
  imports FindLines
begin

text \<open>
  The camera: \<open>fsl_csi.c\<close> keeps a queue of frame buffers and hands two of them to the sensor
  interface, \<open>zf_csi.c\<close> wraps it, and \<open>SEEKFREE_MT9V03X_CSI.c\<close> runs it with two image buffers
  and tells the main loop which one to read.  The hardware is one step: \<open>frame_end\<close>, the end of
  a frame, after which the interface goes on with the other of its two buffer registers.
\<close>

unbundle bit_operations_syntax

section \<open>State\<close>

datatype csi_status =
    kStatus_Success
  | kStatus_InvalidArgument
  | kStatus_CSI_NoEmptyBuffer
  | kStatus_CSI_NoFullBuffer
  | kStatus_CSI_QueueFull

text \<open>The handle of the driver, the registers it uses, and the variables of the camera module.
  \<open>dma_buf\<close> is the buffer register the interface fills, \<open>store\<close> what is in memory at an address:
  \<open>None\<close> once the interface has begun to overwrite it.  \<open>csi_done\<close> counts the releases of
  \<open>csi_done_sem\<close>.\<close>

record csi =
  frameBufferQueue :: "int list"
  queueUserReadIdx :: int
  queueUserWriteIdx :: int
  queueDrvReadIdx :: int
  queueDrvWriteIdx :: int
  activeBufferNum :: int
  nextBufferIdx :: int
  transferStarted :: bool
  transferOnGoing :: bool
  csi_callback :: bool
  CSIDMASA_FB1 :: int
  CSIDMASA_FB2 :: int
  csi_enable :: bool
  csi_inten :: bool
  FB1_done :: bool
  FB2_done :: bool
  image_para :: "int \<times> int"
  dma_buf :: int
  store :: "int \<Rightarrow> image option"
  csi1_image :: int
  csi2_image :: int
  mt9v03x_csi_image :: int
  fullCameraBufferAddr :: int
  csi_finish_flag :: int
  csi_done :: int

section \<open>The sensor interface\<close>

definition dma_target :: "csi \<Rightarrow> int" where
  "dma_target s = (if dma_buf s = 0 then CSIDMASA_FB1 s else CSIDMASA_FB2 s)"

definition overwrite :: "csi \<Rightarrow> csi" where
  "overwrite s = s\<lparr>store := (store s)(dma_target s := None)\<rparr>"

definition CSI_Start :: "csi \<Rightarrow> csi" where
  "CSI_Start s = overwrite (s\<lparr>csi_enable := True\<rparr>)"

definition CSI_Stop :: "csi \<Rightarrow> csi" where
  "CSI_Stop s = s\<lparr>csi_enable := False\<rparr>"

text \<open>A frame with the content \<open>f\<close> is complete.\<close>

definition frame_end :: "image \<Rightarrow> csi \<Rightarrow> csi" where
  "frame_end f s =
     (if csi_enable s then
        let s = s\<lparr>store := (store s)(dma_target s := Some f)\<rparr>;
            s = (if dma_buf s = 0 then s\<lparr>FB1_done := True\<rparr> else s\<lparr>FB2_done := True\<rparr>)
        in overwrite (s\<lparr>dma_buf := 1 - dma_buf s\<rparr>)
      else s)"

definition CSI_ReflashFifoDma :: "csi \<Rightarrow> csi" where
  "CSI_ReflashFifoDma s = s\<lparr>dma_buf := 0\<rparr>"

definition CSI_SetRxBufferAddr :: "int \<Rightarrow> int \<Rightarrow> csi \<Rightarrow> csi" where
  "CSI_SetRxBufferAddr index addr s =
     (if index \<noteq> 0 then s\<lparr>CSIDMASA_FB2 := addr\<rparr> else s\<lparr>CSIDMASA_FB1 := addr\<rparr>)"

definition CSI_Reset :: "csi \<Rightarrow> csi" where
  "CSI_Reset s =
     (CSI_ReflashFifoDma (CSI_Stop s))\<lparr>FB1_done := False, FB2_done := False, csi_inten := False, image_para := (0, 0)\<rparr>"

text \<open>One byte per pixel, and the pitch is the width.\<close>

definition CSI_Init :: "int \<Rightarrow> int \<Rightarrow> csi \<Rightarrow> csi_status \<times> csi" where
  "CSI_Init width height s =
     (if u32 width mod 8 \<noteq> 0 then (kStatus_InvalidArgument, s)
      else (kStatus_Success, CSI_ReflashFifoDma ((CSI_Reset s)\<lparr>image_para := (width, height)\<rparr>)))"

section \<open>The queue\<close>

definition CSI_TransferGetQueueDelta :: "int \<Rightarrow> int \<Rightarrow> int" where
  "CSI_TransferGetQueueDelta startIdx endIdx =
     (if endIdx \<ge> startIdx then endIdx - startIdx else startIdx + 3 - endIdx)"

definition CSI_TransferIncreaseQueueIdx :: "int \<Rightarrow> int" where
  "CSI_TransferIncreaseQueueIdx idx = (if idx + 1 \<ge> 3 then 0 else idx + 1)"

definition CSI_TransferGetEmptyBufferCount :: "csi \<Rightarrow> int" where
  "CSI_TransferGetEmptyBufferCount s = CSI_TransferGetQueueDelta (queueDrvReadIdx s) (queueUserWriteIdx s)"

definition CSI_TransferLoadBufferToDevice :: "csi \<Rightarrow> csi option" where
  "CSI_TransferLoadBufferToDevice s = do {
     addr \<leftarrow> c_get (frameBufferQueue s) (queueDrvReadIdx s);
     let s = CSI_SetRxBufferAddr (nextBufferIdx s) addr s;
     Some (s\<lparr>queueDrvReadIdx := CSI_TransferIncreaseQueueIdx (queueDrvReadIdx s),
             activeBufferNum := u8 (activeBufferNum s + 1),
             nextBufferIdx := nextBufferIdx s XOR 1\<rparr>) }"

definition CSI_TransferCreateHandle :: "csi \<Rightarrow> csi" where
  "CSI_TransferCreateHandle s =
     s\<lparr>frameBufferQueue := [0, 0, 0], queueUserReadIdx := 0, queueUserWriteIdx := 0, queueDrvReadIdx := 0,
       queueDrvWriteIdx := 0, activeBufferNum := 0, nextBufferIdx := 0, transferStarted := False,
       transferOnGoing := False, csi_callback := True\<rparr>"

definition CSI_TransferStart :: "csi \<Rightarrow> (csi_status \<times> csi) option" where
  "CSI_TransferStart s =
     (if CSI_TransferGetEmptyBufferCount s < 2 then Some (kStatus_CSI_NoEmptyBuffer, s)
      else do {
        let s = s\<lparr>nextBufferIdx := 0, activeBufferNum := 0\<rparr>;
        s \<leftarrow> CSI_TransferLoadBufferToDevice s;
        s \<leftarrow> CSI_TransferLoadBufferToDevice s;
        let s = CSI_ReflashFifoDma s;
        let s = s\<lparr>transferStarted := True, transferOnGoing := True, csi_inten := True\<rparr>;
        Some (kStatus_Success, CSI_Start s) })"

definition CSI_TransferStop :: "csi \<Rightarrow> csi" where
  "CSI_TransferStop s =
     (CSI_Stop s)\<lparr>csi_inten := False, transferStarted := False, transferOnGoing := False,
        queueDrvReadIdx := queueDrvWriteIdx s, activeBufferNum := 0\<rparr>"

definition CSI_TransferSubmitEmptyBuffer :: "int \<Rightarrow> csi \<Rightarrow> (csi_status \<times> csi) option" where
  "CSI_TransferSubmitEmptyBuffer frameBuffer s =
     (if CSI_TransferGetQueueDelta (queueUserReadIdx s) (queueUserWriteIdx s) = 2 then Some (kStatus_CSI_QueueFull, s)
      else do {
        q \<leftarrow> c_put (frameBufferQueue s) (queueUserWriteIdx s) frameBuffer;
        let s = s\<lparr>frameBufferQueue := q, queueUserWriteIdx := CSI_TransferIncreaseQueueIdx (queueUserWriteIdx s)\<rparr>;
        if transferStarted s \<and> \<not> transferOnGoing s \<and> CSI_TransferGetEmptyBufferCount s \<ge> 2 then do {
          let s = s\<lparr>transferOnGoing := True, nextBufferIdx := 0\<rparr>;
          s \<leftarrow> CSI_TransferLoadBufferToDevice s;
          s \<leftarrow> CSI_TransferLoadBufferToDevice s;
          Some (kStatus_Success, CSI_Start (CSI_ReflashFifoDma s)) }
        else Some (kStatus_Success, s) })"

text \<open>The buffer, when there is one.\<close>

definition CSI_TransferGetFullBuffer :: "csi \<Rightarrow> (csi_status \<times> int \<times> csi) option" where
  "CSI_TransferGetFullBuffer s =
     (if queueUserReadIdx s = queueDrvWriteIdx s then Some (kStatus_CSI_NoFullBuffer, fullCameraBufferAddr s, s)
      else do {
        a \<leftarrow> c_get (frameBufferQueue s) (queueUserReadIdx s);
        Some (kStatus_Success, a, s\<lparr>queueUserReadIdx := CSI_TransferIncreaseQueueIdx (queueUserReadIdx s)\<rparr>) })"

section \<open>The wrappers and the callback\<close>

definition csi_add_empty_buffer :: "int \<Rightarrow> csi \<Rightarrow> csi option" where
  "csi_add_empty_buffer buff s = map_option snd (CSI_TransferSubmitEmptyBuffer buff s)"

definition csi_get_full_buffer :: "csi \<Rightarrow> (int \<times> csi) option" where
  "csi_get_full_buffer s = do {
     (st, a, s) \<leftarrow> CSI_TransferGetFullBuffer s;
     let s = s\<lparr>fullCameraBufferAddr := a\<rparr>;
     Some (if st = kStatus_Success then 1 else 0, s) }"

definition csi_start :: "csi \<Rightarrow> csi option" where
  "csi_start s = map_option snd (CSI_TransferStart s)"

definition csi_stop :: "csi \<Rightarrow> csi" where
  "csi_stop s = CSI_TransferStop s"

definition csi_isr :: "csi \<Rightarrow> csi option" where
  "csi_isr s = do {
     (full, s) \<leftarrow> csi_get_full_buffer s;
     if full \<noteq> 0 then do {
       s \<leftarrow> csi_add_empty_buffer (fullCameraBufferAddr s) s;
       let s = (if fullCameraBufferAddr s = csi1_image s then s\<lparr>mt9v03x_csi_image := csi1_image s\<rparr>
                else if fullCameraBufferAddr s = csi2_image s then s\<lparr>mt9v03x_csi_image := csi2_image s\<rparr> else s);
       Some (s\<lparr>csi_finish_flag := 1, csi_done := csi_done s + 1\<rparr>) }
     else Some s }"

section \<open>The interrupt\<close>

text \<open>Both buffers done: start again from the first one.\<close>

definition csi_restart :: "csi \<Rightarrow> csi option" where
  "csi_restart s = do {
     let s = CSI_Stop s;
     s \<leftarrow> (if 1 \<le> activeBufferNum s then do {
              a \<leftarrow> c_get (frameBufferQueue s) (queueDrvWriteIdx s);
              let s = s\<lparr>CSIDMASA_FB1 := a\<rparr>;
              if activeBufferNum s = 2 then do {
                b \<leftarrow> c_get (frameBufferQueue s) (CSI_TransferIncreaseQueueIdx (queueDrvWriteIdx s));
                Some (s\<lparr>CSIDMASA_FB2 := b, nextBufferIdx := 0\<rparr>) }
              else Some (s\<lparr>nextBufferIdx := 1\<rparr>) }
            else Some s);
     Some (CSI_Start (CSI_ReflashFifoDma s)) }"

definition CSI_TransferHandleIRQ :: "csi \<Rightarrow> csi option" where
  "CSI_TransferHandleIRQ s = (
     let f1 = FB1_done s; f2 = FB2_done s;
         s = s\<lparr>FB1_done := False, FB2_done := False\<rparr> in
     if f1 \<and> f2 then csi_restart s
     else if f1 \<or> f2 then do {
       let s = s\<lparr>queueDrvWriteIdx := CSI_TransferIncreaseQueueIdx (queueDrvWriteIdx s),
                 activeBufferNum := u8 (activeBufferNum s - 1)\<rparr>;
       s \<leftarrow> (if csi_callback s then csi_isr s else Some s);
       if activeBufferNum s = 0 then Some ((CSI_Stop s)\<lparr>transferOnGoing := False\<rparr>)
       else if CSI_TransferGetEmptyBufferCount s \<noteq> 0 then CSI_TransferLoadBufferToDevice s
       else Some s }
     else Some s)"

section \<open>Initialisation\<close>

text \<open>The two searches of \<open>csi_init\<close> for a width divisible by eight, upwards and downwards from \<open>tw\<close>;
  the counter has 16 bits.  Each gives the width and the height it leaves, the height 0 when
  nothing was found; a search that does not end has no value, nor has a division by 0.\<close>

definition fit :: "int \<Rightarrow> int \<Rightarrow> (int \<times> int) option" where
  "fit n w = (if w = 0 then None else Some (w, u16 (n div w)))"

partial_function (option) widen :: "int \<Rightarrow> int \<Rightarrow> int \<Rightarrow> (int \<times> int) option" where
  "widen n tw i =
     (if n > tw + i * 8 then
        if tw + i * 8 = 0 then None
        else if n mod (tw + i * 8) = 0 then fit n (u16 (tw + i * 8))
        else widen n tw (u16 (i + 1))
      else Some (tw, 0))"

partial_function (option) narrow :: "int \<Rightarrow> int \<Rightarrow> int \<Rightarrow> (int \<times> int) option" where
  "narrow n tw i =
     (if tw - i * 8 \<noteq> 0 then
        if n mod u32 (tw - i * 8) = 0 then fit n (u16 (tw - i * 8))
        else narrow n tw (u16 (i + 1))
      else Some (tw, 0))"

definition csi_geometry :: "int \<Rightarrow> int \<Rightarrow> (int \<times> int) option" where
  "csi_geometry width height = do {
     n \<leftarrow> (if width * height \<le> 2147483647 then Some (width * height) else None);
     if n mod 8 \<noteq> 0 then None
     else if width mod 8 \<noteq> 0 then do {
       (w, h) \<leftarrow> widen n (u16 (width - width mod 8)) 1;
       (w, h) \<leftarrow> (if h = 0 then narrow n w 1 else Some (w, h));
       Some (if h = 0 then (u16 n, 1) else (w, h)) }
     else Some (width, height) }"

definition csi_init :: "int \<Rightarrow> int \<Rightarrow> csi \<Rightarrow> csi option" where
  "csi_init width height s = do {
     (w, h) \<leftarrow> csi_geometry width height;
     Some (CSI_TransferCreateHandle (snd (CSI_Init w h s))) }"

text \<open>From \<open>csi_init\<close> on; the exchange with the sensor before it is not part of the picture's path.\<close>

definition mt9v03x_csi_init :: "csi \<Rightarrow> csi option" where
  "mt9v03x_csi_init s = do {
     s \<leftarrow> csi_init 160 120 s;
     s \<leftarrow> csi_add_empty_buffer (csi1_image s) s;
     s \<leftarrow> csi_add_empty_buffer (csi2_image s) s;
     s \<leftarrow> csi_start s;
     Some (s\<lparr>mt9v03x_csi_image := csi1_image s\<rparr>) }"

end
