(* ===== verification/CameraFacts.thy ===== *)
theory CameraFacts
  imports Camera
begin

text \<open>
  The camera's two buffers under every order of frames and interrupts, the termination of the search for
  a geometry, and the queue's behaviour when its indices have wrapped.
\<close>

section \<open>Runs of the camera\<close>

text \<open>Frames end at any time; the interrupt is taken some time after, perhaps after several frames.\<close>

inductive camera_step :: "csi \<Rightarrow> csi \<Rightarrow> bool" where
  Frame: "camera_step s (frame_end f s)"
| Interrupt: "csi_inten s \<Longrightarrow> CSI_TransferHandleIRQ s = Some t \<Longrightarrow> camera_step s t"

inductive camera_run :: "csi \<Rightarrow> csi \<Rightarrow> bool" where
  refl: "camera_run s s"
| step: "camera_run s t \<Longrightarrow> camera_step t u \<Longrightarrow> camera_run s u"

definition pending :: "csi \<Rightarrow> bool" where
  "pending s \<longleftrightarrow> FB1_done s \<or> FB2_done s"

text \<open>\<open>X\<close> is the buffer whose frame ends next, \<open>Y\<close> the other one.\<close>

definition queued :: "int \<Rightarrow> int \<Rightarrow> csi \<Rightarrow> bool" where
  "queued X Y s \<longleftrightarrow> length (frameBufferQueue s) = 3 \<and> queueDrvWriteIdx s \<in> {0, 1, 2}
     \<and> queueUserReadIdx s = queueDrvWriteIdx s \<and> queueUserWriteIdx s = (queueDrvWriteIdx s + 2) mod 3
     \<and> queueDrvReadIdx s = (queueDrvWriteIdx s + 2) mod 3
     \<and> frameBufferQueue s ! nat (queueDrvWriteIdx s) = X \<and> frameBufferQueue s ! nat ((queueDrvWriteIdx s + 1) mod 3) = Y"

definition loaded :: "int \<Rightarrow> int \<Rightarrow> csi \<Rightarrow> bool" where
  "loaded X Y s \<longleftrightarrow> nextBufferIdx s = 0 \<and> CSIDMASA_FB1 s = X \<and> CSIDMASA_FB2 s = Y
     \<or> nextBufferIdx s = 1 \<and> CSIDMASA_FB2 s = X \<and> CSIDMASA_FB1 s = Y"

definition flags_ok :: "csi \<Rightarrow> bool" where
  "flags_ok s \<longleftrightarrow> dma_buf s \<in> {0, 1} \<and> (\<not> pending s \<longrightarrow> dma_buf s = nextBufferIdx s)
     \<and> (FB1_done s \<and> \<not> FB2_done s \<longrightarrow> nextBufferIdx s = 0 \<and> dma_buf s = 1)
     \<and> (FB2_done s \<and> \<not> FB1_done s \<longrightarrow> nextBufferIdx s = 1 \<and> dma_buf s = 0)"

definition steady :: "int \<Rightarrow> int \<Rightarrow> csi \<Rightarrow> bool" where
  "steady X Y s \<longleftrightarrow> (X = csi1_image s \<and> Y = csi2_image s \<or> X = csi2_image s \<and> Y = csi1_image s) \<and> X \<noteq> Y
     \<and> queued X Y s \<and> loaded X Y s \<and> flags_ok s \<and> activeBufferNum s = 2 \<and> transferStarted s
     \<and> transferOnGoing s \<and> csi_callback s \<and> csi_enable s \<and> csi_inten s"

lemma overwrite_fields [simp]:
  "frameBufferQueue (overwrite s) = frameBufferQueue s"
  "queueUserReadIdx (overwrite s) = queueUserReadIdx s"
  "queueUserWriteIdx (overwrite s) = queueUserWriteIdx s"
  "queueDrvReadIdx (overwrite s) = queueDrvReadIdx s"
  "queueDrvWriteIdx (overwrite s) = queueDrvWriteIdx s"
  "activeBufferNum (overwrite s) = activeBufferNum s"
  "nextBufferIdx (overwrite s) = nextBufferIdx s"
  "transferStarted (overwrite s) = transferStarted s"
  "transferOnGoing (overwrite s) = transferOnGoing s"
  "csi_callback (overwrite s) = csi_callback s"
  "CSIDMASA_FB1 (overwrite s) = CSIDMASA_FB1 s"
  "CSIDMASA_FB2 (overwrite s) = CSIDMASA_FB2 s"
  "csi_inten (overwrite s) = csi_inten s"
  "FB1_done (overwrite s) = FB1_done s"
  "FB2_done (overwrite s) = FB2_done s"
  "dma_buf (overwrite s) = dma_buf s"
  "csi1_image (overwrite s) = csi1_image s"
  "csi2_image (overwrite s) = csi2_image s"
  "mt9v03x_csi_image (overwrite s) = mt9v03x_csi_image s"
  "csi_done (overwrite s) = csi_done s"
  "csi_enable (overwrite s) = csi_enable s"
  by (simp_all add: overwrite_def)

lemma CSI_Start_fields [simp]:
  "frameBufferQueue (CSI_Start s) = frameBufferQueue s"
  "queueUserReadIdx (CSI_Start s) = queueUserReadIdx s"
  "queueUserWriteIdx (CSI_Start s) = queueUserWriteIdx s"
  "queueDrvReadIdx (CSI_Start s) = queueDrvReadIdx s"
  "queueDrvWriteIdx (CSI_Start s) = queueDrvWriteIdx s"
  "activeBufferNum (CSI_Start s) = activeBufferNum s"
  "nextBufferIdx (CSI_Start s) = nextBufferIdx s"
  "transferStarted (CSI_Start s) = transferStarted s"
  "transferOnGoing (CSI_Start s) = transferOnGoing s"
  "csi_callback (CSI_Start s) = csi_callback s"
  "CSIDMASA_FB1 (CSI_Start s) = CSIDMASA_FB1 s"
  "CSIDMASA_FB2 (CSI_Start s) = CSIDMASA_FB2 s"
  "csi_inten (CSI_Start s) = csi_inten s"
  "FB1_done (CSI_Start s) = FB1_done s"
  "FB2_done (CSI_Start s) = FB2_done s"
  "dma_buf (CSI_Start s) = dma_buf s"
  "csi1_image (CSI_Start s) = csi1_image s"
  "csi2_image (CSI_Start s) = csi2_image s"
  "mt9v03x_csi_image (CSI_Start s) = mt9v03x_csi_image s"
  "csi_done (CSI_Start s) = csi_done s"
  "csi_enable (CSI_Start s)"
  by (simp_all add: CSI_Start_def)

lemma frame_end_steady: "steady X Y s \<Longrightarrow> steady X Y (frame_end f s)"
  by (auto simp: steady_def frame_end_def Let_def overwrite_def queued_def loaded_def flags_ok_def pending_def)

lemma xor_one: "(0::int) XOR 1 = 1" "(1::int) XOR 1 = 0"
  by simp_all

lemmas camera_defs = CSI_TransferHandleIRQ_def csi_isr_def csi_get_full_buffer_def CSI_TransferGetFullBuffer_def
  csi_add_empty_buffer_def CSI_TransferSubmitEmptyBuffer_def CSI_TransferIncreaseQueueIdx_def CSI_TransferGetQueueDelta_def
  CSI_TransferGetEmptyBufferCount_def CSI_TransferLoadBufferToDevice_def CSI_SetRxBufferAddr_def Let_def

text \<open>The interrupt after one frame hands its buffer over and queues it again.\<close>

lemma irq_one:
  assumes "steady X Y s" "FB1_done s \<noteq> FB2_done s"
  shows "runs (CSI_TransferHandleIRQ s) (\<lambda>t. steady Y X t \<and> \<not> pending t \<and> mt9v03x_csi_image t = X
    \<and> store t = store s \<and> csi_done t = csi_done s + 1 \<and> dma_target t = dma_target s
    \<and> queueDrvWriteIdx t = (queueDrvWriteIdx s + 1) mod 3)"
proof -
  obtain a b d where q: "frameBufferQueue s = [a, b, d]" using assms(1)
    by (auto simp: steady_def queued_def numeral_3_eq_3 length_Suc_conv)
  have k: "queueDrvWriteIdx s = 0 \<or> queueDrvWriteIdx s = 1 \<or> queueDrvWriteIdx s = 2"
    and n: "nextBufferIdx s = 0 \<and> CSIDMASA_FB1 s = X \<and> CSIDMASA_FB2 s = Y \<and> FB1_done s \<and> \<not> FB2_done s \<and> dma_buf s = 1
      \<or> nextBufferIdx s = 1 \<and> CSIDMASA_FB2 s = X \<and> CSIDMASA_FB1 s = Y \<and> FB2_done s \<and> \<not> FB1_done s \<and> dma_buf s = 0"
    using assms by (auto simp: steady_def queued_def loaded_def flags_ok_def)
  from assms(1) have r: "X = csi1_image s \<and> Y = csi2_image s \<or> X = csi2_image s \<and> Y = csi1_image s" "X \<noteq> Y"
    "activeBufferNum s = 2" "transferStarted s" "transferOnGoing s" "csi_callback s" "csi_enable s" "csi_inten s"
    "queueUserReadIdx s = queueDrvWriteIdx s" "queueUserWriteIdx s = (queueDrvWriteIdx s + 2) mod 3"
    "queueDrvReadIdx s = (queueDrvWriteIdx s + 2) mod 3" "frameBufferQueue s ! nat (queueDrvWriteIdx s) = X"
    "frameBufferQueue s ! nat ((queueDrvWriteIdx s + 1) mod 3) = Y"
    by (simp_all add: steady_def queued_def)
  show ?thesis
    using k n r q
    by (elim disjE conjE) (simp_all add: camera_defs steady_def queued_def loaded_def flags_ok_def pending_def dma_target_def)
qed

text \<open>After two frames or more the interface starts again, and the buffer on show stays.\<close>

lemma restart_steady:
  assumes "steady X Y s" "FB1_done s" "FB2_done s"
  shows "CSI_TransferHandleIRQ s = Some (CSI_Start (s\<lparr>FB1_done := False, FB2_done := False, csi_enable := False,
    CSIDMASA_FB1 := X, CSIDMASA_FB2 := Y, nextBufferIdx := 0, dma_buf := 0\<rparr>))"
proof -
  have k: "queueDrvWriteIdx s = 0 \<or> queueDrvWriteIdx s = 1 \<or> queueDrvWriteIdx s = 2"
    using assms by (auto simp: steady_def queued_def)
  from assms(1) have r: "activeBufferNum s = 2" "length (frameBufferQueue s) = 3" "frameBufferQueue s ! nat (queueDrvWriteIdx s) = X"
    "frameBufferQueue s ! nat ((queueDrvWriteIdx s + 1) mod 3) = Y"
    by (simp_all add: steady_def queued_def)
  have "c_get (frameBufferQueue s) (queueDrvWriteIdx s) = Some X" using k r by auto
  moreover have "c_get (frameBufferQueue s) (CSI_TransferIncreaseQueueIdx (queueDrvWriteIdx s)) = Some Y"
    using k r by (auto simp: CSI_TransferIncreaseQueueIdx_def)
  ultimately show ?thesis
    using r(1) assms(2,3) by (simp add: CSI_TransferHandleIRQ_def csi_restart_def CSI_Stop_def CSI_ReflashFifoDma_def Let_def)
qed

lemma irq_both:
  assumes "steady X Y s" "FB1_done s" "FB2_done s"
  shows "runs (CSI_TransferHandleIRQ s) (\<lambda>t. steady X Y t \<and> \<not> pending t)"
  using assms(1) unfolding restart_steady [OF assms]
  by (simp add: steady_def queued_def loaded_def flags_ok_def pending_def)

lemma irq_none: "\<not> pending s \<Longrightarrow> CSI_TransferHandleIRQ s = Some s"
  by (simp add: CSI_TransferHandleIRQ_def pending_def)

lemma irq_steady:
  assumes "steady X Y s"
  shows "runs (CSI_TransferHandleIRQ s) (\<lambda>t. \<exists>X Y. steady X Y t)"
proof (cases "pending s")
  case False
  then show ?thesis using assms irq_none [OF False] by auto
next
  case True
  show ?thesis
  proof (cases "FB1_done s = FB2_done s")
    case True
    with \<open>pending s\<close> have "FB1_done s" "FB2_done s" by (simp_all add: pending_def)
    from irq_both [OF assms this] show ?thesis by (rule runs_mono) blast
  next
    case False
    from irq_one [OF assms this] show ?thesis by (rule runs_mono) blast
  qed
qed

lemma camera_run_steady: "camera_run s t \<Longrightarrow> steady X Y s \<Longrightarrow> \<exists>X Y. steady X Y t"
proof (induction rule: camera_run.induct)
  case (step s t u)
  then obtain X Y where t: "steady X Y t" by blast
  from step.hyps(2) show ?case
  proof cases
    case (Frame f)
    then show ?thesis using frame_end_steady [OF t] by blast
  next
    case Interrupt
    then show ?thesis using irq_steady [OF t] by auto
  qed
qed blast

section \<open>The start\<close>

lemma add_first:
  assumes "frameBufferQueue s = [0, 0, 0]" "queueUserReadIdx s = 0" "queueUserWriteIdx s = 0" "\<not> transferStarted s"
  shows "csi_add_empty_buffer a s = Some (s\<lparr>frameBufferQueue := [a, 0, 0], queueUserWriteIdx := 1\<rparr>)"
  using assms by (simp add: csi_add_empty_buffer_def CSI_TransferSubmitEmptyBuffer_def CSI_TransferGetQueueDelta_def
    CSI_TransferIncreaseQueueIdx_def)

lemma add_second:
  assumes "frameBufferQueue s = [a, 0, 0]" "queueUserReadIdx s = 0" "queueUserWriteIdx s = 1" "\<not> transferStarted s"
  shows "csi_add_empty_buffer b s = Some (s\<lparr>frameBufferQueue := [a, b, 0], queueUserWriteIdx := 2\<rparr>)"
  using assms by (simp add: csi_add_empty_buffer_def CSI_TransferSubmitEmptyBuffer_def CSI_TransferGetQueueDelta_def
    CSI_TransferIncreaseQueueIdx_def)

lemma start_two:
  assumes "frameBufferQueue s = [a, b, c]" "queueDrvReadIdx s = 0" "queueUserWriteIdx s = 2"
  shows "csi_start s = Some (CSI_Start (s\<lparr>CSIDMASA_FB1 := a, CSIDMASA_FB2 := b, queueDrvReadIdx := 2,
    activeBufferNum := 2, nextBufferIdx := 0, dma_buf := 0, transferStarted := True, transferOnGoing := True, csi_inten := True\<rparr>))"
  using assms by (simp add: csi_start_def CSI_TransferStart_def CSI_TransferGetEmptyBufferCount_def CSI_TransferGetQueueDelta_def
    CSI_TransferLoadBufferToDevice_def CSI_TransferIncreaseQueueIdx_def CSI_SetRxBufferAddr_def CSI_ReflashFifoDma_def)

lemma camera_init_steady:
  assumes "csi1_image s \<noteq> csi2_image s"
  shows "runs (mt9v03x_csi_init s) (\<lambda>c. steady (csi1_image s) (csi2_image s) c \<and> \<not> pending c)"
proof -
  obtain c where c: "csi_init 160 120 s = Some c" by (simp add: csi_init_def csi_geometry_def)
  then have f: "frameBufferQueue c = [0, 0, 0]" "queueUserReadIdx c = 0" "queueUserWriteIdx c = 0" "queueDrvReadIdx c = 0"
    "queueDrvWriteIdx c = 0" "\<not> transferStarted c" "csi_callback c" "\<not> pending c" "csi1_image c = csi1_image s" "csi2_image c = csi2_image s"
    by (auto simp: csi_init_def csi_geometry_def CSI_TransferCreateHandle_def CSI_Init_def CSI_Reset_def CSI_Stop_def
      CSI_ReflashFifoDma_def pending_def)
  let ?a = "csi1_image s" and ?b = "csi2_image s"
  define c1 where "c1 = c\<lparr>frameBufferQueue := [?a, 0, 0], queueUserWriteIdx := 1\<rparr>"
  define c2 where "c2 = c1\<lparr>frameBufferQueue := [?a, ?b, 0], queueUserWriteIdx := 2\<rparr>"
  define c3 where "c3 = CSI_Start (c2\<lparr>CSIDMASA_FB1 := ?a, CSIDMASA_FB2 := ?b, queueDrvReadIdx := 2,
    activeBufferNum := 2, nextBufferIdx := 0, dma_buf := 0, transferStarted := True, transferOnGoing := True, csi_inten := True\<rparr>)"
  have 1: "csi_add_empty_buffer ?a c = Some c1" using f by (simp add: add_first c1_def)
  have f1: "frameBufferQueue c1 = [?a, 0, 0]" "queueUserReadIdx c1 = 0" "queueUserWriteIdx c1 = 1" "queueDrvReadIdx c1 = 0"
    "queueDrvWriteIdx c1 = 0" "\<not> transferStarted c1" "csi_callback c1" "\<not> pending c1" "csi1_image c1 = ?a" "csi2_image c1 = ?b"
    using f by (simp_all add: c1_def pending_def)
  have 2: "csi_add_empty_buffer ?b c1 = Some c2" using f1 by (simp add: add_second c2_def)
  have f2: "frameBufferQueue c2 = [?a, ?b, 0]" "queueUserReadIdx c2 = 0" "queueUserWriteIdx c2 = 2" "queueDrvReadIdx c2 = 0"
    "queueDrvWriteIdx c2 = 0" "csi_callback c2" "\<not> pending c2" "csi1_image c2 = ?a" "csi2_image c2 = ?b"
    using f1 by (simp_all add: c2_def pending_def)
  have 3: "csi_start c2 = Some c3" using start_two [OF f2(1,4,3)] by (simp add: c3_def)
  have "steady ?a ?b (c3\<lparr>mt9v03x_csi_image := x\<rparr>) \<and> \<not> pending (c3\<lparr>mt9v03x_csi_image := x\<rparr>)" for x
    using f2 assms by (simp add: c3_def steady_def queued_def loaded_def flags_ok_def pending_def)
  then show ?thesis using f(9) f1(10) by (simp add: mt9v03x_csi_init_def c 1 2 3)
qed

section \<open>The geometry\<close>

lemma fit_ok: "0 < w \<Longrightarrow> w \<le> 65535 \<Longrightarrow> 0 < n \<Longrightarrow> n \<le> 65535 \<Longrightarrow> n mod w = 0 \<Longrightarrow>
    \<exists>h. fit n w = Some (w, h) \<and> w * h = n \<and> 0 < h"
proof -
  assume a: "0 < w" "w \<le> 65535" "0 < n" "n \<le> 65535" "n mod w = 0"
  then obtain q where n: "n = w * q" by (metis mod_0_imp_dvd dvdE)
  have q: "0 < q" using a(1,3) by (simp add: n zero_less_mult_iff)
  have "1 * q \<le> w * q" using a(1) q by (intro mult_right_mono) simp_all
  with a(4) have "q \<le> 65535" unfolding n by linarith
  then have "u16 q = q" using q by simp
  then show ?thesis using a(1) q by (simp add: fit_def n)
qed

text \<open>Upwards every step stays below the number of pixels; downwards the width 8 always fits.\<close>

lemma widen_ends:
  assumes "8 dvd tw" "0 < tw" "0 < n" "n \<le> 65535" "0 \<le> i" "i \<le> 8192"
  shows "\<exists>w h. widen n tw i = Some (w, h) \<and> (h = 0 \<and> w = tw \<or> 0 < h \<and> w * h = n \<and> 8 dvd w)"
  using assms(5,6)
proof (induction "nat (n - (tw + i * 8))" arbitrary: i rule: less_induct)
  case less
  show ?case
  proof (cases "tw + i * 8 < n")
    case False
    then show ?thesis by (subst widen.simps) simp
  next
    case True
    show ?thesis
    proof (cases "n mod (tw + i * 8) = 0")
      case found: True
      have b: "0 < tw + i * 8" "tw + i * 8 \<le> 65535" using True less.prems assms by linarith+
      obtain h where "fit n (tw + i * 8) = Some (tw + i * 8, h)" "(tw + i * 8) * h = n" "0 < h"
        using fit_ok [OF b assms(3,4) found] by blast
      moreover have "8 dvd tw + i * 8" using assms(1) by simp
      ultimately show ?thesis using True found b by (subst widen.simps) auto
    next
      case no: False
      have i: "i + 1 \<le> 8192" using True less.prems assms by linarith
      then have "u16 (i + 1) = i + 1" using less.prems by simp
      moreover have "\<exists>w h. widen n tw (i + 1) = Some (w, h) \<and> (h = 0 \<and> w = tw \<or> 0 < h \<and> w * h = n \<and> 8 dvd w)"
        by (rule less.hyps) (use True less.prems i in auto)
      ultimately show ?thesis using True no less.prems assms(2) by (subst widen.simps) auto
    qed
  qed
qed

lemma narrow_ends:
  assumes "8 dvd tw" "tw \<le> 65535" "0 < n" "n \<le> 65535" "0 \<le> i" "i * 8 \<le> tw"
  shows "\<exists>w h. narrow n tw i = Some (w, h) \<and> (h = 0 \<or> 0 < h \<and> w * h = n \<and> 8 dvd w)"
  using assms(5,6)
proof (induction "nat (tw - i * 8)" arbitrary: i rule: less_induct)
  case less
  show ?case
  proof (cases "tw - i * 8 = 0")
    case True
    then show ?thesis by (subst narrow.simps) simp
  next
    case False
    have w8: "8 dvd tw - i * 8" using assms(1) by simp
    then have w: "8 \<le> tw - i * 8" using False less.prems by (intro zdvd_imp_le) simp_all
    have u: "u32 (tw - i * 8) = tw - i * 8" using less.prems assms(2) by simp
    show ?thesis
    proof (cases "n mod (tw - i * 8) = 0")
      case found: True
      have b: "0 < tw - i * 8" "tw - i * 8 \<le> 65535" using w less.prems assms(2) by linarith+
      obtain h where "fit n (tw - i * 8) = Some (tw - i * 8, h)" "(tw - i * 8) * h = n" "0 < h"
        using fit_ok [OF b assms(3,4) found] by blast
      then show ?thesis using False found b w8 u by (subst narrow.simps) auto
    next
      case no: False
      have "u16 (i + 1) = i + 1" using less.prems assms(2) w by simp
      moreover have "\<exists>w h. narrow n tw (i + 1) = Some (w, h) \<and> (h = 0 \<or> 0 < h \<and> w * h = n \<and> 8 dvd w)"
        by (rule less.hyps) (use less.prems w in auto)
      ultimately show ?thesis using False no u by (subst narrow.simps) auto
    qed
  qed
qed

lemma geometry_found:
  assumes "8 \<le> width" "width \<le> 65535" "0 < height" "width * height \<le> 65535" "8 dvd width * height"
  shows "\<exists>w h. csi_geometry width height = Some (w, h) \<and> w * h = width * height \<and> 8 dvd w \<and> 0 < w \<and> w \<le> 65535"
proof -
  let ?n = "width * height"
  define tw where "tw = width - width mod 8"
  have n: "0 < ?n" "?n mod 8 = 0" using assms by simp_all
  have pos: "0 < w \<and> w \<le> 65535" if "w * h = ?n" "0 < h" for w h
  proof -
    have "0 < w" using that n(1) by (simp add: zero_less_mult_iff flip: that(1))
    moreover have "w * 1 \<le> w * h" using that(2) calculation by (intro mult_left_mono) simp_all
    ultimately show ?thesis using that(1) assms(4) by linarith
  qed
  have tw: "8 dvd tw" "0 < tw" "tw \<le> 65535" "u16 tw = tw"
    using assms(1,2) by (simp_all add: tw_def minus_mod_eq_mult_div)
  show ?thesis
  proof (cases "width mod 8 = 0")
    case True
    then show ?thesis using n assms by (simp add: csi_geometry_def mod_0_imp_dvd)
  next
    case False
    obtain w h where wh: "widen ?n tw 1 = Some (w, h)" "h = 0 \<and> w = tw \<or> 0 < h \<and> w * h = ?n \<and> 8 dvd w"
      using widen_ends [OF tw(1,2) n(1) assms(4), of 1] by auto
    show ?thesis
    proof (cases "h = 0")
      case found: False
      then show ?thesis using wh pos [of w h] n assms(4) False tw(4) by (simp add: csi_geometry_def tw_def)
    next
      case none: True
      have "1 * 8 \<le> tw" using tw(1,2) by (simp add: zdvd_imp_le)
      then obtain v k where vk: "narrow ?n tw 1 = Some (v, k)" "k = 0 \<or> 0 < k \<and> v * k = ?n \<and> 8 dvd v"
        using narrow_ends [OF tw(1,3) n(1) assms(4), of 1] by auto
      show ?thesis
      proof (cases "k = 0")
        case True
        then show ?thesis using wh vk none n assms(4,5) False tw(4) by (simp add: csi_geometry_def tw_def)
      next
        case found: False
        then show ?thesis using wh vk pos [of v k] none n assms(4) False tw(4) by (simp add: csi_geometry_def tw_def)
      qed
    qed
  qed
qed

section \<open>Properties\<close>

lemma camera_state:
  assumes "csi1_image s0 \<noteq> csi2_image s0" "mt9v03x_csi_init s0 = Some c" "camera_run c s"
  obtains X Y where "steady X Y s"
proof -
  have "steady (csi1_image s0) (csi2_image s0) c" using camera_init_steady [OF assms(1)] assms(2) by simp
  with assms(3) that show thesis using camera_run_steady by blast
qed

lemma overwrite_store: "store (overwrite s) = (store s)(dma_target s := None)" "dma_target (overwrite s) = dma_target s"
  by (simp_all add: overwrite_def dma_target_def)

lemma frame_end_one:
  assumes "steady X Y s" "\<not> pending s"
  shows "FB1_done (frame_end f s) \<noteq> FB2_done (frame_end f s) \<and> store (frame_end f s) X = Some f
    \<and> dma_target (frame_end f s) = Y \<and> csi_done (frame_end f s) = csi_done s
    \<and> queueDrvWriteIdx (frame_end f s) = queueDrvWriteIdx s \<and> csi_inten (frame_end f s)"
proof -
  have n: "nextBufferIdx s = 0 \<and> CSIDMASA_FB1 s = X \<and> CSIDMASA_FB2 s = Y \<and> dma_buf s = 0
      \<or> nextBufferIdx s = 1 \<and> CSIDMASA_FB2 s = X \<and> CSIDMASA_FB1 s = Y \<and> dma_buf s = 1"
    and r: "csi_enable s" "csi_inten s" "X \<noteq> Y" "\<not> FB1_done s" "\<not> FB2_done s"
    using assms by (auto simp: steady_def loaded_def flags_ok_def pending_def)
  from n show ?thesis
    by (elim disjE conjE) (simp_all add: r r(3) [symmetric] frame_end_def overwrite_store dma_target_def Let_def)
qed

text \<open>
  C33: the camera never stalls and never shows a torn picture: from its start, after any order of
  frames and interrupts, however late the interrupts come, the handler goes through and leaves the
  interface running with both its buffers; and when no interrupt is waiting, the next frame
  and its interrupt leave \<open>mt9v03x_csi_image\<close> at a buffer that holds exactly this frame and that the
  interface does not write, with one more release of \<open>csi_done_sem\<close>.
\<close>

theorem camera_delivers:
  assumes "csi1_image s0 \<noteq> csi2_image s0" "mt9v03x_csi_init s0 = Some c" "camera_run c s"
  shows "runs (CSI_TransferHandleIRQ s) (\<lambda>t. csi_enable t \<and> transferOnGoing t \<and> activeBufferNum t = 2)
     \<and> (\<not> pending s \<longrightarrow> runs (CSI_TransferHandleIRQ (frame_end f s)) (\<lambda>t.
          store t (mt9v03x_csi_image t) = Some f \<and> dma_target t \<noteq> mt9v03x_csi_image t \<and> csi_done t = csi_done s + 1))"
proof (intro conjI impI)
  obtain X Y where s: "steady X Y s" by (rule camera_state [OF assms])
  show "runs (CSI_TransferHandleIRQ s) (\<lambda>t. csi_enable t \<and> transferOnGoing t \<and> activeBufferNum t = 2)"
    by (rule runs_mono [OF irq_steady [OF s]]) (auto simp: steady_def)
  assume "\<not> pending s"
  from frame_end_one [OF s this, of f] have f: "FB1_done (frame_end f s) \<noteq> FB2_done (frame_end f s)"
    "store (frame_end f s) X = Some f" "dma_target (frame_end f s) = Y" "csi_done (frame_end f s) = csi_done s" by blast+
  have "X \<noteq> Y" using s by (simp add: steady_def)
  with f(2-4) show "runs (CSI_TransferHandleIRQ (frame_end f s)) (\<lambda>t.
      store t (mt9v03x_csi_image t) = Some f \<and> dma_target t \<noteq> mt9v03x_csi_image t \<and> csi_done t = csi_done s + 1)"
    by (intro runs_mono [OF irq_one [OF frame_end_steady [OF s] f(1)]]) simp
qed

text \<open>
  C34: the search of \<open>csi_init\<close> for a geometry the sensor interface accepts always ends: for every image at
  least 8 pixels wide whose number of pixels is divisible by 8 and fits 16 bits it gives a width divisible by 8
  and a height with the same number of pixels, although the counters have 16 bits and the
  downward search has no lower bound of its own.
\<close>

theorem csi_geometry_found:
  assumes "8 \<le> width" "width \<le> 65535" "0 < height" "width * height \<le> 65535" "8 dvd width * height"
  shows "\<exists>w h. csi_geometry width height = Some (w, h) \<and> w * h = width * height \<and> 8 dvd w \<and> 0 < w"
  using geometry_found [OF assms] by blast

lemma csi_geometry_found_witness:
  "\<exists>w h. csi_geometry 188 120 = Some (w, h) \<and> w * h = 22560 \<and> 8 dvd w \<and> 0 < w"
  using csi_geometry_found [of 188 120] by simp

text \<open>
  C35: the driver's queue forgets that it is full: \<open>CSI_TransferGetQueueDelta\<close> subtracts the wrong way round
  once the write index has wrapped, so in every state of the running camera in which the driver's index is not 0
  a third buffer is accepted as a success and makes the two queued ones vanish (the indices meet); only at
  index 0 is it refused.
\<close>

theorem third_buffer_accepted:
  assumes "csi1_image s0 \<noteq> csi2_image s0" "mt9v03x_csi_init s0 = Some c" "camera_run c s"
  shows "runs (CSI_TransferSubmitEmptyBuffer b s) (\<lambda>(st, t).
     if queueDrvWriteIdx s = 0 then st = kStatus_CSI_QueueFull \<and> t = s
     else st = kStatus_Success \<and> queueUserWriteIdx t = queueUserReadIdx t)"
proof -
  obtain X Y where "steady X Y s" by (rule camera_state [OF assms])
  then have "queueDrvWriteIdx s = 0 \<or> queueDrvWriteIdx s = 1 \<or> queueDrvWriteIdx s = 2" "length (frameBufferQueue s) = 3"
    "queueUserReadIdx s = queueDrvWriteIdx s" "queueUserWriteIdx s = (queueDrvWriteIdx s + 2) mod 3" "transferOnGoing s"
    by (auto simp: steady_def queued_def)
  then show ?thesis
    by (elim disjE) (simp_all add: CSI_TransferSubmitEmptyBuffer_def CSI_TransferGetQueueDelta_def CSI_TransferIncreaseQueueIdx_def)
qed

definition csi_off :: csi where
  "csi_off = \<lparr>frameBufferQueue = [9, 9, 9], queueUserReadIdx = 9, queueUserWriteIdx = 9, queueDrvReadIdx = 9,
     queueDrvWriteIdx = 9, activeBufferNum = 9, nextBufferIdx = 9, transferStarted = True, transferOnGoing = True,
     csi_callback = False, CSIDMASA_FB1 = 9, CSIDMASA_FB2 = 9, csi_enable = False, csi_inten = False, FB1_done = True,
     FB2_done = False, image_para = (0, 0), dma_buf = 0, store = (\<lambda>_. None), csi1_image = 1000, csi2_image = 2000,
     mt9v03x_csi_image = 0, fullCameraBufferAddr = 0, csi_finish_flag = 0, csi_done = 0\<rparr>"

lemma camera_on: obtains c where "mt9v03x_csi_init csi_off = Some c" "\<not> pending c"
  using camera_init_steady [of csi_off] by (auto simp: csi_off_def elim!: runsE)

lemma camera_delivers_witness:
  "\<exists>c. mt9v03x_csi_init csi_off = Some c
     \<and> runs (CSI_TransferHandleIRQ (frame_end (\<lambda>_. 7) c)) (\<lambda>t. store t (mt9v03x_csi_image t) = Some (\<lambda>_. 7))"
proof -
  obtain c where c: "mt9v03x_csi_init csi_off = Some c" "\<not> pending c" by (rule camera_on)
  have "csi1_image csi_off \<noteq> csi2_image csi_off" by (simp add: csi_off_def)
  from camera_delivers [OF this c(1) camera_run.refl, of "\<lambda>_. 7"] c show ?thesis by (auto elim!: runs_mono)
qed

lemma third_buffer_accepted_witness:
  "\<exists>c t. mt9v03x_csi_init csi_off = Some c \<and> camera_run c t
     \<and> runs (CSI_TransferSubmitEmptyBuffer 3000 t) (\<lambda>(st, u). st = kStatus_Success \<and> queueUserWriteIdx u = queueUserReadIdx u)"
proof -
  have d: "csi1_image csi_off \<noteq> csi2_image csi_off" by (simp add: csi_off_def)
  obtain c where c: "mt9v03x_csi_init csi_off = Some c" "\<not> pending c" by (rule camera_on)
  have s: "steady (csi1_image csi_off) (csi2_image csi_off) c" using camera_init_steady [OF d] c(1) by simp
  show ?thesis
  proof (cases "queueDrvWriteIdx c = 0")
    case False
    with third_buffer_accepted [OF d c(1) camera_run.refl, of 3000] c(1) camera_run.refl show ?thesis by auto
  next
    case True
    from frame_end_one [OF s c(2), of "\<lambda>_. 7"] have f: "FB1_done (frame_end (\<lambda>_. 7) c) \<noteq> FB2_done (frame_end (\<lambda>_. 7) c)"
      "queueDrvWriteIdx (frame_end (\<lambda>_. 7) c) = queueDrvWriteIdx c" "csi_inten (frame_end (\<lambda>_. 7) c)" by blast+
    obtain t where t: "CSI_TransferHandleIRQ (frame_end (\<lambda>_. 7) c) = Some t" "queueDrvWriteIdx t = 1"
      using irq_one [OF frame_end_steady [OF s] f(1)] True f(2) by (auto elim!: runsE)
    have r: "camera_run c t"
      by (rule camera_run.step [OF camera_run.step [OF camera_run.refl camera_step.Frame] camera_step.Interrupt [OF f(3) t(1)]])
    from third_buffer_accepted [OF d c(1) r, of 3000] t(2) c(1) r show ?thesis by auto
  qed
qed

end
