(* ===== verification/Interrupts.thy ===== *)
theory Interrupts
  imports CameraFacts
begin

text \<open>
  The interrupt handlers of \<open>interrupt.c\<close> and the tick's handler of \<open>board.c\<close>, with the nesting counter of
  RT-Thread (\<open>irq.c\<close>) they move.  Of the tick's work only the tick count is here; time slices and timers are the kernel's.  A handler has a first call on the counter, a body and a last call; another
  handler may come in before and after the body.
\<close>

section \<open>State\<close>

datatype isr =
    SysTick_Handler
  | CSI_IRQHandler
  | PIT_IRQHandler
  | GPIO2_Combined_16_31_IRQHandler
  | GPIO2_Combined_0_15_IRQHandler

text \<open>The counter, what the bodies work on, and the handlers that have begun, the running one first, each with
  whether its body is done.\<close>

record cpu =
  rt_interrupt_nest :: int
  rt_tick :: int
  camera :: csi
  pit_flags :: "int \<Rightarrow> bool"
  gpio_flags :: "int \<Rightarrow> bool"
  flexio_grayscale :: bool
  dma_restarts :: int
  handlers :: "(isr \<times> bool) list"

section \<open>The nesting counter\<close>

definition rt_interrupt_enter :: "cpu \<Rightarrow> cpu" where
  "rt_interrupt_enter s = s\<lparr>rt_interrupt_nest := u8 (rt_interrupt_nest s + 1)\<rparr>"

definition rt_interrupt_leave :: "cpu \<Rightarrow> cpu" where
  "rt_interrupt_leave s = s\<lparr>rt_interrupt_nest := u8 (rt_interrupt_nest s - 1)\<rparr>"

definition rt_interrupt_get_nest :: "cpu \<Rightarrow> int" where
  "rt_interrupt_get_nest s = rt_interrupt_nest s"

text \<open>How \<open>rt_schedule\<close> switches to another thread.\<close>

datatype switching = rt_hw_context_switch | rt_hw_context_switch_interrupt

definition schedule_switch :: "cpu \<Rightarrow> switching" where
  "schedule_switch s = (if rt_interrupt_nest s = 0 then rt_hw_context_switch else rt_hw_context_switch_interrupt)"

section \<open>The handlers\<close>

definition MT9V03X_VSYNC_PIN :: int where "MT9V03X_VSYNC_PIN = 71"
definition C16 :: int where "C16 = 80"

definition clear_pit :: "int \<Rightarrow> cpu \<Rightarrow> cpu" where
  "clear_pit ch s = (if pit_flags s ch then s\<lparr>pit_flags := (pit_flags s)(ch := False)\<rparr> else s)"

definition clear_gpio :: "int \<Rightarrow> cpu \<Rightarrow> cpu" where
  "clear_gpio pin s = s\<lparr>gpio_flags := (gpio_flags s)(pin := False)\<rparr>"

definition mt9v03x_vsync :: "cpu \<Rightarrow> cpu" where
  "mt9v03x_vsync s = (clear_gpio MT9V03X_VSYNC_PIN s)\<lparr>dma_restarts := dma_restarts s + 1\<rparr>"

fun isr_begin :: "isr \<Rightarrow> cpu \<Rightarrow> cpu" where
  "isr_begin SysTick_Handler s = rt_interrupt_enter s"
| "isr_begin CSI_IRQHandler s = rt_interrupt_leave s"
| "isr_begin PIT_IRQHandler s = rt_interrupt_leave s"
| "isr_begin GPIO2_Combined_16_31_IRQHandler s = rt_interrupt_leave s"
| "isr_begin GPIO2_Combined_0_15_IRQHandler s = rt_interrupt_leave s"

fun isr_body :: "isr \<Rightarrow> cpu \<Rightarrow> cpu option" where
  "isr_body SysTick_Handler s = Some (s\<lparr>rt_tick := u32 (rt_tick s + 1)\<rparr>)"
| "isr_body CSI_IRQHandler s = do {
     c \<leftarrow> CSI_TransferHandleIRQ (camera s);
     Some (s\<lparr>camera := c\<rparr>) }"
| "isr_body PIT_IRQHandler s = Some (clear_pit 3 (clear_pit 2 (clear_pit 1 (clear_pit 0 s))))"
| "isr_body GPIO2_Combined_16_31_IRQHandler s = Some (if gpio_flags s C16 then clear_gpio C16 s else s)"
| "isr_body GPIO2_Combined_0_15_IRQHandler s =
     Some (if gpio_flags s MT9V03X_VSYNC_PIN then if flexio_grayscale s then mt9v03x_vsync s else s else s)"

fun isr_end :: "isr \<Rightarrow> cpu \<Rightarrow> cpu" where
  "isr_end SysTick_Handler s = rt_interrupt_leave s"
| "isr_end CSI_IRQHandler s = rt_interrupt_enter s"
| "isr_end PIT_IRQHandler s = rt_interrupt_enter s"
| "isr_end GPIO2_Combined_16_31_IRQHandler s = rt_interrupt_enter s"
| "isr_end GPIO2_Combined_0_15_IRQHandler s = rt_interrupt_enter s"

section \<open>Runs\<close>

text \<open>A handler comes in when it is not active already; the one on top runs its body and returns; frames end and
  flags come up at any time.\<close>

inductive irq_step :: "cpu \<Rightarrow> cpu \<Rightarrow> bool" where
  Take: "h \<notin> fst ` set (handlers s) \<Longrightarrow> irq_step s ((isr_begin h s)\<lparr>handlers := (h, False) # handlers s\<rparr>)"
| Body: "handlers s = (h, False) # hs \<Longrightarrow> isr_body h s = Some t \<Longrightarrow> irq_step s (t\<lparr>handlers := (h, True) # hs\<rparr>)"
| Return: "handlers s = (h, True) # hs \<Longrightarrow> irq_step s ((isr_end h s)\<lparr>handlers := hs\<rparr>)"
| Frame: "irq_step s (s\<lparr>camera := frame_end f (camera s)\<rparr>)"
| Flags: "irq_step s (s\<lparr>pit_flags := p, gpio_flags := g\<rparr>)"

inductive irq_run :: "cpu \<Rightarrow> cpu \<Rightarrow> bool" where
  refl: "irq_run s s"
| step: "irq_run s t \<Longrightarrow> irq_step t u \<Longrightarrow> irq_run s u"

inductive_cases irq_stepE: "irq_step s t"

definition cpu_start :: "csi \<Rightarrow> int \<Rightarrow> bool \<Rightarrow> cpu" where
  "cpu_start c t g = \<lparr>rt_interrupt_nest = 0, rt_tick = t, camera = c, pit_flags = (\<lambda>_. False), gpio_flags = (\<lambda>_. False),
     flexio_grayscale = g, dma_restarts = 0, handlers = []\<rparr>"

section \<open>The counter's value\<close>

text \<open>Handlers that count upwards while they run, and those that count downwards.\<close>

definition ticks_in :: "cpu \<Rightarrow> int" where
  "ticks_in s = int (length (filter (\<lambda>x. fst x = SysTick_Handler) (handlers s)))"

definition others_in :: "cpu \<Rightarrow> int" where
  "others_in s = int (length (filter (\<lambda>x. fst x \<noteq> SysTick_Handler) (handlers s)))"

definition irq_inv :: "cpu \<Rightarrow> bool" where
  "irq_inv s \<longleftrightarrow> rt_interrupt_nest s = u8 (ticks_in s - others_in s) \<and> distinct (map fst (handlers s))
     \<and> (\<exists>X Y. steady X Y (camera s))"

lemma u8_shift: "u8 (u8 a + b) = u8 (a + b)" "u8 (b + u8 a) = u8 (b + a)" "u8 (u8 a - b) = u8 (a - b)"
  by (simp_all add: u8_def mod_simps)

lemma isr_begin_fields:
  "rt_interrupt_nest (isr_begin h s) = u8 (rt_interrupt_nest s + (if h = SysTick_Handler then 1 else - 1))"
  "handlers (isr_begin h s) = handlers s" "camera (isr_begin h s) = camera s"
  by (cases h; simp add: rt_interrupt_enter_def rt_interrupt_leave_def)+

lemma isr_end_fields:
  "rt_interrupt_nest (isr_end h s) = u8 (rt_interrupt_nest s - (if h = SysTick_Handler then 1 else - 1))"
  "handlers (isr_end h s) = handlers s" "camera (isr_end h s) = camera s"
  by (cases h; simp add: rt_interrupt_enter_def rt_interrupt_leave_def)+

lemma isr_body_fields:
  assumes "\<exists>X Y. steady X Y (camera s)"
  shows "runs (isr_body h s) (\<lambda>t. rt_interrupt_nest t = rt_interrupt_nest s \<and> handlers t = handlers s \<and> (\<exists>X Y. steady X Y (camera t)))"
proof (cases h)
  case CSI_IRQHandler
  obtain X Y where "steady X Y (camera s)" using assms by blast
  from irq_steady [OF this] obtain c where "CSI_TransferHandleIRQ (camera s) = Some c" "\<exists>X Y. steady X Y c"
    by (rule runsE)
  then show ?thesis using CSI_IRQHandler by simp
qed (use assms in \<open>auto simp: clear_pit_def clear_gpio_def mt9v03x_vsync_def\<close>)

lemma irq_step_inv:
  assumes "irq_step s t" "irq_inv s"
  shows "irq_inv t"
  using assms(1)
proof cases
  case (Take h)
  then have "h \<notin> set (map fst (handlers s))" by simp
  then show ?thesis using assms(2) Take
    by (simp add: irq_inv_def ticks_in_def others_in_def isr_begin_fields u8_shift algebra_simps)
next
  case (Body h hs u)
  then show ?thesis using assms(2) isr_body_fields [of s h]
    by (auto simp: irq_inv_def ticks_in_def others_in_def elim!: runsE)
next
  case (Return h hs)
  then show ?thesis using assms(2)
    by (auto simp: irq_inv_def ticks_in_def others_in_def isr_end_fields u8_shift algebra_simps)
next
  case (Frame f)
  have "\<exists>X Y. steady X Y (frame_end f (camera s))" using assms(2) frame_end_steady unfolding irq_inv_def by blast
  with Frame show ?thesis using assms(2) by (simp add: irq_inv_def ticks_in_def others_in_def)
next
  case Flags
  then show ?thesis using assms(2) by (simp add: irq_inv_def ticks_in_def others_in_def)
qed

lemma irq_run_inv: "irq_run s t \<Longrightarrow> irq_inv s \<Longrightarrow> irq_inv t"
  by (induction rule: irq_run.induct) (use irq_step_inv in blast)+

text \<open>Each handler is active at most once, so the counter cannot come round to 0.\<close>

lemma length_isrs: "distinct hs \<Longrightarrow> length (hs :: isr list) \<le> 5"
proof -
  assume "distinct hs"
  have "set hs \<subseteq> {SysTick_Handler, CSI_IRQHandler, PIT_IRQHandler, GPIO2_Combined_16_31_IRQHandler, GPIO2_Combined_0_15_IRQHandler}"
    by (auto intro: isr.exhaust)
  then have "card (set hs) \<le> card {SysTick_Handler, CSI_IRQHandler, PIT_IRQHandler, GPIO2_Combined_16_31_IRQHandler, GPIO2_Combined_0_15_IRQHandler}"
    by (intro card_mono) simp_all
  then show ?thesis using distinct_card [OF \<open>distinct hs\<close>] by simp
qed

lemma in_range:
  assumes "distinct (map fst (handlers s))"
  shows "0 \<le> ticks_in s" "0 \<le> others_in s" "ticks_in s + others_in s \<le> 5" "ticks_in s + others_in s = int (length (handlers s))"
proof -
  show "0 \<le> ticks_in s" "0 \<le> others_in s" by (simp_all add: ticks_in_def others_in_def)
  show e: "ticks_in s + others_in s = int (length (handlers s))"
    using sum_length_filter_compl [of "\<lambda>x. fst x = SysTick_Handler" "handlers s"]
    by (simp add: ticks_in_def others_in_def flip: of_nat_add)
  then show "ticks_in s + others_in s \<le> 5" using length_isrs [OF assms] by simp
qed

lemma u8_zero: "- 255 \<le> a \<Longrightarrow> a \<le> 255 \<Longrightarrow> u8 a = 0 \<longleftrightarrow> a = 0"
  unfolding u8_def by presburger

section \<open>Properties\<close>

text \<open>
  C36: under every nesting of the handlers each of them runs through and \<open>rt_interrupt_nest\<close> is 0 again when all have returned;
  but because the handlers of \<open>interrupt.c\<close> count down and the tick's counts up, the counter is 0 as soon as
  as many of the one as of the other kind are active: with the tick and one other handler nested the kernel takes
  itself to run in a thread and \<open>rt_schedule\<close> switches at once.
\<close>

theorem nest_balance:
  assumes "csi1_image s0 \<noteq> csi2_image s0" "mt9v03x_csi_init s0 = Some c" "irq_run (cpu_start c t g) s"
  shows "isr_body h s \<noteq> None \<and> (handlers s = [] \<longrightarrow> rt_interrupt_get_nest s = 0)
     \<and> (schedule_switch s = rt_hw_context_switch \<longleftrightarrow> ticks_in s = others_in s)"
proof -
  have "irq_inv (cpu_start c t g)" using camera_init_steady [OF assms(1)] assms(2)
    by (auto simp: irq_inv_def cpu_start_def ticks_in_def others_in_def)
  with assms(3) have i: "irq_inv s" by (rule irq_run_inv)
  then have n: "rt_interrupt_nest s = u8 (ticks_in s - others_in s)" and d: "distinct (map fst (handlers s))"
    and b: "isr_body h s \<noteq> None" using isr_body_fields [of s h] by (auto simp: irq_inv_def elim!: runsE)
  have "rt_interrupt_nest s = 0 \<longleftrightarrow> ticks_in s = others_in s"
    unfolding n using in_range [OF d] by (subst u8_zero) auto
  moreover have "handlers s = [] \<Longrightarrow> ticks_in s = others_in s" by (simp add: ticks_in_def others_in_def)
  ultimately show ?thesis using b by (simp add: schedule_switch_def rt_interrupt_get_nest_def)
qed

lemma nest_balance_witness:
  "\<exists>c s. mt9v03x_csi_init csi_off = Some c \<and> irq_run (cpu_start c 0 False) s
     \<and> handlers s = [(SysTick_Handler, False), (CSI_IRQHandler, False)] \<and> schedule_switch s = rt_hw_context_switch"
proof -
  have d: "csi1_image csi_off \<noteq> csi2_image csi_off" by (simp add: csi_off_def)
  obtain c where c: "mt9v03x_csi_init csi_off = Some c" by (rule camera_on)
  let ?s0 = "cpu_start c 0 False"
  let ?s1 = "(isr_begin CSI_IRQHandler ?s0)\<lparr>handlers := (CSI_IRQHandler, False) # handlers ?s0\<rparr>"
  let ?s2 = "(isr_begin SysTick_Handler ?s1)\<lparr>handlers := (SysTick_Handler, False) # handlers ?s1\<rparr>"
  have 1: "irq_step ?s0 ?s1" by (rule irq_step.Take) (simp add: cpu_start_def)
  have "irq_step ?s1 ?s2" by (rule irq_step.Take) (simp add: cpu_start_def)
  then have r: "irq_run ?s0 ?s2" by (rule irq_run.step [OF irq_run.step [OF irq_run.refl 1]])
  moreover have h: "handlers ?s2 = [(SysTick_Handler, False), (CSI_IRQHandler, False)]" by (simp add: cpu_start_def)
  moreover have "schedule_switch ?s2 = rt_hw_context_switch"
  proof -
    have "ticks_in ?s2 = others_in ?s2" by (simp add: ticks_in_def others_in_def cpu_start_def)
    with nest_balance [OF d c r] show ?thesis by blast
  qed
  ultimately show ?thesis using c by blast
qed

end
