(* ===== verification/SelfTests.thy ===== *)
theory SelfTests
  imports Chassis Distinguish
begin

text \<open>
  The shell's tests: \<open>test.c\<close> drives motors, servo and encoders by hand, \<open>filesManage.c\<close> writes and reads a file on the
  SD card until an error or the key q.  The file system and the card are third-party code: their results are
  the argument \<open>card\<close> of the model.
\<close>

section \<open>Open loop tests\<close>

record bench =
  left_motor :: "int option"
  right_motor :: "int option"
  left_encoder :: "encoder option"
  right_encoder :: "encoder option"
  board :: hardware
  printed :: "(int \<times> int) list"

definition openctrl_init :: "encoder \<Rightarrow> encoder \<Rightarrow> bench \<Rightarrow> bench option" where
  "openctrl_init mem1 mem2 s = do {
     let h = board s;
     p \<leftarrow> servo1_set_angle 0 (servo_init (pwm_out h));
     let (e1, h) = encoder_create mem1 1 50 (h\<lparr>pwm_out := p\<rparr>);
     let (e2, h) = encoder_create mem2 2 50 h;
     let (m1, p) = motor_create 1 (pwm_out h);
     let (m2, p) = motor_create 2 p;
     Some (s\<lparr>left_encoder := Some e1, right_encoder := Some e2, left_motor := Some m1, right_motor := Some m2,
             board := h\<lparr>pwm_out := p\<rparr>\<rparr>) }"

definition openctrl_motor :: "string list \<Rightarrow> bench \<Rightarrow> (int \<times> bench) option" where
  "openctrl_motor argv s = do {
     motor_pwm \<leftarrow> atoi_arg argv 1;
     l \<leftarrow> left_motor s;
     r \<leftarrow> right_motor s;
     let h = board s;
     Some (0, s\<lparr>board := h\<lparr>pwm_out := motor_run r motor_pwm (motor_run l motor_pwm (pwm_out h))\<rparr>\<rparr>) }"

definition openctrl_servo :: "string list \<Rightarrow> bench \<Rightarrow> (int \<times> bench) option" where
  "openctrl_servo argv s = do {
     servo_value \<leftarrow> atoi_arg argv 1;
     let h = board s;
     p \<leftarrow> servo1_set_angle servo_value (pwm_out h);
     Some (0, s\<lparr>board := h\<lparr>pwm_out := p\<rparr>\<rparr>) }"

text \<open>A round of the endless loop of \<open>openctrl_encoder\<close>.\<close>

definition openctrl_encoder_round :: "bench \<Rightarrow> bench option" where
  "openctrl_encoder_round s = do {
     l \<leftarrow> left_encoder s;
     let (x, l, h) = encoder_measure_rpm l (board s);
     a \<leftarrow> fl_to_int (- 2147483648) 2147483647 x;
     r \<leftarrow> right_encoder s;
     let (y, r, h) = encoder_measure_rpm r h;
     b \<leftarrow> fl_to_int (- 2147483648) 2147483647 y;
     Some (s\<lparr>left_encoder := Some l, right_encoder := Some r, board := h, printed := printed s @ [(a, b)]\<rparr>) }"

section \<open>The card test\<close>

record card =
  inserted :: int
  mount :: int
  chdrive :: int
  mkfs :: int
  mkdir_1 :: int
  open_file :: int
  mkdir_2 :: int
  opendir :: int
  entry :: "nat \<Rightarrow> int \<times> string \<times> bool"
  write_result :: "nat \<Rightarrow> int \<times> int"
  lseek_result :: "nat \<Rightarrow> int"
  read_result :: "nat \<Rightarrow> int \<times> int"
  read_equal :: "nat \<Rightarrow> bool"
  key :: "nat \<Rightarrow> char"
  close_file :: int

definition FR_EXIST :: int where "FR_EXIST = 8"
definition BUFFER_SIZE :: int where "BUFFER_SIZE = 512"

text \<open>What the listing prints: whether a folder, and the name; names that begin with a dot are left out.\<close>

partial_function (option) list_dir :: "card \<Rightarrow> nat \<Rightarrow> (bool \<times> string) list \<Rightarrow> (bool \<times> string) list option" where
  "list_dir c n xs = (case entry c n of (error, fname, dir) \<Rightarrow>
     if error \<noteq> 0 \<or> fname = [] then Some xs
     else if hd fname = CHR ''.'' then list_dir c (n + 1) xs
     else list_dir c (n + 1) (xs @ [(dir, fname)]))"

text \<open>The loop of writing and reading back, with the number of rounds it has made.\<close>

partial_function (option) write_test :: "card \<Rightarrow> nat \<Rightarrow> bool \<Rightarrow> char \<Rightarrow> nat option" where
  "write_test c n failed ch =
     (if failed \<or> ch = CHR ''q'' then Some n
      else if fst (write_result c n) \<noteq> 0 \<or> snd (write_result c n) \<noteq> BUFFER_SIZE then write_test c (n + 1) True ch
      else if lseek_result c n \<noteq> 0 then write_test c (n + 1) True ch
      else if fst (read_result c n) \<noteq> 0 \<or> snd (read_result c n) \<noteq> BUFFER_SIZE then write_test c (n + 1) True ch
      else if \<not> read_equal c n then write_test c (n + 1) True ch
      else write_test c (n + 1) False (key c n))"

text \<open>The function returns a number, or comes to the empty loop at its end and stays there.\<close>

datatype outcome = Returns int | Spins

definition test_file :: "card \<Rightarrow> outcome option" where
  "test_file c =
     (if inserted c \<noteq> 0 \<or> mount c \<noteq> 0 \<or> chdrive c \<noteq> 0 \<or> mkfs c \<noteq> 0 then Some (Returns (- 1))
      else if mkdir_1 c \<noteq> 0 \<and> mkdir_1 c \<noteq> FR_EXIST then Some (Returns (- 1))
      else if open_file c \<noteq> 0 \<and> open_file c \<noteq> FR_EXIST then Some (Returns (- 1))
      else if mkdir_2 c \<noteq> 0 \<and> mkdir_2 c \<noteq> FR_EXIST then Some (Returns (- 1))
      else if opendir c \<noteq> 0 then Some (Returns (- 1))
      else do {
        _ \<leftarrow> list_dir c 0 [];
        _ \<leftarrow> write_test c 0 False (CHR ''0'');
        Some (if close_file c \<noteq> 0 then Returns (- 1) else Spins) })"

section \<open>When the loops end\<close>

definition stops :: "card \<Rightarrow> nat \<Rightarrow> bool" where
  "stops c n \<longleftrightarrow> write_result c n \<noteq> (0, BUFFER_SIZE) \<or> lseek_result c n \<noteq> 0 \<or> read_result c n \<noteq> (0, BUFFER_SIZE)
     \<or> \<not> read_equal c n \<or> key c n = CHR ''q''"

lemma write_test_round:
  assumes "ch \<noteq> CHR ''q''"
  shows "write_test c n False ch = (if stops c n then Some (n + 1) else write_test c (n + 1) False (key c n))"
proof -
  have stop: "write_test c m True x = Some m" "write_test c m f (CHR ''q'') = Some m" for m f x
    by (subst write_test.simps, simp)+
  show ?thesis
    by (subst write_test.simps) (use assms in \<open>auto simp: stops_def prod_eq_iff stop\<close>)
qed

lemma write_test_ends:
  assumes "stops c k" "\<And>i. n \<le> i \<Longrightarrow> i < k \<Longrightarrow> \<not> stops c i" "n \<le> k" "ch \<noteq> CHR ''q''"
  shows "write_test c n False ch = Some (k + 1)"
  using assms(2-4)
proof (induction "k - n" arbitrary: n ch)
  case 0
  then show ?case using assms(1) by (simp add: write_test_round)
next
  case (Suc d)
  then have "\<not> stops c n" by simp
  then show ?case using Suc by (simp add: write_test_round stops_def)
qed

lemma write_test_stopped:
  assumes "write_test c n f ch = Some m"
  shows "f \<or> ch = CHR ''q'' \<or> (\<exists>i. stops c i)"
proof (rule write_test.raw_induct [OF _ assms, where P = "\<lambda>c n f ch m. f \<or> ch = CHR ''q'' \<or> (\<exists>i. stops c i)"])
  fix F :: "card \<Rightarrow> nat \<Rightarrow> bool \<Rightarrow> char \<Rightarrow> nat option" and c n f ch m
  assume ih: "\<And>c n f ch m. F c n f ch = Some m \<Longrightarrow> f \<or> ch = CHR ''q'' \<or> (\<exists>i. stops c i)"
    and e: "(if f \<or> ch = CHR ''q'' then Some n
      else if fst (write_result c n) \<noteq> 0 \<or> snd (write_result c n) \<noteq> BUFFER_SIZE then F c (n + 1) True ch
      else if lseek_result c n \<noteq> 0 then F c (n + 1) True ch
      else if fst (read_result c n) \<noteq> 0 \<or> snd (read_result c n) \<noteq> BUFFER_SIZE then F c (n + 1) True ch
      else if \<not> read_equal c n then F c (n + 1) True ch
      else F c (n + 1) False (key c n)) = Some m"
  show "f \<or> ch = CHR ''q'' \<or> (\<exists>i. stops c i)"
  proof (cases "f \<or> ch = CHR ''q'' \<or> stops c n")
    case False
    then have "F c (n + 1) False (key c n) = Some m" "key c n \<noteq> CHR ''q''"
      using e by (simp_all add: stops_def prod_eq_iff)
    with ih show ?thesis by blast
  qed blast
qed

text \<open>A card on which everything up to the listing goes well.\<close>

definition set_up :: "card \<Rightarrow> bool" where
  "set_up c \<longleftrightarrow> inserted c = 0 \<and> mount c = 0 \<and> chdrive c = 0 \<and> mkfs c = 0 \<and> mkdir_1 c \<in> {0, FR_EXIST}
     \<and> open_file c \<in> {0, FR_EXIST} \<and> mkdir_2 c \<in> {0, FR_EXIST} \<and> opendir c = 0"

lemma test_file_set_up:
  "test_file c = (if set_up c then do {
        _ \<leftarrow> list_dir c 0 [];
        _ \<leftarrow> write_test c 0 False (CHR ''0'');
        Some (if close_file c \<noteq> 0 then Returns (- 1) else Spins) } else Some (Returns (- 1)))"
proof -
  define m where "m = do {
        _ \<leftarrow> list_dir c 0 [];
        _ \<leftarrow> write_test c 0 False (CHR ''0'');
        Some (if close_file c \<noteq> 0 then Returns (- 1) else Spins) }"
  show ?thesis unfolding test_file_def m_def [symmetric] by (simp add: set_up_def)
qed

lemma test_file_cases:
  assumes "test_file c = Some r"
  shows "r = Returns (- 1) \<or> r = Spins \<and> set_up c \<and> (\<exists>i. stops c i)"
proof (cases "set_up c")
  case True
  then obtain xs n where "write_test c 0 False (CHR ''0'') = Some n" "r = (if close_file c \<noteq> 0 then Returns (- 1) else Spins)"
    using assms by (simp add: test_file_set_up bind_eq_Some_conv) blast
  with write_test_stopped [OF this(1)] True show ?thesis by (simp split: if_splits)
next
  case False
  then show ?thesis using assms by (simp add: test_file_set_up)
qed

lemma test_file_spins:
  assumes "set_up c" "list_dir c 0 [] \<noteq> None" "stops c k" "close_file c = 0"
  shows "test_file c = Some Spins"
proof -
  define n where "n = (LEAST i. stops c i)"
  have "stops c n" unfolding n_def by (rule LeastI, rule assms(3))
  moreover have "\<not> stops c i" if "i < n" for i using that unfolding n_def by (rule not_less_Least)
  ultimately have "write_test c 0 False (CHR ''0'') = Some (n + 1)" by (intro write_test_ends) simp_all
  then show ?thesis using assms by (auto simp: test_file_set_up)
qed

text \<open>The shell thread that runs the test is never given back after a test that went well: a number
  comes back only for an error.\<close>

theorem test_file_never_succeeds:
  "test_file c \<noteq> Some (Returns 0)
   \<and> (set_up c \<and> list_dir c 0 [] \<noteq> None \<and> stops c k \<and> close_file c = 0 \<longrightarrow> test_file c = Some Spins)"
  using test_file_cases [of c "Returns 0"] test_file_spins by auto

section \<open>The bench\<close>

text \<open>The motor and encoder tests need \<open>openctrl_init\<close> first; after it they go through.\<close>

theorem openctrl_order:
  assumes "left_motor s = None"
  shows "openctrl_motor argv s = None"
    and "runs (openctrl_init m1 m2 s) (\<lambda>t. left_motor t = Some 1 \<and> right_motor t = Some 2
       \<and> (atoi_arg argv 1 = Some v \<longrightarrow> openctrl_motor argv t \<noteq> None))"
proof -
  show "openctrl_motor argv s = None" using assms by (cases "atoi_arg argv 1") (simp_all add: openctrl_motor_def)
  obtain d where "servo1_set_angle 0 (servo_init (pwm_out (board s))) = Some d"
    using servo1_set_angle_safe [of 0 "servo_init (pwm_out (board s))" 0] by blast
  then show "runs (openctrl_init m1 m2 s) (\<lambda>t. left_motor t = Some 1 \<and> right_motor t = Some 2
       \<and> (atoi_arg argv 1 = Some v \<longrightarrow> openctrl_motor argv t \<noteq> None))"
    by (auto simp: openctrl_init_def openctrl_motor_def motor_create_def split: prod.splits)
qed

end
