(* ===== verification/CameraSerial.thy ===== *)
theory CameraSerial
  imports Prelude
begin

text \<open>
  The serial exchange that configures the camera (\<open>SEEKFREE_MT9V03X.c\<close> and the start of \<open>SEEKFREE_MT9V03X_CSI.c\<close>): commands of four bytes go out, replies of
  three bytes come in through the interrupt's callback, and the program waits for them in loops without a limit.
  The sensor is a device of its own: the argument \<open>sensor\<close> gives the bytes it sends for a command.  A wait that no byte ends
  has no value.
\<close>

unbundle bit_operations_syntax

section \<open>State\<close>

record serial =
  receive :: "int list"
  receive_num :: int
  uart_receive_flag :: int
  sent :: "int list list"
  incoming :: "int list"

definition CONFIG_FINISH :: int where "CONFIG_FINISH = 9"
definition SET_EXP_TIME :: int where "SET_EXP_TIME = 240"
definition GET_STATUS :: int where "GET_STATUS = 241"
definition GET_VERSION :: int where "GET_VERSION = 242"
definition SET_ADDR :: int where "SET_ADDR = 254"
definition SET_DATA :: int where "SET_DATA = 255"

section \<open>Receiving\<close>

text \<open>A byte has come in.\<close>

definition csi_mt9v03x_uart_callback :: "int \<Rightarrow> serial \<Rightarrow> serial option" where
  "csi_mt9v03x_uart_callback rx_buffer s = do {
     r \<leftarrow> c_put (receive s) (receive_num s) rx_buffer;
     let s = s\<lparr>receive := r, receive_num := u8 (receive_num s + 1)\<rparr>;
     r0 \<leftarrow> c_get (receive s) 0;
     let s = (if receive_num s = 1 \<and> r0 \<noteq> 165 then s\<lparr>receive_num := 0\<rparr> else s);
     Some (if receive_num s = 3 then s\<lparr>receive_num := 0, uart_receive_flag := 1\<rparr> else s) }"

text \<open>The loops \<open>while (!uart_receive_flag);\<close> and \<open>while ((0xff != receive[1]) || (0xff != receive[2]));\<close>, during which
  bytes come in.\<close>

fun await :: "(serial \<Rightarrow> bool) \<Rightarrow> int list \<Rightarrow> serial \<Rightarrow> serial option" where
  "await done [] s = (if done s then Some (s\<lparr>incoming := []\<rparr>) else None)"
| "await done (b # bs) s =
     (if done s then Some (s\<lparr>incoming := b # bs\<rparr>)
      else do { s \<leftarrow> csi_mt9v03x_uart_callback b s; await done bs s })"

definition wait_flag :: "serial \<Rightarrow> serial option" where
  "wait_flag s = map_option (\<lambda>s. s\<lparr>uart_receive_flag := 0\<rparr>) (await (\<lambda>s. uart_receive_flag s \<noteq> 0) (incoming s) s)"

definition wait_init :: "serial \<Rightarrow> serial option" where
  "wait_init s = await (\<lambda>s. receive s ! 1 = 255 \<and> receive s ! 2 = 255) (incoming s) s"

definition reply :: "serial \<Rightarrow> int option" where
  "reply s = do { h \<leftarrow> c_get (receive s) 1; l \<leftarrow> c_get (receive s) 2; Some (push_bit 8 h OR l) }"

section \<open>Sending\<close>

text \<open>\<open>send_buffer\<close> for a command and its 16-bit argument.\<close>

definition command :: "int \<Rightarrow> int \<Rightarrow> int list" where
  "command cmd arg = (let temp = u16 arg in [165, u8 cmd, u8 (drop_bit 8 temp), u8 temp])"

definition uart_putbuff :: "(int list \<Rightarrow> int list) \<Rightarrow> int list \<Rightarrow> serial \<Rightarrow> serial" where
  "uart_putbuff sensor buff s = s\<lparr>sent := sent s @ [buff], incoming := incoming s @ sensor buff\<rparr>"

definition set_config :: "(int list \<Rightarrow> int list) \<Rightarrow> (int \<times> int) list \<Rightarrow> serial \<Rightarrow> serial option" where
  "set_config sensor buff s = do {
     let s = s\<lparr>uart_receive_flag := 0\<rparr>;
     s \<leftarrow> for_up (\<lambda>i s. do {
         b \<leftarrow> c_get buff i;
         Some (Next (uart_putbuff sensor (command (fst b) (snd b)) s)) }) 0 CONFIG_FINISH s;
     s \<leftarrow> wait_flag s;
     wait_init s }"

definition get_config :: "(int list \<Rightarrow> int list) \<Rightarrow> (int \<times> int) list \<Rightarrow> serial \<Rightarrow> ((int \<times> int) list \<times> serial) option" where
  "get_config sensor buff s = for_up (\<lambda>i (buff, s). do {
       b \<leftarrow> c_get buff i;
       s \<leftarrow> wait_flag (uart_putbuff sensor (command GET_STATUS (fst b)) s);
       v \<leftarrow> reply s;
       buff \<leftarrow> c_put buff i (fst b, i16 v);
       Some (Next (buff, s)) }) 0 (CONFIG_FINISH - 1) (buff, s)"

definition get_version :: "(int list \<Rightarrow> int list) \<Rightarrow> serial \<Rightarrow> (int \<times> serial) option" where
  "get_version sensor s = do {
     s \<leftarrow> wait_flag (uart_putbuff sensor (command GET_STATUS GET_VERSION) s);
     v \<leftarrow> reply s;
     Some (u16 v, s) }"

definition set_exposure_time :: "(int list \<Rightarrow> int list) \<Rightarrow> int \<Rightarrow> serial \<Rightarrow> (int \<times> serial) option" where
  "set_exposure_time sensor light s = do {
     s \<leftarrow> wait_flag (uart_putbuff sensor (command SET_EXP_TIME light) s);
     v \<leftarrow> reply s;
     Some (u16 v, s) }"

definition set_mt9v03x_reg :: "(int list \<Rightarrow> int list) \<Rightarrow> int \<Rightarrow> int \<Rightarrow> serial \<Rightarrow> (int \<times> serial) option" where
  "set_mt9v03x_reg sensor addr v s = do {
     let s = uart_putbuff sensor (command SET_ADDR addr) s;
     s \<leftarrow> wait_flag (uart_putbuff sensor (command SET_DATA v) s);
     v \<leftarrow> reply s;
     Some (u16 v, s) }"

text \<open>The part of \<open>mt9v03x_csi_init\<close> that configures the sensor; \<open>get\<close> and \<open>cfg\<close> are its two tables.\<close>

definition camera_configure ::
  "(int list \<Rightarrow> int list) \<Rightarrow> (int \<times> int) list \<Rightarrow> (int \<times> int) list \<Rightarrow> serial \<Rightarrow> ((int \<times> int) list \<times> serial) option" where
  "camera_configure sensor cfg get s = do {
     (get, s) \<leftarrow> get_config sensor get s;
     s \<leftarrow> set_config sensor cfg (s\<lparr>uart_receive_flag := 0\<rparr>);
     get_config sensor get s }"

definition MT9V03X_CFG_CSI :: "(int \<times> int) list" where
  "MT9V03X_CFG_CSI = [(1, 0), (2, 50), (3, 50), (4, 160), (5, 120), (6, 0), (7, 0), (8, 32), (0, 0)]"

definition GET_CFG_CSI :: "(int \<times> int) list" where
  "GET_CFG_CSI = [(1, 0), (2, 0), (3, 0), (4, 0), (5, 0), (6, 0), (7, 0), (8, 0)]"

section \<open>Frames\<close>

definition serial_ok :: "serial \<Rightarrow> bool" where
  "serial_ok s \<longleftrightarrow> length (receive s) = 3 \<and> 0 \<le> receive_num s \<and> receive_num s \<le> 2
     \<and> (0 < receive_num s \<longrightarrow> receive s ! 0 = 165)"

text \<open>The callback never leaves its three bytes, whatever comes in.\<close>

lemma callback_ok: "serial_ok s \<Longrightarrow> runs (csi_mt9v03x_uart_callback b s) serial_ok"
  by (auto simp: serial_ok_def csi_mt9v03x_uart_callback_def nth_list_update Let_def)

lemma await_ok: "serial_ok s \<Longrightarrow> await d bs s = Some t \<Longrightarrow> serial_ok t"
proof (induction bs arbitrary: s)
  case Nil
  then show ?case by (auto simp: serial_ok_def split: if_splits)
next
  case (Cons b bs)
  obtain u where "csi_mt9v03x_uart_callback b s = Some u" "serial_ok u" using callback_ok [OF Cons.prems(1)] by (rule runsE)
  with Cons show ?case by (auto simp: serial_ok_def split: if_splits)
qed

lemma noise:
  assumes "receive_num s = 0" "length (receive s) = 3" "b \<noteq> 165"
  shows "csi_mt9v03x_uart_callback b s = Some (s\<lparr>receive := (receive s)[0 := b], receive_num := 0\<rparr>)"
  using assms by (auto simp: csi_mt9v03x_uart_callback_def Let_def)

text \<open>A frame is found behind any noise that does not contain its first byte.\<close>

lemma await_frame:
  assumes "receive_num s = 0" "length (receive s) = 3" "uart_receive_flag s = 0" "165 \<notin> set noise"
  shows "await (\<lambda>s. uart_receive_flag s \<noteq> 0) (noise @ [165, h, l]) s
    = Some (s\<lparr>receive := [165, h, l], receive_num := 0, uart_receive_flag := 1, incoming := []\<rparr>)"
  using assms
proof (induction noise arbitrary: s)
  case Nil
  then obtain x y z where "receive s = [x, y, z]" by (auto simp: numeral_3_eq_3 length_Suc_conv)
  with Nil show ?case by (simp add: csi_mt9v03x_uart_callback_def numeral_2_eq_2)
next
  case (Cons b bs)
  then show ?case by (simp add: noise [of s b])
qed

definition idle :: "serial \<Rightarrow> bool" where
  "idle s \<longleftrightarrow> receive_num s = 0 \<and> length (receive s) = 3 \<and> uart_receive_flag s = 0 \<and> incoming s = []"

lemma wait_frame:
  assumes "idle s" "sensor c = noise @ [165, h, l]" "165 \<notin> set noise"
  shows "wait_flag (uart_putbuff sensor c s) = Some (s\<lparr>sent := sent s @ [c], receive := [165, h, l]\<rparr>)"
proof -
  define t where "t = uart_putbuff sensor c s"
  have t: "receive_num t = 0" "length (receive t) = 3" "uart_receive_flag t = 0" "incoming t = noise @ [165, h, l]"
    "t = s\<lparr>sent := sent s @ [c], incoming := noise @ [165, h, l]\<rparr>"
    using assms by (simp_all add: t_def uart_putbuff_def idle_def)
  show ?thesis
    unfolding t_def [symmetric] wait_flag_def t(4) await_frame [OF t(1-3) assms(3)]
    using assms(1) by (simp add: t(5) idle_def)
qed

lemma word_bytes: "0 \<le> w \<Longrightarrow> w \<le> 65535 \<Longrightarrow> push_bit 8 (drop_bit 8 w) OR u8 w = (w :: int)"
proof -
  assume "0 \<le> w" "w \<le> 65535"
  have "u8 w = take_bit 8 w" by (simp add: u8_def take_bit_eq_mod)
  moreover have "push_bit 8 (drop_bit 8 w) OR take_bit 8 w = w" by (rule bit_eqI) (auto simp: bit_simps)
  ultimately show ?thesis by simp
qed

section \<open>Reading the configuration\<close>

definition read_entry :: "(int \<Rightarrow> int) \<Rightarrow> int \<times> int \<Rightarrow> int \<times> int" where
  "read_entry val e = (fst e, i16 (val (fst e)))"

definition status_command :: "int \<times> int \<Rightarrow> int list" where
  "status_command e = command GET_STATUS (fst e)"

text \<open>The sensor answers a request with the two bytes of its value in a frame, perhaps behind noise.\<close>

definition answers :: "(int list \<Rightarrow> int list) \<Rightarrow> (int \<Rightarrow> int) \<Rightarrow> int \<Rightarrow> bool" where
  "answers sensor val k \<longleftrightarrow> (\<exists>noise. 165 \<notin> set noise
     \<and> sensor (command GET_STATUS k) = noise @ [165, drop_bit 8 (u16 (val k)), u8 (u16 (val k))])"

lemma i16_u16: "i16 (u16 v) = i16 v"
  by (simp add: i16_def u16_def mod_simps)

lemma idle_sent: "idle s \<Longrightarrow> idle (s\<lparr>sent := c, receive := [x, y, z]\<rparr>)"
  by (simp add: idle_def)

lemma read_status:
  assumes "idle s" "answers sensor val k"
  obtains t where "wait_flag (uart_putbuff sensor (command GET_STATUS k) s) = Some t" "idle t"
    "sent t = sent s @ [command GET_STATUS k]" "reply t = Some (u16 (val k))"
proof -
  obtain noise where n: "165 \<notin> set noise"
    "sensor (command GET_STATUS k) = noise @ [165, drop_bit 8 (u16 (val k)), u8 (u16 (val k))]"
    using assms(2) by (auto simp: answers_def)
  have w: "0 \<le> u16 (val k)" "u16 (val k) \<le> 65535" by (simp_all add: u16_def)
  show thesis
    by (rule that [OF wait_frame [where sensor = sensor, OF assms(1) n(2) n(1)]])
      (use assms(1) word_bytes [OF w] in \<open>simp_all add: idle_sent reply_def\<close>)
qed

lemma get_config_reads:
  assumes "idle s" "length buff = 8" "\<And>e. e \<in> set buff \<Longrightarrow> answers sensor val (fst e)"
  shows "runs (get_config sensor buff s) (\<lambda>(b, t). b = map (read_entry val) buff \<and> idle t
     \<and> sent t = sent s @ map status_command buff)"
  unfolding get_config_def
proof (rule for_up_rule [where I = "\<lambda>i (b, t). b = map (read_entry val) (take (nat i) buff) @ drop (nat i) buff
    \<and> idle t \<and> sent t = sent s @ map status_command (take (nat i) buff)"])
  fix i and p :: "(int \<times> int) list \<times> serial"
  assume i: "0 \<le> i" "i < CONFIG_FINISH - 1"
  define n where "n = nat i"
  have n: "i = int n" "n < 8" using i by (simp_all add: n_def CONFIG_FINISH_def)
  obtain b t where p: "p = (b, t)" by force
  assume "case p of (b, t) \<Rightarrow> b = map (read_entry val) (take (nat i) buff) @ drop (nat i) buff
    \<and> idle t \<and> sent t = sent s @ map status_command (take (nat i) buff)"
  then have bt: "b = map (read_entry val) (take n buff) @ drop n buff" "idle t" "sent t = sent s @ map status_command (take n buff)"
    by (simp_all add: p n_def)
  have nth: "b ! n = buff ! n" "length b = 8" using n assms(2) by (simp_all add: bt(1) nth_append)
  have split: "take (Suc n) buff = take n buff @ [buff ! n]" "drop n buff = buff ! n # drop (Suc n) buff"
    using n assms(2) by (simp_all add: take_Suc_conv_app_nth Cons_nth_drop_Suc)
  obtain u where u: "wait_flag (uart_putbuff sensor (command GET_STATUS (fst (buff ! n))) t) = Some u" "idle u"
    "sent u = sent t @ [command GET_STATUS (fst (buff ! n))]" "reply u = Some (u16 (val (fst (buff ! n))))"
    using read_status [OF bt(2) assms(3) [of "buff ! n"]] n assms(2) by auto
  have new: "b[n := (fst (buff ! n), i16 (u16 (val (fst (buff ! n)))))] = map (read_entry val) (take (Suc n) buff) @ drop (Suc n) buff"
    using n assms(2) unfolding bt(1) split by (simp add: list_update_append read_entry_def i16_u16)
  have "nat (int n + 1) = Suc n" by simp
  then show "runs (case p of (buff, s) \<Rightarrow> do {
       b \<leftarrow> c_get buff i;
       s \<leftarrow> wait_flag (uart_putbuff sensor (command GET_STATUS (fst b)) s);
       v \<leftarrow> reply s;
       buff \<leftarrow> c_put buff i (fst b, i16 v);
       Some (Next (buff, s)) }) (flow_post (\<lambda>(b, t). b = map (read_entry val) (take (nat (i + 1)) buff) @ drop (nat (i + 1)) buff
    \<and> idle t \<and> sent t = sent s @ map status_command (take (nat (i + 1)) buff))
      (\<lambda>(b, t). b = map (read_entry val) buff \<and> idle t \<and> sent t = sent s @ map status_command buff))"
    using n nth u new bt(3) split(1) by (simp add: p status_command_def)
qed (use assms in \<open>auto simp: CONFIG_FINISH_def\<close>)

section \<open>Writing the configuration\<close>

definition setting :: "int \<times> int \<Rightarrow> int list" where
  "setting e = command (fst e) (snd e)"

text \<open>The sensor stays silent until the last entry, and then confirms with 255 twice.\<close>

lemma set_config_writes:
  assumes "idle s" "length buff = 9" "\<And>n. n < 8 \<Longrightarrow> sensor (setting (buff ! n)) = []"
    and "sensor (setting (buff ! 8)) = noise @ [165, 255, 255]" "165 \<notin> set noise"
  shows "runs (set_config sensor buff s) (\<lambda>t. idle t \<and> sent t = sent s @ map setting buff)"
proof -
  let ?last = "noise @ [165, 255, 255]"
  let ?t = "\<lambda>n. s\<lparr>sent := sent s @ map setting (take n buff), incoming := if n \<le> 8 then [] else ?last\<rparr>"
  have i: "receive_num s = 0" "length (receive s) = 3" "uart_receive_flag s = 0" "incoming s = []"
    using assms(1) by (simp_all add: idle_def)
  have loop: "runs (for_up (\<lambda>i s. do {
         b \<leftarrow> c_get buff i;
         Some (Next (uart_putbuff sensor (command (fst b) (snd b)) s)) }) 0 CONFIG_FINISH s) (\<lambda>t. t = ?t 9)"
  proof (rule for_up_rule [where I = "\<lambda>i t. t = ?t (nat i)"])
    fix i t assume b: "0 \<le> i" "i < CONFIG_FINISH" "t = ?t (nat i)"
    define n where "n = nat i"
    have n: "i = int n" "n < 9" using b by (simp_all add: n_def CONFIG_FINISH_def)
    have "take (Suc n) buff = take n buff @ [buff ! n]" using n assms(2) by (simp add: take_Suc_conv_app_nth)
    moreover have "sensor (setting (buff ! n)) = (if n < 8 then [] else ?last)"
    proof (cases "n < 8")
      case False
      then have "n = 8" using n(2) by simp
      then show ?thesis using assms(4) by simp
    qed (use assms(3) in simp)
    moreover have "nat (int n + 1) = Suc n" by simp
    ultimately show "runs (do {
         b \<leftarrow> c_get buff i;
         Some (Next (uart_putbuff sensor (command (fst b) (snd b)) t)) })
       (flow_post (\<lambda>t. t = ?t (nat (i + 1))) (\<lambda>t. t = ?t 9))"
      using n assms(2) by (simp add: b(3) uart_putbuff_def setting_def)
  next
    fix t assume "t = ?t (nat (max 0 CONFIG_FINISH))"
    then show "t = ?t 9" by (simp add: CONFIG_FINISH_def)
  next
    show "s = ?t (nat 0)" using i(4) by simp
  qed
  have t: "receive_num (?t 9) = 0" "length (receive (?t 9)) = 3" "uart_receive_flag (?t 9) = 0" using i by simp_all
  have e: "s\<lparr>uart_receive_flag := 0\<rparr> = s" using i(3) by simp
  have "wait_flag (?t 9) = Some (s\<lparr>sent := sent s @ map setting buff, receive := [165, 255, 255], incoming := []\<rparr>)"
    using await_frame [OF t assms(5), of 255 255] i assms(2) by (simp add: wait_flag_def)
  then show ?thesis unfolding set_config_def Let_def e using loop i
    by (auto simp: wait_init_def idle_def elim!: runsE)
qed

section \<open>The whole exchange\<close>

text \<open>A sensor that answers requests, stays silent for settings and confirms the last one.\<close>

definition sensor_ok :: "(int list \<Rightarrow> int list) \<Rightarrow> (int \<Rightarrow> int) \<Rightarrow> bool" where
  "sensor_ok sensor val \<longleftrightarrow> (\<forall>e \<in> set GET_CFG_CSI. answers sensor val (fst e))
     \<and> (\<forall>e \<in> set (butlast MT9V03X_CFG_CSI). sensor (setting e) = [])
     \<and> (\<exists>noise. 165 \<notin> set noise \<and> sensor (setting (last MT9V03X_CFG_CSI)) = noise @ [165, 255, 255])"

text \<open>What four bytes mean to the sensor.\<close>

definition decode :: "int list \<Rightarrow> (int \<times> int) option" where
  "decode c = (case c of [x, cmd, h, l] \<Rightarrow> if x = 165 then Some (cmd, i16 (h * 256 + l)) else None | _ \<Rightarrow> None)"

lemma decode_command: "0 \<le> cmd \<Longrightarrow> cmd \<le> 255 \<Longrightarrow> decode (command cmd v) = Some (cmd, i16 v)"
proof -
  assume "0 \<le> cmd" "cmd \<le> 255"
  have "drop_bit 8 (u16 v) * 256 + u8 (u16 v) = u16 v" by (simp add: drop_bit_eq_div u8_def)
  moreover have "u8 (drop_bit 8 (u16 v)) = drop_bit 8 (u16 v)" by (simp add: drop_bit_eq_div u8_def u16_def)
  ultimately show ?thesis using \<open>0 \<le> cmd\<close> \<open>cmd \<le> 255\<close>
    by (simp add: decode_def command_def Let_def i16_u16)
qed

text \<open>
  C6: the configuration survives the serial line both ways: with a sensor that answers every request with a frame, is silent while
  the settings come and answers the last of them, and puts any bytes before its frames but the start byte 165 (which would begin a
  frame of its own), the exchange of the camera's start ends, the 25 commands it sends decode to the requests, the entries of the
  configuration table and the requests again, and the table it fills holds the sensor's values as 16-bit numbers.
\<close>

theorem camera_configured:
  assumes "idle s" "sensor_ok sensor val"
  shows "runs (camera_configure sensor MT9V03X_CFG_CSI GET_CFG_CSI s) (\<lambda>(b, t).
     b = map (\<lambda>e. (fst e, i16 (val (fst e)))) GET_CFG_CSI \<and> idle t
     \<and> map decode (drop (length (sent s)) (sent t)) =
         map (\<lambda>e. Some (GET_STATUS, fst e)) GET_CFG_CSI @ map Some MT9V03X_CFG_CSI @ map (\<lambda>e. Some (GET_STATUS, fst e)) GET_CFG_CSI)"
proof -
  let ?b = "map (read_entry val) GET_CFG_CSI"
  have a: "answers sensor val (fst e)" if "e \<in> set GET_CFG_CSI" for e using assms(2) that by (simp add: sensor_ok_def)
  have l0: "length GET_CFG_CSI = 8" by (simp add: GET_CFG_CSI_def)
  obtain t1 where 1: "get_config sensor GET_CFG_CSI s = Some (?b, t1)" "idle t1" "sent t1 = sent s @ map status_command GET_CFG_CSI"
    using get_config_reads [OF assms(1) l0 a] by (auto elim!: runsE)
  obtain noise where n: "165 \<notin> set noise" "sensor (setting (MT9V03X_CFG_CSI ! 8)) = noise @ [165, 255, 255]"
    using assms(2) by (auto simp: sensor_ok_def MT9V03X_CFG_CSI_def)
  have q: "sensor (setting (MT9V03X_CFG_CSI ! n)) = []" if "n < 8" for n
  proof -
    have k: "n < length (butlast MT9V03X_CFG_CSI)" using that by (simp add: MT9V03X_CFG_CSI_def)
    from nth_butlast [OF this] have "MT9V03X_CFG_CSI ! n = butlast MT9V03X_CFG_CSI ! n" by simp
    with k have "MT9V03X_CFG_CSI ! n \<in> set (butlast MT9V03X_CFG_CSI)" using nth_mem by metis
    then show ?thesis using assms(2) by (simp add: sensor_ok_def)
  qed
  have l: "length MT9V03X_CFG_CSI = 9" "length ?b = 8" by (simp_all add: MT9V03X_CFG_CSI_def GET_CFG_CSI_def)
  obtain t2 where 2: "set_config sensor MT9V03X_CFG_CSI t1 = Some t2" "idle t2" "sent t2 = sent t1 @ map setting MT9V03X_CFG_CSI"
    using set_config_writes [where sensor = sensor, OF 1(2) l(1) q n(2) n(1)] by (auto elim!: runsE)
  have ab: "answers sensor val (fst e)" if "e \<in> set ?b" for e using a that by (auto simp: read_entry_def)
  obtain t3 where 3: "get_config sensor ?b t2 = Some (map (read_entry val) ?b, t3)" "idle t3" "sent t3 = sent t2 @ map status_command ?b"
    using get_config_reads [OF 2(2) l(2) ab] by (auto elim!: runsE)
  have "map (read_entry val) ?b = ?b" "map status_command ?b = map status_command GET_CFG_CSI"
    by (simp_all add: read_entry_def status_command_def)
  moreover have "map (decode \<circ> status_command) GET_CFG_CSI = map (\<lambda>e. Some (GET_STATUS, fst e)) GET_CFG_CSI"
    "map (decode \<circ> setting) MT9V03X_CFG_CSI = map Some MT9V03X_CFG_CSI"
    by (simp_all add: GET_CFG_CSI_def MT9V03X_CFG_CSI_def status_command_def setting_def decode_command GET_STATUS_def)
  moreover have "t1\<lparr>uart_receive_flag := 0\<rparr> = t1" using 1(2) by (simp add: idle_def)
  ultimately show ?thesis using 1 2 3
    by (simp add: camera_configure_def) (simp add: read_entry_def)
qed

lemma camera_configured_witness:
  "runs (camera_configure (\<lambda>c. if c = [165, 0, 0, 0] then [165, 255, 255] else if c ! 1 = 241 then [7, 165, 0, c ! 3] else [])
       MT9V03X_CFG_CSI GET_CFG_CSI \<lparr>receive = [0, 0, 0], receive_num = 0, uart_receive_flag = 0, sent = [], incoming = []\<rparr>)
     (\<lambda>(b, t). b = map (\<lambda>k. (k, k)) [1, 2, 3, 4, 5, 6, 7, 8] \<and> length (sent t) = 25)"
proof -
  let ?sensor = "\<lambda>c :: int list. if c = [165, 0, 0, 0] then [165, 255, 255] else if c ! 1 = 241 then [7, 165, 0, c ! 3] else []"
  let ?s = "\<lparr>receive = [0, 0, 0], receive_num = 0, uart_receive_flag = 0, sent = [], incoming = []\<rparr> :: serial"
  have i: "idle ?s" by (simp add: idle_def)
  have k: "command c v = [165, c, v div 256, v mod 256]" if "0 \<le> c" "c < 256" "0 \<le> v" "v < 65536" for c v
    using that by (simp add: command_def Let_def u8_def u16_def drop_bit_eq_div)
  have a: "answers ?sensor (\<lambda>k. k) v" if "0 < v" "v < 256" for v
    using that unfolding answers_def GET_STATUS_def by (intro exI [of _ "[7]"]) (simp add: k u16_def u8_def drop_bit_eq_div)
  have o: "sensor_ok ?sensor (\<lambda>k. k)"
    unfolding sensor_ok_def
    by (intro conjI exI [of _ "[]"] ballI a) (auto simp: GET_CFG_CSI_def MT9V03X_CFG_CSI_def setting_def k)
  obtain b t where t: "camera_configure ?sensor MT9V03X_CFG_CSI GET_CFG_CSI ?s = Some (b, t)"
    "b = map (\<lambda>e. (fst e, i16 (fst e))) GET_CFG_CSI"
    "map decode (sent t) = map (\<lambda>e. Some (GET_STATUS, fst e)) GET_CFG_CSI @ map Some MT9V03X_CFG_CSI
       @ map (\<lambda>e. Some (GET_STATUS, fst e)) GET_CFG_CSI"
    using camera_configured [OF i o] by (auto elim!: runsE)
  have "length (sent t) = length (map decode (sent t))" by simp
  then have "length (sent t) = 25" unfolding t(3) by (simp add: GET_CFG_CSI_def MT9V03X_CFG_CSI_def)
  with t(1,2) show ?thesis by (simp add: GET_CFG_CSI_def i16_def)
qed

text \<open>Without a sensor the first request is never answered, and the wait for it never ends.\<close>

lemma camera_absent: "idle s \<Longrightarrow> camera_configure (\<lambda>_. []) cfg GET_CFG_CSI s = None"
  by (simp add: camera_configure_def get_config_def for_up.simps [of _ 0] CONFIG_FINISH_def GET_CFG_CSI_def wait_flag_def
    uart_putbuff_def idle_def)

end
