(* ===== verification/Pads.thy ===== *)
theory Pads
  imports Prelude
begin

text \<open>
  What every pin is connected to: \<open>iomuxc_pinconf\<close> of \<open>zf_iomuxc.c\<close> with its table of alternatives per pin, and the
  functions of \<open>zf_pwm.c\<close> and \<open>zf_qtimer.c\<close> that choose a pin's alternative.  A pin is a number, 32 for a port.  Behind the
  mux register is the function the macro of the vendor's header names; the names of functions other than the
  three kinds the car drives itself are kept as strings.
\<close>

section \<open>State\<close>

datatype pad_function = GPIO int int | FLEXPWM int int bool | QTIMER int int | Peripheral string

text \<open>Per pin the selected function with its input path bit, and the electrical configuration.\<close>

record pads =
  mux :: "int \<Rightarrow> (pad_function \<times> int) option"
  pad_conf :: "int \<Rightarrow> int"

section \<open>The alternatives\<close>

text \<open>For every pin of a port its alternatives: the number, the function, the input path bit.\<close>

definition port_b0 :: "(int \<times> (int \<times> pad_function \<times> int) list) list" where
  "port_b0 = [
    (0, [(0, FLEXPWM 2 3 True, 0), (1, Peripheral ''XBAR1_INOUT14'', 0), (2, Peripheral ''REF_CLK_32K'', 0),
       (3, Peripheral ''USB_OTG2_ID'', 0), (4, Peripheral ''LPI2C1_SCLS'', 0), (5, GPIO 1 0, 0),
       (6, Peripheral ''USDHC1_RESET_B'', 0), (7, Peripheral ''LPSPI3_SCK'', 0)]),
    (1, [(0, FLEXPWM 2 3 False, 0), (1, Peripheral ''XBAR1_INOUT15'', 0), (2, Peripheral ''REF_CLK_24M'', 0),
       (3, Peripheral ''USB_OTG1_ID'', 0), (4, Peripheral ''LPI2C1_SDAS'', 0), (5, GPIO 1 1, 0),
       (6, Peripheral ''EWM_OUT_B'', 0), (7, Peripheral ''LPSPI3_SDO'', 0)]),
    (2, [(0, Peripheral ''FLEXCAN2_TX'', 0), (1, Peripheral ''XBAR1_INOUT16'', 0),
       (2, Peripheral ''LPUART6_TX'', 0), (3, Peripheral ''USB_OTG1_PWR'', 0),
       (4, Peripheral ''FLEXPWM1_PWMX00'', 0), (5, GPIO 1 2, 0), (6, Peripheral ''LPI2C1_HREQ'', 0),
       (7, Peripheral ''LPSPI3_SDI'', 0)]),
    (3, [(0, Peripheral ''FLEXCAN2_RX'', 0), (1, Peripheral ''XBAR1_INOUT17'', 0),
       (2, Peripheral ''LPUART6_RX'', 0), (3, Peripheral ''USB_OTG1_OC'', 0),
       (4, Peripheral ''FLEXPWM1_PWMX01'', 0), (5, GPIO 1 3, 0), (6, Peripheral ''REF_CLK_24M'', 0),
       (7, Peripheral ''LPSPI3_PCS0'', 0)])]"

definition port_b9 :: "(int \<times> (int \<times> pad_function \<times> int) list) list" where
  "port_b9 = [
    (9, [(0, Peripheral ''JTAG_TDI'', 0), (1, FLEXPWM 2 3 True, 0), (2, Peripheral ''ENET_RX_DATA02'', 0),
       (3, Peripheral ''SAI2_TX_DATA'', 0), (4, Peripheral ''CSI_DATA04'', 0), (5, GPIO 1 9, 0),
       (6, Peripheral ''XBAR1_IN21'', 0), (7, Peripheral ''GPT2_CLK'', 0), (9, Peripheral ''SEMC_DQS4'', 0)]),
    (10, [(0, Peripheral ''JTAG_TDO'', 0), (1, FLEXPWM 1 3 True, 0), (2, Peripheral ''ENET_CRS'', 0),
       (3, Peripheral ''SAI2_MCLK'', 0), (4, Peripheral ''CSI_DATA03'', 0), (5, GPIO 1 10, 0),
       (6, Peripheral ''XBAR1_IN22'', 0), (7, Peripheral ''ENET_1588_EVENT0_OUT'', 0),
       (8, Peripheral ''FLEXCAN3_TX'', 0), (9, Peripheral ''ARM_TRACE_SWO'', 0)]),
    (11, [(0, Peripheral ''JTAG_TRSTB'', 0), (1, FLEXPWM 1 3 False, 0), (2, Peripheral ''ENET_COL'', 0),
       (3, Peripheral ''WDOG1_WDOG_B'', 0), (4, Peripheral ''CSI_DATA02'', 0), (5, GPIO 1 11, 0),
       (6, Peripheral ''XBAR1_IN23'', 0), (7, Peripheral ''ENET_1588_EVENT0_IN'', 0),
       (8, Peripheral ''FLEXCAN3_RX'', 0), (9, Peripheral ''SEMC_CLK6'', 0)]),
    (12, [(0, Peripheral ''LPI2C4_SCL'', 1), (1, Peripheral ''CCM_PMIC_READY'', 0),
       (2, Peripheral ''LPUART1_TX'', 0), (3, Peripheral ''WDOG2_WDOG_B'', 0),
       (4, Peripheral ''FLEXPWM1_PWMX02'', 0), (5, GPIO 1 12, 0),
       (6, Peripheral ''ENET_1588_EVENT1_OUT'', 0), (7, Peripheral ''NMI_GLUE_NMI'', 0)]),
    (13, [(0, Peripheral ''LPI2C4_SDA'', 1), (1, Peripheral ''GPT1_CLK'', 0),
       (2, Peripheral ''LPUART1_RX'', 0), (3, Peripheral ''EWM_OUT_B'', 0),
       (4, Peripheral ''FLEXPWM1_PWMX03'', 0), (5, GPIO 1 13, 0),
       (6, Peripheral ''ENET_1588_EVENT1_IN'', 0), (7, Peripheral ''REF_CLK_24M'', 0)]),
    (14, [(0, Peripheral ''USB_OTG2_OC'', 0), (1, Peripheral ''XBAR1_IN24'', 0),
       (2, Peripheral ''LPUART1_CTS_B'', 0), (3, Peripheral ''ENET_1588_EVENT0_OUT'', 0),
       (4, Peripheral ''CSI_VSYNC'', 0), (5, GPIO 1 14, 0), (6, Peripheral ''FLEXCAN2_TX'', 0),
       (8, Peripheral ''FLEXCAN3_TX'', 0)]),
    (15, [(0, Peripheral ''USB_OTG2_PWR'', 0), (1, Peripheral ''XBAR1_IN25'', 0),
       (2, Peripheral ''LPUART1_RTS_B'', 0), (3, Peripheral ''ENET_1588_EVENT0_IN'', 0),
       (4, Peripheral ''CSI_HSYNC'', 0), (5, GPIO 1 15, 0), (6, Peripheral ''FLEXCAN2_RX'', 0),
       (7, Peripheral ''WDOG1_WDOG_RST_B_DEB'', 0), (8, Peripheral ''FLEXCAN3_RX'', 0)]),
    (16, [(0, Peripheral ''USB_OTG2_ID'', 0), (1, QTIMER 3 0, 0), (2, Peripheral ''LPUART2_CTS_B'', 0),
       (3, Peripheral ''LPI2C1_SCL'', 1), (4, Peripheral ''WDOG1_B'', 0), (5, GPIO 1 16, 0),
       (6, Peripheral ''USDHC1_WP'', 0), (7, Peripheral ''KPP_ROW07'', 0),
       (8, Peripheral ''ENET2_1588_EVENT0_OUT'', 0), (9, Peripheral ''FLEXIO3_FLEXIO00'', 0)])]"

definition port_b17 :: "(int \<times> (int \<times> pad_function \<times> int) list) list" where
  "port_b17 = [
    (17, [(0, Peripheral ''USB_OTG1_PWR'', 0), (1, QTIMER 3 1, 0), (2, Peripheral ''LPUART2_RTS_B'', 0),
       (3, Peripheral ''LPI2C1_SDA'', 1), (4, Peripheral ''CCM_PMIC_READY'', 0), (5, GPIO 1 17, 0),
       (6, Peripheral ''USDHC1_VSELECT'', 0), (7, Peripheral ''KPP_COL07'', 0),
       (8, Peripheral ''ENET2_1588_EVENT0_IN'', 0), (9, Peripheral ''FLEXIO3_FLEXIO01'', 0)]),
    (18, [(0, Peripheral ''USB_OTG1_ID'', 0), (1, QTIMER 3 2, 0), (2, Peripheral ''LPUART2_TX'', 0),
       (3, Peripheral ''SPDIF_OUT'', 0), (4, Peripheral ''ENET_1588_EVENT2_OUT'', 0), (5, GPIO 1 18, 0),
       (6, Peripheral ''USDHC1_CD_B'', 0), (7, Peripheral ''KPP_ROW06'', 0),
       (8, Peripheral ''GPT2_CLK'', 0), (9, Peripheral ''FLEXIO3_FLEXIO02'', 0)]),
    (19, [(0, Peripheral ''USB_OTG1_OC'', 0), (1, QTIMER 3 3, 0), (2, Peripheral ''LPUART2_RX'', 0),
       (3, Peripheral ''SPDIF_IN'', 0), (4, Peripheral ''ENET_1588_EVENT2_IN'', 0), (5, GPIO 1 19, 0),
       (6, Peripheral ''USDHC2_CD_B'', 0), (7, Peripheral ''KPP_COL06'', 0),
       (8, Peripheral ''GPT2_CAPTURE1'', 0), (9, Peripheral ''FLEXIO3_FLEXIO03'', 0)]),
    (20, [(0, Peripheral ''FLEXSPIB_DATA03'', 0), (1, Peripheral ''ENET_MDC'', 0),
       (2, Peripheral ''LPUART3_CTS_B'', 0), (3, Peripheral ''SPDIF_SR_CLK'', 0),
       (4, Peripheral ''CSI_PIXCLK'', 0), (5, GPIO 1 20, 0), (6, Peripheral ''USDHC2_DATA0'', 0),
       (7, Peripheral ''KPP_ROW05'', 0), (8, Peripheral ''GPT2_CAPTURE2'', 0),
       (9, Peripheral ''FLEXIO3_FLEXIO04'', 0)]),
    (21, [(0, Peripheral ''FLEXSPIB_DATA02'', 0), (1, Peripheral ''ENET_MDIO'', 0),
       (2, Peripheral ''LPUART3_RTS_B'', 0), (3, Peripheral ''SPDIF_OUT'', 0),
       (4, Peripheral ''CSI_MCLK'', 0), (5, GPIO 1 21, 0), (6, Peripheral ''USDHC2_DATA1'', 0),
       (7, Peripheral ''KPP_COL05'', 0), (8, Peripheral ''GPT2_COMPARE1'', 0),
       (9, Peripheral ''FLEXIO3_FLEXIO05'', 0)]),
    (22, [(0, Peripheral ''FLEXSPIB_DATA01'', 0), (1, Peripheral ''LPI2C3_SDA'', 1),
       (2, Peripheral ''LPUART3_TX'', 0), (3, Peripheral ''SPDIF_LOCK'', 0),
       (4, Peripheral ''CSI_VSYNC'', 0), (5, GPIO 1 22, 0), (6, Peripheral ''USDHC2_DATA2'', 0),
       (7, Peripheral ''KPP_ROW04'', 0), (8, Peripheral ''GPT2_COMPARE2'', 0),
       (9, Peripheral ''FLEXIO3_FLEXIO06'', 0)]),
    (23, [(0, Peripheral ''FLEXSPIB_DATA00'', 0), (1, Peripheral ''LPI2C3_SCL'', 1),
       (2, Peripheral ''LPUART3_RX'', 0), (3, Peripheral ''SPDIF_EXT_CLK'', 0),
       (4, Peripheral ''CSI_HSYNC'', 0), (5, GPIO 1 23, 0), (6, Peripheral ''USDHC2_DATA3'', 0),
       (7, Peripheral ''KPP_COL04'', 0), (8, Peripheral ''GPT2_COMPARE3'', 0),
       (9, Peripheral ''FLEXIO3_FLEXIO07'', 0)]),
    (24, [(0, Peripheral ''FLEXSPIA_SS1_B'', 0), (1, FLEXPWM 4 0 True, 0), (2, Peripheral ''FLEXCAN1_TX'', 0),
       (3, Peripheral ''CCM_PMIC_READY'', 0), (4, Peripheral ''CSI_DATA09'', 0), (5, GPIO 1 24, 0),
       (6, Peripheral ''USDHC2_CMD'', 0), (7, Peripheral ''KPP_ROW03'', 0),
       (9, Peripheral ''FLEXIO3_FLEXIO08'', 0)])]"

definition port_b25 :: "(int \<times> (int \<times> pad_function \<times> int) list) list" where
  "port_b25 = [
    (25, [(0, Peripheral ''FLEXSPIA_DQS'', 0), (1, FLEXPWM 4 1 True, 0), (2, Peripheral ''FLEXCAN1_RX'', 0),
       (3, Peripheral ''SAI1_MCLK'', 0), (4, Peripheral ''CSI_DATA08'', 0), (5, GPIO 1 25, 0),
       (6, Peripheral ''USDHC2_CLK'', 0), (7, Peripheral ''KPP_COL03'', 0),
       (9, Peripheral ''FLEXIO3_FLEXIO09'', 0)]),
    (26, [(0, Peripheral ''FLEXSPIA_DATA03'', 0), (1, Peripheral ''WDOG1_B'', 0),
       (2, Peripheral ''LPUART8_TX'', 0), (3, Peripheral ''SAI1_RX_SYNC'', 0),
       (4, Peripheral ''CSI_DATA07'', 0), (5, GPIO 1 26, 0), (6, Peripheral ''USDHC2_WP'', 0),
       (7, Peripheral ''KPP_ROW02'', 0), (8, Peripheral ''ENET2_1588_EVENT1_OUT'', 0),
       (9, Peripheral ''FLEXIO3_FLEXIO10'', 0)]),
    (27, [(0, Peripheral ''FLEXSPIA_DATA02'', 0), (1, Peripheral ''EWM_OUT_B'', 0),
       (2, Peripheral ''LPUART8_RX'', 0), (3, Peripheral ''SAI1_RX_BCLK'', 0),
       (4, Peripheral ''CSI_DATA06'', 0), (5, GPIO 1 27, 0), (6, Peripheral ''USDHC2_RESET_B'', 0),
       (7, Peripheral ''KPP_COL02'', 0), (8, Peripheral ''ENET2_1588_EVENT1_IN'', 0),
       (9, Peripheral ''FLEXIO3_FLEXIO11'', 0)]),
    (28, [(0, Peripheral ''FLEXSPIA_DATA01'', 0), (1, Peripheral ''ACMP_OUT00'', 0),
       (2, Peripheral ''LPSPI3_PCS0'', 0), (3, Peripheral ''SAI1_RX_DATA00'', 0),
       (4, Peripheral ''CSI_DATA05'', 0), (5, GPIO 1 28, 0), (6, Peripheral ''USDHC2_DATA4'', 0),
       (7, Peripheral ''KPP_ROW01'', 0), (8, Peripheral ''ENET2_1588_EVENT2_OUT'', 0),
       (9, Peripheral ''FLEXIO3_FLEXIO12'', 0)]),
    (29, [(0, Peripheral ''FLEXSPIA_DATA00'', 0), (1, Peripheral ''ACMP_OUT01'', 0),
       (2, Peripheral ''LPSPI3_SDI'', 0), (3, Peripheral ''SAI1_TX_DATA00'', 0),
       (4, Peripheral ''CSI_DATA04'', 0), (5, GPIO 1 29, 0), (6, Peripheral ''USDHC2_DATA5'', 0),
       (7, Peripheral ''KPP_COL01'', 0), (8, Peripheral ''ENET2_1588_EVENT2_IN'', 0),
       (9, Peripheral ''FLEXIO3_FLEXIO13'', 0)]),
    (30, [(0, Peripheral ''FLEXSPIA_SCLK'', 0), (1, Peripheral ''ACMP_OUT02'', 0),
       (2, Peripheral ''LPSPI3_SDO'', 0), (3, Peripheral ''SAI1_TX_BCLK'', 0),
       (4, Peripheral ''CSI_DATA03'', 0), (5, GPIO 1 30, 0), (6, Peripheral ''USDHC2_DATA6'', 0),
       (7, Peripheral ''KPP_ROW00'', 0), (8, Peripheral ''ENET2_1588_EVENT3_OUT'', 0),
       (9, Peripheral ''FLEXIO3_FLEXIO14'', 0)]),
    (31, [(0, Peripheral ''FLEXSPIA_SS0_B'', 0), (1, Peripheral ''ACMP_OUT03'', 0),
       (2, Peripheral ''LPSPI3_SCK'', 0), (3, Peripheral ''SAI1_TX_SYNC'', 0),
       (4, Peripheral ''CSI_DATA02'', 0), (5, GPIO 1 31, 0), (6, Peripheral ''USDHC2_DATA7'', 0),
       (7, Peripheral ''KPP_COL00'', 0), (8, Peripheral ''ENET2_1588_EVENT3_IN'', 0),
       (9, Peripheral ''FLEXIO3_FLEXIO15'', 0)])]"

definition port_c0 :: "(int \<times> (int \<times> pad_function \<times> int) list) list" where
  "port_c0 = [
    (0, [(0, Peripheral ''LCD_CLK'', 0), (1, QTIMER 1 0, 0), (2, Peripheral ''MQS_RIGHT'', 0),
       (3, Peripheral ''LPSPI4_PCS0'', 0), (4, Peripheral ''FLEXIO2_FLEXIO00'', 0), (5, GPIO 2 0, 0),
       (6, Peripheral ''SEMC_CSX01'', 0), (8, Peripheral ''ENET2_MDC'', 0)]),
    (1, [(0, Peripheral ''LCD_ENABLE'', 0), (1, QTIMER 1 1, 0), (2, Peripheral ''MQS_LEFT'', 0),
       (3, Peripheral ''LPSPI4_SDI'', 0), (4, Peripheral ''FLEXIO2_FLEXIO01'', 0), (5, GPIO 2 1, 0),
       (6, Peripheral ''SEMC_CSX02'', 0), (8, Peripheral ''ENET2_MDIO'', 0)]),
    (2, [(0, Peripheral ''LCD_HSYNC'', 0), (1, QTIMER 1 2, 0), (2, Peripheral ''FLEXCAN1_TX'', 0),
       (3, Peripheral ''LPSPI4_SDO'', 0), (4, Peripheral ''FLEXIO2_FLEXIO02'', 0), (5, GPIO 2 2, 0),
       (6, Peripheral ''SEMC_CSX03'', 0), (8, Peripheral ''ENET2_1588_EVENT0_OUT'', 0)]),
    (3, [(0, Peripheral ''LCD_VSYNC'', 0), (1, QTIMER 2 0, 0), (2, Peripheral ''FLEXCAN1_RX'', 0),
       (3, Peripheral ''LPSPI4_SCK'', 0), (4, Peripheral ''FLEXIO2_FLEXIO03'', 0), (5, GPIO 2 3, 0),
       (6, Peripheral ''WDOG2_RESET_B_DEB'', 0), (8, Peripheral ''ENET2_1588_EVENT0_IN'', 0)]),
    (4, [(0, Peripheral ''LCD_DATA00'', 0), (1, QTIMER 2 1, 0), (2, Peripheral ''LPI2C2_SCL'', 1),
       (3, Peripheral ''ARM_TRACE0'', 0), (4, Peripheral ''FLEXIO2_FLEXIO04'', 0), (5, GPIO 2 4, 0),
       (6, Peripheral ''SRC_BOOT_CFG00'', 0), (8, Peripheral ''ENET2_TDATA03'', 0)]),
    (5, [(0, Peripheral ''LCD_DATA01'', 0), (1, QTIMER 2 2, 0), (2, Peripheral ''LPI2C2_SDA'', 1),
       (3, Peripheral ''ARM_TRACE1'', 0), (4, Peripheral ''FLEXIO2_FLEXIO05'', 0), (5, GPIO 2 5, 0),
       (6, Peripheral ''SRC_BOOT_CFG01'', 0), (8, Peripheral ''ENET2_TDATA02'', 0)]),
    (6, [(0, Peripheral ''LCD_DATA02'', 0), (1, QTIMER 3 0, 0), (2, FLEXPWM 2 0 True, 0),
       (3, Peripheral ''ARM_TRACE2'', 0), (4, Peripheral ''FLEXIO2_FLEXIO06'', 0), (5, GPIO 2 6, 0),
       (6, Peripheral ''SRC_BOOT_CFG02'', 0), (8, Peripheral ''ENET2_RX_CLK'', 0)]),
    (7, [(0, Peripheral ''LCD_DATA03'', 0), (1, QTIMER 3 1, 0), (2, FLEXPWM 2 0 False, 0),
       (3, Peripheral ''ARM_TRACE3'', 0), (4, Peripheral ''FLEXIO2_FLEXIO07'', 0), (5, GPIO 2 7, 0),
       (6, Peripheral ''SRC_BOOT_CFG03'', 0), (8, Peripheral ''ENET2_TX_ER'', 0)]),
    (8, [(0, Peripheral ''LCD_DATA04'', 0), (1, QTIMER 3 2, 0), (2, FLEXPWM 2 1 True, 0),
       (3, Peripheral ''LPUART3_TX'', 0), (4, Peripheral ''FLEXIO2_FLEXIO08'', 0), (5, GPIO 2 8, 0),
       (6, Peripheral ''SRC_BOOT_CFG04'', 0), (8, Peripheral ''ENET2_RDATA03'', 0)])]"

definition port_c9 :: "(int \<times> (int \<times> pad_function \<times> int) list) list" where
  "port_c9 = [
    (9, [(0, Peripheral ''LCD_DATA05'', 0), (1, QTIMER 4 0, 0), (2, FLEXPWM 2 1 False, 0),
       (3, Peripheral ''LPUART3_RX'', 0), (4, Peripheral ''FLEXIO2_FLEXIO09'', 0), (5, GPIO 2 9, 0),
       (6, Peripheral ''SRC_BOOT_CFG05'', 0), (8, Peripheral ''ENET2_RDATA02'', 0)]),
    (10, [(0, Peripheral ''LCD_DATA06'', 0), (1, QTIMER 4 1, 0), (2, FLEXPWM 2 2 True, 0),
       (3, Peripheral ''SAI1_TX_DATA03'', 0), (4, Peripheral ''FLEXIO2_FLEXIO10'', 0), (5, GPIO 2 10, 0),
       (6, Peripheral ''SRC_BOOT_CFG06'', 0), (8, Peripheral ''ENET2_CRS'', 0)]),
    (11, [(0, Peripheral ''LCD_DATA07'', 0), (1, QTIMER 4 2, 0), (2, FLEXPWM 2 2 False, 0),
       (3, Peripheral ''SAI1_TX_DATA02'', 0), (4, Peripheral ''FLEXIO2_FLEXIO11'', 0), (5, GPIO 2 11, 0),
       (6, Peripheral ''SRC_BOOT_CFG07'', 0), (8, Peripheral ''ENET2_COL'', 0)]),
    (12, [(0, Peripheral ''LCD_DATA08'', 0), (1, Peripheral ''XBAR1_INOUT10'', 0),
       (2, Peripheral ''ARM_TRACE_CLK'', 0), (3, Peripheral ''SAI1_TX_DATA01'', 0),
       (4, Peripheral ''FLEXIO2_FLEXIO12'', 0), (5, GPIO 2 12, 0), (6, Peripheral ''SRC_BOOT_CFG08'', 0),
       (8, Peripheral ''ENET2_TDATA00'', 0)]),
    (13, [(0, Peripheral ''LCD_DATA09'', 0), (1, Peripheral ''XBAR1_INOUT11'', 0),
       (2, Peripheral ''ARM_TRACE_SWO'', 0), (3, Peripheral ''SAI1_MCLK'', 0),
       (4, Peripheral ''FLEXIO2_FLEXIO13'', 0), (5, GPIO 2 13, 0), (6, Peripheral ''SRC_BOOT_CFG09'', 0),
       (8, Peripheral ''ENET2_TDATA01'', 0)]),
    (14, [(0, Peripheral ''LCD_DATA10'', 0), (1, Peripheral ''XBAR1_INOUT12'', 0),
       (2, Peripheral ''ARM_TXEV'', 0), (3, Peripheral ''SAI1_RX_SYNC'', 0),
       (4, Peripheral ''FLEXIO2_FLEXIO14'', 0), (5, GPIO 2 14, 0), (6, Peripheral ''SRC_BOOT_CFG10'', 0),
       (8, Peripheral ''ENET2_TX_EN'', 0)]),
    (15, [(0, Peripheral ''LCD_DATA11'', 0), (1, Peripheral ''XBAR1_INOUT13'', 0),
       (2, Peripheral ''ARM_RXEV'', 0), (3, Peripheral ''SAI1_RX_BCLK'', 0),
       (4, Peripheral ''FLEXIO2_FLEXIO15'', 0), (5, GPIO 2 15, 0), (6, Peripheral ''SRC_BOOT_CFG11'', 0),
       (8, Peripheral ''ENET2_TX_CLK'', 0), (9, Peripheral ''ENET2_REF_CLK2'', 0)]),
    (16, [(0, Peripheral ''LCD_DATA12'', 0), (1, Peripheral ''XBAR1_INOUT14'', 0),
       (2, Peripheral ''LPUART4_TX'', 0), (3, Peripheral ''SAI1_RX_DATA00'', 0),
       (4, Peripheral ''FLEXIO2_FLEXIO16'', 0), (5, GPIO 2 16, 0), (6, FLEXPWM 1 3 True, 0),
       (8, Peripheral ''ENET2_RX_ER'', 0), (9, Peripheral ''FLEXIO3_FLEXIO16'', 0)]),
    (17, [(0, Peripheral ''LCD_DATA13'', 0), (1, Peripheral ''XBAR1_INOUT15'', 0),
       (2, Peripheral ''LPUART4_RX'', 0), (3, Peripheral ''SAI1_TX_DATA00'', 0),
       (4, Peripheral ''FLEXIO2_FLEXIO17'', 0), (5, GPIO 2 17, 0), (6, FLEXPWM 1 3 False, 0),
       (8, Peripheral ''ENET2_RDATA00'', 0), (9, Peripheral ''FLEXIO3_FLEXIO17'', 0)])]"

definition port_c18 :: "(int \<times> (int \<times> pad_function \<times> int) list) list" where
  "port_c18 = [
    (18, [(0, Peripheral ''LCD_DATA14'', 0), (1, Peripheral ''XBAR1_INOUT16'', 0),
       (2, Peripheral ''LPSPI4_PCS2'', 0), (3, Peripheral ''SAI1_TX_BCLK'', 0),
       (4, Peripheral ''FLEXIO2_FLEXIO18'', 0), (5, GPIO 2 18, 0), (6, FLEXPWM 2 3 True, 0),
       (8, Peripheral ''ENET2_RDATA01'', 0), (9, Peripheral ''FLEXIO3_FLEXIO18'', 0)]),
    (19, [(0, Peripheral ''LCD_DATA15'', 0), (1, Peripheral ''XBAR1_INOUT17'', 0),
       (2, Peripheral ''LPSPI4_PCS1'', 0), (3, Peripheral ''SAI1_TX_SYNC'', 0),
       (4, Peripheral ''FLEXIO2_FLEXIO19'', 0), (5, GPIO 2 19, 0), (6, FLEXPWM 2 3 False, 0),
       (8, Peripheral ''ENET2_RX_EN'', 0), (9, Peripheral ''FLEXIO3_FLEXIO19'', 0)]),
    (20, [(0, Peripheral ''LCD_DATA16'', 0), (1, Peripheral ''LPSPI4_PCS0'', 0),
       (2, Peripheral ''CSI_DATA15'', 0), (3, Peripheral ''ENET_RX_DATA00'', 0),
       (4, Peripheral ''FLEXIO2_FLEXIO20'', 0), (5, GPIO 2 20, 0), (8, Peripheral ''GPT1_CLK'', 0),
       (9, Peripheral ''FLEXIO3_FLEXIO20'', 0)]),
    (21, [(0, Peripheral ''LCD_DATA17'', 0), (1, Peripheral ''LPSPI4_SDI'', 0),
       (2, Peripheral ''CSI_DATA14'', 0), (3, Peripheral ''ENET_RX_DATA01'', 0),
       (4, Peripheral ''FLEXIO2_FLEXIO21'', 0), (5, GPIO 2 21, 0), (8, Peripheral ''GPT1_CAPTURE1'', 0),
       (9, Peripheral ''FLEXIO3_FLEXIO21'', 0)]),
    (22, [(0, Peripheral ''LCD_DATA18'', 0), (1, Peripheral ''LPSPI4_SDO'', 0),
       (2, Peripheral ''CSI_DATA13'', 0), (3, Peripheral ''ENET_RX_EN'', 0),
       (4, Peripheral ''FLEXIO2_FLEXIO22'', 0), (5, GPIO 2 22, 0), (8, Peripheral ''GPT1_CAPTURE2'', 0),
       (9, Peripheral ''FLEXIO3_FLEXIO22'', 0)]),
    (23, [(0, Peripheral ''LCD_DATA19'', 0), (1, Peripheral ''LPSPI4_SCK'', 0),
       (2, Peripheral ''CSI_DATA12'', 0), (3, Peripheral ''ENET_TX_DATA00'', 0),
       (4, Peripheral ''FLEXIO2_FLEXIO23'', 0), (5, GPIO 2 23, 0), (8, Peripheral ''GPT1_COMPARE1'', 0),
       (9, Peripheral ''FLEXIO3_FLEXIO23'', 0)]),
    (24, [(0, Peripheral ''LCD_DATA20'', 0), (1, QTIMER 1 3, 0), (2, Peripheral ''CSI_DATA11'', 0),
       (3, Peripheral ''ENET_TX_DATA01'', 0), (4, Peripheral ''FLEXIO2_FLEXIO24'', 0), (5, GPIO 2 24, 0),
       (6, Peripheral ''FLEXCAN2_TX'', 0), (8, Peripheral ''GPT1_COMPARE2'', 0),
       (9, Peripheral ''FLEXIO3_FLEXIO24'', 0)]),
    (25, [(0, Peripheral ''LCD_DATA21'', 0), (1, QTIMER 2 3, 0), (2, Peripheral ''CSI_DATA10'', 0),
       (3, Peripheral ''ENET_TX_EN'', 0), (4, Peripheral ''FLEXIO2_FLEXIO25'', 0), (5, GPIO 2 25, 0),
       (6, Peripheral ''FLEXCAN2_RX'', 0), (8, Peripheral ''GPT1_COMPARE3'', 0),
       (9, Peripheral ''FLEXIO3_FLEXIO25'', 0)]),
    (26, [(0, Peripheral ''LCD_DATA22'', 0), (1, QTIMER 3 3, 0), (2, Peripheral ''CSI_DATA00'', 0),
       (3, Peripheral ''ENET_TX_CLK'', 0), (4, Peripheral ''FLEXIO2_FLEXIO26'', 0), (5, GPIO 2 26, 0),
       (6, Peripheral ''ENET_REF_CLK'', 0), (9, Peripheral ''FLEXIO3_FLEXIO26'', 0)])]"

definition port_c27 :: "(int \<times> (int \<times> pad_function \<times> int) list) list" where
  "port_c27 = [
    (27, [(0, Peripheral ''LCD_DATA23'', 0), (1, QTIMER 4 3, 0), (2, Peripheral ''CSI_DATA01'', 0),
       (3, Peripheral ''ENET_RX_ER'', 0), (4, Peripheral ''FLEXIO2_FLEXIO27'', 0), (5, GPIO 2 27, 0),
       (6, Peripheral ''LPSPI4_PCS3'', 0), (9, Peripheral ''FLEXIO3_FLEXIO27'', 0)]),
    (28, [(1, Peripheral ''LPUART5_TX'', 0), (2, Peripheral ''CSI_PIXCLK'', 0),
       (3, Peripheral ''ENET_1588_EVENT0_IN'', 0), (4, Peripheral ''FLEXIO2_FLEXIO28'', 0),
       (5, GPIO 2 28, 0), (6, Peripheral ''USDHC1_CD_B'', 0), (9, Peripheral ''FLEXIO3_FLEXIO28'', 0)]),
    (29, [(0, Peripheral ''WDOG1_B'', 0), (1, Peripheral ''LPUART5_RX'', 0), (2, Peripheral ''CSI_VSYNC'', 0),
       (3, Peripheral ''ENET_1588_EVENT0_OUT'', 0), (4, Peripheral ''FLEXIO2_FLEXIO29'', 0),
       (5, GPIO 2 29, 0), (6, Peripheral ''USDHC1_WP'', 0), (8, Peripheral ''SEMC_DQS4'', 0),
       (9, Peripheral ''FLEXIO3_FLEXIO29'', 0)]),
    (30, [(0, Peripheral ''ENET_MDC'', 0), (1, FLEXPWM 4 2 True, 0), (2, Peripheral ''CSI_HSYNC'', 0),
       (3, Peripheral ''XBAR1_IN02'', 0), (4, Peripheral ''FLEXIO2_FLEXIO30'', 0), (5, GPIO 2 30, 0),
       (6, Peripheral ''USDHC1_VSELECT'', 0), (8, Peripheral ''ENET2_TDATA00'', 0),
       (9, Peripheral ''FLEXIO3_FLEXIO30'', 0)]),
    (31, [(0, Peripheral ''ENET_MDIO'', 0), (1, FLEXPWM 4 3 True, 0), (2, Peripheral ''CSI_MCLK'', 0),
       (3, Peripheral ''XBAR1_IN03'', 0), (4, Peripheral ''FLEXIO2_FLEXIO31'', 0), (5, GPIO 2 31, 0),
       (6, Peripheral ''USDHC1_RESET_B'', 0), (8, Peripheral ''ENET2_TDATA01'', 0),
       (9, Peripheral ''FLEXIO3_FLEXIO31'', 0)])]"

definition port_d0 :: "(int \<times> (int \<times> pad_function \<times> int) list) list" where
  "port_d0 = [
    (0, [(0, Peripheral ''USDHC2_DATA3'', 0), (1, Peripheral ''FLEXSPIB_DATA03'', 0),
       (2, FLEXPWM 1 3 True, 0), (3, Peripheral ''SAI1_TX_DATA03'', 0), (4, Peripheral ''LPUART4_TX'', 0),
       (5, GPIO 3 0, 0), (8, Peripheral ''SAI3_RX_DATA'', 0)]),
    (1, [(0, Peripheral ''USDHC2_DATA2'', 0), (1, Peripheral ''FLEXSPIB_DATA02'', 0),
       (2, FLEXPWM 1 3 False, 0), (3, Peripheral ''SAI1_TX_DATA02'', 0), (4, Peripheral ''LPUART4_RX'', 0),
       (5, GPIO 3 1, 0), (8, Peripheral ''SAI3_TX_DATA'', 0)]),
    (2, [(0, Peripheral ''USDHC2_DATA1'', 0), (1, Peripheral ''FLEXSPIB_DATA01'', 0),
       (2, FLEXPWM 2 3 True, 0), (3, Peripheral ''SAI1_TX_DATA01'', 0), (4, Peripheral ''FLEXCAN1_TX'', 0),
       (5, GPIO 3 2, 0), (6, Peripheral ''CCM_WAIT'', 0), (8, Peripheral ''SAI3_TX_SYNC'', 0)]),
    (3, [(0, Peripheral ''USDHC2_DATA0'', 0), (1, Peripheral ''FLEXSPIB_DATA00'', 0),
       (2, FLEXPWM 2 3 False, 0), (3, Peripheral ''SAI1_MCLK'', 0), (4, Peripheral ''FLEXCAN1_RX'', 0),
       (5, GPIO 3 3, 0), (6, Peripheral ''CCM_PMIC_READY'', 0), (8, Peripheral ''SAI3_TX_BCLK'', 0)]),
    (4, [(0, Peripheral ''USDHC2_CLK'', 0), (1, Peripheral ''FLEXSPIB_SCLK'', 0),
       (2, Peripheral ''LPI2C1_SCL'', 1), (3, Peripheral ''SAI1_RX_SYNC'', 0),
       (4, Peripheral ''FLEXSPIA_SS1_B'', 0), (5, GPIO 3 4, 0), (6, Peripheral ''CCM_STOP'', 0),
       (8, Peripheral ''SAI3_MCLK'', 0)])]"

definition port_d12 :: "(int \<times> (int \<times> pad_function \<times> int) list) list" where
  "port_d12 = [
    (12, [(0, Peripheral ''USDHC1_CMD'', 0), (1, FLEXPWM 1 0 True, 0), (2, Peripheral ''LPI2C3_SCL'', 1),
       (3, Peripheral ''XBAR1_INOUT04'', 0), (4, Peripheral ''LPSPI1_SCK'', 0), (5, GPIO 3 12, 0),
       (6, Peripheral ''FLEXSPIA_SS1_B'', 0), (8, Peripheral ''ENET2_TX_EN'', 0),
       (9, Peripheral ''SEMC_DQS4'', 0)]),
    (13, [(0, Peripheral ''USDHC1_CLK'', 0), (1, FLEXPWM 1 0 False, 0), (2, Peripheral ''LPI2C3_SDA'', 1),
       (3, Peripheral ''XBAR1_INOUT05'', 0), (4, Peripheral ''LPSPI1_PCS0'', 0), (5, GPIO 3 13, 0),
       (6, Peripheral ''FLEXSPIB_SS1_B'', 0), (8, Peripheral ''ENET2_TX_CLK'', 0),
       (9, Peripheral ''ENET2_REF_CLK2'', 0)]),
    (14, [(0, Peripheral ''USDHC1_DATA0'', 0), (1, FLEXPWM 1 1 True, 0), (2, Peripheral ''LPUART8_CTS_B'', 0),
       (3, Peripheral ''XBAR1_INOUT06'', 0), (4, Peripheral ''LPSPI1_SDO'', 0), (5, GPIO 3 14, 0),
       (8, Peripheral ''ENET2_RX_ER'', 0), (9, Peripheral ''SEMC_CLK5'', 0)]),
    (15, [(0, Peripheral ''USDHC1_DATA1'', 0), (1, FLEXPWM 1 1 False, 0), (2, Peripheral ''LPUART8_RTS_B'', 0),
       (3, Peripheral ''XBAR1_INOUT07'', 0), (4, Peripheral ''LPSPI1_SDI'', 0), (5, GPIO 3 15, 0),
       (8, Peripheral ''ENET2_RDATA00'', 0), (9, Peripheral ''SEMC_CLK6'', 0)]),
    (16, [(0, Peripheral ''USDHC1_DATA2'', 0), (1, FLEXPWM 1 2 True, 0), (2, Peripheral ''LPUART8_TX'', 0),
       (3, Peripheral ''XBAR1_INOUT08'', 0), (4, Peripheral ''FLEXSPIB_SS0_B'', 0), (5, GPIO 3 16, 0),
       (6, Peripheral ''CCM_CLKO1'', 0), (8, Peripheral ''ENET2_RDATA01'', 0)]),
    (17, [(0, Peripheral ''USDHC1_DATA3'', 0), (1, FLEXPWM 1 2 False, 0), (2, Peripheral ''LPUART8_RX'', 0),
       (3, Peripheral ''XBAR1_INOUT09'', 0), (4, Peripheral ''FLEXSPIB_DQS'', 0), (5, GPIO 3 17, 0),
       (6, Peripheral ''CCM_CLKO2'', 0), (8, Peripheral ''ENET2_RX_EN'', 0)])]"

definition port_d26 :: "(int \<times> (int \<times> pad_function \<times> int) list) list" where
  "port_d26 = [
    (26, [(0, Peripheral ''SEMC_RDY'', 0), (1, Peripheral ''GPT2_CAPTURE2'', 0),
       (2, Peripheral ''LPSPI1_PCS2'', 0), (3, Peripheral ''USB_OTG2_OC'', 0),
       (4, Peripheral ''ENET_MDC'', 0), (5, GPIO 3 26, 0), (6, Peripheral ''USDHC2_RESET_B'', 0),
       (9, Peripheral ''SEMC_CLK5'', 0)]),
    (27, [(0, Peripheral ''SEMC_CSX00'', 0), (1, Peripheral ''GPT2_CAPTURE1'', 0),
       (2, Peripheral ''LPSPI1_PCS3'', 0), (3, Peripheral ''USB_OTG2_PWR'', 0),
       (4, Peripheral ''ENET_MDIO'', 0), (5, GPIO 3 27, 0), (6, Peripheral ''USDHC1_VSELECT'', 0)])]"

definition port_b :: "(int \<times> (int \<times> pad_function \<times> int) list) list" where
  "port_b = port_b0 @ port_b9 @ port_b17 @ port_b25"

definition port_c :: "(int \<times> (int \<times> pad_function \<times> int) list) list" where
  "port_c = port_c0 @ port_c9 @ port_c18 @ port_c27"

definition port_d :: "(int \<times> (int \<times> pad_function \<times> int) list) list" where
  "port_d = port_d0 @ port_d12 @ port_d26"

section \<open>Choosing an alternative\<close>

definition set_pad :: "int \<Rightarrow> (int \<times> pad_function \<times> int) list \<Rightarrow> int \<Rightarrow> int \<Rightarrow> pads \<Rightarrow> pads option" where
  "set_pad pin row alt pinconf s = do {
     f \<leftarrow> map_of row alt;
     Some (s\<lparr>mux := (mux s)(pin := Some f),
             pad_conf := (if pinconf \<noteq> 0 then (pad_conf s)(pin := pinconf) else pad_conf s)\<rparr>) }"

text \<open>A pin without a case is left alone on the ports B and C and fails an assertion on port D; the other ports have no branch.\<close>

definition iomuxc_pinconf :: "int \<Rightarrow> int \<Rightarrow> int \<Rightarrow> pads \<Rightarrow> pads option" where
  "iomuxc_pinconf pin alt pinconf s =
     (if 32 \<le> pin \<and> pin \<le> 63 then
        (case map_of port_b (pin - 32) of Some row \<Rightarrow> set_pad pin row alt pinconf s | None \<Rightarrow> Some s)
      else if 64 \<le> pin \<and> pin \<le> 95 then
        (case map_of port_c (pin - 64) of Some row \<Rightarrow> set_pad pin row alt pinconf s | None \<Rightarrow> Some s)
      else if 96 \<le> pin \<and> pin \<le> 127 then
        (case map_of port_d (pin - 96) of Some row \<Rightarrow> set_pad pin row alt pinconf s | None \<Rightarrow> None)
      else Some s)"

text \<open>The channels of \<open>PWMCH_enum\<close>, each with its pin and alternative.\<close>

definition pwm_pins :: "(int \<times> int \<times> int) list" where
  "pwm_pins = [
     (45, 108, 1), (46, 151, 1), (40, 109, 1), (41, 152, 1), (55, 110, 1), (56, 153, 1), (50, 111, 1),
     (51, 154, 1), (65, 112, 1), (66, 155, 1), (60, 113, 1), (61, 156, 1), (75, 42, 1), (76, 80, 6),
     (77, 96, 2), (78, 120, 1), (79, 140, 4), (70, 43, 1), (71, 81, 6), (72, 97, 2), (73, 121, 1),
     (74, 141, 4), (85, 70, 2), (86, 134, 1), (80, 71, 2), (81, 135, 1), (95, 72, 2), (96, 136, 1),
     (90, 73, 2), (91, 137, 1), (105, 74, 2), (106, 138, 1), (100, 75, 2), (101, 139, 1), (115, 32, 1),
     (116, 82, 6), (117, 98, 2), (118, 147, 1), (119, 41, 1), (110, 33, 1), (111, 83, 6), (112, 99, 2),
     (113, 148, 1), (125, 157, 1), (120, 158, 1), (135, 159, 1), (130, 114, 1), (145, 115, 1), (140, 116, 1),
     (155, 149, 1), (150, 150, 1), (165, 56, 1), (166, 128, 1), (160, 129, 1), (175, 57, 1), (176, 130, 1),
     (170, 131, 1), (185, 94, 1), (186, 132, 1), (180, 133, 1), (195, 95, 1), (196, 145, 1), (190, 146, 1)]"

definition PWM_PIN_CONF :: int where "PWM_PIN_CONF = 4208"

definition pwm_iomuxc :: "int \<Rightarrow> pads \<Rightarrow> pads option" where
  "pwm_iomuxc pwmch s = do {
     (pin, alt) \<leftarrow> map_of pwm_pins pwmch;
     iomuxc_pinconf pin alt PWM_PIN_CONF s }"

text \<open>The phases of \<open>QTIMER_PIN_enum\<close>.\<close>

fun qtimer_pins :: "int \<Rightarrow> (int \<times> int \<times> int) list" where
  "qtimer_pins qtimern =
     (if qtimern = 1 then [(12, 64, 1), (15, 65, 1), (18, 66, 1), (21, 88, 1)]
      else if qtimern = 2 then [(24, 67, 1), (25, 147, 4), (27, 68, 1), (28, 148, 4), (30, 69, 1), (31, 149, 4), (33, 89, 1),
     (34, 150, 4)]
      else if qtimern = 3 then [(36, 48, 1), (37, 70, 1), (38, 143, 4), (39, 49, 1), (40, 71, 1), (41, 144, 4), (42, 50, 1), (43, 72, 1),
     (44, 145, 4), (45, 51, 1), (46, 90, 1), (47, 146, 4)]
      else if qtimern = 4 then [(48, 73, 1), (51, 74, 1), (54, 75, 1), (57, 91, 1)]
      else [])"

definition QTIMER_PIN_CONF :: int where "QTIMER_PIN_CONF = 4208"

definition qtimer_iomuxc :: "int \<Rightarrow> int \<Rightarrow> int \<Rightarrow> pads \<Rightarrow> pads option" where
  "qtimer_iomuxc qtimern phaseA phaseB s =
     (if phaseA div 3 = phaseB div 3 then None
      else do {
        (pin, alt) \<leftarrow> map_of (qtimer_pins qtimern) phaseA;
        s \<leftarrow> iomuxc_pinconf pin alt QTIMER_PIN_CONF s;
        (pin, alt) \<leftarrow> map_of (qtimer_pins qtimern) phaseB;
        iomuxc_pinconf pin alt QTIMER_PIN_CONF s })"


section \<open>Where the outputs go\<close>

text \<open>The output a channel number stands for: the module, the submodule, and whether A or B.\<close>

definition pwm_output :: "int \<Rightarrow> pad_function" where
  "pwm_output ch = FLEXPWM (ch div 40) (ch mod 40 div 10) (ch mod 40 mod 10 div 5 = 1)"

definition pads_reset :: pads where
  "pads_reset = \<lparr>mux = (\<lambda>_. None), pad_conf = (\<lambda>_. 0)\<rparr>"

text \<open>What \<open>pwm_iomuxc\<close> does for a channel after the reset: its own output is selected, another function is, nothing is changed,
  or an assertion fails.\<close>

datatype route = Routed | Misrouted | Untouched | Refused

definition pwm_route :: "int \<Rightarrow> route" where
  "pwm_route ch = (case pwm_iomuxc ch pads_reset of
     None \<Rightarrow> Refused
   | Some s \<Rightarrow> (case map (mux s \<circ> fst \<circ> snd) (filter (\<lambda>r. fst r = ch) pwm_pins) of
       [Some f] \<Rightarrow> if f = (pwm_output ch, 0) then Routed else Misrouted
     | _ \<Rightarrow> Untouched))"

lemma iomuxc_pinconf_any:
  assumes "iomuxc_pinconf pin alt conf pads_reset = Some t" "mux t pin = Some f" "conf \<noteq> 0"
  shows "iomuxc_pinconf pin alt conf s
    = Some (s\<lparr>mux := (mux s)(pin := Some f), pad_conf := (pad_conf s)(pin := conf)\<rparr>)"
  using assms
  by (auto simp: iomuxc_pinconf_def set_pad_def pads_reset_def bind_eq_Some_conv split: option.splits if_splits)

text \<open>Alternative 5 of every pin with a table is its bit of its port.\<close>

definition has_pad :: "int \<Rightarrow> bool" where
  "has_pad pin \<longleftrightarrow> pin - 32 \<in> fst ` set port_b \<or> pin - 64 \<in> fst ` set port_c \<or> pin - 96 \<in> fst ` set port_d"

lemma port_ranges:
  "list_all (\<lambda>(n, row). 0 \<le> n \<and> n < 32) port_b" "list_all (\<lambda>(n, row). 0 \<le> n \<and> n < 32) port_c"
  "list_all (\<lambda>(n, row). 0 \<le> n \<and> n < 32) port_d"
  by code_simp+

lemma gpio_rows:
  "list_all (\<lambda>(n, row). map_option fst (map_of row 5) = Some (GPIO 1 n)) port_b"
  "list_all (\<lambda>(n, row). map_option fst (map_of row 5) = Some (GPIO 2 n)) port_c"
  "list_all (\<lambda>(n, row). map_option fst (map_of row 5) = Some (GPIO 3 n)) port_d"
  by code_simp+

lemma gpio_row:
  assumes "list_all (\<lambda>(n, row). map_option fst (map_of row 5) = Some (GPIO p n)) port" "k \<in> fst ` set port"
  obtains row i where "map_of port k = Some row" "map_of row 5 = Some (GPIO p k, i)"
proof -
  obtain row where r: "map_of port k = Some row"
    using assms(2) by (cases "map_of port k") (auto simp: map_of_eq_None_iff)
  from map_of_SomeD [OF r] assms(1) have "map_option fst (map_of row 5) = Some (GPIO p k)" by (auto simp: list_all_iff)
  with r show thesis by (auto intro: that)
qed

lemma iomuxc_gpio:
  assumes "has_pad pin"
  obtains i where "iomuxc_pinconf pin 5 conf s = Some (s\<lparr>mux := (mux s)(pin := Some (GPIO (pin div 32) (pin mod 32), i)),
    pad_conf := (if conf \<noteq> 0 then (pad_conf s)(pin := conf) else pad_conf s)\<rparr>)"
proof -
  consider "pin - 32 \<in> fst ` set port_b" | "pin - 64 \<in> fst ` set port_c" | "pin - 96 \<in> fst ` set port_d"
    using assms by (auto simp: has_pad_def)
  then show thesis
  proof cases
    case 1
    then have b: "32 \<le> pin" "pin \<le> 63" using port_ranges(1) by (auto simp: list_all_iff)
    then have e: "pin div 32 = 1" "pin mod 32 = pin - 32" by presburger+
    obtain row i where "map_of port_b (pin - 32) = Some row" "map_of row 5 = Some (GPIO 1 (pin - 32), i)"
      by (rule gpio_row [OF gpio_rows(1) 1])
    then show thesis using b e by (intro that [of i]) (simp add: iomuxc_pinconf_def set_pad_def)
  next
    case 2
    then have b: "64 \<le> pin" "pin \<le> 95" using port_ranges(2) by (auto simp: list_all_iff)
    then have e: "pin div 32 = 2" "pin mod 32 = pin - 64" by presburger+
    obtain row i where "map_of port_c (pin - 64) = Some row" "map_of row 5 = Some (GPIO 2 (pin - 64), i)"
      by (rule gpio_row [OF gpio_rows(2) 2])
    then show thesis using b e by (intro that [of i]) (simp add: iomuxc_pinconf_def set_pad_def)
  next
    case 3
    then have b: "96 \<le> pin" "pin \<le> 127" using port_ranges(3) by (auto simp: list_all_iff)
    then have e: "pin div 32 = 3" "pin mod 32 = pin - 96" by presburger+
    obtain row i where "map_of port_d (pin - 96) = Some row" "map_of row 5 = Some (GPIO 3 (pin - 96), i)"
      by (rule gpio_row [OF gpio_rows(3) 3])
    then show thesis using b e by (intro that [of i]) (simp add: iomuxc_pinconf_def set_pad_def)
  qed
qed

lemma routes:
  "map pwm_route (map fst pwm_pins) = [
     Routed, Untouched, Routed, Untouched, Routed, Untouched, Routed, Untouched, Routed, Untouched,
     Routed, Untouched, Routed, Routed, Routed, Refused, Untouched, Routed, Routed, Routed, Refused,
     Untouched, Routed, Untouched, Routed, Untouched, Routed, Untouched, Routed, Untouched, Routed,
     Untouched, Routed, Untouched, Misrouted, Routed, Routed, Untouched, Routed, Misrouted, Routed,
     Routed, Untouched, Untouched, Untouched, Untouched, Refused, Refused, Refused, Untouched, Untouched,
     Routed, Untouched, Untouched, Routed, Untouched, Untouched, Routed, Untouched, Untouched, Routed,
     Untouched, Untouched]"
  by code_simp

section \<open>Property\<close>

text \<open>
  C38: of the 63 PWM channels the seven of the car's servos and motors, with 20 others, are connected to their pin;
  B0 and B1 get a crossbar signal instead, because the table asks for their alternative 1 and the output is
  alternative 0; five channels on port D end in a failed assertion, and 29 whose pin has no table are accepted
  without connecting anything.
\<close>

theorem pwm_routing:
  "list_all (\<lambda>ch. pwm_route ch = Routed) [185, 45, 40, 77, 72, 117, 112]
   \<and> length (filter (\<lambda>ch. pwm_route ch = Routed) (map fst pwm_pins)) = 27
   \<and> filter (\<lambda>ch. pwm_route ch = Misrouted) (map fst pwm_pins) = [115, 110]
   \<and> filter (\<lambda>ch. pwm_route ch = Refused) (map fst pwm_pins) = [78, 73, 130, 145, 140]
   \<and> length (filter (\<lambda>ch. pwm_route ch = Untouched) (map fst pwm_pins)) = 29"
  using routes by (simp add: pwm_pins_def)

end
