(* ===== verification/Gpio.thy ===== *)
theory Gpio
  imports Pads "HOL-Library.Word"
begin

text \<open>
  The general purpose pins: \<open>zf_gpio.c\<close> on the port registers of \<open>fsl_gpio.c\<close> and \<open>fsl_gpio.h\<close>, which are words of 32
  bits.  The pad status comes from the pins.  Port \<open>n\<close> of the fast pins is port \<open>n + 5\<close>.  The mask of pin 31, which C
  writes as a signed shift into the sign bit, is taken as bit 31.
\<close>

unbundle bit_operations_syntax

section \<open>State\<close>

record gpio_type =
  DR :: "32 word"
  GDIR :: "32 word"
  PSR :: "32 word"
  ICR1 :: "32 word"
  ICR2 :: "32 word"
  IMR :: "32 word"
  ISR :: "32 word"
  EDGE_SEL :: "32 word"

text \<open>All ports by number, the mux, the registers that choose the fast ports, the interrupts the core accepts.\<close>

record gpio =
  port :: "int \<Rightarrow> gpio_type"
  pads :: pads
  GPR :: "int \<Rightarrow> 32 word"
  irq_enabled :: "int \<Rightarrow> bool"

datatype GPIODIR_enum = GPI | GPO

definition pin_mask :: "int \<Rightarrow> 32 word" where
  "pin_mask pin = push_bit (nat pin) 1"

text \<open>\<open>PORTPTR[n]\<close>: nine ports, behind a null pointer.\<close>

definition with_port :: "int \<Rightarrow> (gpio_type \<Rightarrow> gpio_type option) \<Rightarrow> gpio \<Rightarrow> gpio option" where
  "with_port n f s = (if 1 \<le> n \<and> n \<le> 9 then do { b \<leftarrow> f (port s n); Some (s\<lparr>port := (port s)(n := b)\<rparr>) } else None)"

section \<open>Port registers\<close>

definition GPIO_PinWrite :: "int \<Rightarrow> int \<Rightarrow> gpio_type \<Rightarrow> gpio_type option" where
  "GPIO_PinWrite pin out b =
     (if pin < 32 then Some (if out = 0 then b\<lparr>DR := DR b AND NOT (pin_mask pin)\<rparr> else b\<lparr>DR := DR b OR pin_mask pin\<rparr>) else None)"

definition GPIO_PortSet :: "32 word \<Rightarrow> gpio_type \<Rightarrow> gpio_type" where
  "GPIO_PortSet m b = b\<lparr>DR := DR b OR m\<rparr>"

definition GPIO_PortClear :: "32 word \<Rightarrow> gpio_type \<Rightarrow> gpio_type" where
  "GPIO_PortClear m b = b\<lparr>DR := DR b AND NOT m\<rparr>"

definition GPIO_PortToggle :: "32 word \<Rightarrow> gpio_type \<Rightarrow> gpio_type" where
  "GPIO_PortToggle m b = b\<lparr>DR := DR b XOR m\<rparr>"

definition GPIO_PinReadPadStatus :: "int \<Rightarrow> gpio_type \<Rightarrow> int option" where
  "GPIO_PinReadPadStatus pin b = (if pin < 32 then Some (uint (drop_bit (nat pin) (PSR b) AND 1)) else None)"

definition GPIO_PinRead :: "int \<Rightarrow> gpio_type \<Rightarrow> int option" where
  "GPIO_PinRead pin b = (if pin < 32 then Some (uint (drop_bit (nat pin) (DR b) AND 1)) else None)"

definition icr_mode :: "int \<Rightarrow> int \<Rightarrow> 32 word \<Rightarrow> 32 word" where
  "icr_mode m icrShift icr = (
     let three = push_bit (2 * nat icrShift) 3 in
     if m = 1 then icr AND NOT three
     else if m = 2 then (icr AND NOT three) OR push_bit (2 * nat icrShift) 1
     else if m = 3 then (icr AND NOT three) OR push_bit (2 * nat icrShift) 2
     else if m = 4 then icr OR three
     else icr)"

definition GPIO_PinSetInterruptConfig :: "int \<Rightarrow> int \<Rightarrow> gpio_type \<Rightarrow> gpio_type" where
  "GPIO_PinSetInterruptConfig pin m b = (
     let b = b\<lparr>EDGE_SEL := EDGE_SEL b AND NOT (pin_mask pin)\<rparr>;
         b = (if pin < 16 then b\<lparr>ICR1 := icr_mode m pin (ICR1 b)\<rparr> else b\<lparr>ICR2 := icr_mode m (pin - 16) (ICR2 b)\<rparr>) in
     if m = 5 then b\<lparr>EDGE_SEL := EDGE_SEL b OR pin_mask pin\<rparr> else b)"

definition GPIO_PinInit :: "int \<Rightarrow> GPIODIR_enum \<Rightarrow> int \<Rightarrow> int \<Rightarrow> gpio_type \<Rightarrow> gpio_type option" where
  "GPIO_PinInit pin direction outputLogic interruptMode b = do {
     let b = b\<lparr>IMR := IMR b AND NOT (pin_mask pin)\<rparr>;
     b \<leftarrow> (if direction = GPI then Some (b\<lparr>GDIR := GDIR b AND NOT (pin_mask pin)\<rparr>)
          else do {
            b \<leftarrow> GPIO_PinWrite pin outputLogic b;
            Some (b\<lparr>GDIR := GDIR b OR pin_mask pin\<rparr>) });
     Some (GPIO_PinSetInterruptConfig pin interruptMode b) }"

section \<open>Pins\<close>

definition gpio_init :: "int \<Rightarrow> GPIODIR_enum \<Rightarrow> int \<Rightarrow> int \<Rightarrow> gpio \<Rightarrow> gpio option" where
  "gpio_init pin dir dat pinconf s = do {
     p \<leftarrow> iomuxc_pinconf pin 5 pinconf (pads s);
     with_port (pin div 32) (GPIO_PinInit (pin mod 32) dir (if dat \<noteq> 0 then 1 else 0) 0) (s\<lparr>pads := p\<rparr>) }"

definition gpio_set :: "int \<Rightarrow> int \<Rightarrow> gpio \<Rightarrow> gpio option" where
  "gpio_set pin dat s =
     (if dat \<noteq> 0 then with_port (pin div 32) (Some \<circ> GPIO_PortSet (pin_mask (pin mod 32))) s
      else with_port (pin div 32) (Some \<circ> GPIO_PortClear (pin_mask (pin mod 32))) s)"

definition gpio_get :: "int \<Rightarrow> gpio \<Rightarrow> int option" where
  "gpio_get pin s = (if 1 \<le> pin div 32 \<and> pin div 32 \<le> 9 then GPIO_PinReadPadStatus (pin mod 32) (port s (pin div 32)) else None)"

definition gpio_dir :: "int \<Rightarrow> GPIODIR_enum \<Rightarrow> gpio \<Rightarrow> gpio option" where
  "gpio_dir pin dir s = with_port (pin div 32) (\<lambda>b. Some (
     if dir = GPI then b\<lparr>GDIR := GDIR b AND NOT (pin_mask (pin mod 32))\<rparr>
     else b\<lparr>GDIR := GDIR b OR pin_mask (pin mod 32)\<rparr>)) s"

definition gpio_toggle :: "int \<Rightarrow> gpio \<Rightarrow> gpio option" where
  "gpio_toggle pin s = with_port (pin div 32) (Some \<circ> GPIO_PortToggle (pin_mask (pin mod 32))) s"

definition GPIO1_Combined_0_15_IRQn :: int where "GPIO1_Combined_0_15_IRQn = 80"

definition gpio_interrupt_init :: "int \<Rightarrow> int \<Rightarrow> int \<Rightarrow> gpio \<Rightarrow> gpio option" where
  "gpio_interrupt_init pin trigger pinconf s = do {
     p \<leftarrow> iomuxc_pinconf pin 5 pinconf (pads s);
     s \<leftarrow> with_port (pin div 32) (GPIO_PinInit (pin mod 32) GPI 0 trigger) (s\<lparr>pads := p\<rparr>);
     s \<leftarrow> with_port (pin div 32) (\<lambda>b. Some (b\<lparr>IMR := IMR b OR pin_mask (pin mod 32)\<rparr>)) s;
     Some (s\<lparr>irq_enabled := (irq_enabled s)(pin div 16 - 2 + GPIO1_Combined_0_15_IRQn := True)\<rparr>) }"

section \<open>Fast pins\<close>

definition F0 :: int where "F0 = 160"

definition fast_gpio_init :: "int \<Rightarrow> GPIODIR_enum \<Rightarrow> int \<Rightarrow> int \<Rightarrow> gpio \<Rightarrow> gpio option" where
  "fast_gpio_init pin dir dat pinconf s = do {
     p \<leftarrow> iomuxc_pinconf pin 5 pinconf (pads s);
     let s = s\<lparr>pads := p\<rparr>;
     let n = pin div 32;
     let s = (if n = 1 \<or> n = 2 \<or> n = 3
              then s\<lparr>GPR := (GPR s)(25 + n := GPR s (25 + n) OR pin_mask (pin mod 32))\<rparr> else s);
     let pin = pin + F0;
     with_port (pin div 32) (\<lambda>b. do {
       let b = b\<lparr>IMR := IMR b AND NOT (pin_mask (pin mod 32))\<rparr>;
       b \<leftarrow> (if dir = GPI then Some (b\<lparr>GDIR := GDIR b AND NOT (pin_mask (pin mod 32))\<rparr>)
            else do {
              b \<leftarrow> GPIO_PinWrite (pin mod 32) dat b;
              Some (b\<lparr>GDIR := GDIR b OR pin_mask (pin mod 32)\<rparr>) });
       Some (GPIO_PinSetInterruptConfig (pin mod 32) 0 b) }) s }"

definition fast_gpio_set :: "int \<Rightarrow> int \<Rightarrow> gpio \<Rightarrow> gpio option" where
  "fast_gpio_set pin dat s =
     (if dat \<noteq> 0 then with_port ((pin + F0) div 32) (Some \<circ> GPIO_PortSet (pin_mask (pin mod 32))) s
      else with_port ((pin + F0) div 32) (Some \<circ> GPIO_PortClear (pin_mask (pin mod 32))) s)"

definition fast_gpio_get :: "int \<Rightarrow> gpio \<Rightarrow> int option" where
  "fast_gpio_get pin s = (if 1 \<le> (pin + F0) div 32 \<and> (pin + F0) div 32 \<le> 9
     then GPIO_PinRead (pin mod 32) (port s ((pin + F0) div 32)) else None)"

definition fast_gpio_dir :: "int \<Rightarrow> GPIODIR_enum \<Rightarrow> gpio \<Rightarrow> gpio option" where
  "fast_gpio_dir pin dir s = with_port ((pin + F0) div 32) (\<lambda>b. Some (
     if dir = GPI then b\<lparr>GDIR := GDIR b AND NOT (pin_mask (pin mod 32))\<rparr>
     else b\<lparr>GDIR := GDIR b OR pin_mask (pin mod 32)\<rparr>)) s"

definition fast_gpio_toggle :: "int \<Rightarrow> gpio \<Rightarrow> gpio option" where
  "fast_gpio_toggle pin s = with_port ((pin + F0) div 32) (Some \<circ> GPIO_PortToggle (pin_mask (pin mod 32))) s"


section \<open>Registers bit by bit\<close>

lemma bit_pin_mask: "0 \<le> k \<Longrightarrow> k < 32 \<Longrightarrow> bit (pin_mask k) n \<longleftrightarrow> n = nat k"
  by (auto simp: pin_mask_def bit_simps)

lemma bit_no: "0 \<le> k \<Longrightarrow> k < (32 :: int) \<Longrightarrow> nat k < 32"
  by simp

text \<open>What the registers say of a pin.\<close>

record pin_view =
  levels :: "int \<Rightarrow> bool"
  outputs :: "int \<Rightarrow> bool"
  fast :: "int \<Rightarrow> bool"

definition view :: "gpio \<Rightarrow> pin_view" where
  "view s = \<lparr>levels = (\<lambda>pin. bit (DR (port s (pin div 32))) (nat (pin mod 32))),
     outputs = (\<lambda>pin. bit (GDIR (port s (pin div 32))) (nat (pin mod 32))),
     fast = (\<lambda>pin. bit (GPR s (25 + pin div 32)) (nat (pin mod 32)))\<rparr>"

lemma same_pin: "p div 32 = q div 32 \<and> nat (p mod 32) = nat (q mod 32) \<longleftrightarrow> p = (q :: int)"
proof
  assume "p div 32 = q div 32 \<and> nat (p mod 32) = nat (q mod 32)"
  moreover have "0 \<le> p mod 32" "0 \<le> q mod 32" by simp_all
  ultimately have "p div 32 = q div 32" "p mod 32 = q mod 32" by linarith+
  then show "p = q" by (metis mult_div_mod_eq)
qed simp

text \<open>The effect of a register function on one bit of data and one of direction.\<close>

definition acts :: "(gpio_type \<Rightarrow> gpio_type option) \<Rightarrow> int \<Rightarrow> (bool \<Rightarrow> bool) \<Rightarrow> (bool \<Rightarrow> bool) \<Rightarrow> bool" where
  "acts f k lv dr \<longleftrightarrow> (\<forall>b. runs (f b) (\<lambda>c. (\<forall>n. bit (DR c) n = (if n = nat k then lv (bit (DR b) n) else bit (DR b) n))
     \<and> (\<forall>n. bit (GDIR c) n = (if n = nat k then dr (bit (GDIR b) n) else bit (GDIR b) n))))"

lemma with_port_view:
  assumes "acts f (pin mod 32) lv dr" "1 \<le> pin div 32" "pin div 32 \<le> 9"
  shows "runs (with_port (pin div 32) f s) (\<lambda>t. view t = (view s)
     \<lparr>levels := (levels (view s))(pin := lv (levels (view s) pin)), outputs := (outputs (view s))(pin := dr (outputs (view s) pin))\<rparr>
     \<and> pads t = pads s)"
proof -
  obtain c where c: "f (port s (pin div 32)) = Some c"
    "\<And>n. bit (DR c) n = (if n = nat (pin mod 32) then lv (bit (DR (port s (pin div 32))) n) else bit (DR (port s (pin div 32))) n)"
    "\<And>n. bit (GDIR c) n = (if n = nat (pin mod 32) then dr (bit (GDIR (port s (pin div 32))) n) else bit (GDIR (port s (pin div 32))) n)"
    using assms(1) unfolding acts_def by (auto elim!: runsE dest!: spec [of _ "port s (pin div 32)"])
  let ?t = "s\<lparr>port := (port s)(pin div 32 := c)\<rparr>"
  have "bit (DR (port ?t (p div 32))) (nat (p mod 32)) = ((levels (view s))(pin := lv (levels (view s) pin))) p"
    "bit (GDIR (port ?t (p div 32))) (nat (p mod 32)) = ((outputs (view s))(pin := dr (outputs (view s) pin))) p" for p
    using same_pin [of p pin] by (cases "p div 32 = pin div 32"; simp add: c view_def; blast)+
  then have "view ?t = (view s)\<lparr>levels := (levels (view s))(pin := lv (levels (view s) pin)),
      outputs := (outputs (view s))(pin := dr (outputs (view s) pin))\<rparr>"
    by (simp add: view_def fun_eq_iff)
  then show ?thesis using assms(2,3) by (simp add: with_port_def c)
qed

section \<open>Operations\<close>

text \<open>The calls, and what they do to the view: a fast pin is the pin five ports further, and its set up connects the pad to it.\<close>

datatype pin_op =
    Init int GPIODIR_enum int int
  | Set_to int int
  | Dir int GPIODIR_enum
  | Toggle int
  | Fast_init int GPIODIR_enum int int
  | Fast_set int int
  | Fast_dir int GPIODIR_enum
  | Fast_toggle int

fun pin_call :: "pin_op \<Rightarrow> gpio \<Rightarrow> gpio option" where
  "pin_call (Init pin dir dat conf) s = gpio_init pin dir dat conf s"
| "pin_call (Set_to pin dat) s = gpio_set pin dat s"
| "pin_call (Dir pin dir) s = gpio_dir pin dir s"
| "pin_call (Toggle pin) s = gpio_toggle pin s"
| "pin_call (Fast_init pin dir dat conf) s = fast_gpio_init pin dir dat conf s"
| "pin_call (Fast_set pin dat) s = fast_gpio_set pin dat s"
| "pin_call (Fast_dir pin dir) s = fast_gpio_dir pin dir s"
| "pin_call (Fast_toggle pin) s = fast_gpio_toggle pin s"

fun op_pin :: "pin_op \<Rightarrow> int" where
  "op_pin (Init pin _ _ _) = pin" | "op_pin (Set_to pin _) = pin" | "op_pin (Dir pin _) = pin" | "op_pin (Toggle pin) = pin"
| "op_pin (Fast_init pin _ _ _) = pin" | "op_pin (Fast_set pin _) = pin" | "op_pin (Fast_dir pin _) = pin"
| "op_pin (Fast_toggle pin) = pin"

definition set_level :: "int \<Rightarrow> bool \<Rightarrow> pin_view \<Rightarrow> pin_view" where
  "set_level pin b v = v\<lparr>levels := (levels v)(pin := b)\<rparr>"

definition set_dir :: "int \<Rightarrow> GPIODIR_enum \<Rightarrow> pin_view \<Rightarrow> pin_view" where
  "set_dir pin dir v = v\<lparr>outputs := (outputs v)(pin := dir = GPO)\<rparr>"

definition init_view :: "int \<Rightarrow> GPIODIR_enum \<Rightarrow> int \<Rightarrow> pin_view \<Rightarrow> pin_view" where
  "init_view pin dir dat v = set_dir pin dir (if dir = GPO then set_level pin (dat \<noteq> 0) v else v)"

fun view_step :: "pin_op \<Rightarrow> pin_view \<Rightarrow> pin_view" where
  "view_step (Init pin dir dat _) v = init_view pin dir dat v"
| "view_step (Set_to pin dat) v = set_level pin (dat \<noteq> 0) v"
| "view_step (Dir pin dir) v = set_dir pin dir v"
| "view_step (Toggle pin) v = set_level pin (\<not> levels v pin) v"
| "view_step (Fast_init pin dir dat _) v = init_view (pin + 160) dir dat (v\<lparr>fast := (fast v)(pin := True)\<rparr>)"
| "view_step (Fast_set pin dat) v = set_level (pin + 160) (dat \<noteq> 0) v"
| "view_step (Fast_dir pin dir) v = set_dir (pin + 160) dir v"
| "view_step (Fast_toggle pin) v = set_level (pin + 160) (\<not> levels v (pin + 160)) v"

text \<open>The level a call drives the pad with: that of the port it is connected to.\<close>

definition pad_level :: "pin_view \<Rightarrow> int \<Rightarrow> bool" where
  "pad_level v pin = (if fast v pin then levels v (pin + 160) else levels v pin)"

lemma acts_port:
  assumes "0 \<le> k" "k < 32"
  shows "acts (Some \<circ> GPIO_PortSet (pin_mask k)) k (\<lambda>_. True) (\<lambda>d. d)"
    "acts (Some \<circ> GPIO_PortClear (pin_mask k)) k (\<lambda>_. False) (\<lambda>d. d)"
    "acts (Some \<circ> GPIO_PortToggle (pin_mask k)) k Not (\<lambda>d. d)"
    "acts (\<lambda>b. Some (if dir = GPI then b\<lparr>GDIR := GDIR b AND NOT (pin_mask k)\<rparr>
       else b\<lparr>GDIR := GDIR b OR pin_mask k\<rparr>)) k (\<lambda>l. l) (\<lambda>_. dir = GPO)"
  using assms bit_no [OF assms]
  by (cases dir; auto simp: acts_def GPIO_PortSet_def GPIO_PortClear_def GPIO_PortToggle_def bit_simps bit_pin_mask dest: bit_imp_le_length)+

lemma pin_ports:
  assumes "has_pad pin"
  shows "1 \<le> pin div 32" "pin div 32 \<le> 3"
  using assms port_ranges by (fastforce simp: has_pad_def list_all_iff)+

lemma interrupt_config: "DR (GPIO_PinSetInterruptConfig k m b) = DR b" "GDIR (GPIO_PinSetInterruptConfig k m b) = GDIR b"
  by (simp_all add: GPIO_PinSetInterruptConfig_def Let_def)

lemma acts_init:
  assumes "0 \<le> k" "k < 32"
  shows "acts (GPIO_PinInit k dir x m) k (\<lambda>l. if dir = GPO then x \<noteq> 0 else l) (\<lambda>_. dir = GPO)"
  using assms bit_no [OF assms]
  by (cases dir; auto simp: acts_def GPIO_PinInit_def GPIO_PinWrite_def Let_def interrupt_config bit_simps bit_pin_mask
      dest: bit_imp_le_length)

text \<open>A pin whose pad is connected to its bit of its port.\<close>

definition connected :: "gpio \<Rightarrow> int \<Rightarrow> bool" where
  "connected s pin \<longleftrightarrow> (\<exists>i. mux (pads s) pin = Some (GPIO (pin div 32) (pin mod 32), i))"

lemma pinconf_connects:
  assumes "has_pad pin"
  shows "runs (iomuxc_pinconf pin 5 conf (pads s)) (\<lambda>p. \<forall>t. pads t = p \<longrightarrow> connected t pin \<and> (\<forall>q. connected s q \<longrightarrow> connected t q))"
proof -
  obtain i where "iomuxc_pinconf pin 5 conf (pads s) = Some ((pads s)\<lparr>mux := (mux (pads s))(pin := Some (GPIO (pin div 32) (pin mod 32), i)),
    pad_conf := (if conf \<noteq> 0 then (pad_conf (pads s))(pin := conf) else pad_conf (pads s))\<rparr>)"
    by (rule iomuxc_gpio [OF assms])
  then show ?thesis by (auto simp: connected_def)
qed

lemma view_pads: "view (s\<lparr>pads := p\<rparr>) = view s"
  by (simp add: view_def)

lemma gpio_init_view:
  assumes "has_pad pin"
  shows "runs (gpio_init pin dir dat conf s) (\<lambda>t. view t = init_view pin dir dat (view s)
     \<and> connected t pin \<and> (\<forall>q. connected s q \<longrightarrow> connected t q))"
proof -
  obtain p where p: "iomuxc_pinconf pin 5 conf (pads s) = Some p"
    "\<forall>t. pads t = p \<longrightarrow> connected t pin \<and> (\<forall>q. connected s q \<longrightarrow> connected t q)"
    by (rule runsE [OF pinconf_connects [OF assms]])
  have k: "0 \<le> pin mod 32" "pin mod 32 < 32" by simp_all
  have b: "1 \<le> pin div 32" "pin div 32 \<le> 9" using pin_ports [OF assms] by simp_all
  obtain t where t: "with_port (pin div 32) (GPIO_PinInit (pin mod 32) dir (if dat \<noteq> 0 then 1 else 0) 0) (s\<lparr>pads := p\<rparr>) = Some t"
    "view t = (view (s\<lparr>pads := p\<rparr>))\<lparr>levels := (levels (view (s\<lparr>pads := p\<rparr>)))(pin := if dir = GPO
          then (if dat \<noteq> 0 then 1 else 0) \<noteq> (0 :: int) else levels (view (s\<lparr>pads := p\<rparr>)) pin),
       outputs := (outputs (view (s\<lparr>pads := p\<rparr>)))(pin := dir = GPO)\<rparr>" "pads t = pads (s\<lparr>pads := p\<rparr>)"
    using with_port_view [OF acts_init [OF k, of dir "if dat \<noteq> 0 then 1 else 0" 0] b, of "s\<lparr>pads := p\<rparr>"] by (auto elim!: runsE)
  have "view t = init_view pin dir dat (view s)"
    using t(2) unfolding view_pads by (cases dir) (simp_all add: init_view_def set_level_def set_dir_def)
  moreover have "connected t pin \<and> (\<forall>q. connected s q \<longrightarrow> connected t q)" using p(2) t(3) by simp
  ultimately show ?thesis by (simp add: gpio_init_def p(1) t(1))
qed

lemma view_GPR:
  assumes "1 \<le> pin div 32" "pin div 32 \<le> 3"
  shows "view (s\<lparr>GPR := (GPR s)(25 + pin div 32 := GPR s (25 + pin div 32) OR pin_mask (pin mod 32))\<rparr>)
    = (view s)\<lparr>fast := (fast (view s))(pin := True)\<rparr>"
proof -
  have k: "0 \<le> pin mod 32" "pin mod 32 < 32" by simp_all
  have "bit (if p div 32 = pin div 32 then GPR s (25 + pin div 32) OR pin_mask (pin mod 32) else GPR s (25 + p div 32)) (nat (p mod 32))
      = (if p = pin then True else bit (GPR s (25 + p div 32)) (nat (p mod 32)))" for p
  proof (cases "p = pin")
    case False
    then have "p div 32 = pin div 32 \<Longrightarrow> nat (p mod 32) \<noteq> nat (pin mod 32)" using same_pin [of p pin] by blast
    then show ?thesis using False by (simp add: bit_or_iff bit_pin_mask [OF k])
  qed (simp add: bit_or_iff bit_pin_mask [OF k])
  then show ?thesis by (simp add: view_def fun_eq_iff)
qed

lemma fast_pin: "(pin + 160) mod 32 = pin mod (32 :: int)" "(pin + 160) div 32 = pin div (32 :: int) + 5"
  using mod_mult_self1 [of pin 5 32] div_mult_self1 [of "32 :: int" pin 5] by simp_all

lemma fast_gpio_init_view:
  assumes "has_pad pin"
  shows "runs (fast_gpio_init pin dir dat conf s) (\<lambda>t. view t
       = init_view (pin + 160) dir dat ((view s)\<lparr>fast := (fast (view s))(pin := True)\<rparr>)
     \<and> connected t pin \<and> (\<forall>q. connected s q \<longrightarrow> connected t q))"
proof -
  obtain p where p: "iomuxc_pinconf pin 5 conf (pads s) = Some p"
    "\<forall>t. pads t = p \<longrightarrow> connected t pin \<and> (\<forall>q. connected s q \<longrightarrow> connected t q)"
    by (rule runsE [OF pinconf_connects [OF assms]])
  have n: "1 \<le> pin div 32" "pin div 32 \<le> 3" by (rule pin_ports [OF assms])+
  then have n3: "pin div 32 = 1 \<or> pin div 32 = 2 \<or> pin div 32 = 3" by linarith
  note m = fast_pin [of pin]
  have k: "0 \<le> (pin + 160) mod 32" "(pin + 160) mod 32 < 32" by simp_all
  have b: "1 \<le> (pin + 160) div 32" "(pin + 160) div 32 \<le> 9" using n by (simp_all add: m)
  define u where "u = s\<lparr>pads := p, GPR := (GPR s)(25 + pin div 32 := GPR s (25 + pin div 32) OR pin_mask (pin mod 32))\<rparr>"
  have vu: "view u = (view s)\<lparr>fast := (fast (view s))(pin := True)\<rparr>"
    using view_GPR [OF n, of "s\<lparr>pads := p\<rparr>"] by (simp add: u_def view_pads)
  define f where "f = GPIO_PinInit ((pin + 160) mod 32) dir dat 0"
  obtain t where t: "with_port ((pin + 160) div 32) f u = Some t"
    "view t = (view u)\<lparr>levels := (levels (view u))(pin + 160 := if dir = GPO then dat \<noteq> 0 else levels (view u) (pin + 160)),
       outputs := (outputs (view u))(pin + 160 := dir = GPO)\<rparr>" "pads t = pads u"
    using with_port_view [OF acts_init [OF k, of dir dat 0] b, of u] by (auto simp: f_def elim!: runsE)
  have "view t = init_view (pin + 160) dir dat (view u)"
    using t(2) by (cases dir) (simp_all add: init_view_def set_level_def set_dir_def)
  moreover have "connected t pin \<and> (\<forall>q. connected s q \<longrightarrow> connected t q)" using p(2) t(3) by (simp add: u_def)
  moreover have "fast_gpio_init pin dir dat conf s = with_port ((pin + 160) div 32) f u"
    unfolding fast_gpio_init_def p(1) f_def u_def GPIO_PinInit_def F0_def Let_def bind.bind_lunit using n3 by (simp add: m)
  ultimately show ?thesis using t(1) by (simp add: vu)
qed

lemma acts_call:
  assumes "acts f (pin mod 32) lv dr" "1 \<le> pin div 32" "pin div 32 \<le> 9"
    and "(view s)\<lparr>levels := (levels (view s))(pin := lv (levels (view s) pin)), outputs := (outputs (view s))(pin := dr (outputs (view s) pin))\<rparr> = v"
  shows "runs (with_port (pin div 32) f s) (\<lambda>t. view t = v \<and> (\<forall>q. connected s q \<longrightarrow> connected t q))"
  by (rule runs_mono [OF with_port_view [OF assms(1-3), of s]]) (simp add: connected_def assms(4))

fun inits :: "pin_op \<Rightarrow> bool" where
  "inits (Init _ _ _ _) = True" | "inits (Fast_init _ _ _ _) = True" | "inits _ = False"

lemma pin_call_view:
  assumes "has_pad (op_pin x)"
  shows "runs (pin_call x s) (\<lambda>t. view t = view_step x (view s)
     \<and> (inits x \<longrightarrow> connected t (op_pin x)) \<and> (\<forall>q. connected s q \<longrightarrow> connected t q))"
proof -
  define pin where "pin = op_pin x"
  have k: "0 \<le> pin mod 32" "pin mod 32 < 32" by simp_all
  have b: "1 \<le> pin div 32" "pin div 32 \<le> 9" using pin_ports [OF assms] by (simp_all add: pin_def)
  note m = fast_pin [of pin]
  have b': "1 \<le> (pin + 160) div 32" "(pin + 160) div 32 \<le> 9" using pin_ports [OF assms] by (simp_all add: m flip: pin_def)
  note normal = acts_call [OF acts_port(1) [OF k] b] acts_call [OF acts_port(2) [OF k] b]
    acts_call [OF acts_port(3) [OF k] b] acts_call [OF acts_port(4) [OF k] b]
  note quick = acts_call [OF acts_port(1) [OF k, folded m(1)] b'] acts_call [OF acts_port(2) [OF k, folded m(1)] b']
    acts_call [OF acts_port(3) [OF k, folded m(1)] b'] acts_call [OF acts_port(4) [OF k, folded m(1)] b']
  show ?thesis
  proof (cases x)
    case (Init p d v c)
    then show ?thesis using gpio_init_view [of p d v c s] assms by simp
  next
    case (Fast_init p d v c)
    then show ?thesis using fast_gpio_init_view [of p d v c s] assms by simp
  next
    case (Set_to p v)
    then show ?thesis using normal(1,2) by (simp add: pin_def gpio_set_def set_level_def)
  next
    case (Dir p d)
    then have e: "pin = p" by (simp add: pin_def)
    from Dir show ?thesis using normal(4) unfolding e by (simp add: gpio_dir_def set_dir_def)
  next
    case (Toggle p)
    then show ?thesis using normal(3) by (simp add: pin_def gpio_toggle_def set_level_def)
  next
    case (Fast_set p v)
    then show ?thesis using quick(1,2) by (simp add: pin_def fast_gpio_set_def set_level_def F0_def fast_pin)
  next
    case (Fast_dir p d)
    then have e: "pin = p" by (simp add: pin_def)
    from Fast_dir show ?thesis using quick(4) unfolding e fast_pin by (simp add: fast_gpio_dir_def set_dir_def F0_def fast_pin)
  next
    case (Fast_toggle p)
    then show ?thesis using quick(3) by (simp add: pin_def fast_gpio_toggle_def set_level_def F0_def fast_pin)
  qed
qed

section \<open>Property\<close>

fun pin_calls :: "pin_op list \<Rightarrow> gpio \<Rightarrow> gpio option" where
  "pin_calls [] s = Some s"
| "pin_calls (x # xs) s = do { s \<leftarrow> pin_call x s; pin_calls xs s }"

text \<open>
  C37: on every pin that has a pad, any sequence of the pin functions goes through and does to the port registers
  exactly what it does to one level and one direction per pin: a call moves its own pin only (a fast call the
  one five ports further), and every pin that was set up is connected to its bit of its port, whatever came after.
\<close>

theorem gpio_refines:
  assumes "\<forall>x \<in> set xs. has_pad (op_pin x)"
  shows "runs (pin_calls xs s) (\<lambda>t. view t = fold view_step xs (view s)
    \<and> (\<forall>x \<in> set xs. inits x \<longrightarrow> connected t (op_pin x)))"
proof -
  have "runs (pin_calls xs s) (\<lambda>t. view t = fold view_step xs (view s)
      \<and> (\<forall>x \<in> set xs. inits x \<longrightarrow> connected t (op_pin x)) \<and> (\<forall>q. connected s q \<longrightarrow> connected t q))"
    using assms
  proof (induction xs arbitrary: s)
    case (Cons x xs)
    obtain u where u: "pin_call x s = Some u" "view u = view_step x (view s)" "inits x \<longrightarrow> connected u (op_pin x)"
      "\<forall>q. connected s q \<longrightarrow> connected u q"
      using pin_call_view [of x s] Cons.prems by (auto elim!: runsE)
    have "runs (pin_calls xs u) (\<lambda>t. view t = fold view_step xs (view u)
      \<and> (\<forall>x \<in> set xs. inits x \<longrightarrow> connected t (op_pin x)) \<and> (\<forall>q. connected u q \<longrightarrow> connected t q))"
      using Cons.prems by (intro Cons.IH) simp
    then show ?case using u by (auto elim!: runsE)
  qed simp
  then show ?thesis by (rule runs_mono) blast
qed

definition gpio_reset :: gpio where
  "gpio_reset = \<lparr>port = (\<lambda>_. \<lparr>DR = 0, GDIR = 0, PSR = 0, ICR1 = 0, ICR2 = 0, IMR = 0, ISR = 0, EDGE_SEL = 0\<rparr>),
     pads = pads_reset, GPR = (\<lambda>_. 0), irq_enabled = (\<lambda>_. False)\<rparr>"

text \<open>Pin B9, an LED of the car, is switched; then it is set up as a fast pin, and the normal call no longer reaches it.\<close>

lemma gpio_refines_witness:
  "runs (pin_calls [Init 41 GPO 0 0, Set_to 41 1, Fast_init 41 GPO 0 0, Toggle 41, Fast_set 41 1] gpio_reset)
     (\<lambda>t. connected t 41 \<and> \<not> levels (view t) 41 \<and> pad_level (view t) 41)"
proof -
  let ?xs = "[Init 41 GPO 0 0, Set_to 41 1, Fast_init 41 GPO 0 0, Toggle 41, Fast_set 41 1]"
  have "has_pad 41" by code_simp
  then have "\<forall>x \<in> set ?xs. has_pad (op_pin x)" by simp
  from gpio_refines [OF this, of gpio_reset] show ?thesis
    by (rule runs_mono) (simp add: pad_level_def init_view_def set_level_def set_dir_def)
qed

end
