(* ===== verification/PwmDriver.thy ===== *)
theory PwmDriver
  imports Actuators Pads "HOL-Library.Word"
begin

text \<open>
  From a duty to the registers: \<open>pwm_init\<close>, \<open>pwm_duty\<close> and \<open>pwm_freq\<close> of \<open>zf_pwm.c\<close> with the functions of \<open>fsl_pwm.c\<close>
  they use, on words of 16 bits.  A channel is its number in \<open>PWMCH_enum\<close>; the clock's frequency is an argument.
  Writing 1 to a bit of \<open>CLDOK\<close> clears the bit of \<open>LDOK\<close> and reads back as 0, as the register is documented.
\<close>

unbundle bit_operations_syntax

section \<open>Registers\<close>

record submodule =
  CTRL2 :: "16 word"
  CTRL :: "16 word"
  INIT :: "16 word"
  VAL0 :: "16 word"
  VAL1 :: "16 word"
  VAL2 :: "16 word"
  VAL3 :: "16 word"
  VAL4 :: "16 word"
  VAL5 :: "16 word"
  OCTRL :: "16 word"
  DTCNT0 :: "16 word"
  DTCNT1 :: "16 word"
  DISMAP0 :: "16 word"

record pwm_type =
  FSTS :: "16 word"
  MCTRL :: "16 word"
  OUTEN :: "16 word"
  SM :: "int \<Rightarrow> submodule"
  gate :: "int \<Rightarrow> bool"

record pwm_regs =
  PWMPTR :: "int \<Rightarrow> pwm_type"
  pwm_pads :: pads

record pwm_config =
  enableDebugMode :: bool
  enableWait :: bool
  initializationControl :: int
  clockSource :: int
  prescale :: int
  pairOperation :: int
  reloadLogic :: int
  reloadSelect :: int
  reloadFrequency :: int
  forceTrigger :: int

record pwm_signal =
  pwmChannel :: int
  dutyCyclePercent :: int
  level :: int
  deadtimeValue :: int

definition PWM_DUTY_MAX :: int where "PWM_DUTY_MAX = 10000"

text \<open>A value in the place of a bit field, as the macros of the header write it, and single bits.\<close>

definition field :: "nat \<Rightarrow> 16 word \<Rightarrow> int \<Rightarrow> 16 word" where
  "field sh m x = push_bit sh (word_of_int x) AND m"

definition bit_at :: "int \<Rightarrow> 16 word" where
  "bit_at n = push_bit (nat n) 1"

definition PWM_CTRL_LDMOD_MASK :: "16 word" where "PWM_CTRL_LDMOD_MASK = 0x4"
definition PWM_CTRL_PRSC_MASK :: "16 word" where "PWM_CTRL_PRSC_MASK = 0x70"
definition PWM_CTRL_FULL_MASK :: "16 word" where "PWM_CTRL_FULL_MASK = 0x400"
definition PWM_CTRL_HALF_MASK :: "16 word" where "PWM_CTRL_HALF_MASK = 0x800"
definition PWM_CTRL_LDFQ_MASK :: "16 word" where "PWM_CTRL_LDFQ_MASK = 0xF000"

definition upd_SM :: "int \<Rightarrow> (submodule \<Rightarrow> submodule) \<Rightarrow> pwm_type \<Rightarrow> pwm_type" where
  "upd_SM m f b = b\<lparr>SM := (SM b)(m := f (SM b m))\<rparr>"

definition write_MCTRL :: "16 word \<Rightarrow> pwm_type \<Rightarrow> pwm_type" where
  "write_MCTRL v b = b\<lparr>MCTRL := v AND NOT 0xF0 AND NOT (drop_bit 4 v AND 0xF)\<rparr>"

section \<open>The driver of the chip's vendor\<close>

definition PWM_Init :: "int \<Rightarrow> pwm_config \<Rightarrow> pwm_type \<Rightarrow> (bool \<times> pwm_type) option" where
  "PWM_Init m c b =
     (if clockSource c = 2 \<and> m = 0 then Some (False, b)
      else if reloadSelect c = 1 \<and> m = 0 then Some (False, b)
      else do {
        let b = b\<lparr>gate := (gate b)(m := True), FSTS := FSTS b OR 0xF\<rparr>;
        let reg = CTRL2 (SM b m) AND NOT (0x3 OR 0x38 OR 0x300 OR 0x2000 OR 0x4000 OR 0x8000 OR 0x4);
        let reg = reg OR (field 0 0x3 (clockSource c) OR field 3 0x38 (forceTrigger c) OR field 8 0x300 (initializationControl c)
                    OR field 15 0x8000 (of_bool (enableDebugMode c)) OR field 14 0x4000 (of_bool (enableWait c))
                    OR field 2 0x4 (reloadSelect c));
        (reg, b) \<leftarrow> (if pairOperation c = 0 then Some (reg OR 0x2000, b)
                    else if pairOperation c = 1 then Some (reg, write_MCTRL (MCTRL b AND NOT (bit_at (12 + m))) b)
                    else if pairOperation c = 2 then Some (reg, write_MCTRL (MCTRL b OR bit_at (12 + m)) b)
                    else None);
        let b = upd_SM m (\<lambda>s. s\<lparr>CTRL2 := reg\<rparr>) b;
        let reg = CTRL (SM b m) AND NOT (PWM_CTRL_PRSC_MASK OR PWM_CTRL_LDFQ_MASK OR PWM_CTRL_LDMOD_MASK);
        let reg = reg OR (field 4 PWM_CTRL_PRSC_MASK (prescale c) OR field 12 PWM_CTRL_LDFQ_MASK (reloadFrequency c));
        reg \<leftarrow> (if reloadLogic c = 0 then Some (reg OR PWM_CTRL_LDMOD_MASK)
               else if reloadLogic c = 1 then Some ((reg OR PWM_CTRL_HALF_MASK) AND NOT PWM_CTRL_FULL_MASK)
               else if reloadLogic c = 2 then Some ((reg AND NOT PWM_CTRL_HALF_MASK) OR PWM_CTRL_FULL_MASK)
               else if reloadLogic c = 3 then Some (reg OR PWM_CTRL_HALF_MASK OR PWM_CTRL_FULL_MASK)
               else None);
        let b = upd_SM m (\<lambda>s. s\<lparr>CTRL := reg\<rparr>) b;
        Some (True, if forceTrigger c = 0 then upd_SM m (\<lambda>s. s\<lparr>CTRL2 := CTRL2 s OR field 6 0x40 1\<rparr>) b else b) })"

definition PWM_Deinit :: "int \<Rightarrow> pwm_type \<Rightarrow> pwm_type" where
  "PWM_Deinit m b = (write_MCTRL (MCTRL b AND NOT (bit_at (8 + m))) b)\<lparr>gate := (gate b)(m := False)\<rparr>"

definition PWM_GetDefaultConfig :: pwm_config where
  "PWM_GetDefaultConfig = \<lparr>enableDebugMode = False, enableWait = False, initializationControl = 0, clockSource = 0,
     prescale = 0, pairOperation = 0, reloadLogic = 0, reloadSelect = 0, reloadFrequency = 0, forceTrigger = 0\<rparr>"

definition PWM_StartTimer :: "int \<Rightarrow> pwm_type \<Rightarrow> pwm_type" where
  "PWM_StartTimer subModules b = write_MCTRL (MCTRL b OR field 8 0xF00 subModules) b"

definition PWM_SetPwmLdok :: "int \<Rightarrow> bool \<Rightarrow> pwm_type \<Rightarrow> pwm_type" where
  "PWM_SetPwmLdok subModules v b =
     (if v then write_MCTRL (MCTRL b OR field 0 0xF subModules) b else write_MCTRL (MCTRL b OR field 4 0xF0 subModules) b)"

definition PWM_GetComplementU16 :: "int \<Rightarrow> 16 word" where
  "PWM_GetComplementU16 v = NOT (word_of_int v) + 1"

definition high_pulse :: "int \<Rightarrow> int \<Rightarrow> int" where
  "high_pulse pulseCnt d = u16 (pulseCnt * d div PWM_DUTY_MAX)"

text \<open>The full duty is one count longer.\<close>

definition full_pulse :: "int \<Rightarrow> int \<Rightarrow> int" where
  "full_pulse d high = (if d = PWM_DUTY_MAX then if high \<noteq> 65535 then u16 (high + 1) else high else high)"

definition set_pulse :: "int \<Rightarrow> 16 word \<Rightarrow> 16 word \<Rightarrow> submodule \<Rightarrow> submodule" where
  "set_pulse ch lo hi s = (if ch = 1 then s\<lparr>VAL2 := lo, VAL3 := hi\<rparr> else s\<lparr>VAL4 := lo, VAL5 := hi\<rparr>)"

definition set_period :: "16 word \<Rightarrow> 16 word \<Rightarrow> 16 word \<Rightarrow> submodule \<Rightarrow> submodule" where
  "set_period a b c s = s\<lparr>INIT := a, VAL0 := b, VAL1 := c\<rparr>"

text \<open>One channel of \<open>PWM_SetupPwm\<close> in the modes signed centre, centre, signed edge and edge aligned.\<close>

definition setup_values :: "int \<Rightarrow> bool \<Rightarrow> int \<Rightarrow> pwm_signal \<Rightarrow> submodule \<Rightarrow> submodule option" where
  "setup_values mode first pulseCnt g s = (
     let high = full_pulse (dutyCyclePercent g) (high_pulse pulseCnt (dutyCyclePercent g));
         modulo = pulseCnt div 2 in
     if mode = 0 then
       let s = (if first then set_period (PWM_GetComplementU16 modulo) 0 (word_of_int modulo) s else s) in
       Some (set_pulse (pwmChannel g) (PWM_GetComplementU16 (high div 2)) (word_of_int (high div 2)) s)
     else if mode = 1 then
       let s = (if first then set_period 0 (word_of_int (pulseCnt div 2)) (word_of_int pulseCnt) s else s) in
       Some (set_pulse (pwmChannel g) (word_of_int (u32 (pulseCnt - high) div 2)) (word_of_int ((pulseCnt + high) div 2)) s)
     else if mode = 2 then
       let s = (if first then set_period (PWM_GetComplementU16 modulo) 0 (word_of_int modulo) s else s) in
       Some (set_pulse (pwmChannel g) (PWM_GetComplementU16 modulo) (PWM_GetComplementU16 modulo + word_of_int high) s)
     else if mode = 3 then
       let s = (if first then set_period 0 (word_of_int (pulseCnt div 2)) (word_of_int pulseCnt) s else s) in
       Some (set_pulse (pwmChannel g) 0 (word_of_int high) s)
     else None)"

definition setup_output :: "pwm_signal \<Rightarrow> submodule \<Rightarrow> submodule" where
  "setup_output g s = (
     let s = (if pwmChannel g = 1 then s\<lparr>DTCNT0 := word_of_int (deadtimeValue g)\<rparr> else s\<lparr>DTCNT1 := word_of_int (deadtimeValue g)\<rparr>);
         pol = (if pwmChannel g = 1 then 10 else 9) in
     if level g = 0 then s\<lparr>OCTRL := OCTRL s AND NOT (bit_at pol)\<rparr> else s\<lparr>OCTRL := OCTRL s OR bit_at pol\<rparr>)"

fun setup_channels :: "int \<Rightarrow> int \<Rightarrow> int \<Rightarrow> bool \<Rightarrow> pwm_signal list \<Rightarrow> pwm_type \<Rightarrow> pwm_type option" where
  "setup_channels m mode pulseCnt first [] b = Some b"
| "setup_channels m mode pulseCnt first (g # gs) b = do {
     s \<leftarrow> setup_values mode first pulseCnt g (SM b m);
     let b = upd_SM m (\<lambda>_. setup_output g s) b;
     let b = b\<lparr>OUTEN := OUTEN b OR bit_at ((if pwmChannel g = 1 then 8 else 4) + m)\<rparr>;
     setup_channels m mode pulseCnt False gs b }"

definition PWM_SetupPwm :: "int \<Rightarrow> pwm_signal list \<Rightarrow> int \<Rightarrow> int \<Rightarrow> int \<Rightarrow> pwm_type \<Rightarrow> (bool \<times> pwm_type) option" where
  "PWM_SetupPwm m chnlParams mode pwmFreq_Hz srcClock_Hz b =
     (if chnlParams = [] \<or> pwmFreq_Hz = 0 \<or> srcClock_Hz = 0 then None
      else if dutyCyclePercent (hd chnlParams) > PWM_DUTY_MAX then None
      else if length chnlParams > 2 then Some (False, b)
      else do {
        let prsc = drop_bit 4 (CTRL (SM b m) AND PWM_CTRL_PRSC_MASK);
        let pwmClock = srcClock_Hz div 2 ^ unat prsc;
        let pulseCnt = u16 (pwmClock div pwmFreq_Hz);
        b \<leftarrow> setup_channels m mode pulseCnt True chnlParams b;
        Some (True, b) })"

definition PWM_UpdatePwmDutycycle :: "int \<Rightarrow> int \<Rightarrow> int \<Rightarrow> int \<Rightarrow> pwm_type \<Rightarrow> pwm_type option" where
  "PWM_UpdatePwmDutycycle m ch mode d b =
     (if d > PWM_DUTY_MAX \<or> ch \<ge> 2 then None
      else
        let modulo = uint (VAL1 (SM b m)) in
        if mode = 0 then
          let high = high_pulse (u16 (modulo * 2)) d in
          Some (upd_SM m (set_pulse ch (PWM_GetComplementU16 (high div 2)) (word_of_int (high div 2))) b)
        else if mode = 1 then
          let high = full_pulse d (high_pulse modulo d) in
          Some (upd_SM m (set_pulse ch (word_of_int (u32 (modulo - high) div 2)) (word_of_int ((modulo + high) div 2))) b)
        else if mode = 2 then
          let high = high_pulse (u16 (modulo * 2)) d in
          Some (upd_SM m (set_pulse ch (PWM_GetComplementU16 modulo) (PWM_GetComplementU16 modulo + word_of_int high)) b)
        else if mode = 3 then
          let high = full_pulse d (high_pulse modulo d) in
          Some (upd_SM m (set_pulse ch 0 (word_of_int high)) b)
        else None)"

section \<open>The board's functions\<close>

definition pwm_num :: "int \<Rightarrow> int" where "pwm_num pwmch = u8 (pwmch div 40)"
definition pwm_module :: "int \<Rightarrow> int" where "pwm_module pwmch = u8 (pwmch mod 40 div 10)"
definition pwm_module_ch :: "int \<Rightarrow> int" where "pwm_module_ch pwmch = u8 (pwmch mod 40 mod 10 div 5)"

definition prescaler :: "int \<Rightarrow> int option" where
  "prescaler temp_prsc =
     (if temp_prsc \<le> 1 then Some 0
      else if temp_prsc \<le> 2 then Some 1
      else if temp_prsc \<le> 4 then Some 2
      else if temp_prsc \<le> 8 then Some 3
      else if temp_prsc \<le> 16 then Some 4
      else if temp_prsc \<le> 32 then Some 5
      else if temp_prsc \<le> 64 then Some 6
      else if temp_prsc \<le> 128 then Some 7
      else None)"

definition init_prescale :: "int \<Rightarrow> int \<Rightarrow> int option" where
  "init_prescale clk freq =
     (if freq = 0 \<or> u32 (freq * 65536) = 0 then None
      else
        let temp_prsc = clk div freq div 65536 in
        prescaler (if clk mod u32 (freq * 65536) \<noteq> 0 then u32 (temp_prsc + 1) else temp_prsc))"

definition freq_prescale :: "int \<Rightarrow> int \<Rightarrow> int option" where
  "freq_prescale clk freq = (if freq = 0 then None else prescaler (u16 (clk div freq div 65536)))"

definition with_pwm :: "int \<Rightarrow> (pwm_type \<Rightarrow> pwm_type option) \<Rightarrow> pwm_regs \<Rightarrow> pwm_regs option" where
  "with_pwm n f r = (if 1 \<le> n \<and> n \<le> 4 then do { b \<leftarrow> f (PWMPTR r n); Some (r\<lparr>PWMPTR := (PWMPTR r)(n := b)\<rparr>) } else None)"

definition must_succeed :: "(bool \<times> pwm_type) option \<Rightarrow> pwm_type option" where
  "must_succeed x = do { (ok, b) \<leftarrow> x; if ok then Some b else None }"

definition channel_config :: "int \<Rightarrow> pwm_config" where
  "channel_config p = PWM_GetDefaultConfig\<lparr>reloadLogic := 2, pairOperation := 0, enableDebugMode := True, prescale := p\<rparr>"

text \<open>The common end of \<open>pwm_init\<close> and \<open>pwm_freq\<close>: the signal is set up between clearing and setting \<open>LDOK\<close>.\<close>

definition start_signal :: "int \<Rightarrow> int \<Rightarrow> int \<Rightarrow> int \<Rightarrow> pwm_type \<Rightarrow> pwm_type option" where
  "start_signal clk pwmch freq d b = do {
     let m = pwm_module pwmch;
     let g = \<lparr>pwmChannel = pwm_module_ch pwmch, dutyCyclePercent = d, level = 0, deadtimeValue = 0\<rparr>;
     let b = PWM_SetPwmLdok (2 ^ nat m) False b;
     (ok, b) \<leftarrow> PWM_SetupPwm m [g] 3 freq clk b;
     let b = PWM_SetPwmLdok (2 ^ nat m) True b;
     let b = PWM_StartTimer (2 ^ nat m) b;
     Some (upd_SM m (\<lambda>s. s\<lparr>DISMAP0 := 0\<rparr>) b) }"

definition init_block :: "int \<Rightarrow> int \<Rightarrow> int \<Rightarrow> int \<Rightarrow> int \<Rightarrow> pwm_type \<Rightarrow> pwm_type option" where
  "init_block clk pwmch freq d k b = do {
     b \<leftarrow> must_succeed (PWM_Init (pwm_module pwmch) (channel_config k) b);
     let b = PWM_Deinit (pwm_module pwmch) b;
     b \<leftarrow> must_succeed (PWM_Init (pwm_module pwmch) (channel_config k) b);
     start_signal clk pwmch freq d b }"

definition zf_pwm_init :: "int \<Rightarrow> int \<Rightarrow> int \<Rightarrow> int \<Rightarrow> pwm_regs \<Rightarrow> pwm_regs option" where
  "zf_pwm_init clk pwmch freq d r = do {
     p \<leftarrow> pwm_iomuxc pwmch (pwm_pads r);
     let r = r\<lparr>pwm_pads := p\<rparr>;
     k \<leftarrow> init_prescale clk freq;
     with_pwm (pwm_num pwmch) (init_block clk pwmch freq d k) r }"

definition duty_block :: "int \<Rightarrow> int \<Rightarrow> pwm_type \<Rightarrow> pwm_type option" where
  "duty_block pwmch d b = do {
     let m = pwm_module pwmch;
     let b = PWM_SetPwmLdok (2 ^ nat m) False b;
     b \<leftarrow> PWM_UpdatePwmDutycycle m (pwm_module_ch pwmch) 3 d b;
     Some (PWM_SetPwmLdok (2 ^ nat m) True b) }"

definition zf_pwm_duty :: "int \<Rightarrow> int \<Rightarrow> pwm_regs \<Rightarrow> pwm_regs option" where
  "zf_pwm_duty pwmch d r = with_pwm (pwm_num pwmch) (duty_block pwmch d) r"

definition zf_pwm_freq :: "int \<Rightarrow> int \<Rightarrow> int \<Rightarrow> int \<Rightarrow> pwm_regs \<Rightarrow> pwm_regs option" where
  "zf_pwm_freq clk pwmch freq d r = do {
     k \<leftarrow> freq_prescale clk freq;
     let m = pwm_module pwmch;
     with_pwm (pwm_num pwmch) (\<lambda>b. do {
       b \<leftarrow> must_succeed (PWM_Init m (channel_config k) b);
       start_signal clk pwmch freq d b }) r }"

section \<open>Bits\<close>

lemma bit_70: "bit (0x70 :: 16 word) n \<longleftrightarrow> n = 4 \<or> n = 5 \<or> n = 6"
proof -
  have e: "(0x70 :: 16 word) = push_bit 4 (mask 3)" by (simp add: mask_eq_exp_minus_1)
  show ?thesis unfolding e bit_push_bit_iff bit_mask_iff by auto
qed

lemma bit_F: "bit (0xF :: 16 word) n \<longleftrightarrow> n < 4"
proof -
  have e: "(0xF :: 16 word) = mask 4" by (simp add: mask_eq_exp_minus_1)
  show ?thesis unfolding e bit_mask_iff by auto
qed

lemma bit_F0: "bit (0xF0 :: 16 word) n \<longleftrightarrow> 4 \<le> n \<and> n < 8"
proof -
  have e: "(0xF0 :: 16 word) = push_bit 4 (mask 4)" by (simp add: mask_eq_exp_minus_1)
  show ?thesis unfolding e bit_push_bit_iff bit_mask_iff by auto
qed

lemma bit_F00: "bit (0xF00 :: 16 word) n \<longleftrightarrow> 8 \<le> n \<and> n < 12"
proof -
  have e: "(0xF00 :: 16 word) = push_bit 8 (mask 4)" by (simp add: mask_eq_exp_minus_1)
  show ?thesis unfolding e bit_push_bit_iff bit_mask_iff by auto
qed

lemma bit_800: "bit (0x800 :: 16 word) n \<longleftrightarrow> n = 11" "bit (0x400 :: 16 word) n \<longleftrightarrow> n = 10"
   "bit (0x4 :: 16 word) n \<longleftrightarrow> n = 2"
proof -
  have e: "(0x800 :: 16 word) = push_bit 11 1" "(0x400 :: 16 word) = push_bit 10 1" "(0x4 :: 16 word) = push_bit 2 1" by simp_all
  show "bit (0x800 :: 16 word) n \<longleftrightarrow> n = 11" "bit (0x400 :: 16 word) n \<longleftrightarrow> n = 10" "bit (0x4 :: 16 word) n \<longleftrightarrow> n = 2"
   unfolding e bit_push_bit_iff bit_1_iff by auto
qed

lemma bit_F000: "bit (0xF000 :: 16 word) n \<longleftrightarrow> 12 \<le> n \<and> n < 16"
proof -
  have e: "(0xF000 :: 16 word) = push_bit 12 (mask 4)" by (simp add: mask_eq_exp_minus_1)
  show ?thesis unfolding e bit_push_bit_iff bit_mask_iff by auto
qed
lemma ctrl_prescale:
  assumes "0 \<le> k" "k < 8"
  shows "drop_bit 4 (((((c AND NOT (PWM_CTRL_PRSC_MASK OR PWM_CTRL_LDFQ_MASK OR PWM_CTRL_LDMOD_MASK))
       OR (field 4 PWM_CTRL_PRSC_MASK k OR field 12 PWM_CTRL_LDFQ_MASK 0)) AND NOT PWM_CTRL_HALF_MASK) OR PWM_CTRL_FULL_MASK)
       AND PWM_CTRL_PRSC_MASK)
     = (word_of_int k :: 16 word)"
proof (rule bit_word_eqI)
  fix n :: nat assume "n < LENGTH(16)"
  have "bit k n \<Longrightarrow> n < 3"
  proof (rule ccontr)
    assume "bit k n" "\<not> n < 3"
    moreover have "k = take_bit 3 k" using assms by (simp add: take_bit_int_eq_self)
    ultimately show False by (metis bit_take_bit_iff)
  qed
  moreover have "(n + 4 = 4 \<or> n + 4 = 5 \<or> n + 4 = 6) = (n < 3)" by auto
  ultimately show "bit (drop_bit 4 (((((c AND NOT (PWM_CTRL_PRSC_MASK OR PWM_CTRL_LDFQ_MASK OR PWM_CTRL_LDMOD_MASK))
       OR (field 4 PWM_CTRL_PRSC_MASK k OR field 12 PWM_CTRL_LDFQ_MASK 0)) AND NOT PWM_CTRL_HALF_MASK) OR PWM_CTRL_FULL_MASK)
       AND PWM_CTRL_PRSC_MASK)) n
     = bit (word_of_int k :: 16 word) n"
    using \<open>n < LENGTH(16)\<close>
    unfolding PWM_CTRL_PRSC_MASK_def PWM_CTRL_LDFQ_MASK_def PWM_CTRL_LDMOD_MASK_def PWM_CTRL_HALF_MASK_def PWM_CTRL_FULL_MASK_def
      field_def bit_drop_bit_eq o_def bit_and_iff bit_or_iff bit_not_iff bit_push_bit_iff bit_70 bit_800 bit_F000 bit_word_of_int_iff
    by auto
qed

lemma bit_bit_at: "0 \<le> n \<Longrightarrow> n < 16 \<Longrightarrow> bit (bit_at n) j \<longleftrightarrow> j = nat n"
  by (auto simp: bit_at_def bit_simps)

text \<open>The master control register without a pending bit of \<open>CLDOK\<close>, and its bits for a submodule.\<close>

definition clean :: "pwm_type \<Rightarrow> bool" where
  "clean b \<longleftrightarrow> (\<forall>j. 4 \<le> j \<and> j < 8 \<longrightarrow> \<not> bit (MCTRL b) j)"

lemma clean_bits: "clean b \<Longrightarrow> j < 4 \<Longrightarrow> \<not> bit (MCTRL b) (j + 4)" "clean b \<Longrightarrow> 4 \<le> j \<Longrightarrow> j < 8 \<Longrightarrow> \<not> bit (MCTRL b) j"
  by (simp_all add: clean_def)

lemma bit_write_MCTRL:
  "bit (MCTRL (write_MCTRL v b)) j \<longleftrightarrow> bit v j \<and> \<not> (4 \<le> j \<and> j < 8) \<and> \<not> (j < 4 \<and> bit v (j + 4))"
proof -
  have e: "MCTRL (write_MCTRL v b) = v AND NOT 0xF0 AND NOT (drop_bit 4 v AND 0xF)" by (simp add: write_MCTRL_def)
  show ?thesis
    unfolding e bit_and_iff bit_not_iff bit_F0 bit_drop_bit_eq o_def bit_F
    by (auto simp: add.commute dest: bit_imp_le_length)
qed

lemma write_MCTRL_clean: "clean (write_MCTRL v b)"
  by (simp add: clean_def bit_write_MCTRL)

lemma write_MCTRL_fields:
  "SM (write_MCTRL v b) = SM b" "OUTEN (write_MCTRL v b) = OUTEN b" "gate (write_MCTRL v b) = gate b"
  by (simp_all add: write_MCTRL_def)

lemma two_power_bit: "0 \<le> m \<Longrightarrow> m < 4 \<Longrightarrow> bit (word_of_int (2 ^ nat m) :: 16 word) j \<longleftrightarrow> j = nat m"
  by (auto simp: bit_simps)

lemma ldok_bits:
  assumes "0 \<le> m" "m < 4" "clean b"
  shows "bit (MCTRL (PWM_SetPwmLdok (2 ^ nat m) v b)) j \<longleftrightarrow> (if j = nat m then v else bit (MCTRL b) j)"
    "clean (PWM_SetPwmLdok (2 ^ nat m) v b)"
    "SM (PWM_SetPwmLdok (2 ^ nat m) v b) = SM b" "OUTEN (PWM_SetPwmLdok (2 ^ nat m) v b) = OUTEN b"
    "gate (PWM_SetPwmLdok (2 ^ nat m) v b) = gate b"
proof -
  have m: "nat m < 4" using assms(1,2) by simp
  have c: "bit (MCTRL b) i \<Longrightarrow> \<not> (4 \<le> i \<and> i < 8)" for i using assms(3) by (auto simp: clean_def)
  have "bit (MCTRL b OR field 0 0xF (2 ^ nat m)) i = (bit (MCTRL b) i \<or> i = nat m)"
    "bit (MCTRL b OR field 4 0xF0 (2 ^ nat m)) i = (bit (MCTRL b) i \<or> i = nat m + 4)" for i
    using m unfolding field_def bit_or_iff bit_and_iff bit_push_bit_iff two_power_bit [OF assms(1,2)] bit_F bit_F0 by auto
  then show "bit (MCTRL (PWM_SetPwmLdok (2 ^ nat m) v b)) j \<longleftrightarrow> (if j = nat m then v else bit (MCTRL b) j)"
    using m c [of j] c [of "j + 4"] by (auto simp: PWM_SetPwmLdok_def bit_write_MCTRL)
qed (simp_all add: PWM_SetPwmLdok_def write_MCTRL_clean write_MCTRL_fields)

section \<open>Numbers\<close>

lemma prescaler_Some:
  assumes "prescaler t = Some k"
  shows "0 \<le> k" "k < 8" "t \<le> 2 ^ nat k"
  using assms by (auto simp: prescaler_def split: if_splits)

text \<open>The counts of a period, and those of a pulse.\<close>

definition period :: "int \<Rightarrow> int \<Rightarrow> int \<Rightarrow> int" where
  "period clk k freq = clk div 2 ^ nat k div freq"

definition pulse :: "int \<Rightarrow> int \<Rightarrow> int" where
  "pulse p d = (if d = PWM_DUTY_MAX then min (p + 1) 65535 else p * d div PWM_DUTY_MAX)"

lemma div_less: "0 < q \<Longrightarrow> p < r * q \<Longrightarrow> p div q < (r :: int)"
proof (rule ccontr)
  assume "0 < q" "p < r * q" "\<not> p div q < r"
  then have "r * q \<le> p div q * q" by (intro mult_right_mono) simp_all
  also have "\<dots> \<le> p" using \<open>0 < q\<close> by (simp flip: minus_mod_eq_div_mult)
  finally show False using \<open>p < r * q\<close> by simp
qed

lemma init_prescale_period:
  assumes "init_prescale clk freq = Some k" "0 < freq" "freq < 65536" "0 \<le> clk" "clk < 4294967296"
    and "clk \<noteq> 2 ^ nat k * 65536 * freq"
  shows "0 \<le> k" "k < 8" "0 \<le> period clk k freq" "period clk k freq \<le> 65535"
proof -
  define F where "F = freq * 65536"
  have F: "0 < F" "u32 F = F" using assms(2,3) by (simp_all add: F_def)
  define t where "t = clk div F"
  have t: "clk div freq div 65536 = t" using assms(2) by (simp add: t_def F_def div_mult2_eq' zdiv_zmult2_eq)
  have "F \<ge> 65536" using assms(2) by (simp add: F_def)
  then have "t \<le> clk div 65536" unfolding t_def using assms(4) by (intro zdiv_mono2) simp_all
  moreover have "clk div 65536 < 65536" using assms(5) by (simp add: div_less_iff_less_mult)
  ultimately have tb: "0 \<le> t" "t \<le> 65536" using assms(4) F(1) by (simp_all add: t_def pos_imp_zdiv_nonneg_iff)
  have e: "prescaler (if clk mod F \<noteq> 0 then t + 1 else t) = Some k"
    using assms(1,2) F tb unfolding init_prescale_def t by (auto simp: Let_def F_def [symmetric] mult.commute split: if_splits)
  note k = prescaler_Some [OF e]
  show "0 \<le> k" "k < 8" using k by simp_all
  have clk: "clk = t * F + clk mod F" "0 \<le> clk mod F" "clk mod F < F" using F(1) by (simp_all add: t_def)
  have "clk < 2 ^ nat k * F"
  proof (cases "clk mod F = 0")
    case True
    then have "t \<noteq> 2 ^ nat k" using assms(6) clk(1) by (auto simp: F_def mult_ac)
    then have "t + 1 \<le> 2 ^ nat k" using k(3) True by simp
    then have "(t + 1) * F \<le> 2 ^ nat k * F" using F(1) by (intro mult_right_mono) simp_all
    then have "t * F + 1 * F \<le> 2 ^ nat k * F" unfolding distrib_right .
    then show ?thesis using clk(1) True F(1) by linarith
  next
    case False
    then have "(t + 1) * F \<le> 2 ^ nat k * F" using F(1) k(3) by (intro mult_right_mono) simp_all
    then have "t * F + 1 * F \<le> 2 ^ nat k * F" unfolding distrib_right .
    then show ?thesis using clk(1,3) by linarith
  qed
  then have "clk div 2 ^ nat k < 65536 * freq" by (intro div_less) (simp_all add: F_def mult_ac)
  then have "period clk k freq < 65536" unfolding period_def by (rule div_less [OF assms(2)])
  then show "period clk k freq \<le> 65535" by simp
  show "0 \<le> period clk k freq" using assms(2,4) by (simp add: period_def pos_imp_zdiv_nonneg_iff)
qed

lemma pulse_range:
  assumes "0 \<le> p" "p \<le> 65535" "0 \<le> d" "d \<le> PWM_DUTY_MAX"
  shows "full_pulse d (high_pulse p d) = pulse p d" "0 \<le> pulse p d" "pulse p d \<le> 65535" "d < PWM_DUTY_MAX \<Longrightarrow> pulse p d \<le> p"
proof -
  have "p * d \<le> p * PWM_DUTY_MAX" using assms by (intro mult_left_mono) simp_all
  then have b: "p * d div PWM_DUTY_MAX \<le> p" "0 \<le> p * d div PWM_DUTY_MAX"
    using assms zdiv_mono1 [of "p * d" "p * PWM_DUTY_MAX" PWM_DUTY_MAX]
    by (simp_all add: PWM_DUTY_MAX_def pos_imp_zdiv_nonneg_iff)
  have "p * PWM_DUTY_MAX div PWM_DUTY_MAX = p" by (simp add: PWM_DUTY_MAX_def)
  then show "full_pulse d (high_pulse p d) = pulse p d" "0 \<le> pulse p d" "pulse p d \<le> 65535" "d < PWM_DUTY_MAX \<Longrightarrow> pulse p d \<le> p"
    using b assms(1,2) by (auto simp: full_pulse_def high_pulse_def pulse_def)
qed

section \<open>Blocks\<close>

text \<open>The parts of a submodule that do not depend on its control registers.\<close>

definition same_values :: "submodule \<Rightarrow> submodule \<Rightarrow> bool" where
  "same_values s t \<longleftrightarrow> INIT t = INIT s \<and> VAL1 t = VAL1 s \<and> VAL2 t = VAL2 s \<and> VAL3 t = VAL3 s \<and> VAL4 t = VAL4 s \<and> VAL5 t = VAL5 s
     \<and> OCTRL t = OCTRL s \<and> DISMAP0 t = DISMAP0 s"

lemma PWM_Init_channel:
  assumes "0 \<le> k" "k < 8"
  shows "runs (must_succeed (PWM_Init m (channel_config k) b)) (\<lambda>t. MCTRL t = MCTRL b \<and> OUTEN t = OUTEN b
     \<and> gate t = (gate b)(m := True) \<and> (\<forall>j. j \<noteq> m \<longrightarrow> SM t j = SM b j) \<and> same_values (SM b m) (SM t m)
     \<and> drop_bit 4 (CTRL (SM t m) AND PWM_CTRL_PRSC_MASK) = word_of_int k)"
  using ctrl_prescale [OF assms, of "CTRL (SM b m)"]
  by (simp add: PWM_Init_def must_succeed_def channel_config_def PWM_GetDefaultConfig_def Let_def upd_SM_def same_values_def)

lemma PWM_Deinit_block:
  assumes "0 \<le> m" "m < 4" "clean b"
  shows "bit (MCTRL (PWM_Deinit m b)) j \<longleftrightarrow> bit (MCTRL b) j \<and> j \<noteq> nat m + 8" "clean (PWM_Deinit m b)"
    "SM (PWM_Deinit m b) = SM b" "OUTEN (PWM_Deinit m b) = OUTEN b" "gate (PWM_Deinit m b) = (gate b)(m := False)"
proof -
  have "nat (8 + m) = nat m + 8" using assms(1) by simp
  then show "bit (MCTRL (PWM_Deinit m b)) j \<longleftrightarrow> bit (MCTRL b) j \<and> j \<noteq> nat m + 8"
    using assms(1,2) clean_bits [OF assms(3)] by (auto simp: PWM_Deinit_def bit_write_MCTRL bit_and_iff bit_not_iff bit_bit_at dest: bit_imp_le_length)
qed (simp_all add: PWM_Deinit_def write_MCTRL_clean write_MCTRL_fields clean_def bit_write_MCTRL)

lemma PWM_StartTimer_block:
  assumes "0 \<le> m" "m < 4" "clean b"
  shows "bit (MCTRL (PWM_StartTimer (2 ^ nat m) b)) j \<longleftrightarrow> bit (MCTRL b) j \<or> j = nat m + 8" "clean (PWM_StartTimer (2 ^ nat m) b)"
    "SM (PWM_StartTimer (2 ^ nat m) b) = SM b" "OUTEN (PWM_StartTimer (2 ^ nat m) b) = OUTEN b"
    "gate (PWM_StartTimer (2 ^ nat m) b) = gate b"
proof -
  have m: "nat m < 4" using assms(1,2) by simp
  have "bit (MCTRL b OR field 8 0xF00 (2 ^ nat m)) i = (bit (MCTRL b) i \<or> i = nat m + 8)" for i
    using m unfolding field_def bit_or_iff bit_and_iff bit_push_bit_iff two_power_bit [OF assms(1,2)] bit_F00 by auto
  then show "bit (MCTRL (PWM_StartTimer (2 ^ nat m) b)) j \<longleftrightarrow> bit (MCTRL b) j \<or> j = nat m + 8"
    using m clean_bits [OF assms(3)] by (auto simp: PWM_StartTimer_def bit_write_MCTRL)
qed (simp_all add: PWM_StartTimer_def write_MCTRL_clean write_MCTRL_fields)

section \<open>Channels\<close>

text \<open>What the registers of a running channel hold: A (1) or B (0) of a submodule, with its prescaler, period and duty.\<close>

definition values_at :: "int \<Rightarrow> int \<Rightarrow> int \<Rightarrow> int \<Rightarrow> submodule \<Rightarrow> bool" where
  "values_at a k p d s \<longleftrightarrow> INIT s = 0 \<and> VAL1 s = word_of_int p
     \<and> drop_bit 4 (CTRL s AND PWM_CTRL_PRSC_MASK) = word_of_int k \<and> DISMAP0 s = 0
     \<and> (if a = 1 then VAL2 s = 0 \<and> VAL3 s = word_of_int (pulse p d) \<and> \<not> bit (OCTRL s) 10
        else VAL4 s = 0 \<and> VAL5 s = word_of_int (pulse p d) \<and> \<not> bit (OCTRL s) 9)"

definition chan_at :: "int \<Rightarrow> int \<Rightarrow> int \<Rightarrow> int \<Rightarrow> int \<Rightarrow> pwm_type \<Rightarrow> bool" where
  "chan_at m a k p d b \<longleftrightarrow> values_at a k p d (SM b m) \<and> bit (OUTEN b) ((if a = 1 then 8 else 4) + nat m)
     \<and> bit (MCTRL b) (nat m) \<and> bit (MCTRL b) (nat m + 8) \<and> gate b m"

text \<open>The registers of the other channel of a submodule.\<close>

definition other_kept :: "int \<Rightarrow> submodule \<Rightarrow> submodule \<Rightarrow> bool" where
  "other_kept a s t \<longleftrightarrow> (if a = 1 then VAL4 t = VAL4 s \<and> VAL5 t = VAL5 s \<and> bit (OCTRL t) 9 = bit (OCTRL s) 9
     else VAL2 t = VAL2 s \<and> VAL3 t = VAL3 s \<and> bit (OCTRL t) 10 = bit (OCTRL s) 10)"

lemma unat_prescale: "0 \<le> k \<Longrightarrow> k < 8 \<Longrightarrow> unat (word_of_int k :: 16 word) = nat k"
proof -
  assume "0 \<le> k" "k < 8"
  then have "k \<in> {0, 1, 2, 3, 4, 5, 6, 7}" by auto
  then show ?thesis by auto
qed

lemma setup_one:
  assumes "drop_bit 4 (CTRL (SM b m) AND PWM_CTRL_PRSC_MASK) = word_of_int k" "0 \<le> k" "k < 8"
    and "0 < freq" "0 < clk" "0 \<le> period clk k freq" "period clk k freq \<le> 65535" "0 \<le> d" "d \<le> PWM_DUTY_MAX" "0 \<le> m" "m < 4"
  shows "runs (PWM_SetupPwm m [\<lparr>pwmChannel = a, dutyCyclePercent = d, level = 0, deadtimeValue = 0\<rparr>] 3 freq clk b)
    (\<lambda>(ok, t). MCTRL t = MCTRL b \<and> gate t = gate b \<and> (\<forall>j. j \<noteq> m \<longrightarrow> SM t j = SM b j)
      \<and> values_at a k (period clk k freq) d ((SM t m)\<lparr>DISMAP0 := 0\<rparr>) \<and> other_kept a (SM b m) (SM t m)
      \<and> (\<forall>j. bit (OUTEN t) j = (bit (OUTEN b) j \<or> j = (if a = 1 then 8 else 4) + nat m)))"
proof -
  let ?p = "period clk k freq"
  have p: "clk div 2 ^ nat k div freq = ?p" by (simp add: period_def)
  have o: "nat (8 + m) = 8 + nat m" "nat (4 + m) = 4 + nat m" using assms(10) by simp_all
  have c: "runs (setup_channels m 3 ?p True [\<lparr>pwmChannel = a, dutyCyclePercent = d, level = 0, deadtimeValue = 0\<rparr>] b)
    (\<lambda>t. MCTRL t = MCTRL b \<and> gate t = gate b \<and> (\<forall>j. j \<noteq> m \<longrightarrow> SM t j = SM b j)
      \<and> values_at a k ?p d ((SM t m)\<lparr>DISMAP0 := 0\<rparr>) \<and> other_kept a (SM b m) (SM t m)
      \<and> (\<forall>j. bit (OUTEN t) j = (bit (OUTEN b) j \<or> j = (if a = 1 then 8 else 4) + nat m)))"
    using assms(1,10,11) pulse_range(1) [OF assms(6-9)]
    by (auto simp: setup_values_def Let_def set_period_def set_pulse_def setup_output_def upd_SM_def values_at_def other_kept_def
        bit_or_iff bit_and_iff bit_not_iff bit_bit_at o)
  show ?thesis
    unfolding PWM_SetupPwm_def Let_def assms(1) unat_prescale [OF assms(2,3)] p
    using c assms(4-9) by (auto elim!: runsE simp del: setup_channels.simps)
qed

text \<open>What a change of one channel leaves alone in the rest of its block.\<close>

definition rest_kept :: "int \<Rightarrow> int \<Rightarrow> pwm_type \<Rightarrow> pwm_type \<Rightarrow> bool" where
  "rest_kept m a b t \<longleftrightarrow> (\<forall>j. j \<noteq> m \<longrightarrow> SM t j = SM b j \<and> gate t j = gate b j) \<and> other_kept a (SM b m) (SM t m)
     \<and> (\<forall>j. bit (OUTEN b) j \<longrightarrow> bit (OUTEN t) j)
     \<and> (\<forall>j. j \<noteq> nat m \<and> j \<noteq> nat m + 8 \<longrightarrow> bit (MCTRL t) j = bit (MCTRL b) j)"

lemma start_signal_run:
  fixes pwmch :: int
  defines "m \<equiv> pwm_module pwmch" and "a \<equiv> pwm_module_ch pwmch"
  assumes "clean b" "gate b m" "drop_bit 4 (CTRL (SM b m) AND PWM_CTRL_PRSC_MASK) = word_of_int k" "0 \<le> k" "k < 8"
    and "0 < freq" "0 < clk" "0 \<le> period clk k freq" "period clk k freq \<le> 65535" "0 \<le> d" "d \<le> PWM_DUTY_MAX" "0 \<le> m" "m < 4"
  shows "runs (start_signal clk pwmch freq d b) (\<lambda>t. clean t \<and> chan_at m a k (period clk k freq) d t \<and> rest_kept m a b t)"
proof -
  define b1 where "b1 = PWM_SetPwmLdok (2 ^ nat m) False b"
  note l1 = ldok_bits [OF \<open>0 \<le> m\<close> \<open>m < 4\<close> \<open>clean b\<close>, of False, folded b1_def]
  obtain ok b2 where b2: "PWM_SetupPwm m [\<lparr>pwmChannel = a, dutyCyclePercent = d, level = 0, deadtimeValue = 0\<rparr>] 3 freq clk b1 = Some (ok, b2)"
    "MCTRL b2 = MCTRL b1" "gate b2 = gate b1" "\<And>j. j \<noteq> m \<Longrightarrow> SM b2 j = SM b1 j"
    "values_at a k (period clk k freq) d ((SM b2 m)\<lparr>DISMAP0 := 0\<rparr>)" "other_kept a (SM b1 m) (SM b2 m)"
    "\<And>j. bit (OUTEN b2) j = (bit (OUTEN b1) j \<or> j = (if a = 1 then 8 else 4) + nat m)"
    by (rule runsE [OF setup_one [OF _ assms(6-15), of b1 a]]) (use assms(5) l1(3) in auto)
  have c2: "clean b2" using l1(2) b2(2) by (simp add: clean_def)
  define b3 where "b3 = PWM_SetPwmLdok (2 ^ nat m) True b2"
  note l3 = ldok_bits [OF \<open>0 \<le> m\<close> \<open>m < 4\<close> c2, of True, folded b3_def]
  define b4 where "b4 = PWM_StartTimer (2 ^ nat m) b3"
  note l4 = PWM_StartTimer_block [OF \<open>0 \<le> m\<close> \<open>m < 4\<close> l3(2), folded b4_def]
  define t where "t = upd_SM m (\<lambda>s. s\<lparr>DISMAP0 := 0\<rparr>) b4"
  have t: "MCTRL t = MCTRL b4" "OUTEN t = OUTEN b4" "gate t = gate b4" "SM t m = (SM b4 m)\<lparr>DISMAP0 := 0\<rparr>"
    "\<And>j. j \<noteq> m \<Longrightarrow> SM t j = SM b4 j" by (simp_all add: t_def upd_SM_def)
  have run: "start_signal clk pwmch freq d b = Some t"
    using b2(1) unfolding start_signal_def Let_def m_def [symmetric] a_def [symmetric] b1_def [symmetric]
    by (simp add: b3_def b4_def t_def)
  have "other_kept a (SM b m) (SM t m)" using b2(6) l1(3) l3(3) l4(3) t(4) by (simp add: other_kept_def)
  then have "rest_kept m a b t"
    unfolding rest_kept_def using t l1 b2 l3 l4 by auto
  moreover have "clean t" using l4(2) t(1) by (simp add: clean_def)
  moreover have "chan_at m a k (period clk k freq) d t"
    unfolding chan_at_def t using b2(3,5,7) l1 l3 l4 \<open>gate b m\<close> by simp
  ultimately show ?thesis by (simp add: run)
qed

lemma init_block_run:
  fixes pwmch :: int
  defines "m \<equiv> pwm_module pwmch" and "a \<equiv> pwm_module_ch pwmch"
  assumes "clean b" "0 \<le> k" "k < 8" "0 < freq" "0 < clk" "0 \<le> period clk k freq" "period clk k freq \<le> 65535"
    "0 \<le> d" "d \<le> PWM_DUTY_MAX" "0 \<le> m" "m < 4"
  shows "runs (init_block clk pwmch freq d k b) (\<lambda>t. clean t \<and> chan_at m a k (period clk k freq) d t \<and> rest_kept m a b t)"
proof -
  obtain b1 where b1: "must_succeed (PWM_Init m (channel_config k) b) = Some b1" "MCTRL b1 = MCTRL b" "OUTEN b1 = OUTEN b"
    "gate b1 = (gate b)(m := True)" "\<And>j. j \<noteq> m \<Longrightarrow> SM b1 j = SM b j" "same_values (SM b m) (SM b1 m)"
    by (rule runsE [OF PWM_Init_channel [OF assms(4,5)], of m b]) blast
  have c1: "clean b1" using assms(3) b1(2) by (simp add: clean_def)
  define b2 where "b2 = PWM_Deinit m b1"
  note l2 = PWM_Deinit_block [OF \<open>0 \<le> m\<close> \<open>m < 4\<close> c1, folded b2_def]
  obtain b3 where b3: "must_succeed (PWM_Init m (channel_config k) b2) = Some b3" "MCTRL b3 = MCTRL b2" "OUTEN b3 = OUTEN b2"
    "gate b3 = (gate b2)(m := True)" "\<And>j. j \<noteq> m \<Longrightarrow> SM b3 j = SM b2 j" "same_values (SM b2 m) (SM b3 m)"
    "drop_bit 4 (CTRL (SM b3 m) AND PWM_CTRL_PRSC_MASK) = word_of_int k"
    by (rule runsE [OF PWM_Init_channel [OF assms(4,5)], of m b2]) blast
  have c3: "clean b3" using l2(2) b3(2) by (simp add: clean_def)
  have g3: "gate b3 (pwm_module pwmch)" using b3(4) by (simp flip: m_def)
  obtain t where t: "start_signal clk pwmch freq d b3 = Some t" "clean t" "chan_at m a k (period clk k freq) d t" "rest_kept m a b3 t"
    using start_signal_run [OF c3 g3 b3(7) [unfolded m_def] assms(4-13) [unfolded m_def]] by (auto simp: m_def a_def elim!: runsE)
  have "rest_kept m a b t"
    using t(4) b1(2-6) l2 b3(2-6) unfolding rest_kept_def other_kept_def same_values_def by auto
  then show ?thesis using t b1(1) b3(1) by (simp add: init_block_def b2_def flip: m_def)
qed

lemma uint16: "0 \<le> p \<Longrightarrow> p \<le> 65535 \<Longrightarrow> uint (word_of_int p :: 16 word) = p"
  by (simp add: unsigned_of_int take_bit_int_eq_self)

lemma duty_block_run:
  fixes pwmch :: int
  defines "m \<equiv> pwm_module pwmch" and "a \<equiv> pwm_module_ch pwmch"
  assumes "clean b" "chan_at m a k p e b" "0 \<le> p" "p \<le> 65535" "0 \<le> d" "d \<le> PWM_DUTY_MAX" "0 \<le> m" "m < 4" "a < 2"
  shows "runs (duty_block pwmch d b) (\<lambda>t. clean t \<and> chan_at m a k p d t \<and> rest_kept m a b t)"
proof -
  define b1 where "b1 = PWM_SetPwmLdok (2 ^ nat m) False b"
  note l1 = ldok_bits [OF \<open>0 \<le> m\<close> \<open>m < 4\<close> \<open>clean b\<close>, of False, folded b1_def]
  define b2 where "b2 = upd_SM m (set_pulse a 0 (word_of_int (pulse p d))) b1"
  have "uint (VAL1 (SM b1 m)) = p" using assms(4-6) l1(3) by (simp add: chan_at_def values_at_def uint16)
  then have u: "PWM_UpdatePwmDutycycle m a 3 d b1 = Some b2"
    using assms(8,11) pulse_range(1) [OF assms(5-8)] by (simp add: PWM_UpdatePwmDutycycle_def b2_def)
  have b2: "MCTRL b2 = MCTRL b1" "OUTEN b2 = OUTEN b1" "gate b2 = gate b1" "SM b2 m = set_pulse a 0 (word_of_int (pulse p d)) (SM b1 m)"
    "\<And>j. j \<noteq> m \<Longrightarrow> SM b2 j = SM b1 j" by (simp_all add: b2_def upd_SM_def)
  have c2: "clean b2" using l1(2) b2(1) by (simp add: clean_def)
  define t where "t = PWM_SetPwmLdok (2 ^ nat m) True b2"
  note l3 = ldok_bits [OF \<open>0 \<le> m\<close> \<open>m < 4\<close> c2, of True, folded t_def]
  have "rest_kept m a b t" unfolding rest_kept_def using l1 b2 l3 by (auto simp: other_kept_def set_pulse_def)
  moreover have "chan_at m a k p d t"
    using assms(4) l1 b2 l3 by (auto simp: chan_at_def values_at_def set_pulse_def)
  ultimately show ?thesis
    using u l3(2) by (simp add: duty_block_def Let_def b1_def t_def flip: m_def a_def)
qed

text \<open>A channel keeps running when another one is changed: in another submodule, or with the same period in its own.\<close>

lemma rest_kept_chan:
  assumes "rest_kept m a b t" "chan_at n c k p d b" "0 \<le> m" "0 \<le> n" "n < 4" "m < 4" "a \<in> {0, 1}" "c \<in> {0, 1}"
    and "n \<noteq> m \<or> c \<noteq> a \<and> chan_at m a k p e t"
  shows "chan_at n c k p d t"
proof (cases "n = m")
  case True
  then have "c \<noteq> a" "chan_at m a k p e t" using assms(9) by simp_all
  then show ?thesis using assms(1,2,7,8) True
    by (auto simp: chan_at_def values_at_def rest_kept_def other_kept_def)
next
  case False
  then have "nat n \<noteq> nat m" "nat n \<noteq> nat m + 8" "nat n + 8 \<noteq> nat m" "nat n + 8 \<noteq> nat m + 8" using assms(3-6) by auto
  then show ?thesis using assms(1,2) False by (auto simp: chan_at_def rest_kept_def)
qed

section \<open>The car's channels\<close>

fun code :: "pwmch \<Rightarrow> int" where
  "code PWM4_MODULE2_CHA_C30 = 185"
| "code PWM1_MODULE0_CHA_D12 = 45"
| "code PWM1_MODULE0_CHB_D13 = 40"
| "code PWM1_MODULE3_CHA_D0 = 77"
| "code PWM1_MODULE3_CHB_D1 = 72"
| "code PWM2_MODULE3_CHA_D2 = 117"
| "code PWM2_MODULE3_CHB_D3 = 112"

text \<open>The frequency the car gives a channel: 50 Hz for a servo, 20 kHz for a motor.\<close>

fun chan_freq :: "pwmch \<Rightarrow> int" where
  "chan_freq PWM4_MODULE2_CHA_C30 = 50"
| "chan_freq PWM1_MODULE0_CHA_D12 = 50"
| "chan_freq PWM1_MODULE0_CHB_D13 = 50"
| "chan_freq PWM1_MODULE3_CHA_D0 = 20000"
| "chan_freq PWM1_MODULE3_CHB_D1 = 20000"
| "chan_freq PWM2_MODULE3_CHA_D2 = 20000"
| "chan_freq PWM2_MODULE3_CHB_D3 = 20000"

lemma code_parts:
  "1 \<le> pwm_num (code ch)" "pwm_num (code ch) \<le> 4" "0 \<le> pwm_module (code ch)" "pwm_module (code ch) < 4"
  "pwm_module_ch (code ch) \<in> {0, 1}"
  by (cases ch; simp add: pwm_num_def pwm_module_def pwm_module_ch_def)+

lemma same_submodule:
  assumes "pwm_num (code c) = pwm_num (code ch)" "pwm_module (code c) = pwm_module (code ch)" "c \<noteq> ch"
  shows "chan_freq c = chan_freq ch \<and> pwm_module_ch (code c) \<noteq> pwm_module_ch (code ch)"
  using assms by (cases c; cases ch; simp add: pwm_num_def pwm_module_def pwm_module_ch_def)

lemma chan_freq_range: "0 < chan_freq ch" "chan_freq ch < 65536"
  by (cases ch; simp)+

text \<open>A clock that both frequencies can be made from.\<close>

definition good_clock :: "int \<Rightarrow> bool" where
  "good_clock clk \<longleftrightarrow> 0 < clk \<and> clk < 4294967296 \<and> (\<forall>f \<in> {50, 20000}.
     (case init_prescale clk f of None \<Rightarrow> False | Some k \<Rightarrow> clk \<noteq> 2 ^ nat k * 65536 * f))"

definition prsc_of :: "int \<Rightarrow> pwmch \<Rightarrow> int" where
  "prsc_of clk ch = the (init_prescale clk (chan_freq ch))"

lemma good_scale:
  assumes "good_clock clk"
  shows "init_prescale clk (chan_freq ch) = Some (prsc_of clk ch)" "0 \<le> prsc_of clk ch" "prsc_of clk ch < 8"
    "0 \<le> period clk (prsc_of clk ch) (chan_freq ch)" "period clk (prsc_of clk ch) (chan_freq ch) \<le> 65535"
proof -
  have "chan_freq ch \<in> {50, 20000}" by (cases ch) simp_all
  with assms obtain k where k: "init_prescale clk (chan_freq ch) = Some k" "clk \<noteq> 2 ^ nat k * 65536 * chan_freq ch"
    by (auto simp: good_clock_def split: option.splits)
  then have "prsc_of clk ch = k" by (simp add: prsc_of_def)
  with k init_prescale_period [OF k(1) chan_freq_range _ _ k(2)] assms
  show "init_prescale clk (chan_freq ch) = Some (prsc_of clk ch)" "0 \<le> prsc_of clk ch" "prsc_of clk ch < 8"
    "0 \<le> period clk (prsc_of clk ch) (chan_freq ch)" "period clk (prsc_of clk ch) (chan_freq ch) \<le> 65535"
    by (simp_all add: good_clock_def)
qed

text \<open>The registers of a channel hold the duty \<open>d\<close>.\<close>

definition holds :: "int \<Rightarrow> pwmch \<Rightarrow> int \<Rightarrow> pwm_regs \<Rightarrow> bool" where
  "holds clk ch d r \<longleftrightarrow> chan_at (pwm_module (code ch)) (pwm_module_ch (code ch)) (prsc_of clk ch) (period clk (prsc_of clk ch) (chan_freq ch)) d
     (PWMPTR r (pwm_num (code ch)))"

definition routed :: "pwmch \<Rightarrow> pwm_regs \<Rightarrow> bool" where
  "routed ch r \<longleftrightarrow> (\<exists>pin alt. map_of pwm_pins (code ch) = Some (pin, alt) \<and> mux (pwm_pads r) pin = Some (pwm_output (code ch), 0))"

definition pwm_rel :: "int \<Rightarrow> pwmch set \<Rightarrow> pwm \<Rightarrow> pwm_regs \<Rightarrow> bool" where
  "pwm_rel clk S p r \<longleftrightarrow> (\<forall>n. clean (PWMPTR r n))
     \<and> (\<forall>ch \<in> S. pwm_freq p ch = chan_freq ch \<and> 0 \<le> duty p ch \<and> duty p ch \<le> PWM_DUTY_MAX \<and> holds clk ch (duty p ch) r \<and> routed ch r)"

fun chan_pin :: "pwmch \<Rightarrow> int \<times> int" where
  "chan_pin PWM4_MODULE2_CHA_C30 = (94, 1)"
| "chan_pin PWM1_MODULE0_CHA_D12 = (108, 1)"
| "chan_pin PWM1_MODULE0_CHB_D13 = (109, 1)"
| "chan_pin PWM1_MODULE3_CHA_D0 = (96, 2)"
| "chan_pin PWM1_MODULE3_CHB_D1 = (97, 2)"
| "chan_pin PWM2_MODULE3_CHA_D2 = (98, 2)"
| "chan_pin PWM2_MODULE3_CHB_D3 = (99, 2)"

definition routed_right :: "int \<Rightarrow> int \<times> int \<Rightarrow> bool" where
  "routed_right ch q \<longleftrightarrow> map_of pwm_pins ch = Some q \<and>
     (case iomuxc_pinconf (fst q) (snd q) PWM_PIN_CONF pads_reset of None \<Rightarrow> False | Some t \<Rightarrow> mux t (fst q) = Some (pwm_output ch, 0))"

lemma car_pins:
  "routed_right 185 (94, 1)" "routed_right 45 (108, 1)" "routed_right 40 (109, 1)" "routed_right 77 (96, 2)"
  "routed_right 72 (97, 2)" "routed_right 117 (98, 2)" "routed_right 112 (99, 2)"
  by code_simp+

lemma car_iomuxc:
  "map_of pwm_pins (code ch) = Some (chan_pin ch)"
  "pwm_iomuxc (code ch) s = Some (s\<lparr>mux := (mux s)(fst (chan_pin ch) := Some (pwm_output (code ch), 0)),
     pad_conf := (pad_conf s)(fst (chan_pin ch) := PWM_PIN_CONF)\<rparr>)"
proof -
  have r: "routed_right (code ch) (chan_pin ch)" using car_pins by (cases ch) simp_all
  then show m: "map_of pwm_pins (code ch) = Some (chan_pin ch)" by (simp add: routed_right_def)
  obtain t where t: "iomuxc_pinconf (fst (chan_pin ch)) (snd (chan_pin ch)) PWM_PIN_CONF pads_reset = Some t"
    "mux t (fst (chan_pin ch)) = Some (pwm_output (code ch), 0)"
    using r by (auto simp: routed_right_def split: option.splits)
  have "PWM_PIN_CONF \<noteq> 0" by (simp add: PWM_PIN_CONF_def)
  from iomuxc_pinconf_any [OF t this, of s] show "pwm_iomuxc (code ch) s = Some (s\<lparr>mux := (mux s)(fst (chan_pin ch) := Some (pwm_output (code ch), 0)),
     pad_conf := (pad_conf s)(fst (chan_pin ch) := PWM_PIN_CONF)\<rparr>)"
    by (simp add: pwm_iomuxc_def m case_prod_beta)
qed

lemma chan_pin_inj: "fst (chan_pin c) = fst (chan_pin ch) \<Longrightarrow> c = ch"
  by (cases c; cases ch; simp)

lemma routed_iomuxc:
  assumes "pwm_pads t = (pwm_pads r)\<lparr>mux := (mux (pwm_pads r))(fst (chan_pin ch) := Some (pwm_output (code ch), 0)),
     pad_conf := x\<rparr>"
  shows "routed ch t" "c \<noteq> ch \<Longrightarrow> routed c r \<Longrightarrow> routed c t"
proof -
  show "routed ch t" using assms car_iomuxc(1) [of ch] by (cases "chan_pin ch") (simp add: routed_def)
  assume "c \<noteq> ch" "routed c r"
  moreover from this(1) have "fst (chan_pin c) \<noteq> fst (chan_pin ch)" using chan_pin_inj by blast
  ultimately show "routed c t" using assms car_iomuxc(1) [of c] by (cases "chan_pin c") (auto simp: routed_def)
qed

text \<open>The other channels of the car hold their duty while one block is changed.\<close>

lemma holds_other:
  assumes "rest_kept (pwm_module (code ch)) (pwm_module_ch (code ch)) (PWMPTR r (pwm_num (code ch))) b"
    and "holds clk ch d (r\<lparr>PWMPTR := (PWMPTR r)(pwm_num (code ch) := b)\<rparr>)" "holds clk c e r" "c \<noteq> ch"
  shows "holds clk c e (r\<lparr>PWMPTR := (PWMPTR r)(pwm_num (code ch) := b)\<rparr>)"
proof (cases "pwm_num (code c) = pwm_num (code ch)")
  case True
  have "pwm_module (code c) \<noteq> pwm_module (code ch) \<or> pwm_module_ch (code c) \<noteq> pwm_module_ch (code ch)
      \<and> chan_at (pwm_module (code ch)) (pwm_module_ch (code ch)) (prsc_of clk c) (period clk (prsc_of clk c) (chan_freq c)) d b"
  proof (cases "pwm_module (code c) = pwm_module (code ch)")
    case same: True
    from same_submodule [OF True same assms(4)] have e: "chan_freq c = chan_freq ch" "pwm_module_ch (code c) \<noteq> pwm_module_ch (code ch)" by simp_all
    then have "prsc_of clk c = prsc_of clk ch" by (simp add: prsc_of_def)
    with e assms(2) show ?thesis by (simp add: holds_def)
  qed simp
  moreover have "chan_at (pwm_module (code c)) (pwm_module_ch (code c)) (prsc_of clk c) (period clk (prsc_of clk c) (chan_freq c)) e
      (PWMPTR r (pwm_num (code ch)))"
    using assms(3) True by (simp add: holds_def)
  ultimately have "chan_at (pwm_module (code c)) (pwm_module_ch (code c)) (prsc_of clk c) (period clk (prsc_of clk c) (chan_freq c)) e b"
    using code_parts [of c] code_parts [of ch] by (intro rest_kept_chan [OF assms(1)])
  then show ?thesis using True by (simp add: holds_def)
qed (use assms(3) in \<open>simp add: holds_def\<close>)

section \<open>Steps of the registers\<close>

lemma with_pwm_run:
  assumes "1 \<le> n" "n \<le> 4" "runs (f (PWMPTR r n)) Q"
  obtains b where "with_pwm n f r = Some (r\<lparr>PWMPTR := (PWMPTR r)(n := b)\<rparr>)" "Q b"
  using assms by (auto simp: with_pwm_def elim!: runsE)

lemma init_step:
  assumes "pwm_rel clk S p r" "good_clock clk" "0 \<le> d" "d \<le> PWM_DUTY_MAX"
  shows "runs (zf_pwm_init clk (code ch) (chan_freq ch) d r) (pwm_rel clk (insert ch S) (pwm_init ch (chan_freq ch) d p))"
proof -
  note c = code_parts [of ch] and g = good_scale [OF assms(2), of ch]
  define q where "q = (pwm_pads r)\<lparr>mux := (mux (pwm_pads r))(fst (chan_pin ch) := Some (pwm_output (code ch), 0)),
     pad_conf := (pad_conf (pwm_pads r))(fst (chan_pin ch) := PWM_PIN_CONF)\<rparr>"
  define u where "u = r\<lparr>pwm_pads := q\<rparr>"
  have clk: "0 < clk" using assms(2) by (simp add: good_clock_def)
  have cl: "clean (PWMPTR u n)" for n using assms(1) by (simp add: pwm_rel_def u_def)
  obtain b where b: "with_pwm (pwm_num (code ch)) (init_block clk (code ch) (chan_freq ch) d (prsc_of clk ch)) u
      = Some (u\<lparr>PWMPTR := (PWMPTR u)(pwm_num (code ch) := b)\<rparr>)" "clean b"
    "chan_at (pwm_module (code ch)) (pwm_module_ch (code ch)) (prsc_of clk ch) (period clk (prsc_of clk ch) (chan_freq ch)) d b"
    "rest_kept (pwm_module (code ch)) (pwm_module_ch (code ch)) (PWMPTR u (pwm_num (code ch))) b"
    using with_pwm_run [where f = "init_block clk (code ch) (chan_freq ch) d (prsc_of clk ch)" and r = u, OF c(1,2)
        init_block_run [OF cl g(2,3) chan_freq_range(1) clk g(4,5) assms(3,4) c(3,4)]] by blast
  let ?t = "u\<lparr>PWMPTR := (PWMPTR u)(pwm_num (code ch) := b)\<rparr>"
  have run: "zf_pwm_init clk (code ch) (chan_freq ch) d r = Some ?t"
    using b(1) car_iomuxc(2) [of ch "pwm_pads r"] g(1) by (simp add: zf_pwm_init_def u_def q_def)
  have h: "holds clk ch d ?t" using b(3) by (simp add: holds_def)
  have o: "holds clk c (duty p c) ?t \<and> routed c ?t" if "c \<in> S" "c \<noteq> ch" for c
  proof -
    have "holds clk c (duty p c) u" "routed c r" using assms(1) that(1) by (simp_all add: pwm_rel_def holds_def u_def)
    then show ?thesis using holds_other [OF b(4) h _ that(2)] routed_iomuxc(2) [where t = ?t and r = r and ch = ch and c = c] that(2) by (auto simp: u_def q_def)
  qed
  have "routed ch ?t" by (rule routed_iomuxc(1) [where t = ?t and r = r and ch = ch]) (simp add: u_def q_def)
  moreover have "d \<le> 4294967295" using assms(4) by (simp add: PWM_DUTY_MAX_def)
  ultimately have "pwm_rel clk (insert ch S) (pwm_init ch (chan_freq ch) d p) ?t"
    using assms(1,3,4) cl b(2) h o chan_freq_range [of ch] by (auto simp: pwm_rel_def pwm_init_def)
  then show ?thesis by (simp add: run)
qed

lemma duty_step:
  assumes "pwm_rel clk S p r" "good_clock clk" "ch \<in> S" "0 \<le> d" "d \<le> PWM_DUTY_MAX"
  shows "runs (zf_pwm_duty (code ch) d r) (pwm_rel clk S (pwm_duty ch d p))"
proof -
  note c = code_parts [of ch] and g = good_scale [OF assms(2), of ch]
  have cl: "clean (PWMPTR r n)" for n using assms(1) by (simp add: pwm_rel_def)
  have old: "chan_at (pwm_module (code ch)) (pwm_module_ch (code ch)) (prsc_of clk ch) (period clk (prsc_of clk ch) (chan_freq ch)) (duty p ch)
      (PWMPTR r (pwm_num (code ch)))" using assms(1,3) by (simp add: pwm_rel_def holds_def)
  have a: "pwm_module_ch (code ch) < 2" using c(5) by auto
  obtain b where b: "with_pwm (pwm_num (code ch)) (duty_block (code ch) d) r = Some (r\<lparr>PWMPTR := (PWMPTR r)(pwm_num (code ch) := b)\<rparr>)" "clean b"
    "chan_at (pwm_module (code ch)) (pwm_module_ch (code ch)) (prsc_of clk ch) (period clk (prsc_of clk ch) (chan_freq ch)) d b"
    "rest_kept (pwm_module (code ch)) (pwm_module_ch (code ch)) (PWMPTR r (pwm_num (code ch))) b"
    using with_pwm_run [where f = "duty_block (code ch) d" and r = r, OF c(1,2) duty_block_run [OF cl old g(4,5) assms(4,5) c(3,4) a]] by blast
  let ?t = "r\<lparr>PWMPTR := (PWMPTR r)(pwm_num (code ch) := b)\<rparr>"
  have h: "holds clk ch d ?t" using b(3) by (simp add: holds_def)
  have o: "holds clk c (duty p c) ?t" if "c \<in> S" "c \<noteq> ch" for c
    using holds_other [OF b(4) h _ that(2)] assms(1) that(1) by (simp add: pwm_rel_def)
  have "d \<le> 4294967295" using assms(5) by (simp add: PWM_DUTY_MAX_def)
  then have "pwm_rel clk S (pwm_duty ch d p) ?t"
    using assms(1,3-5) cl b(2) h o by (auto simp: pwm_rel_def pwm_duty_def routed_def)
  then show ?thesis using b(1) by (simp add: zf_pwm_duty_def)
qed

section \<open>Sequences of calls\<close>

datatype pwm_call = Pwm_init pwmch int | Pwm_duty pwmch int

text \<open>The calls in the model of the actuators and in the registers.  A channel is set up with its frequency before it is given a duty.\<close>

fun call_out :: "pwm_call \<Rightarrow> pwm \<Rightarrow> pwm" where
  "call_out (Pwm_init ch d) p = pwm_init ch (chan_freq ch) d p"
| "call_out (Pwm_duty ch d) p = pwm_duty ch d p"

fun call_regs :: "int \<Rightarrow> pwm_call list \<Rightarrow> pwm_regs \<Rightarrow> pwm_regs option" where
  "call_regs clk [] r = Some r"
| "call_regs clk (Pwm_init ch d # xs) r = do { r \<leftarrow> zf_pwm_init clk (code ch) (chan_freq ch) d r; call_regs clk xs r }"
| "call_regs clk (Pwm_duty ch d # xs) r = do { r \<leftarrow> zf_pwm_duty (code ch) d r; call_regs clk xs r }"

fun calls_ok :: "pwmch set \<Rightarrow> pwm_call list \<Rightarrow> bool" where
  "calls_ok S [] = True"
| "calls_ok S (Pwm_init ch d # xs) = (0 \<le> d \<and> d \<le> PWM_DUTY_MAX \<and> calls_ok (insert ch S) xs)"
| "calls_ok S (Pwm_duty ch d # xs) = (ch \<in> S \<and> 0 \<le> d \<and> d \<le> PWM_DUTY_MAX \<and> calls_ok S xs)"

fun set_up :: "pwmch set \<Rightarrow> pwm_call list \<Rightarrow> pwmch set" where
  "set_up S [] = S"
| "set_up S (Pwm_init ch d # xs) = set_up (insert ch S) xs"
| "set_up S (Pwm_duty ch d # xs) = set_up S xs"

text \<open>After every sequence of calls on set up channels no assertion has failed, and every channel that was set up is connected
  to its pin and runs with the period of its frequency and a pulse of exactly its share of it, rounded down; calls for one channel
  leave the others as they are, those in the same submodule too.\<close>

lemma calls_refine:
  assumes "good_clock clk" "pwm_rel clk S p r" "calls_ok S xs"
  shows "runs (call_regs clk xs r) (pwm_rel clk (set_up S xs) (fold call_out xs p))"
  using assms(2,3)
proof (induction xs arbitrary: S p r)
  case (Cons x xs)
  show ?case
  proof (cases x)
    case (Pwm_init ch d)
    then obtain u where "zf_pwm_init clk (code ch) (chan_freq ch) d r = Some u"
      "pwm_rel clk (insert ch S) (pwm_init ch (chan_freq ch) d p) u"
      using init_step [OF Cons.prems(1) assms(1), of d ch] Cons.prems(2) by (auto elim!: runsE)
    then show ?thesis using Cons.IH [of "insert ch S" _ u] Cons.prems(2) Pwm_init by simp
  next
    case (Pwm_duty ch d)
    then obtain u where "zf_pwm_duty (code ch) d r = Some u" "pwm_rel clk S (pwm_duty ch d p) u"
      using duty_step [OF Cons.prems(1) assms(1), of ch d] Cons.prems(2) by (auto elim!: runsE)
    then show ?thesis using Cons.IH [of S _ u] Cons.prems(2) Pwm_duty by simp
  qed
qed simp

definition submodule_reset :: submodule where
  "submodule_reset = \<lparr>CTRL2 = 0, CTRL = 0, INIT = 0, VAL0 = 0, VAL1 = 0, VAL2 = 0, VAL3 = 0, VAL4 = 0, VAL5 = 0,
     OCTRL = 0, DTCNT0 = 0, DTCNT1 = 0, DISMAP0 = 0\<rparr>"

definition pwm_reset :: pwm_regs where
  "pwm_reset = \<lparr>PWMPTR = (\<lambda>_. \<lparr>FSTS = 0, MCTRL = 0, OUTEN = 0, SM = (\<lambda>_. submodule_reset), gate = (\<lambda>_. False)\<rparr>), pwm_pads = pads_reset\<rparr>"

lemma pwm_reset_rel: "pwm_rel clk {} p pwm_reset"
  by (simp add: pwm_rel_def pwm_reset_def clean_def)

lemma clock_150MHz:
  "good_clock 150000000" "init_prescale 150000000 50 = Some 6" "init_prescale 150000000 20000 = Some 0"
  by (simp_all add: good_clock_def init_prescale_def prescaler_def u32_def Let_def)

lemma holds_150MHz:
  assumes "pwm_rel 150000000 S p r" "ch \<in> S"
  shows "chan_at (pwm_module (code ch)) (pwm_module_ch (code ch)) (if chan_freq ch = 50 then 6 else 0)
    (if chan_freq ch = 50 then 46875 else 7500) (duty p ch) (PWMPTR r (pwm_num (code ch)))"
  using assms clock_150MHz(2,3)
  by (cases ch) (auto simp: pwm_rel_def holds_def prsc_of_def period_def)

section \<open>The car's outputs\<close>

datatype car_out = Servo1 int | Servo2 int | Servo3 int | Motor1 int | Motor2 int

fun out_run :: "car_out \<Rightarrow> pwm \<Rightarrow> pwm option" where
  "out_run (Servo1 a) p = servo1_set_angle a p"
| "out_run (Servo2 a) p = servo2_set_angle a p"
| "out_run (Servo3 a) p = servo3_set_angle a p"
| "out_run (Motor1 t) p = Some (motor_run 1 t p)"
| "out_run (Motor2 t) p = Some (motor_run 2 t p)"

fun outs_run :: "car_out list \<Rightarrow> pwm \<Rightarrow> pwm option" where
  "outs_run [] p = Some p"
| "outs_run (x # xs) p = do { p \<leftarrow> out_run x p; outs_run xs p }"

text \<open>The driver calls these functions make.\<close>

definition servo_calls :: "pwmch \<Rightarrow> int \<Rightarrow> pwm_call list" where
  "servo_calls ch a = (case servo_duty 770 80 a of None \<Rightarrow> [] | Some d \<Rightarrow> [Pwm_duty ch d])"

definition motor_calls :: "pwmch \<Rightarrow> pwmch \<Rightarrow> int \<Rightarrow> pwm_call list" where
  "motor_calls a b t = (let d = 10 * limit_int t 1000 in
     if d \<ge> 0 then [Pwm_duty a d, Pwm_duty b 0] else [Pwm_duty a 0, Pwm_duty b (- d)])"

fun out_calls :: "car_out \<Rightarrow> pwm_call list" where
  "out_calls (Servo1 a) = servo_calls PWM4_MODULE2_CHA_C30 a"
| "out_calls (Servo2 a) = servo_calls PWM1_MODULE0_CHA_D12 a"
| "out_calls (Servo3 a) = servo_calls PWM1_MODULE0_CHB_D13 a"
| "out_calls (Motor1 t) = motor_calls PWM1_MODULE3_CHA_D0 PWM1_MODULE3_CHB_D1 t"
| "out_calls (Motor2 t) = motor_calls PWM2_MODULE3_CHA_D2 PWM2_MODULE3_CHB_D3 t"

definition start_calls :: "pwm_call list" where
  "start_calls = [Pwm_init PWM4_MODULE2_CHA_C30 770, Pwm_init PWM1_MODULE0_CHA_D12 770, Pwm_init PWM1_MODULE0_CHB_D13 770,
     Pwm_init PWM1_MODULE3_CHA_D0 0, Pwm_init PWM1_MODULE3_CHB_D1 0, Pwm_init PWM2_MODULE3_CHA_D2 0, Pwm_init PWM2_MODULE3_CHB_D3 0]"

lemma start_calls_out: "fold call_out start_calls p = snd (motor_create 2 (snd (motor_create 1 (servo_init p))))"
  by (simp add: start_calls_def motor_create_def servo_init_def)

lemma limit_1000: "- 1000 \<le> limit_int t 1000" "limit_int t 1000 \<le> 1000"
  using limit_int_range [of 1000 t] by simp_all

lemma servo_calls_run:
  obtains d where "servo_duty 770 80 a = Some d" "servo_calls ch a = [Pwm_duty ch d]" "0 \<le> d" "d \<le> PWM_DUTY_MAX"
proof -
  obtain t where "servo_duty 770 80 a = Some (770 + t)" "- 80 \<le> t" "t \<le> 80" by (rule servo_duty_run)
  then show thesis by (intro that [of "770 + t"]) (simp_all add: servo_calls_def PWM_DUTY_MAX_def)
qed

lemma out_calls_run: "out_run x p = Some (fold call_out (out_calls x) p) \<and> calls_ok UNIV (out_calls x)"
proof (cases x)
  case (Motor1 t)
  then show ?thesis using limit_1000 [of t] by (simp add: motor_run_def motor_calls_def Let_def PWM_DUTY_MAX_def)
next
  case (Motor2 t)
  then show ?thesis using limit_1000 [of t] by (simp add: motor_run_def motor_calls_def Let_def PWM_DUTY_MAX_def)
next
  case (Servo1 a)
  obtain d where "servo_duty 770 80 a = Some d" "servo_calls PWM4_MODULE2_CHA_C30 a = [Pwm_duty PWM4_MODULE2_CHA_C30 d]" "0 \<le> d" "d \<le> PWM_DUTY_MAX"
    by (rule servo_calls_run)
  then show ?thesis using Servo1 by (simp add: servo1_set_angle_def)
next
  case (Servo2 a)
  obtain d where "servo_duty 770 80 a = Some d" "servo_calls PWM1_MODULE0_CHA_D12 a = [Pwm_duty PWM1_MODULE0_CHA_D12 d]" "0 \<le> d" "d \<le> PWM_DUTY_MAX"
    by (rule servo_calls_run)
  then show ?thesis using Servo2 by (simp add: servo2_set_angle_def)
next
  case (Servo3 a)
  obtain d where "servo_duty 770 80 a = Some d" "servo_calls PWM1_MODULE0_CHB_D13 a = [Pwm_duty PWM1_MODULE0_CHB_D13 d]" "0 \<le> d" "d \<le> PWM_DUTY_MAX"
    by (rule servo_calls_run)
  then show ?thesis using Servo3 by (simp add: servo3_set_angle_def)
qed

lemma outs_calls_run:
  "outs_run xs p = Some (fold call_out (concat (map out_calls xs)) p) \<and> calls_ok UNIV (concat (map out_calls xs))"
proof (induction xs arbitrary: p)
  case (Cons x xs)
  have app: "calls_ok S ys \<Longrightarrow> calls_ok UNIV zs \<Longrightarrow> S = UNIV \<Longrightarrow> calls_ok S (ys @ zs)" for S ys zs
    by (induction S ys rule: calls_ok.induct) auto
  show ?case using out_calls_run [of x p] Cons app by simp
qed simp

text \<open>One side of the bridge of a motor is never driven, whatever was commanded.\<close>

definition one_side :: "pwm \<Rightarrow> bool" where
  "one_side p \<longleftrightarrow> (duty p PWM1_MODULE3_CHA_D0 = 0 \<or> duty p PWM1_MODULE3_CHB_D1 = 0)
     \<and> (duty p PWM2_MODULE3_CHA_D2 = 0 \<or> duty p PWM2_MODULE3_CHB_D3 = 0)"

lemma out_one_side: "one_side p \<Longrightarrow> out_run x p = Some q \<Longrightarrow> one_side q"
  by (cases x) (auto simp: one_side_def servo1_set_angle_def servo2_set_angle_def servo3_set_angle_def motor_run_def
      pwm_duty_def Let_def bind_eq_Some_conv u32_def split: if_splits)

lemma outs_one_side: "one_side p \<Longrightarrow> outs_run xs p = Some q \<Longrightarrow> one_side q"
  by (induction xs arbitrary: p) (auto simp: bind_eq_Some_conv dest: out_one_side)

lemma call_regs_append: "call_regs clk (xs @ ys) r = do { r \<leftarrow> call_regs clk xs r; call_regs clk ys r }"
proof (induction clk xs r rule: call_regs.induct)
  case (2 clk ch d xs r)
  then show ?case by (cases "zf_pwm_init clk (code ch) (chan_freq ch) d r") simp_all
next
  case (3 clk ch d xs r)
  then show ?case by (cases "zf_pwm_duty (code ch) d r") simp_all
qed simp

lemma start_set_up: "calls_ok {} start_calls" "set_up {} start_calls = UNIV" "one_side (fold call_out start_calls p)"
proof -
  show "set_up {} start_calls = UNIV" unfolding start_calls_def by (auto intro: pwmch.exhaust)
qed (simp_all add: start_calls_def PWM_DUTY_MAX_def one_side_def pwm_init_def u32_def)

lemma set_up_UNIV: "set_up UNIV xs = UNIV"
proof -
  have "S = UNIV \<Longrightarrow> set_up S xs = UNIV" for S by (induction S xs rule: set_up.induct) auto
  then show ?thesis by simp
qed

lemma pulse_empty:
  assumes "pwm_rel clk UNIV p r"
  shows "duty p PWM1_MODULE3_CHA_D0 = 0 \<Longrightarrow> VAL3 (SM (PWMPTR r 1) 3) = 0" "duty p PWM1_MODULE3_CHB_D1 = 0 \<Longrightarrow> VAL5 (SM (PWMPTR r 1) 3) = 0"
    "duty p PWM2_MODULE3_CHA_D2 = 0 \<Longrightarrow> VAL3 (SM (PWMPTR r 2) 3) = 0" "duty p PWM2_MODULE3_CHB_D3 = 0 \<Longrightarrow> VAL5 (SM (PWMPTR r 2) 3) = 0"
proof -
  have h: "holds clk ch (duty p ch) r" for ch using assms by (simp add: pwm_rel_def)
  have z: "pulse c 0 = 0" for c by (simp add: pulse_def PWM_DUTY_MAX_def)
  note hs = h [unfolded holds_def chan_at_def values_at_def]
  show "duty p PWM1_MODULE3_CHA_D0 = 0 \<Longrightarrow> VAL3 (SM (PWMPTR r 1) 3) = 0" "duty p PWM1_MODULE3_CHB_D1 = 0 \<Longrightarrow> VAL5 (SM (PWMPTR r 1) 3) = 0"
    "duty p PWM2_MODULE3_CHA_D2 = 0 \<Longrightarrow> VAL3 (SM (PWMPTR r 2) 3) = 0" "duty p PWM2_MODULE3_CHB_D3 = 0 \<Longrightarrow> VAL5 (SM (PWMPTR r 2) 3) = 0"
    using hs [of PWM1_MODULE3_CHA_D0] hs [of PWM1_MODULE3_CHB_D1] hs [of PWM2_MODULE3_CHA_D2] hs [of PWM2_MODULE3_CHB_D3]
    by (simp_all add: z pwm_num_def pwm_module_def pwm_module_ch_def)
qed

text \<open>
  C4: from the servos' and motors' functions down to the registers: after the start and any sequence of servo angles and
  motor commands, whose driver calls all go through, every channel's registers hold the duty the functions
  command, and of the two outputs of a motor's bridge at least one has an empty pulse.
\<close>

theorem car_on_registers:
  assumes "good_clock clk"
  shows "\<exists>p. outs_run xs (snd (motor_create 2 (snd (motor_create 1 (servo_init pwm_off))))) = Some p
    \<and> runs (call_regs clk (start_calls @ concat (map out_calls xs)) pwm_reset) (\<lambda>r. pwm_rel clk UNIV p r
        \<and> (VAL3 (SM (PWMPTR r 1) 3) = 0 \<or> VAL5 (SM (PWMPTR r 1) 3) = 0)
        \<and> (VAL3 (SM (PWMPTR r 2) 3) = 0 \<or> VAL5 (SM (PWMPTR r 2) 3) = 0))"
proof -
  define p0 where "p0 = fold call_out start_calls pwm_off"
  define ys where "ys = concat (map out_calls xs)"
  obtain r0 where r0: "call_regs clk start_calls pwm_reset = Some r0" "pwm_rel clk UNIV p0 r0"
    using runsE [OF calls_refine [OF assms pwm_reset_rel start_set_up(1)]] start_set_up(2) unfolding p0_def by metis
  have o: "outs_run xs p0 = Some (fold call_out ys p0)" "calls_ok UNIV ys" using outs_calls_run by (simp_all add: ys_def)
  obtain r where r: "call_regs clk ys r0 = Some r" "pwm_rel clk UNIV (fold call_out ys p0) r"
    using runsE [OF calls_refine [OF assms r0(2) o(2)]] set_up_UNIV by metis
  have "one_side (fold call_out ys p0)" using outs_one_side [OF start_set_up(3) o(1) [unfolded p0_def]] by (simp add: p0_def)
  then have "(VAL3 (SM (PWMPTR r 1) 3) = 0 \<or> VAL5 (SM (PWMPTR r 1) 3) = 0)
      \<and> (VAL3 (SM (PWMPTR r 2) 3) = 0 \<or> VAL5 (SM (PWMPTR r 2) 3) = 0)"
    using pulse_empty [OF r(2)] unfolding one_side_def by blast
  then show ?thesis using o r r0(1) by (auto simp: start_calls_out p0_def ys_def call_regs_append simp flip: start_calls_out)
qed

text \<open>At a clock of 150 MHz, with motor 1 backwards at 40 percent: the steering servo's pulse is 3609 of 46875 counts, the
  motor's 3000 of 7500 on the second side.\<close>

lemma car_on_registers_witness:
  "runs (call_regs 150000000 (start_calls @ concat (map out_calls [Motor1 (- 400)])) pwm_reset)
     (\<lambda>r. VAL1 (SM (PWMPTR r 4) 2) = 46875 \<and> VAL3 (SM (PWMPTR r 4) 2) = 3609
       \<and> VAL1 (SM (PWMPTR r 1) 3) = 7500 \<and> VAL3 (SM (PWMPTR r 1) 3) = 0 \<and> VAL5 (SM (PWMPTR r 1) 3) = 3000)"
proof -
  obtain p r where p: "outs_run [Motor1 (- 400)] (snd (motor_create 2 (snd (motor_create 1 (servo_init pwm_off))))) = Some p"
    and r: "call_regs 150000000 (start_calls @ concat (map out_calls [Motor1 (- 400)])) pwm_reset = Some r"
    and rel: "pwm_rel 150000000 UNIV p r"
    using car_on_registers [OF clock_150MHz(1), of "[Motor1 (- 400)]"] by (auto elim!: runsE)
  have d: "duty p PWM4_MODULE2_CHA_C30 = 770" "duty p PWM1_MODULE3_CHA_D0 = 0" "duty p PWM1_MODULE3_CHB_D1 = 4000"
    using p by (auto simp: motor_create_def servo_init_def motor_run_def limit_int_def pwm_init_def pwm_duty_def pwm_off_def u32_def Let_def)
  have "chan_at 2 1 6 46875 770 (PWMPTR r 4)" "chan_at 3 1 0 7500 0 (PWMPTR r 1)" "chan_at 3 0 0 7500 4000 (PWMPTR r 1)"
    using holds_150MHz [OF rel, of PWM4_MODULE2_CHA_C30] holds_150MHz [OF rel, of PWM1_MODULE3_CHA_D0]
      holds_150MHz [OF rel, of PWM1_MODULE3_CHB_D1]
    by (simp_all add: d pwm_num_def pwm_module_def pwm_module_ch_def)
  then show ?thesis unfolding r by (simp add: chan_at_def values_at_def pulse_def PWM_DUTY_MAX_def)
qed

section \<open>Changing the frequency\<close>

lemma setup_VAL1:
  assumes "drop_bit 4 (CTRL (SM b m) AND PWM_CTRL_PRSC_MASK) = word_of_int k" "0 \<le> k" "k < 8" "0 < freq" "0 < clk" "d \<le> PWM_DUTY_MAX"
  shows "runs (PWM_SetupPwm m [\<lparr>pwmChannel = a, dutyCyclePercent = d, level = 0, deadtimeValue = 0\<rparr>] 3 freq clk b)
    (\<lambda>(ok, t). VAL1 (SM t m) = word_of_int (u16 (period clk k freq)))"
proof -
  have p: "clk div 2 ^ nat k div freq = period clk k freq" by (simp add: period_def)
  have "runs (setup_channels m 3 (u16 (period clk k freq)) True [\<lparr>pwmChannel = a, dutyCyclePercent = d, level = 0, deadtimeValue = 0\<rparr>] b)
    (\<lambda>t. VAL1 (SM t m) = word_of_int (u16 (period clk k freq)))"
    by (simp add: setup_values_def Let_def set_period_def set_pulse_def setup_output_def upd_SM_def)
  then show ?thesis
    unfolding PWM_SetupPwm_def Let_def assms(1) unat_prescale [OF assms(2,3)] p
    using assms(4-6) by (auto elim!: runsE simp del: setup_channels.simps)
qed

lemma freq_VAL1:
  assumes "freq_prescale clk freq = Some k" "0 < freq" "0 < clk" "d \<le> PWM_DUTY_MAX"
  shows "runs (zf_pwm_freq clk (code ch) freq d r)
    (\<lambda>t. VAL1 (SM (PWMPTR t (pwm_num (code ch))) (pwm_module (code ch))) = word_of_int (u16 (period clk k freq)))"
proof -
  define m where "m = pwm_module (code ch)"
  define b where "b = PWMPTR r (pwm_num (code ch))"
  have k: "0 \<le> k" "k < 8" using assms(1,2) prescaler_Some by (auto simp: freq_prescale_def split: if_splits)
  obtain b1 where b1: "must_succeed (PWM_Init m (channel_config k) b) = Some b1"
    "drop_bit 4 (CTRL (SM b1 m) AND PWM_CTRL_PRSC_MASK) = word_of_int k"
    by (rule runsE [OF PWM_Init_channel [OF k, of m b]]) blast
  define b2 where "b2 = PWM_SetPwmLdok (2 ^ nat m) False b1"
  have "SM b2 = SM b1" by (simp add: b2_def PWM_SetPwmLdok_def write_MCTRL_fields)
  with b1(2) have c: "drop_bit 4 (CTRL (SM b2 m) AND PWM_CTRL_PRSC_MASK) = word_of_int k" by simp
  obtain ok b3 where b3: "PWM_SetupPwm m [\<lparr>pwmChannel = pwm_module_ch (code ch), dutyCyclePercent = d, level = 0, deadtimeValue = 0\<rparr>] 3 freq clk b2
      = Some (ok, b3)" "VAL1 (SM b3 m) = word_of_int (u16 (period clk k freq))"
    by (rule runsE [OF setup_VAL1 [OF c k assms(2-4)]]) auto
  define t where "t = upd_SM m (\<lambda>s. s\<lparr>DISMAP0 := 0\<rparr>) (PWM_StartTimer (2 ^ nat m) (PWM_SetPwmLdok (2 ^ nat m) True b3))"
  have v: "VAL1 (SM t m) = word_of_int (u16 (period clk k freq))"
    by (simp add: t_def upd_SM_def PWM_StartTimer_def PWM_SetPwmLdok_def write_MCTRL_fields b3(2))
  have "start_signal clk (code ch) freq d b1 = Some t"
    using b3(1) unfolding start_signal_def Let_def m_def [symmetric] b2_def [symmetric] by (simp add: t_def)
  then have "with_pwm (pwm_num (code ch)) (\<lambda>b. do { b \<leftarrow> must_succeed (PWM_Init m (channel_config k) b); start_signal clk (code ch) freq d b }) r
      = Some (r\<lparr>PWMPTR := (PWMPTR r)(pwm_num (code ch) := t)\<rparr>)"
    using code_parts(1,2) [of ch] b1(1) by (simp add: with_pwm_def b_def)
  then show ?thesis using v by (simp add: zf_pwm_freq_def assms(1) flip: m_def)
qed

text \<open>
  \<open>pwm_freq\<close> rounds the clock's divider down where \<open>pwm_init\<close> rounds it up: whenever the number of periods in the
  clock, in units of 65536, is exactly a power of two up to 128, it takes the prescaler of that power, and the period does not fit
  the 16 bit register, which holds it less 65536.
\<close>

theorem pwm_freq_wraps:
  assumes "0 < freq" "0 < clk" "k < 8" "clk div freq div 65536 = 2 ^ k" "d \<le> PWM_DUTY_MAX"
  shows "65536 \<le> period clk (int k) freq
    \<and> runs (zf_pwm_freq clk (code ch) freq d r) (\<lambda>t. uint (VAL1 (SM (PWMPTR t (pwm_num (code ch))) (pwm_module (code ch))))
        = period clk (int k) freq - 65536)"
proof -
  define q where "q = clk div freq"
  have "k = 0 \<or> k = 1 \<or> k = 2 \<or> k = 3 \<or> k = 4 \<or> k = 5 \<or> k = 6 \<or> k = 7" using assms(3) by auto
  then have f: "freq_prescale clk freq = Some (int k)" using assms(1,4) by (auto simp: freq_prescale_def prescaler_def)
  have "clk div 2 ^ k div freq = clk div (2 ^ k * freq)" by (simp add: zdiv_zmult2_eq assms(1) less_imp_le)
  also have "\<dots> = clk div (freq * 2 ^ k)" by (simp add: mult.commute)
  also have "\<dots> = q div 2 ^ k" by (simp add: zdiv_zmult2_eq q_def)
  finally have p: "period clk (int k) freq = q div 2 ^ k" by (simp add: period_def)
  have "q = q mod 65536 + 65536 * 2 ^ k" using assms(4) mult_div_mod_eq [of 65536 q] by (simp add: q_def)
  then have "q div 2 ^ k = (q mod 65536 + 65536 * 2 ^ k) div 2 ^ k" by (rule arg_cong)
  then have "q div 2 ^ k = 65536 + q mod 65536 div 2 ^ k" by simp
  moreover have "0 \<le> q mod 65536 div 2 ^ k" by (simp add: pos_imp_zdiv_nonneg_iff)
  moreover have "q mod 65536 div 2 ^ k \<le> q mod 65536 div 1" by (rule zdiv_mono2) simp_all
  moreover have "q mod 65536 < 65536" by simp
  ultimately have b: "65536 \<le> q div 2 ^ k" "q div 2 ^ k < 131072" by simp_all
  then have "u16 (q div 2 ^ k) = q div 2 ^ k - 65536"
    using minus_mod_self2 [of "q div 2 ^ k" 65536] mod_pos_pos_trivial [of "q div 2 ^ k - 65536" 65536] by (simp add: u16_def)
  then show ?thesis
    using freq_VAL1 [OF f assms(1,2,5), of ch r] b uint16 [of "q div 2 ^ k - 65536"] unfolding p by (auto elim!: runsE)
qed

text \<open>At 150 MHz 286 Hz give a period of 65559 counts: 23 are stored, and the output has more than 780 kHz.\<close>

lemma pwm_freq_wraps_witness:
  "runs (zf_pwm_freq 150000000 185 286 770 pwm_reset) (\<lambda>t. uint (VAL1 (SM (PWMPTR t 4) 2)) = 23)"
  using pwm_freq_wraps [of 286 150000000 3 770 PWM4_MODULE2_CHA_C30 pwm_reset]
  by (simp add: period_def PWM_DUTY_MAX_def pwm_num_def pwm_module_def)

end
