(* ===== verification/Printf.thy ===== *)
theory Printf
  imports Util
begin

text \<open>
  The formatter of \<open>SEEKFREE_PRINTF.c\<close>.  A character is its code as an \<open>int8\<close>; the destination is a
  memory, because \<open>%f\<close> leaves the position behind; a local buffer has 33 cells with arbitrary old contents
  (\<open>stk\<close>), and writing behind it is a trap.  The format is the array with its terminating zero.
\<close>

section \<open>Numbers\<close>

definition i8 :: "int \<Rightarrow> int" where
  "i8 x = (x + 128) mod 256 - 128"

lemma i8_id [cint_simps, simp]: "- 128 \<le> x \<Longrightarrow> x \<le> 127 \<Longrightarrow> i8 x = x"
  by (simp add: i8_def)

partial_function (option) signed_digits :: "int \<Rightarrow> int \<Rightarrow> int \<Rightarrow> int list \<Rightarrow> int \<Rightarrow> (int list \<times> int) option" where
  "signed_digits neg_dat radix p buf valid_num =
     (if radix = 0 then None
      else Option.bind (c_put buf p (i8 (neg_dat smod radix + 48))) (\<lambda>buf.
        if neg_dat sdiv radix = 0 then Some (buf, u8 (valid_num + 1))
        else signed_digits (neg_dat sdiv radix) radix (p + 1) buf (u8 (valid_num + 1))))"

partial_function (option) unsigned_digits :: "int \<Rightarrow> int \<Rightarrow> int \<Rightarrow> int list \<Rightarrow> int \<Rightarrow> (int list \<times> int) option" where
  "unsigned_digits pos_dat radix p buf valid_num =
     (if radix = 0 then None
      else let temp_data = u8 (pos_dat mod radix);
               temp_data = (if 10 \<le> temp_data then u8 (temp_data + 55) else u8 (temp_data + 48)) in
        Option.bind (c_put buf p (i8 temp_data)) (\<lambda>buf.
        if pos_dat div radix = 0 then Some (buf, u8 (valid_num + 1))
        else unsigned_digits (pos_dat div radix) radix (p + 1) buf (u8 (valid_num + 1))))"

text \<open>The negation of the least \<open>int32\<close> is undefined.\<close>

definition number_conversion_ascii :: "int \<Rightarrow> int list \<Rightarrow> int \<Rightarrow> int \<Rightarrow> (int list \<times> int) option" where
  "number_conversion_ascii dat p neg_type radix =
     (if neg_type \<noteq> 0 then do {
        let neg_dat = i32 dat;
        neg_dat \<leftarrow> (if neg_dat < 0 then if neg_dat = - 2147483648 then None else Some (- neg_dat) else Some neg_dat);
        signed_digits neg_dat radix 0 p 0 }
      else unsigned_digits dat radix 0 p 0)"

definition printf_reverse_order :: "int list \<Rightarrow> int \<Rightarrow> int list option" where
  "printf_reverse_order d_buff len = for_up (\<lambda>i d_buff. do {
     temp_data \<leftarrow> c_get d_buff (len - 1 - i);
     x \<leftarrow> c_get d_buff i;
     d_buff \<leftarrow> c_put d_buff (len - 1 - i) x;
     d_buff \<leftarrow> c_put d_buff i temp_data;
     Some (Next d_buff) }) 0 (len div 2) d_buff"

section \<open>Conversions\<close>

text \<open>What the variable arguments can be; fetching one of another type is a trap.\<close>

datatype va = VInt int | VDouble fl | VStr "int list"

record sp =
  dest :: "int \<Rightarrow> int"
  buff :: int
  buff_len :: int
  ap :: "va list"

fun va_int :: "sp \<Rightarrow> (int \<times> sp) option" where
  "va_int s = (case ap s of VInt x # r \<Rightarrow> Some (x, s\<lparr>ap := r\<rparr>) | _ \<Rightarrow> None)"

fun va_double :: "sp \<Rightarrow> (fl \<times> sp) option" where
  "va_double s = (case ap s of VDouble x # r \<Rightarrow> Some (x, s\<lparr>ap := r\<rparr>) | _ \<Rightarrow> None)"

fun va_str :: "sp \<Rightarrow> (int list \<times> sp) option" where
  "va_str s = (case ap s of VStr x # r \<Rightarrow> Some (x, s\<lparr>ap := r\<rparr>) | _ \<Rightarrow> None)"

definition put_char :: "int \<Rightarrow> sp \<Rightarrow> sp" where
  "put_char c s = s\<lparr>dest := (dest s)(buff s := c), buff := buff s + 1, buff_len := u32 (buff_len s + 1)\<rparr>"

text \<open>\<open>memcpy(buff, vstr, n)\<close> and the two additions behind it.\<close>

definition copy :: "int list \<Rightarrow> int \<Rightarrow> sp \<Rightarrow> sp option" where
  "copy vstr n s = (if 0 \<le> n \<and> n \<le> int (length vstr)
     then Some (s\<lparr>dest := (\<lambda>a. if buff s \<le> a \<and> a < buff s + n then vstr ! nat (a - buff s) else dest s a)\<rparr>) else None)"

definition advance :: "int \<Rightarrow> sp \<Rightarrow> sp" where
  "advance n s = s\<lparr>buff := buff s + n\<rparr>"

definition count :: "int \<Rightarrow> sp \<Rightarrow> sp" where
  "count n s = s\<lparr>buff_len := u32 (buff_len s + n)\<rparr>"

definition put_minus :: "bool \<Rightarrow> int list \<Rightarrow> int \<Rightarrow> (int list \<times> int) option" where
  "put_minus neg vstr vlen = (if neg then do { vstr \<leftarrow> c_put vstr vlen 45; Some (vstr, u8 (vlen + 1)) } else Some (vstr, vlen))"

definition conv_d :: "int list \<Rightarrow> sp \<Rightarrow> sp option" where
  "conv_d stk s = do {
     (ival, s) \<leftarrow> va_int s;
     let ival = i32 ival;
     (vstr, vlen) \<leftarrow> number_conversion_ascii (u32 ival) stk 1 10;
     (vstr, vlen) \<leftarrow> put_minus (ival < 0) vstr vlen;
     vstr \<leftarrow> printf_reverse_order vstr vlen;
     s \<leftarrow> copy vstr vlen s;
     Some (count vlen (advance vlen s)) }"

definition pad_zeros :: "int list \<Rightarrow> int \<Rightarrow> (int list \<times> int) option" where
  "pad_zeros vstr vlen = do {
     vstr \<leftarrow> for_up (\<lambda>i vstr. do { vstr \<leftarrow> c_put vstr i 48; Some (Next vstr) }) vlen 6 vstr;
     Some (vstr, max vlen 6) }"

text \<open>The point and the digits behind it, from the fraction times 1000000.\<close>

definition conv_fraction :: "fl \<Rightarrow> int list \<Rightarrow> (int list \<times> int) option" where
  "conv_fraction ival vstr = do {
     (vstr, vlen) \<leftarrow> (if ival \<noteq> Fin 0 then do {
          k \<leftarrow> fl_to_int (- 2147483648) 2147483647 ival;
          number_conversion_ascii (u32 k) vstr 1 10 }
        else if length vstr < 6 then None else Some (replicate 6 48 @ drop 6 vstr, 6));
     (vstr, vlen) \<leftarrow> pad_zeros vstr vlen;
     vstr \<leftarrow> c_put vstr vlen 46;
     vstr \<leftarrow> printf_reverse_order vstr (u8 (vlen + 1));
     Some (vstr, u8 (vlen + 1)) }"

text \<open>The position does not move behind the fraction.\<close>

definition conv_f :: "int list \<Rightarrow> sp \<Rightarrow> sp option" where
  "conv_f stk s = do {
     (ival, s) \<leftarrow> va_double s;
     k \<leftarrow> fl_to_int (- 2147483648) 2147483647 ival;
     (vstr, vlen) \<leftarrow> number_conversion_ascii (u32 k) stk 1 10;
     (vstr, vlen) \<leftarrow> put_minus (fl_lt ival (Fin 0)) vstr vlen;
     vstr \<leftarrow> printf_reverse_order vstr vlen;
     s \<leftarrow> copy vstr vlen s;
     let s = count vlen (advance vlen s);
     (vstr, vlen) \<leftarrow> conv_fraction (fl_mul rd64 (fl_sub rd64 ival (Fin (of_int k))) (Fin 1000000)) vstr;
     s \<leftarrow> copy vstr vlen s;
     Some (count vlen s) }"

definition conv_u :: "int \<Rightarrow> int list \<Rightarrow> sp \<Rightarrow> sp option" where
  "conv_u radix stk s = do {
     (ival, s) \<leftarrow> va_int s;
     (vstr, vlen) \<leftarrow> number_conversion_ascii (u32 ival) stk 0 radix;
     vstr \<leftarrow> printf_reverse_order vstr vlen;
     s \<leftarrow> copy vstr vlen s;
     Some (count vlen (advance vlen s)) }"

definition conv_p :: "int list \<Rightarrow> sp \<Rightarrow> sp option" where
  "conv_p stk s = do {
     (ival, s) \<leftarrow> va_int s;
     (vstr, vlen) \<leftarrow> number_conversion_ascii (u32 ival) stk 0 16;
     vstr \<leftarrow> printf_reverse_order vstr 8;
     s \<leftarrow> copy vstr 8 s;
     Some (count 8 (advance 8 s)) }"

fun put_str :: "int list \<Rightarrow> sp \<Rightarrow> sp option" where
  "put_str [] s = None"
| "put_str (c # cs) s = (if c = 0 then Some s else put_str cs (put_char c s))"

definition conversion :: "int list \<Rightarrow> int \<Rightarrow> sp \<Rightarrow> sp option" where
  "conversion stk c s =
     (if c = 99 then do { (x, s) \<leftarrow> va_int s; Some (put_char (i8 x) s) }
      else if c = 100 \<or> c = 105 then conv_d stk s
      else if c = 102 \<or> c = 70 then conv_f stk s
      else if c = 117 then conv_u 10 stk s
      else if c = 111 then conv_u 8 stk s
      else if c = 120 \<or> c = 88 then conv_u 16 stk s
      else if c = 115 then do { (pc, s) \<leftarrow> va_str s; put_str pc s }
      else if c = 112 then conv_p stk s
      else if c = 37 then Some (put_char 37 s)
      else Some s)"

text \<open>The loop over the format; a \<open>%\<close> at its end takes the terminator for a conversion and runs on behind it.\<close>

fun format_loop :: "int list \<Rightarrow> int list \<Rightarrow> sp \<Rightarrow> sp option" where
  "format_loop stk [] s = None"
| "format_loop stk (ret # format) s =
     (if ret = 0 then Some s
      else if ret = 37 then
        (case format of [] \<Rightarrow> None | c # format \<Rightarrow> do { s \<leftarrow> conversion stk c s; format_loop stk format s })
      else format_loop stk format (put_char ret s))"

definition zf_sprintf :: "int list \<Rightarrow> int \<Rightarrow> int list \<Rightarrow> va list \<Rightarrow> (int \<Rightarrow> int) \<Rightarrow> ((int \<Rightarrow> int) \<times> int) option" where
  "zf_sprintf stk b format as m = do {
     s \<leftarrow> format_loop stk format \<lparr>dest = m, buff = b, buff_len = 0, ap = as\<rparr>;
     Some (dest s, buff_len s) }"

section \<open>Digits\<close>

text \<open>The digits of a number, most significant first.\<close>

definition digit :: "int \<Rightarrow> int" where
  "digit d = (if d < 10 then 48 + d else 55 + d)"

function radix_show :: "int \<Rightarrow> int \<Rightarrow> int list" where
  "radix_show r n = (if n < r \<or> r < 2 then [digit n] else radix_show r (n div r) @ [digit (n mod r)])"
  by pat_completeness auto
termination
  by (relation "measure (\<lambda>(r, n). nat n)") (auto simp: nat_less_iff int_div_less_self)

declare radix_show.simps [simp del]

lemma radix_show_small: "n < r \<Longrightarrow> radix_show r n = [digit n]"
  by (simp add: radix_show.simps)

lemma radix_show_step: "2 \<le> r \<Longrightarrow> r \<le> n \<Longrightarrow> radix_show r n = radix_show r (n div r) @ [digit (n mod r)]"
  by (subst radix_show.simps) simp

lemma radix_show_length:
  assumes "2 \<le> r" "0 \<le> n" "n < r ^ Suc k"
  shows "length (radix_show r n) \<le> Suc k"
  using assms
proof (induction k arbitrary: n)
  case 0
  then show ?case by (simp add: radix_show_small)
next
  case (Suc k)
  show ?case
  proof (cases "n < r")
    case False
    have "n div r < r ^ Suc k"
    proof (rule ccontr)
      assume "\<not> n div r < r ^ Suc k"
      then have "r * r ^ Suc k \<le> r * (n div r)" using Suc.prems(1) by (intro mult_left_mono) auto
      also have "\<dots> \<le> n" using mult_div_mod_eq [of r n] pos_mod_sign [of r n] Suc.prems(1) by linarith
      finally show False using Suc.prems(3) by simp
    qed
    then have "length (radix_show r (n div r)) \<le> Suc k"
      using Suc.prems by (intro Suc.IH) (auto simp: pos_imp_zdiv_nonneg_iff)
    then show ?thesis using False Suc.prems by (simp add: radix_show_step)
  qed (simp add: radix_show_small)
qed

lemma digit_range: "0 \<le> d \<Longrightarrow> d < 16 \<Longrightarrow> 48 \<le> digit d \<and> digit d \<le> 70"
  by (simp add: digit_def)

text \<open>A piece of a list replaced.\<close>

definition overwrite :: "int \<Rightarrow> int list \<Rightarrow> int list \<Rightarrow> int list" where
  "overwrite p xs buf = take (nat p) buf @ xs @ drop (nat p + length xs) buf"

lemma length_overwrite [simp]: "0 \<le> p \<Longrightarrow> nat p + length xs \<le> length buf \<Longrightarrow> length (overwrite p xs buf) = length buf"
  by (simp add: overwrite_def)

lemma overwrite_Cons:
  assumes "0 \<le> p" "nat p + Suc (length xs) \<le> length buf"
  shows "overwrite (p + 1) xs (buf[nat p := x]) = overwrite p (x # xs) buf"
proof -
  have "nat (p + 1) = Suc (nat p)" using assms(1) by simp
  then show ?thesis
    using assms by (simp add: overwrite_def take_Suc_conv_app_nth id_take_nth_drop upd_conv_take_nth_drop drop_Cons' add.commute)
qed

lemma unsigned_digits_show:
  assumes "2 \<le> r" "r \<le> 16" "0 \<le> n" "0 \<le> p" "nat p + length (radix_show r n) \<le> length buf"
  shows "unsigned_digits n r p buf v = Some (overwrite p (rev (radix_show r n)) buf, u8 (v + int (length (radix_show r n))))"
  using assms
proof (induction r n arbitrary: p buf v rule: radix_show.induct)
  case (1 r n)
  have m: "0 \<le> n mod r" "n mod r < 16" "u8 (n mod r) = n mod r"
    using "1.prems"(1,2) pos_mod_sign [of r n] order_less_le_trans [OF pos_mod_bound [of r n], of 16] by auto
  then have d: "i8 (if 10 \<le> n mod r then u8 (n mod r + 55) else u8 (n mod r + 48)) = digit (n mod r)"
    by (auto simp: digit_def)
  have g: "i8 (digit (n mod r)) = digit (n mod r)" using digit_range [OF m(1,2)] by simp
  show ?case
  proof (cases "n < r")
    case True
    then have s: "radix_show r n = [digit n]" "n div r = 0" "n mod r = n" using "1.prems"(3) by (simp_all add: radix_show_small)
    then have "nat p < length buf" using "1.prems"(5) by simp
    then show ?thesis
      using s m "1.prems"(1,4)
      by (subst unsigned_digits.simps)
        (simp add: Let_def overwrite_def upd_conv_take_nth_drop digit_def)
  next
    case False
    then have s: "radix_show r n = radix_show r (n div r) @ [digit (n mod r)]" using "1.prems"(1) by (simp add: radix_show_step)
    have z: "n div r \<noteq> 0" "0 \<le> n div r"
      using False "1.prems"(1,3) zdiv_mono1 [of r n r] by (simp_all add: pos_imp_zdiv_nonneg_iff)
    have l: "nat p < length buf" "nat (p + 1) + length (radix_show r (n div r)) \<le> length buf"
      using "1.prems"(4,5) s by simp_all
    have "unsigned_digits n r p buf v = unsigned_digits (n div r) r (p + 1) (buf[nat p := digit (n mod r)]) (u8 (v + 1))"
      using z l d g m "1.prems"(1,4) by (subst unsigned_digits.simps) (simp add: Let_def)
    also have "\<dots> = Some (overwrite (p + 1) (rev (radix_show r (n div r))) (buf[nat p := digit (n mod r)]),
        u8 (u8 (v + 1) + int (length (radix_show r (n div r)))))"
      using False "1.prems"(1,2,4) z l by (intro "1.IH") simp_all
    also have "u8 (u8 (v + 1) + int (length (radix_show r (n div r)))) = u8 (v + int (length (radix_show r n)))"
      by (simp add: s u8_def mod_simps ac_simps)
    also have "overwrite (p + 1) (rev (radix_show r (n div r))) (buf[nat p := digit (n mod r)]) = overwrite p (rev (radix_show r n)) buf"
      using l "1.prems"(4) by (simp add: s overwrite_Cons)
    finally show ?thesis .
  qed
qed

lemma smod_pos: "0 \<le> a \<Longrightarrow> 0 \<le> b \<Longrightarrow> a smod b = a mod (b::int)"
  by (cases "a = 0") (simp_all add: signed_modulo_int_def)

lemma signed_digits_unsigned:
  assumes "0 \<le> n"
  shows "signed_digits n 10 p buf v = unsigned_digits n 10 p buf v"
  using assms
proof (induction "nat n" arbitrary: n p buf v rule: less_induct)
  case less
  have m: "0 \<le> n mod 10" "n mod 10 < 10" by simp_all
  then have d: "i8 (if 10 \<le> u8 (n mod 10) then u8 (u8 (n mod 10) + 55) else u8 (u8 (n mod 10) + 48)) = i8 (n mod 10 + 48)"
    by simp
  have "signed_digits (n div 10) 10 p' b' v' = unsigned_digits (n div 10) 10 p' b' v'" if "n div 10 \<noteq> 0" for p' b' v'
    using that less.prems by (intro less.hyps) (auto simp: pos_imp_zdiv_nonneg_iff nat_less_iff)
  then have "signed_digits n 10 p buf v = Option.bind (c_put buf p (i8 (n mod 10 + 48))) (\<lambda>buf.
      if n div 10 = 0 then Some (buf, u8 (v + 1)) else unsigned_digits (n div 10) 10 (p + 1) buf (u8 (v + 1)))"
    using less.prems by (subst signed_digits.simps) (simp add: sdiv_pos smod_pos cong: if_cong)
  also have "\<dots> = unsigned_digits n 10 p buf v"
    by (subst (2) unsigned_digits.simps) (simp only: Let_def d; simp)
  finally show ?case .
qed

lemma reverse_in_place:
  assumes "0 \<le> n" "nat n \<le> length buf"
  shows "printf_reverse_order buf n = Some (rev (take (nat n) buf) @ drop (nat n) buf)"
proof -
  let ?c = "\<lambda>i j. int j < n \<and> (int j < i \<or> n - i \<le> int j)"
  let ?I = "\<lambda>i xs. length xs = length buf \<and> (\<forall>j < length buf. xs ! j = (if ?c i j then buf ! nat (n - 1 - int j) else buf ! j))"
  have "runs (printf_reverse_order buf n) (\<lambda>xs. xs = rev (take (nat n) buf) @ drop (nat n) buf)"
    unfolding printf_reverse_order_def
  proof (rule for_up_rule [where I = ?I])
    show "?I 0 buf" by auto
  next
    fix i xs assume i: "0 \<le> i" "i < n div 2" and I: "?I i xs"
    have b: "0 \<le> n - 1 - i" "i < n - 1 - i" "n - 1 - i < int (length buf)" "nat i < length buf" "nat (n - 1 - i) < length buf"
      using i assms(2) by linarith+
    have "xs ! nat (n - 1 - i) = buf ! nat (n - 1 - i)" "xs ! nat i = buf ! nat i"
      using I b i by auto
    moreover have "?I (i + 1) (xs[nat (n - 1 - i) := buf ! nat i, nat i := buf ! nat (n - 1 - i)])"
    proof (intro conjI allI impI)
      fix j assume j: "j < length buf"
      show "xs[nat (n - 1 - i) := buf ! nat i, nat i := buf ! nat (n - 1 - i)] ! j
          = (if ?c (i + 1) j then buf ! nat (n - 1 - int j) else buf ! j)"
        using I j b i by (auto simp: nth_list_update)
    qed (use I in simp)
    ultimately show "runs (do {
        temp_data \<leftarrow> c_get xs (n - 1 - i);
        x \<leftarrow> c_get xs i;
        d_buff \<leftarrow> c_put xs (n - 1 - i) x;
        d_buff \<leftarrow> c_put d_buff i temp_data;
        Some (Next d_buff) }) (flow_post (?I (i + 1)) (\<lambda>xs. xs = rev (take (nat n) buf) @ drop (nat n) buf))"
      using b I i(1) by (simp add: runs_bind)
  next
    fix xs assume I: "?I (max 0 (n div 2)) xs"
    show "xs = rev (take (nat n) buf) @ drop (nat n) buf"
    proof (rule nth_equalityI)
      fix j assume "j < length xs"
      then have j: "j < length buf" using I by simp
      show "xs ! j = (rev (take (nat n) buf) @ drop (nat n) buf) ! j"
      proof (cases "j < nat n")
        case True
        have e: "xs ! j = (if ?c (max 0 (n div 2)) j then buf ! nat (n - 1 - int j) else buf ! j)" using I j by blast
        have k: "\<not> ?c (max 0 (n div 2)) j \<Longrightarrow> nat (n - 1 - int j) = j" using True by auto
        have "nat (n - 1 - int j) = nat n - Suc j" using True by linarith
        then show ?thesis using e k True assms(2) by (auto simp: nth_append rev_nth)
      next
        case False
        then show ?thesis using I j assms by (auto simp: nth_append)
      qed
    qed (use I assms in simp)
  qed
  then show ?thesis by (auto elim: runsE)
qed

section \<open>Rendering\<close>

text \<open>What a format string and its arguments ask for, piece by piece.\<close>

datatype item = Lit int | Percent | Chr int | Dec int | Uns int | Oct int | Hex int | Str "int list"

fun item_format :: "item \<Rightarrow> int list" where
  "item_format (Lit c) = [c]"
| "item_format Percent = [37, 37]"
| "item_format (Chr c) = [37, 99]"
| "item_format (Dec n) = [37, 100]"
| "item_format (Uns n) = [37, 117]"
| "item_format (Oct n) = [37, 111]"
| "item_format (Hex n) = [37, 120]"
| "item_format (Str cs) = [37, 115]"

fun item_args :: "item \<Rightarrow> va list" where
  "item_args (Lit c) = []"
| "item_args Percent = []"
| "item_args (Chr c) = [VInt c]"
| "item_args (Dec n) = [VInt n]"
| "item_args (Uns n) = [VInt n]"
| "item_args (Oct n) = [VInt n]"
| "item_args (Hex n) = [VInt n]"
| "item_args (Str cs) = [VStr (cs @ [0])]"

definition decimal :: "int \<Rightarrow> int list" where
  "decimal n = (if n < 0 then 45 # radix_show 10 (- n) else radix_show 10 n)"

fun item_out :: "item \<Rightarrow> int list" where
  "item_out (Lit c) = [c]"
| "item_out Percent = [37]"
| "item_out (Chr c) = [c]"
| "item_out (Dec n) = decimal n"
| "item_out (Uns n) = radix_show 10 n"
| "item_out (Oct n) = radix_show 8 n"
| "item_out (Hex n) = radix_show 16 n"
| "item_out (Str cs) = cs"

fun item_ok :: "item \<Rightarrow> bool" where
  "item_ok (Lit c) = (c \<noteq> 0 \<and> c \<noteq> 37)"
| "item_ok Percent = True"
| "item_ok (Chr c) = (- 128 \<le> c \<and> c \<le> 127)"
| "item_ok (Dec n) = (- 2147483648 < n \<and> n \<le> 2147483647)"
| "item_ok (Uns n) = (0 \<le> n \<and> n \<le> 4294967295)"
| "item_ok (Oct n) = (0 \<le> n \<and> n \<le> 4294967295)"
| "item_ok (Hex n) = (0 \<le> n \<and> n \<le> 4294967295)"
| "item_ok (Str cs) = (0 \<notin> set cs)"

text \<open>A state after the characters \<open>xs\<close> have been written.\<close>

definition emit :: "int list \<Rightarrow> sp \<Rightarrow> sp" where
  "emit xs s = s\<lparr>dest := (\<lambda>a. if buff s \<le> a \<and> a < buff s + int (length xs) then xs ! nat (a - buff s) else dest s a),
     buff := buff s + int (length xs), buff_len := u32 (buff_len s + int (length xs))\<rparr>"

lemma emit_ap [simp]: "ap (emit xs s) = ap s"
  by (simp add: emit_def)

lemma emit_set_ap: "(emit xs s)\<lparr>ap := r\<rparr> = emit xs (s\<lparr>ap := r\<rparr>)"
  by (simp add: emit_def cong: if_cong)

lemma emit_append: "emit ys (emit xs s) = emit (xs @ ys) s"
proof (cases s)
  case (fields d b l as)
  have "nat (a - (b + int (length xs))) = nat (a - b) - length xs" for a by linarith
  then show ?thesis
    by (auto simp: fields emit_def nth_append u32_def mod_simps add.assoc fun_eq_iff)
qed

lemma put_char_emit: "put_char c s = emit [c] s"
  by (auto simp: put_char_def emit_def fun_eq_iff)

lemma radix_length:
  assumes "2 \<le> r" "0 \<le> n" "n \<le> 4294967295"
  shows "length (radix_show r n) \<le> 32"
proof -
  have "(4294967296 :: int) = 2 ^ Suc 31" by simp
  also have "\<dots> \<le> r ^ Suc 31" by (rule power_mono) (use assms in simp_all)
  finally have "n < r ^ Suc 31" using assms by linarith
  then show ?thesis using radix_show_length [of r n 31] assms by simp
qed

lemma copy_emit:
  assumes "n = int (length xs)"
  shows "\<exists>t. copy (xs @ r) n s = Some t \<and> count n (advance n t) = emit xs s"
proof (cases s)
  case (fields d b l as)
  have "(\<lambda>a. if b \<le> a \<and> a < b + n then (xs @ r) ! nat (a - b) else d a) = (\<lambda>a. if b \<le> a \<and> a < b + n then xs ! nat (a - b) else d a)"
    using assms by (auto simp: fun_eq_iff nth_append)
  then show ?thesis using assms by (simp add: fields copy_def count_def advance_def emit_def cong: if_cong)
qed

text \<open>The digits are written backwards at the start of the local buffer, then turned round.\<close>

lemma turned_digits:
  assumes "length xs \<le> length stk"
  shows "printf_reverse_order (overwrite 0 (rev xs) stk) (int (length xs)) = Some (xs @ drop (length xs) stk)"
  using assms by (subst reverse_in_place) (simp_all add: overwrite_def)

lemma conversion_number:
  assumes "2 \<le> r" "r \<le> 16" "0 \<le> n" "n \<le> 4294967295" "length stk = 33"
  shows "number_conversion_ascii n stk 0 r = Some (overwrite 0 (rev (radix_show r n)) stk, int (length (radix_show r n)))"
    and "n \<le> 2147483647 \<Longrightarrow> number_conversion_ascii n stk 1 10 = Some (overwrite 0 (rev (radix_show 10 n)) stk, int (length (radix_show 10 n)))"
proof -
  have l: "length (radix_show r n) \<le> 32" "length (radix_show 10 n) \<le> 32" using radix_length assms by simp_all
  then show "number_conversion_ascii n stk 0 r = Some (overwrite 0 (rev (radix_show r n)) stk, int (length (radix_show r n)))"
    using assms by (simp add: number_conversion_ascii_def unsigned_digits_show)
  show "number_conversion_ascii n stk 1 10 = Some (overwrite 0 (rev (radix_show 10 n)) stk, int (length (radix_show 10 n)))"
    if "n \<le> 2147483647"
    using assms that l by (simp add: number_conversion_ascii_def unsigned_digits_show signed_digits_unsigned)
qed

lemma conv_u_emit:
  assumes "2 \<le> r" "r \<le> 16" "0 \<le> n" "n \<le> 4294967295" "length stk = 33" "ap s = VInt n # as"
  shows "conv_u r stk s = Some (emit (radix_show r n) (s\<lparr>ap := as\<rparr>))"
proof -
  have l: "length (radix_show r n) \<le> 32" using radix_length assms by simp
  obtain t where t: "copy (radix_show r n @ drop (length (radix_show r n)) stk) (int (length (radix_show r n))) (s\<lparr>ap := as\<rparr>) = Some t"
    "count (int (length (radix_show r n))) (advance (int (length (radix_show r n))) t) = emit (radix_show r n) (s\<lparr>ap := as\<rparr>)"
    using copy_emit by blast
  then show ?thesis
    using assms l by (simp add: conv_u_def conversion_number turned_digits)
qed

lemma signed_conversion:
  assumes "- 2147483648 < n" "n \<le> 2147483647" "length stk = 33"
  shows "number_conversion_ascii (u32 n) stk 1 10
    = Some (overwrite 0 (rev (radix_show 10 \<bar>n\<bar>)) stk, int (length (radix_show 10 \<bar>n\<bar>)))"
proof -
  have "i32 (u32 n) = n" "i32 \<bar>n\<bar> = \<bar>n\<bar>"
    using assms(1,2) by (simp_all add: i32_def u32_def mod_simps)
  then have "number_conversion_ascii (u32 n) stk 1 10 = number_conversion_ascii \<bar>n\<bar> stk 1 10"
    using assms(1) by (simp add: number_conversion_ascii_def)
  then show ?thesis using conversion_number(2) [of 10 "\<bar>n\<bar>" stk] assms by simp
qed

lemma overwrite_snoc:
  assumes "length xs < length buf"
  shows "c_put (overwrite 0 xs buf) (int (length xs)) x = Some (overwrite 0 (xs @ [x]) buf)"
  using assms Cons_nth_drop_Suc [of "length xs" buf] by (simp add: overwrite_def list_update_append upd_conv_take_nth_drop)

lemma put_minus_digits:
  assumes "length xs \<le> 32" "length stk = 33"
  shows "put_minus neg (overwrite 0 (rev xs) stk) (int (length xs))
    = Some (overwrite 0 (rev ((if neg then [45] else []) @ xs)) stk, int (length ((if neg then [45] else []) @ xs)))"
  using assms overwrite_snoc [of "rev xs" stk 45] by (simp add: put_minus_def)

lemma conv_d_emit:
  assumes "- 2147483648 < n" "n \<le> 2147483647" "length stk = 33" "ap s = VInt n # as"
  shows "conv_d stk s = Some (emit (decimal n) (s\<lparr>ap := as\<rparr>))"
proof -
  have l: "length (radix_show 10 \<bar>n\<bar>) \<le> 32" using radix_length [of 10 "\<bar>n\<bar>"] assms by simp
  have e: "decimal n = (if n < 0 then [45] else []) @ radix_show 10 \<bar>n\<bar>" by (simp add: decimal_def)
  have d: "length (decimal n) \<le> 33" using l by (cases "n < 0") (simp_all add: e)
  obtain t where t: "copy (decimal n @ drop (length (decimal n)) stk) (int (length (decimal n))) (s\<lparr>ap := as\<rparr>) = Some t"
    "count (int (length (decimal n))) (advance (int (length (decimal n))) t) = emit (decimal n) (s\<lparr>ap := as\<rparr>)"
    using copy_emit by blast
  then show ?thesis
    using assms d l signed_conversion [OF assms(1-3)] put_minus_digits [OF l assms(3), of "n < 0"]
    by (simp add: conv_d_def turned_digits flip: e)
qed

definition len_ok :: "sp \<Rightarrow> bool" where
  "len_ok s \<longleftrightarrow> u32 (buff_len s) = buff_len s"

lemma len_ok_emit [simp]: "len_ok (emit xs s)" "len_ok (s\<lparr>ap := r\<rparr>) = len_ok s"
  by (simp_all add: len_ok_def emit_def u32_def)

lemma emit_Nil: "len_ok s \<Longrightarrow> emit [] s = s"
  by (cases s) (auto simp: emit_def len_ok_def fun_eq_iff)

lemma put_str_emit: "0 \<notin> set cs \<Longrightarrow> len_ok s \<Longrightarrow> put_str (cs @ [0]) s = Some (emit cs s)"
  by (induction cs arbitrary: s) (simp_all add: emit_Nil put_char_emit emit_append)

lemma item_step:
  assumes "item_ok x" "length stk = 33" "ap s = item_args x @ as" "len_ok s"
  shows "format_loop stk (item_format x @ fs) s = format_loop stk fs (emit (item_out x) (s\<lparr>ap := as\<rparr>))"
proof -
  define t where "t = s\<lparr>ap := as\<rparr>"
  have d: "conv_d stk s = Some (emit (decimal n) t)" if "x = Dec n" for n
    using assms that conv_d_emit [of n stk s as] by (simp add: t_def)
  have u: "conv_u r stk s = Some (emit (radix_show r n) t)" if "x \<in> {Uns n, Oct n, Hex n}" "r \<in> {8, 10, 16}" for r n
    using assms that conv_u_emit [of r n stk s as] by (auto simp: t_def)
  have p: "put_str (cs @ [0]) t = Some (emit cs t)" if "x = Str cs" for cs
    using assms that by (simp add: t_def put_str_emit)
  have e: "s = t" if "item_args x = []" using assms(3) that by (simp add: t_def)
  have "format_loop stk (item_format x @ fs) s = format_loop stk fs (emit (item_out x) t)"
  proof (cases x)
    case (Lit c)
    then show ?thesis using assms(1) e by (simp add: put_char_emit)
  next
    case Percent
    then show ?thesis using e by (simp add: conversion_def put_char_emit)
  next
    case (Chr c)
    then show ?thesis using assms(1,3) by (simp add: conversion_def put_char_emit t_def)
  next
    case (Str cs)
    then show ?thesis using assms(3) p by (simp add: conversion_def flip: t_def)
  qed (use d u in \<open>simp_all add: conversion_def\<close>)
  then show ?thesis by (simp add: t_def)
qed

lemma format_items:
  assumes "\<forall>x \<in> set xs. item_ok x" "length stk = 33" "ap s = concat (map item_args xs) @ as" "len_ok s"
  shows "format_loop stk (concat (map item_format xs) @ 0 # rest) s = Some (emit (concat (map item_out xs)) (s\<lparr>ap := as\<rparr>))"
  using assms
proof (induction xs arbitrary: s)
  case Nil
  then show ?case by (simp add: emit_Nil)
next
  case (Cons x xs)
  have "format_loop stk (item_format x @ concat (map item_format xs) @ 0 # rest) s
      = format_loop stk (concat (map item_format xs) @ 0 # rest) (emit (item_out x) (s\<lparr>ap := concat (map item_args xs) @ as\<rparr>))"
    by (rule item_step) (use Cons.prems in auto)
  also have "\<dots> = Some (emit (concat (map item_out xs)) ((emit (item_out x) (s\<lparr>ap := concat (map item_args xs) @ as\<rparr>))\<lparr>ap := as\<rparr>))"
    by (rule Cons.IH) (use Cons.prems in auto)
  finally show ?case by (simp add: emit_append emit_set_ap)
qed

section \<open>Properties\<close>

text \<open>
  C8: For every format made of plain characters and the conversions \<open>%d\<close>, \<open>%u\<close>, \<open>%o\<close>, \<open>%x\<close>, \<open>%c\<close>, \<open>%s\<close> and \<open>%%\<close>,
  \<open>zf_sprintf\<close> writes exactly the rendering of its arguments, whatever its local buffers held, touches no other
  cell (so it puts no terminator), and returns the number of characters.
\<close>

theorem sprintf_renders:
  assumes "\<forall>x \<in> set xs. item_ok x" "length stk = 33" "int (length (concat (map item_out xs))) \<le> 4294967295"
  shows "\<exists>m'. zf_sprintf stk b (concat (map item_format xs) @ 0 # rest) (concat (map item_args xs)) m
      = Some (m', int (length (concat (map item_out xs))))
    \<and> map m' [b..b + int (length (concat (map item_out xs))) - 1] = concat (map item_out xs)
    \<and> (\<forall>a. a < b \<or> b + int (length (concat (map item_out xs))) \<le> a \<longrightarrow> m' a = m a)"
proof -
  define out where "out = concat (map item_out xs)"
  define s where "s = emit out \<lparr>dest = m, buff = b, buff_len = 0, ap = []\<rparr>"
  have "zf_sprintf stk b (concat (map item_format xs) @ 0 # rest) (concat (map item_args xs)) m = Some (dest s, buff_len s)"
    using format_items [OF assms(1,2), of "\<lparr>dest = m, buff = b, buff_len = 0, ap = concat (map item_args xs)\<rparr>" "[]" rest]
    by (simp add: zf_sprintf_def len_ok_def s_def out_def)
  moreover have "buff_len s = int (length out)" using assms(3) by (simp add: s_def emit_def out_def)
  moreover have "map (dest s) [b..b + int (length out) - 1] = out"
    by (rule nth_equalityI) (simp_all add: s_def emit_def)
  moreover have "\<forall>a. a < b \<or> b + int (length out) \<le> a \<longrightarrow> dest s a = m a"
    by (simp add: s_def emit_def)
  ultimately show ?thesis unfolding out_def by (intro exI [of _ "dest s"]) simp
qed

lemma sprintf_renders_witness:
  "\<exists>m'. zf_sprintf (replicate 33 7) 0 [118, 61, 37, 100, 37, 120, 0] [VInt (- 12), VInt 171] (\<lambda>_. 0) = Some (m', 7)
    \<and> map m' [0..6] = [118, 61, 45, 49, 50, 65, 66]"
proof -
  have "concat (map item_out [Lit 118, Lit 61, Dec (- 12), Hex 171]) = [118, 61, 45, 49, 50, 65, 66]"
    by (simp add: decimal_def radix_show.simps digit_def)
  then show ?thesis
    using sprintf_renders [of "[Lit 118, Lit 61, Dec (- 12), Hex 171]" "replicate 33 7" 0 "[]" "\<lambda>_. 0"] by auto
qed

text \<open>The characters of the string read back by the parser of \<open>util.c\<close>.\<close>

lemma show_nat_digits: "show_nat n = map (\<lambda>c. char_of (nat c)) (radix_show 10 (int n))"
proof (induction n rule: show_nat.induct)
  case (1 n)
  show ?case
  proof (cases "n < 10")
    case True
    then show ?thesis by (subst show_nat.simps) (simp add: radix_show_small digit_def nat_add_distrib)
  next
    case False
    have "digit (int n mod 10) = 48 + int (n mod 10)" by (simp add: digit_def zmod_int)
    then have "nat (digit (int n mod 10)) = 48 + n mod 10" by simp
    moreover have "radix_show 10 (int n) = radix_show 10 (int (n div 10)) @ [digit (int n mod 10)]"
      using False by (simp add: radix_show_step zdiv_int)
    ultimately show ?thesis using "1.IH" [OF False] False by (subst show_nat.simps) simp
  qed
qed

lemma show_int_decimal: "show_int n = map (\<lambda>c. char_of (nat c)) (decimal n)"
proof -
  have "CHR ''-'' = char_of (45 :: nat)" by code_simp
  then show ?thesis by (simp add: show_int_def decimal_def show_nat_digits)
qed

text \<open>
  C39: What \<open>zf_sprintf\<close> prints for \<open>%d\<close>, the parser \<open>myatof\<close> of \<open>util.c\<close> reads back as the same number, for
  every \<open>int32\<close> but the least.
\<close>

theorem printed_int_reads_back:
  assumes "- 2147483648 < n" "n \<le> 2147483647" "length stk = 33"
  shows "\<exists>m' l. zf_sprintf stk b [37, 100, 0] [VInt n] m = Some (m', l)
    \<and> myatof (map (\<lambda>a. char_of (nat (m' a))) [b..b + l - 1]) = Fin (of_int n)"
proof -
  define s where "s = emit (decimal n) \<lparr>dest = m, buff = b, buff_len = 0, ap = []\<rparr>"
  have l: "length (radix_show 10 \<bar>n\<bar>) \<le> 32" using radix_length [of 10 "\<bar>n\<bar>"] assms by simp
  then have d: "length (decimal n) \<le> 33" by (cases "n < 0") (simp_all add: decimal_def)
  have "zf_sprintf stk b [37, 100, 0] [VInt n] m = Some (dest s, int (length (decimal n)))"
    using format_items [of "[Dec n]" stk "\<lparr>dest = m, buff = b, buff_len = 0, ap = [VInt n]\<rparr>" "[]" "[]"] assms d
    by (simp add: zf_sprintf_def len_ok_def s_def emit_def)
  moreover have "map (dest s) [b..b + int (length (decimal n)) - 1] = decimal n"
    by (rule nth_equalityI) (simp_all add: s_def emit_def)
  then have "map (\<lambda>a. char_of (nat (dest s a))) [b..b + int (length (decimal n)) - 1] = show_int n"
    unfolding show_int_decimal by (metis (no_types, lifting) map_map comp_apply map_eq_conv)
  moreover have "myatof (show_int n) = Fin (of_int n)"
    using assms myatof_nat [of "nat n"] myatof_nat [of "nat (- n)"] by (simp add: show_int_def)
  ultimately show ?thesis by auto
qed

lemma printed_int_reads_back_witness:
  "\<exists>m' l. zf_sprintf (replicate 33 0) 100 [37, 100, 0] [VInt (- 2024)] (\<lambda>_. 9) = Some (m', l)
    \<and> myatof (map (\<lambda>a. char_of (nat (m' a))) [100..100 + l - 1]) = Fin (- 2024)"
  using printed_int_reads_back [of "- 2024" "replicate 33 0" 100 "\<lambda>_. 9"] by simp

text \<open>
  Three formats go wrong: the least \<open>int32\<close> is negated, which is undefined; a format that ends in a percent sign is
  read behind its terminator; and \<open>%p\<close> prints eight characters of which it has only written the digits, the
  others being what the local buffer held before.
\<close>

theorem sprintf_undefined:
  assumes "length stk = 33" "0 \<le> n" "n \<le> 4294967295"
  shows "zf_sprintf stk b [37, 100, 0] [VInt (- 2147483648)] m = None
    \<and> zf_sprintf stk b [37, 0] as m = None
    \<and> (\<exists>m'. zf_sprintf stk b [37, 112, 0] [VInt n] m = Some (m', 8)
        \<and> map m' [b..b + 7] = rev (drop (length (radix_show 16 n)) (take 8 stk)) @ radix_show 16 n)"
proof (intro conjI)
  show "zf_sprintf stk b [37, 100, 0] [VInt (- 2147483648)] m = None"
    by (simp add: zf_sprintf_def conversion_def conv_d_def number_conversion_ascii_def i32_def u32_def)
  show "zf_sprintf stk b [37, 0] as m = None" by (simp add: zf_sprintf_def conversion_def)
  define xs where "xs = radix_show 16 n"
  define s where "s = \<lparr>dest = m, buff = b, buff_len = 0, ap = []\<rparr>"
  have l: "length xs \<le> 8" using radix_show_length [of 16 n 7] assms(2,3) by (simp add: xs_def)
  define out where "out = rev (drop (length xs) (take 8 stk)) @ xs"
  have o: "length out = 8" using l assms(1) by (simp add: out_def)
  have "take 8 (overwrite 0 (rev xs) stk) = rev out"
    using l assms(1) by (simp add: overwrite_def out_def drop_take)
  then have r: "printf_reverse_order (overwrite 0 (rev xs) stk) 8 = Some (out @ drop 8 (overwrite 0 (rev xs) stk))"
    using l assms(1) reverse_in_place [of 8 "overwrite 0 (rev xs) stk"] by simp
  obtain t where t: "copy (out @ drop 8 (overwrite 0 (rev xs) stk)) 8 s = Some t" "count 8 (advance 8 t) = emit out s"
    using copy_emit [of 8 out "drop 8 (overwrite 0 (rev xs) stk)" s] o by auto
  have "zf_sprintf stk b [37, 112, 0] [VInt n] m = Some (dest (emit out s), buff_len (emit out s))"
    using conversion_number(1) [of 16 n stk] assms r t
    by (simp add: zf_sprintf_def conversion_def conv_p_def s_def xs_def)
  moreover have "buff_len (emit out s) = 8" using o by (simp add: emit_def s_def)
  moreover have "map (dest (emit out s)) [b..b + 7] = out"
    by (rule nth_equalityI) (simp_all add: emit_def s_def o)
  ultimately show "\<exists>m'. zf_sprintf stk b [37, 112, 0] [VInt n] m = Some (m', 8)
        \<and> map m' [b..b + 7] = rev (drop (length (radix_show 16 n)) (take 8 stk)) @ radix_show 16 n"
    unfolding out_def xs_def by auto
qed

lemma sprintf_undefined_witness:
  "\<exists>m'. zf_sprintf [0..32] 0 [37, 112, 0] [VInt 10] (\<lambda>_. 0) = Some (m', 8) \<and> map m' [0..7] = [7, 6, 5, 4, 3, 2, 1, 65]"
proof -
  have "radix_show 16 10 = [65]" "take 8 [0..32] = [0, 1, 2, 3, 4, 5, 6, 7 :: int]" "length [0..32] = 33"
    by (simp_all add: radix_show_small digit_def upto_rec1)
  then show ?thesis using sprintf_undefined [of "[0..32]" 10 0 "\<lambda>_. 0"] by simp
qed

section \<open>Floating point numbers\<close>

lemma pad_zeros_digits:
  assumes "length xs \<le> 32" "length buf = 33"
  shows "pad_zeros (overwrite 0 (rev xs) buf) (int (length xs))
    = Some (overwrite 0 (rev (replicate (6 - length xs) 48 @ xs)) buf, int (length (replicate (6 - length xs) 48 @ xs)))"
proof -
  have "for_up (\<lambda>i v. do { v \<leftarrow> c_put v i 48; Some (Next v) }) (int (length ys)) 6 (overwrite 0 ys buf)
      = Some (overwrite 0 (ys @ replicate (6 - length ys) 48) buf)" if "length ys \<le> 32" for ys
    using that
  proof (induction "6 - length ys" arbitrary: ys)
    case 0
    then show ?case by (simp add: for_up_done)
  next
    case (Suc k)
    have p: "c_put (overwrite 0 ys buf) (int (length ys)) 48 = Some (overwrite 0 (ys @ [48]) buf)"
      using Suc.prems assms(2) by (intro overwrite_snoc) simp
    have "for_up (\<lambda>i v. do { v \<leftarrow> c_put v i 48; Some (Next v) }) (int (length ys)) 6 (overwrite 0 ys buf)
        = for_up (\<lambda>i v. do { v \<leftarrow> c_put v i 48; Some (Next v) }) (int (length ys) + 1) 6 (overwrite 0 (ys @ [48]) buf)"
      using Suc.hyps(2) p by (intro for_up_next) simp_all
    also have "\<dots> = Some (overwrite 0 ((ys @ [48]) @ replicate (6 - length (ys @ [48])) 48) buf)"
      using Suc.hyps(1) [of "ys @ [48]"] Suc.hyps(2) by (simp add: add.commute)
    also have "(ys @ [48]) @ replicate (6 - length (ys @ [48])) 48 = ys @ replicate (6 - length ys) (48 :: int)"
      using Suc.hyps(2) by (simp flip: replicate_Suc)
    finally show ?case .
  qed
  from this [of "rev xs"] show ?thesis using assms(1) by (simp add: pad_zeros_def)
qed

definition whole_part :: "rat \<Rightarrow> int" where
  "whole_part q = (if 0 \<le> q then \<lfloor>q\<rfloor> else \<lceil>q\<rceil>)"

lemma fl_to_int_truncate:
  "fl_to_int lo hi (Fin q) = (if lo \<le> whole_part q \<and> whole_part q \<le> hi then Some (whole_part q) else None)"
  by (simp add: fl_to_int_def whole_part_def Let_def)

lemma fraction_range:
  assumes "\<bar>whole_part q\<bar> < 2147483648"
  shows "fl_in (- 1000000) 1000000 (fl_mul rd64 (fl_sub rd64 (Fin q) (Fin (of_int (whole_part q)))) (Fin 1000000))"
proof -
  have "of_int (- 1) \<le> q - of_int (whole_part q)" "q - of_int (whole_part q) \<le> of_int 1"
    by (simp_all add: whole_part_def) linarith+
  then have "fl_in (of_int (- 1)) (of_int 1) (rd64 (q - of_int (whole_part q)))"
    by (rule rd64_in_int) simp_all
  then obtain f where f: "rd64 (q - of_int (whole_part q)) = Fin f" "- 1 \<le> f" "f \<le> 1" by (auto simp: fl_in_iff)
  have "fl_in (of_int (- 1000000)) (of_int 1000000) (rd64 (f * 1000000))"
    by (rule rd64_in_int) (use f in simp_all)
  then show ?thesis by (simp add: fl_sub_def f)
qed

text \<open>The digits behind the point.\<close>

definition fraction_digits :: "fl \<Rightarrow> int list \<Rightarrow> bool" where
  "fraction_digits f ds \<longleftrightarrow> (\<exists>r. f = Fin r \<and> ds = replicate (6 - length (radix_show 10 \<bar>whole_part r\<bar>)) 48 @ radix_show 10 \<bar>whole_part r\<bar>)"

lemma fraction_converted:
  assumes "fl_in (- 1000000) 1000000 f" "length v = 33"
  shows "\<exists>ds w. fraction_digits f ds \<and> 6 \<le> length ds \<and> length ds \<le> 7 \<and>
    conv_fraction f v = Some (46 # ds @ w, int (Suc (length ds)))"
proof -
  obtain r where r: "f = Fin r" "- 1000000 \<le> r" "r \<le> 1000000" using assms(1) by (auto simp: fl_in_iff)
  define k where "k = whole_part r"
  define xs where "xs = radix_show 10 \<bar>k\<bar>"
  define ds where "ds = replicate (6 - length xs) 48 @ xs"
  have k: "- 1000000 \<le> k" "k \<le> 1000000"
    using r by (auto simp: k_def whole_part_def floor_le_iff le_floor_iff le_ceiling_iff ceiling_le_iff)
  have x: "1 \<le> length xs" "length xs \<le> 7"
    using k radix_show_length [of 10 "\<bar>k\<bar>" 6] by (simp_all add: xs_def radix_show.simps [of 10 "\<bar>k\<bar>"])
  then have l: "6 \<le> length ds" "length ds \<le> 7" by (simp_all add: ds_def)
  have c: "fl_to_int (- 2147483648) 2147483647 f = Some k" using k r by (simp add: fl_to_int_truncate k_def)
  have n: "number_conversion_ascii (u32 k) v 1 10 = Some (overwrite 0 (rev xs) v, int (length xs))"
    using signed_conversion [of k v] k assms(2) by (simp add: xs_def)
  have z: "k = 0 \<Longrightarrow> ds = replicate 6 48"
    by (simp add: ds_def xs_def radix_show_small digit_def numeral_eq_Suc)
  have p: "pad_zeros (overwrite 0 (rev xs) v) (int (length xs)) = Some (overwrite 0 (rev ds) v, int (length ds))"
    using pad_zeros_digits [of xs v] x assms(2) by (simp add: ds_def)
  have p0: "pad_zeros (replicate 6 48 @ drop 6 v) 6 = Some (replicate 6 48 @ drop 6 v, 6)"
    by (simp add: pad_zeros_def for_up_done)
  have o: "replicate 6 48 @ drop 6 v = overwrite 0 (rev (replicate 6 48)) v" by (simp add: overwrite_def)
  have d: "c_put (overwrite 0 (rev ds) v) (int (length ds)) 46 = Some (overwrite 0 (rev (46 # ds)) v)"
    using overwrite_snoc [of "rev ds" v 46] l assms(2) by simp
  have t: "printf_reverse_order (overwrite 0 (rev (46 # ds)) v) (int (Suc (length ds))) = Some (46 # ds @ drop (Suc (length ds)) v)"
    using turned_digits [of "46 # ds" v] l assms(2) by simp
  have e: "u8 (int (length ds) + 1) = int (Suc (length ds))" using l by simp
  have "conv_fraction f v = Some (46 # ds @ drop (Suc (length ds)) v, int (Suc (length ds)))"
  proof (cases "f = Fin 0")
    case True
    then have "ds = replicate 6 48" using r z by (simp add: k_def whole_part_def)
    then show ?thesis unfolding conv_fraction_def using True p0 o d t e assms(2) by (simp del: c_put_Some)
  next
    case False
    then show ?thesis unfolding conv_fraction_def using c n p d t e by (simp del: c_put_Some append.simps)
  qed
  moreover have "fraction_digits f ds" using r by (simp add: fraction_digits_def ds_def xs_def k_def)
  ultimately show ?thesis using l by blast
qed

text \<open>The part before the point.\<close>

definition whole_digits :: "rat \<Rightarrow> int list" where
  "whole_digits q = (if q < 0 then [45] else []) @ radix_show 10 \<bar>whole_part q\<bar>"

lemma conv_f_emit:
  assumes "\<bar>whole_part q\<bar> < 2147483648" "length stk = 33" "ap s = VDouble (Fin q) # as"
  shows "\<exists>ds t. fraction_digits (fl_mul rd64 (fl_sub rd64 (Fin q) (Fin (of_int (whole_part q)))) (Fin 1000000)) ds
    \<and> 6 \<le> length ds \<and> length ds \<le> 7
    \<and> conv_f stk s = Some t \<and> count 0 (advance (int (Suc (length ds))) t) = emit (whole_digits q @ 46 # ds) (s\<lparr>ap := as\<rparr>)"
proof -
  define s1 where "s1 = s\<lparr>ap := as\<rparr>"
  define h where "h = whole_digits q"
  have l: "length (radix_show 10 \<bar>whole_part q\<bar>) \<le> 32" using radix_length [of 10 "\<bar>whole_part q\<bar>"] assms(1) by simp
  have h: "h = (if q < 0 then [45] else []) @ radix_show 10 \<bar>whole_part q\<bar>" "length h \<le> 33"
    using l by (simp_all add: h_def whole_digits_def)
  have c: "fl_to_int (- 2147483648) 2147483647 (Fin q) = Some (whole_part q)"
    using assms(1) by (simp add: fl_to_int_truncate abs_less_iff)
  have n: "number_conversion_ascii (u32 (whole_part q)) stk 1 10
      = Some (overwrite 0 (rev (radix_show 10 \<bar>whole_part q\<bar>)) stk, int (length (radix_show 10 \<bar>whole_part q\<bar>)))"
    using signed_conversion [of "whole_part q" stk] assms(1,2) by simp
  have m: "put_minus (fl_lt (Fin q) (Fin 0)) (overwrite 0 (rev (radix_show 10 \<bar>whole_part q\<bar>)) stk) (int (length (radix_show 10 \<bar>whole_part q\<bar>)))
      = Some (overwrite 0 (rev h) stk, int (length h))"
    using put_minus_digits [OF l assms(2), of "q < 0"] by (simp add: h(1))
  have t: "printf_reverse_order (overwrite 0 (rev h) stk) (int (length h)) = Some (h @ drop (length h) stk)"
    using turned_digits [of h stk] h(2) assms(2) by simp
  obtain s2 where s2: "copy (h @ drop (length h) stk) (int (length h)) s1 = Some s2"
    "count (int (length h)) (advance (int (length h)) s2) = emit h s1"
    using copy_emit by blast
  obtain ds w where d: "fraction_digits (fl_mul rd64 (fl_sub rd64 (Fin q) (Fin (of_int (whole_part q)))) (Fin 1000000)) ds"
    "6 \<le> length ds" "length ds \<le> 7"
    "conv_fraction (fl_mul rd64 (fl_sub rd64 (Fin q) (Fin (of_int (whole_part q)))) (Fin 1000000)) (h @ drop (length h) stk)
      = Some ((46 # ds) @ w, int (length (46 # ds)))"
    using fraction_converted [OF fraction_range [OF assms(1)], of "h @ drop (length h) stk"] h(2) assms(2) by auto
  obtain s3 where s3: "copy ((46 # ds) @ w) (int (length (46 # ds))) (emit h s1) = Some s3"
    "count (int (length (46 # ds))) (advance (int (length (46 # ds))) s3) = emit (46 # ds) (emit h s1)"
    using copy_emit by blast
  have "conv_f stk s = Some (count (int (length (46 # ds))) s3)"
    unfolding conv_f_def Let_def using assms(3) c n m t s2 d(4) s3(1)
    by (simp del: append.simps list.size add: s1_def [symmetric])
  moreover have "count 0 (advance (int (Suc (length ds))) (count (int (length (46 # ds))) s3)) = emit (h @ 46 # ds) s1"
    using s3(2) emit_append [of "46 # ds" h s1] by (simp add: count_def advance_def u32_def mod_simps)
  ultimately show ?thesis using d(1-3) unfolding h_def s1_def by blast
qed

text \<open>
  C40: \<open>%f\<close> writes the whole part, the point and the digits of the fraction, but leaves the position at the point: the
  next character of the format overwrites it, while the length returned still counts it.
\<close>

theorem float_overwritten:
  assumes "\<bar>whole_part q\<bar> < 2147483648" "length stk = 33" "c \<noteq> 0" "c \<noteq> 37"
  shows "\<exists>m' ds. fraction_digits (fl_mul rd64 (fl_sub rd64 (Fin q) (Fin (of_int (whole_part q)))) (Fin 1000000)) ds
    \<and> zf_sprintf stk b [37, 102, c, 0] [VDouble (Fin q)] m = Some (m', int (length (whole_digits q @ [46] @ ds @ [c])))
    \<and> map m' [b..b + int (length (whole_digits q @ c # ds)) - 1] = whole_digits q @ c # ds"
proof -
  define h where "h = whole_digits q"
  have "length (radix_show 10 \<bar>whole_part q\<bar>) \<le> 32" using radix_length [of 10 "\<bar>whole_part q\<bar>"] assms(1) by simp
  then have h: "length h \<le> 33" by (simp add: h_def whole_digits_def)
  obtain ds t where d: "fraction_digits (fl_mul rd64 (fl_sub rd64 (Fin q) (Fin (of_int (whole_part q)))) (Fin 1000000)) ds"
    "length ds \<le> 7" "conv_f stk \<lparr>dest = m, buff = b, buff_len = 0, ap = [VDouble (Fin q)]\<rparr> = Some t"
    "count 0 (advance (int (Suc (length ds))) t) = emit (h @ 46 # ds) \<lparr>dest = m, buff = b, buff_len = 0, ap = []\<rparr>"
    using conv_f_emit [of q stk "\<lparr>dest = m, buff = b, buff_len = 0, ap = [VDouble (Fin q)]\<rparr>" "[]"] assms(1,2)
    unfolding h_def by auto
  have "buff (advance (int (Suc (length ds))) t) = b + int (length (h @ 46 # ds))"
    "dest (advance (int (Suc (length ds))) t) = (\<lambda>a. if b \<le> a \<and> a < b + int (length (h @ 46 # ds)) then (h @ 46 # ds) ! nat (a - b) else m a)"
    "u32 (buff_len (advance (int (Suc (length ds))) t)) = u32 (int (length (h @ 46 # ds)))"
    using arg_cong [OF d(4), of buff] arg_cong [OF d(4), of dest] arg_cong [OF d(4), of buff_len]
    by (simp_all add: emit_def count_def cong: if_cong)
  then have t: "buff t = b + int (length h)" "u32 (buff_len t) = int (length h + Suc (length ds))"
    "dest t = (\<lambda>a. if b \<le> a \<and> a < b + int (length (h @ 46 # ds)) then (h @ 46 # ds) ! nat (a - b) else m a)"
    using h d(2) by (simp_all add: advance_def)
  have "zf_sprintf stk b [37, 102, c, 0] [VDouble (Fin q)] m = Some (dest (put_char c t), buff_len (put_char c t))"
    using assms(3,4) d(3) by (simp add: zf_sprintf_def conversion_def)
  moreover have "buff_len (put_char c t) = int (length (h @ [46] @ ds @ [c]))"
  proof -
    have "buff_len (put_char c t) = u32 (u32 (buff_len t) + 1)" by (simp add: put_char_def u32_def mod_simps)
    then show ?thesis unfolding t(2) using h d(2) by simp
  qed
  moreover have "map (dest (put_char c t)) [b..b + int (length (h @ c # ds)) - 1] = h @ c # ds"
    by (rule nth_equalityI) (auto simp: put_char_def t nth_append nth_Cons')
  ultimately show ?thesis using d(1) unfolding h_def by (intro exI [of _ "dest (put_char c t)"] exI conjI) simp_all
qed

text \<open>1.5 with an exclamation mark is printed as \<open>1!500000\<close>, with the length 9.\<close>

lemma float_overwritten_witness:
  "\<exists>m' ds. zf_sprintf (replicate 33 0) 0 [37, 102, 33, 0] [VDouble (Fin (3 / 2))] (\<lambda>_. 0) = Some (m', 9)
    \<and> map m' [0..7] = [49, 33, 53, 48, 48, 48, 48, 48]"
proof -
  have k: "whole_part (3 / 2) = 1" by (simp add: whole_part_def floor_eq_iff)
  have "rd64 (1 / 2) = Fin (1 / 2)" using rd64_dyadic [of 1 1] by simp
  then have "fl_mul rd64 (fl_sub rd64 (Fin (3 / 2)) (Fin (of_int (whole_part (3 / 2))))) (Fin 1000000) = Fin 500000"
    using rd64_int [of 500000] by (simp add: k fl_sub_def)
  then obtain m' ds where m: "fraction_digits (Fin 500000) ds"
    "zf_sprintf (replicate 33 0) 0 [37, 102, 33, 0] [VDouble (Fin (3 / 2))] (\<lambda>_. 0) = Some (m', int (length (whole_digits (3 / 2) @ [46] @ ds @ [33])))"
    "map m' [0..0 + int (length (whole_digits (3 / 2) @ 33 # ds)) - 1] = whole_digits (3 / 2) @ 33 # ds"
    using float_overwritten [of "3 / 2" "replicate 33 0" 33 0 "\<lambda>_. 0"] k by fastforce
  have "whole_part 500000 = 500000" by (simp add: whole_part_def)
  then have "ds = [53, 48, 48, 48, 48, 48]"
    using m(1) by (simp add: fraction_digits_def radix_show_small radix_show_step digit_def)
  moreover have "whole_digits (3 / 2) = [49]" by (simp add: whole_digits_def k radix_show_small digit_def)
  ultimately show ?thesis using m(2,3) by (intro exI [of _ m']) simp
qed

end
