(* ===== verification/LcdFont.thy ===== *)
theory LcdFont
  imports Main
begin

text \<open>
  The fonts of \<open>SEEKFREE_FONT.c\<close> the display driver uses: for every character from the space to the tilde its
  rows, the leftmost pixel in bit 0.
\<close>

definition asc2_1206 :: "int list list" where
  "asc2_1206 = [
    [0, 0, 0, 0, 0, 0, 0, 0, 0, 0, 0, 0], [0, 0, 4, 4, 4, 4, 4, 4, 0, 4, 0, 0], [0, 20, 10, 10, 0, 0, 0, 0, 0, 0, 0, 0],
    [0, 0, 20, 20, 63, 20, 10, 63, 10, 10, 0, 0], [0, 4, 30, 21, 5, 6, 12, 20, 21, 15, 4, 0],
    [0, 0, 18, 21, 13, 10, 20, 44, 42, 18, 0, 0], [0, 0, 4, 10, 10, 30, 21, 21, 9, 54, 0, 0],
    [0, 2, 2, 1, 0, 0, 0, 0, 0, 0, 0, 0], [0, 32, 16, 8, 8, 8, 8, 8, 8, 16, 32, 0], [0, 2, 4, 8, 8, 8, 8, 8, 8, 4, 2, 0],
    [0, 0, 0, 4, 21, 14, 14, 21, 4, 0, 0, 0], [0, 0, 4, 4, 4, 31, 4, 4, 4, 0, 0, 0], [0, 0, 0, 0, 0, 0, 0, 0, 0, 2, 2, 1],
    [0, 0, 0, 0, 0, 31, 0, 0, 0, 0, 0, 0], [0, 0, 0, 0, 0, 0, 0, 0, 0, 2, 0, 0], [0, 16, 8, 8, 8, 4, 4, 2, 2, 2, 1, 0],
    [0, 0, 14, 17, 17, 17, 17, 17, 17, 14, 0, 0], [0, 0, 4, 6, 4, 4, 4, 4, 4, 14, 0, 0],
    [0, 0, 14, 17, 17, 8, 4, 2, 1, 31, 0, 0], [0, 0, 14, 17, 16, 12, 16, 16, 17, 14, 0, 0],
    [0, 0, 8, 12, 10, 10, 9, 30, 8, 24, 0, 0], [0, 0, 31, 1, 1, 15, 16, 16, 17, 14, 0, 0],
    [0, 0, 14, 9, 1, 15, 17, 17, 17, 14, 0, 0], [0, 0, 31, 9, 8, 4, 4, 4, 4, 4, 0, 0],
    [0, 0, 14, 17, 17, 14, 17, 17, 17, 14, 0, 0], [0, 0, 14, 17, 17, 17, 30, 16, 18, 14, 0, 0],
    [0, 0, 0, 0, 4, 0, 0, 0, 0, 4, 0, 0], [0, 0, 0, 0, 0, 4, 0, 0, 0, 4, 4, 0], [0, 32, 16, 8, 4, 2, 4, 8, 16, 32, 0, 0],
    [0, 0, 0, 0, 31, 0, 0, 31, 0, 0, 0, 0], [0, 2, 4, 8, 16, 32, 16, 8, 4, 2, 0, 0],
    [0, 0, 14, 17, 17, 8, 4, 4, 0, 4, 0, 0], [0, 0, 14, 17, 25, 21, 21, 29, 1, 30, 0, 0],
    [0, 0, 4, 4, 12, 10, 10, 30, 18, 51, 0, 0], [0, 0, 15, 18, 18, 14, 18, 18, 18, 15, 0, 0],
    [0, 0, 30, 17, 1, 1, 1, 1, 17, 14, 0, 0], [0, 0, 15, 18, 18, 18, 18, 18, 18, 15, 0, 0],
    [0, 0, 31, 18, 10, 14, 10, 2, 18, 31, 0, 0], [0, 0, 31, 18, 10, 14, 10, 2, 2, 7, 0, 0],
    [0, 0, 28, 18, 1, 1, 57, 17, 18, 12, 0, 0], [0, 0, 51, 18, 18, 30, 18, 18, 18, 51, 0, 0],
    [0, 0, 31, 4, 4, 4, 4, 4, 4, 31, 0, 0], [0, 0, 62, 8, 8, 8, 8, 8, 8, 9, 7, 0],
    [0, 0, 55, 18, 10, 6, 10, 10, 18, 55, 0, 0], [0, 0, 7, 2, 2, 2, 2, 2, 34, 63, 0, 0],
    [0, 0, 27, 27, 27, 27, 21, 21, 21, 21, 0, 0], [0, 0, 59, 18, 22, 22, 26, 26, 18, 23, 0, 0],
    [0, 0, 14, 17, 17, 17, 17, 17, 17, 14, 0, 0], [0, 0, 15, 18, 18, 14, 2, 2, 2, 7, 0, 0],
    [0, 0, 14, 17, 17, 17, 17, 23, 25, 14, 24, 0], [0, 0, 15, 18, 18, 14, 10, 18, 18, 55, 0, 0],
    [0, 0, 30, 17, 1, 6, 8, 16, 17, 15, 0, 0], [0, 0, 31, 21, 4, 4, 4, 4, 4, 14, 0, 0],
    [0, 0, 51, 18, 18, 18, 18, 18, 18, 12, 0, 0], [0, 0, 51, 18, 18, 10, 10, 12, 4, 4, 0, 0],
    [0, 0, 21, 21, 21, 14, 10, 10, 10, 10, 0, 0], [0, 0, 27, 10, 10, 4, 4, 10, 10, 27, 0, 0],
    [0, 0, 27, 10, 10, 4, 4, 4, 4, 14, 0, 0], [0, 0, 31, 9, 8, 4, 4, 2, 18, 31, 0, 0],
    [0, 28, 4, 4, 4, 4, 4, 4, 4, 4, 28, 0], [0, 2, 2, 2, 4, 4, 8, 8, 8, 16, 0, 0], [0, 14, 8, 8, 8, 8, 8, 8, 8, 8, 14, 0],
    [0, 4, 10, 0, 0, 0, 0, 0, 0, 0, 0, 0], [0, 0, 0, 0, 0, 0, 0, 0, 0, 0, 0, 63], [0, 4, 0, 0, 0, 0, 0, 0, 0, 0, 0, 0],
    [0, 0, 0, 0, 0, 12, 18, 28, 18, 60, 0, 0], [0, 0, 3, 2, 2, 14, 18, 18, 18, 14, 0, 0],
    [0, 0, 0, 0, 0, 28, 18, 2, 2, 28, 0, 0], [0, 0, 24, 16, 16, 28, 18, 18, 18, 60, 0, 0],
    [0, 0, 0, 0, 0, 12, 18, 30, 2, 28, 0, 0], [0, 0, 56, 4, 4, 30, 4, 4, 4, 30, 0, 0],
    [0, 0, 0, 0, 0, 60, 18, 12, 2, 30, 34, 28], [0, 0, 3, 2, 2, 14, 18, 18, 18, 55, 0, 0],
    [0, 0, 4, 0, 0, 6, 4, 4, 4, 14, 0, 0], [0, 0, 8, 0, 0, 12, 8, 8, 8, 8, 8, 7], [0, 0, 3, 2, 2, 58, 10, 14, 18, 55, 0, 0],
    [0, 0, 7, 4, 4, 4, 4, 4, 4, 31, 0, 0], [0, 0, 0, 0, 0, 15, 21, 21, 21, 21, 0, 0],
    [0, 0, 0, 0, 0, 15, 18, 18, 18, 55, 0, 0], [0, 0, 0, 0, 0, 12, 18, 18, 18, 12, 0, 0],
    [0, 0, 0, 0, 0, 15, 18, 18, 18, 14, 2, 7], [0, 0, 0, 0, 0, 28, 18, 18, 18, 28, 16, 56],
    [0, 0, 0, 0, 0, 27, 6, 2, 2, 7, 0, 0], [0, 0, 0, 0, 0, 30, 2, 12, 16, 30, 0, 0], [0, 0, 0, 4, 4, 14, 4, 4, 4, 24, 0, 0],
    [0, 0, 0, 0, 0, 27, 18, 18, 18, 60, 0, 0], [0, 0, 0, 0, 0, 55, 18, 10, 12, 4, 0, 0],
    [0, 0, 0, 0, 0, 21, 21, 14, 10, 10, 0, 0], [0, 0, 0, 0, 0, 27, 10, 4, 10, 27, 0, 0],
    [0, 0, 0, 0, 0, 55, 18, 10, 12, 4, 4, 3], [0, 0, 0, 0, 0, 30, 8, 4, 4, 30, 0, 0],
    [0, 24, 8, 8, 8, 4, 8, 8, 8, 8, 24, 0], [8, 8, 8, 8, 8, 8, 8, 8, 8, 8, 8, 8], [0, 6, 4, 4, 4, 8, 4, 4, 4, 4, 6, 0],
    [2, 37, 24, 0, 0, 0, 0, 0, 0, 0, 0, 0]]"

definition asc2_1608 :: "int list list" where
  "asc2_1608 = [
    [0, 0, 0, 0, 0, 0, 0, 0, 0, 0, 0, 0, 0, 0, 0, 0], [0, 0, 0, 8, 8, 8, 8, 8, 8, 8, 0, 0, 24, 24, 0, 0],
    [0, 72, 108, 36, 18, 0, 0, 0, 0, 0, 0, 0, 0, 0, 0, 0], [0, 0, 0, 36, 36, 36, 127, 18, 18, 18, 127, 18, 18, 18, 0, 0],
    [0, 0, 8, 28, 42, 42, 10, 12, 24, 40, 40, 42, 42, 28, 8, 8],
    [0, 0, 0, 34, 37, 21, 21, 21, 42, 88, 84, 84, 84, 34, 0, 0],
    [0, 0, 0, 12, 18, 18, 18, 10, 118, 37, 41, 17, 145, 110, 0, 0], [0, 6, 6, 4, 3, 0, 0, 0, 0, 0, 0, 0, 0, 0, 0, 0],
    [0, 64, 32, 16, 16, 8, 8, 8, 8, 8, 8, 16, 16, 32, 64, 0], [0, 2, 4, 8, 8, 16, 16, 16, 16, 16, 16, 8, 8, 4, 2, 0],
    [0, 0, 0, 0, 8, 8, 107, 28, 28, 107, 8, 8, 0, 0, 0, 0], [0, 0, 0, 0, 8, 8, 8, 8, 127, 8, 8, 8, 8, 0, 0, 0],
    [0, 0, 0, 0, 0, 0, 0, 0, 0, 0, 0, 0, 6, 6, 4, 3], [0, 0, 0, 0, 0, 0, 0, 0, 254, 0, 0, 0, 0, 0, 0, 0],
    [0, 0, 0, 0, 0, 0, 0, 0, 0, 0, 0, 0, 6, 6, 0, 0], [0, 0, 128, 64, 64, 32, 32, 16, 16, 8, 8, 4, 4, 2, 2, 0],
    [0, 0, 0, 24, 36, 66, 66, 66, 66, 66, 66, 66, 36, 24, 0, 0], [0, 0, 0, 8, 14, 8, 8, 8, 8, 8, 8, 8, 8, 62, 0, 0],
    [0, 0, 0, 60, 66, 66, 66, 32, 32, 16, 8, 4, 66, 126, 0, 0], [0, 0, 0, 60, 66, 66, 32, 24, 32, 64, 64, 66, 34, 28, 0, 0],
    [0, 0, 0, 32, 48, 40, 36, 36, 34, 34, 126, 32, 32, 120, 0, 0],
    [0, 0, 0, 126, 2, 2, 2, 26, 38, 64, 64, 66, 34, 28, 0, 0], [0, 0, 0, 56, 36, 2, 2, 26, 38, 66, 66, 66, 36, 24, 0, 0],
    [0, 0, 0, 126, 34, 34, 16, 16, 8, 8, 8, 8, 8, 8, 0, 0], [0, 0, 0, 60, 66, 66, 66, 36, 24, 36, 66, 66, 66, 60, 0, 0],
    [0, 0, 0, 24, 36, 66, 66, 66, 100, 88, 64, 64, 36, 28, 0, 0], [0, 0, 0, 0, 0, 0, 24, 24, 0, 0, 0, 0, 24, 24, 0, 0],
    [0, 0, 0, 0, 0, 0, 0, 8, 0, 0, 0, 0, 0, 8, 8, 4], [0, 0, 0, 64, 32, 16, 8, 4, 2, 4, 8, 16, 32, 64, 0, 0],
    [0, 0, 0, 0, 0, 0, 127, 0, 0, 0, 127, 0, 0, 0, 0, 0], [0, 0, 0, 2, 4, 8, 16, 32, 64, 32, 16, 8, 4, 2, 0, 0],
    [0, 0, 0, 60, 66, 66, 70, 64, 32, 16, 16, 0, 24, 24, 0, 0], [0, 0, 0, 28, 34, 90, 85, 85, 85, 85, 45, 66, 34, 28, 0, 0],
    [0, 0, 0, 8, 8, 24, 20, 20, 36, 60, 34, 66, 66, 231, 0, 0], [0, 0, 0, 31, 34, 34, 34, 30, 34, 66, 66, 66, 34, 31, 0, 0],
    [0, 0, 0, 124, 66, 66, 1, 1, 1, 1, 1, 66, 34, 28, 0, 0], [0, 0, 0, 31, 34, 66, 66, 66, 66, 66, 66, 66, 34, 31, 0, 0],
    [0, 0, 0, 63, 66, 18, 18, 30, 18, 18, 2, 66, 66, 63, 0, 0], [0, 0, 0, 63, 66, 18, 18, 30, 18, 18, 2, 2, 2, 7, 0, 0],
    [0, 0, 0, 60, 34, 34, 1, 1, 1, 113, 33, 34, 34, 28, 0, 0],
    [0, 0, 0, 231, 66, 66, 66, 66, 126, 66, 66, 66, 66, 231, 0, 0], [0, 0, 0, 62, 8, 8, 8, 8, 8, 8, 8, 8, 8, 62, 0, 0],
    [0, 0, 0, 124, 16, 16, 16, 16, 16, 16, 16, 16, 16, 16, 17, 15],
    [0, 0, 0, 119, 34, 18, 10, 14, 10, 18, 18, 34, 34, 119, 0, 0], [0, 0, 0, 7, 2, 2, 2, 2, 2, 2, 2, 2, 66, 127, 0, 0],
    [0, 0, 0, 119, 54, 54, 54, 54, 42, 42, 42, 42, 42, 107, 0, 0],
    [0, 0, 0, 227, 70, 70, 74, 74, 82, 82, 82, 98, 98, 71, 0, 0],
    [0, 0, 0, 28, 34, 65, 65, 65, 65, 65, 65, 65, 34, 28, 0, 0], [0, 0, 0, 63, 66, 66, 66, 66, 62, 2, 2, 2, 2, 7, 0, 0],
    [0, 0, 0, 28, 34, 65, 65, 65, 65, 65, 77, 83, 50, 28, 96, 0],
    [0, 0, 0, 63, 66, 66, 66, 62, 18, 18, 34, 34, 66, 199, 0, 0],
    [0, 0, 0, 124, 66, 66, 2, 4, 24, 32, 64, 66, 66, 62, 0, 0], [0, 0, 0, 127, 73, 8, 8, 8, 8, 8, 8, 8, 8, 28, 0, 0],
    [0, 0, 0, 231, 66, 66, 66, 66, 66, 66, 66, 66, 66, 60, 0, 0],
    [0, 0, 0, 231, 66, 66, 34, 36, 36, 20, 20, 24, 8, 8, 0, 0],
    [0, 0, 0, 107, 73, 73, 73, 73, 85, 85, 54, 34, 34, 34, 0, 0],
    [0, 0, 0, 231, 66, 36, 36, 24, 24, 24, 36, 36, 66, 231, 0, 0], [0, 0, 0, 119, 34, 34, 20, 20, 8, 8, 8, 8, 8, 28, 0, 0],
    [0, 0, 0, 126, 33, 32, 16, 16, 8, 4, 4, 66, 66, 63, 0, 0], [0, 120, 8, 8, 8, 8, 8, 8, 8, 8, 8, 8, 8, 8, 120, 0],
    [0, 0, 2, 2, 4, 4, 8, 8, 8, 16, 16, 32, 32, 32, 64, 64], [0, 30, 16, 16, 16, 16, 16, 16, 16, 16, 16, 16, 16, 16, 30, 0],
    [0, 56, 68, 0, 0, 0, 0, 0, 0, 0, 0, 0, 0, 0, 0, 0], [0, 0, 0, 0, 0, 0, 0, 0, 0, 0, 0, 0, 0, 0, 0, 255],
    [0, 6, 8, 0, 0, 0, 0, 0, 0, 0, 0, 0, 0, 0, 0, 0], [0, 0, 0, 0, 0, 0, 0, 60, 66, 120, 68, 66, 66, 252, 0, 0],
    [0, 0, 0, 3, 2, 2, 2, 26, 38, 66, 66, 66, 38, 26, 0, 0], [0, 0, 0, 0, 0, 0, 0, 56, 68, 2, 2, 2, 68, 56, 0, 0],
    [0, 0, 0, 96, 64, 64, 64, 120, 68, 66, 66, 66, 100, 216, 0, 0], [0, 0, 0, 0, 0, 0, 0, 60, 66, 126, 2, 2, 66, 60, 0, 0],
    [0, 0, 0, 240, 136, 8, 8, 126, 8, 8, 8, 8, 8, 62, 0, 0], [0, 0, 0, 0, 0, 0, 0, 124, 34, 34, 28, 2, 60, 66, 66, 60],
    [0, 0, 0, 3, 2, 2, 2, 58, 70, 66, 66, 66, 66, 231, 0, 0], [0, 0, 0, 12, 12, 0, 0, 14, 8, 8, 8, 8, 8, 62, 0, 0],
    [0, 0, 0, 48, 48, 0, 0, 56, 32, 32, 32, 32, 32, 32, 34, 30], [0, 0, 0, 3, 2, 2, 2, 114, 18, 10, 22, 18, 34, 119, 0, 0],
    [0, 0, 0, 14, 8, 8, 8, 8, 8, 8, 8, 8, 8, 62, 0, 0], [0, 0, 0, 0, 0, 0, 0, 127, 146, 146, 146, 146, 146, 183, 0, 0],
    [0, 0, 0, 0, 0, 0, 0, 59, 70, 66, 66, 66, 66, 231, 0, 0], [0, 0, 0, 0, 0, 0, 0, 60, 66, 66, 66, 66, 66, 60, 0, 0],
    [0, 0, 0, 0, 0, 0, 0, 27, 38, 66, 66, 66, 34, 30, 2, 7], [0, 0, 0, 0, 0, 0, 0, 120, 68, 66, 66, 66, 68, 120, 64, 224],
    [0, 0, 0, 0, 0, 0, 0, 119, 76, 4, 4, 4, 4, 31, 0, 0], [0, 0, 0, 0, 0, 0, 0, 124, 66, 2, 60, 64, 66, 62, 0, 0],
    [0, 0, 0, 0, 0, 8, 8, 62, 8, 8, 8, 8, 8, 48, 0, 0], [0, 0, 0, 0, 0, 0, 0, 99, 66, 66, 66, 66, 98, 220, 0, 0],
    [0, 0, 0, 0, 0, 0, 0, 231, 66, 36, 36, 20, 8, 8, 0, 0], [0, 0, 0, 0, 0, 0, 0, 235, 73, 73, 85, 85, 34, 34, 0, 0],
    [0, 0, 0, 0, 0, 0, 0, 118, 36, 24, 24, 24, 36, 110, 0, 0], [0, 0, 0, 0, 0, 0, 0, 231, 66, 36, 36, 20, 24, 8, 8, 7],
    [0, 0, 0, 0, 0, 0, 0, 126, 34, 16, 8, 8, 68, 126, 0, 0],
    [0, 192, 32, 32, 32, 32, 32, 16, 32, 32, 32, 32, 32, 32, 192, 0],
    [16, 16, 16, 16, 16, 16, 16, 16, 16, 16, 16, 16, 16, 16, 16, 16], [0, 6, 8, 8, 8, 8, 8, 16, 8, 8, 8, 8, 8, 8, 6, 0],
    [12, 50, 194, 0, 0, 0, 0, 0, 0, 0, 0, 0, 0, 0, 0, 0]]"

definition tft_ascii :: "int list list" where
  "tft_ascii = [
    [0, 0, 0, 0, 0, 0, 0, 0, 0, 0, 0, 0, 0, 0, 0, 0], [0, 0, 0, 8, 8, 8, 8, 8, 8, 8, 0, 0, 8, 8, 0, 0],
    [0, 72, 36, 36, 18, 0, 0, 0, 0, 0, 0, 0, 0, 0, 0, 0], [0, 0, 0, 72, 72, 72, 126, 36, 36, 36, 126, 36, 36, 36, 0, 0],
    [0, 0, 16, 60, 82, 82, 18, 28, 48, 80, 80, 82, 82, 60, 16, 16],
    [0, 0, 0, 34, 37, 21, 21, 13, 42, 88, 84, 84, 82, 34, 0, 0],
    [0, 0, 0, 12, 18, 18, 18, 10, 118, 37, 41, 25, 145, 110, 0, 0], [0, 6, 4, 4, 2, 0, 0, 0, 0, 0, 0, 0, 0, 0, 0, 0],
    [0, 64, 32, 16, 16, 8, 8, 8, 8, 8, 8, 16, 16, 32, 64, 0], [0, 2, 4, 8, 8, 16, 16, 16, 16, 16, 16, 8, 8, 4, 2, 0],
    [0, 0, 0, 0, 8, 8, 107, 28, 28, 107, 8, 8, 0, 0, 0, 0], [0, 0, 0, 0, 0, 16, 16, 16, 254, 16, 16, 16, 0, 0, 0, 0],
    [0, 0, 0, 0, 0, 0, 0, 0, 0, 0, 0, 0, 6, 4, 4, 2], [0, 0, 0, 0, 0, 0, 0, 0, 126, 0, 0, 0, 0, 0, 0, 0],
    [0, 0, 0, 0, 0, 0, 0, 0, 0, 0, 0, 0, 6, 6, 0, 0], [0, 0, 64, 32, 32, 32, 16, 16, 8, 8, 8, 4, 4, 2, 2, 0],
    [0, 0, 0, 24, 36, 66, 66, 66, 66, 66, 66, 66, 36, 24, 0, 0],
    [0, 0, 0, 16, 28, 16, 16, 16, 16, 16, 16, 16, 16, 124, 0, 0],
    [0, 0, 0, 60, 66, 66, 66, 64, 32, 16, 8, 4, 66, 126, 0, 0], [0, 0, 0, 60, 66, 66, 64, 32, 24, 32, 64, 66, 66, 60, 0, 0],
    [0, 0, 0, 32, 48, 48, 40, 36, 36, 34, 254, 32, 32, 248, 0, 0],
    [0, 0, 0, 126, 2, 2, 2, 30, 34, 64, 64, 66, 34, 28, 0, 0], [0, 0, 0, 24, 36, 2, 2, 58, 70, 66, 66, 66, 68, 56, 0, 0],
    [0, 0, 0, 126, 66, 32, 32, 16, 16, 8, 8, 8, 8, 8, 0, 0], [0, 0, 0, 60, 66, 66, 66, 36, 24, 36, 66, 66, 66, 60, 0, 0],
    [0, 0, 0, 28, 34, 66, 66, 66, 98, 92, 64, 64, 36, 24, 0, 0], [0, 0, 0, 0, 0, 0, 24, 24, 0, 0, 0, 0, 24, 24, 0, 0],
    [0, 0, 0, 0, 0, 0, 0, 8, 0, 0, 0, 0, 0, 8, 8, 8], [0, 0, 0, 64, 32, 16, 8, 4, 2, 4, 8, 16, 32, 64, 0, 0],
    [0, 0, 0, 0, 0, 0, 126, 0, 0, 126, 0, 0, 0, 0, 0, 0], [0, 0, 0, 2, 4, 8, 16, 32, 64, 32, 16, 8, 4, 2, 0, 0],
    [0, 0, 0, 60, 66, 66, 70, 32, 16, 16, 16, 0, 24, 24, 0, 0], [0, 0, 0, 28, 34, 90, 85, 85, 85, 85, 85, 58, 66, 60, 0, 0],
    [0, 0, 0, 8, 8, 24, 20, 20, 36, 60, 34, 66, 66, 231, 0, 0], [0, 0, 0, 31, 34, 34, 34, 30, 34, 66, 66, 66, 34, 31, 0, 0],
    [0, 0, 0, 124, 66, 66, 1, 1, 1, 1, 1, 66, 34, 28, 0, 0], [0, 0, 0, 31, 34, 66, 66, 66, 66, 66, 66, 66, 34, 31, 0, 0],
    [0, 0, 0, 63, 66, 18, 18, 30, 18, 18, 2, 66, 66, 63, 0, 0], [0, 0, 0, 63, 66, 18, 18, 30, 18, 18, 2, 2, 2, 7, 0, 0],
    [0, 0, 0, 60, 34, 34, 1, 1, 1, 113, 33, 34, 34, 28, 0, 0],
    [0, 0, 0, 231, 66, 66, 66, 66, 126, 66, 66, 66, 66, 231, 0, 0], [0, 0, 0, 62, 8, 8, 8, 8, 8, 8, 8, 8, 8, 62, 0, 0],
    [0, 0, 0, 124, 16, 16, 16, 16, 16, 16, 16, 16, 16, 16, 17, 15],
    [0, 0, 0, 119, 34, 18, 10, 14, 10, 18, 18, 34, 34, 119, 0, 0], [0, 0, 0, 7, 2, 2, 2, 2, 2, 2, 2, 2, 66, 127, 0, 0],
    [0, 0, 0, 119, 54, 54, 54, 54, 54, 42, 42, 42, 42, 107, 0, 0],
    [0, 0, 0, 227, 70, 70, 74, 74, 82, 82, 82, 98, 98, 71, 0, 0],
    [0, 0, 0, 28, 34, 65, 65, 65, 65, 65, 65, 65, 34, 28, 0, 0], [0, 0, 0, 63, 66, 66, 66, 66, 62, 2, 2, 2, 2, 7, 0, 0],
    [0, 0, 0, 28, 34, 65, 65, 65, 65, 65, 65, 77, 50, 28, 96, 0],
    [0, 0, 0, 63, 66, 66, 66, 62, 18, 18, 34, 34, 66, 199, 0, 0],
    [0, 0, 0, 124, 66, 66, 2, 4, 24, 32, 64, 66, 66, 62, 0, 0], [0, 0, 0, 127, 73, 8, 8, 8, 8, 8, 8, 8, 8, 28, 0, 0],
    [0, 0, 0, 231, 66, 66, 66, 66, 66, 66, 66, 66, 66, 60, 0, 0],
    [0, 0, 0, 231, 66, 66, 34, 36, 36, 20, 20, 24, 8, 8, 0, 0],
    [0, 0, 0, 107, 42, 42, 42, 42, 42, 54, 20, 20, 20, 20, 0, 0],
    [0, 0, 0, 231, 66, 36, 36, 24, 24, 24, 36, 36, 66, 231, 0, 0], [0, 0, 0, 119, 34, 34, 20, 20, 8, 8, 8, 8, 8, 28, 0, 0],
    [0, 0, 0, 126, 33, 32, 16, 16, 8, 4, 4, 66, 66, 63, 0, 0], [0, 120, 8, 8, 8, 8, 8, 8, 8, 8, 8, 8, 8, 8, 120, 0],
    [0, 0, 2, 4, 4, 4, 8, 8, 8, 16, 16, 32, 32, 32, 64, 64], [0, 30, 16, 16, 16, 16, 16, 16, 16, 16, 16, 16, 16, 16, 30, 0],
    [0, 24, 36, 0, 0, 0, 0, 0, 0, 0, 0, 0, 0, 0, 0, 0], [0, 0, 0, 0, 0, 0, 0, 0, 0, 0, 0, 0, 0, 0, 0, 255],
    [0, 6, 8, 0, 0, 0, 0, 0, 0, 0, 0, 0, 0, 0, 0, 0], [0, 0, 0, 0, 0, 0, 0, 28, 34, 48, 44, 34, 50, 108, 0, 0],
    [0, 0, 0, 0, 3, 2, 2, 26, 38, 66, 66, 66, 38, 26, 0, 0], [0, 0, 0, 0, 0, 0, 0, 56, 68, 2, 2, 2, 68, 56, 0, 0],
    [0, 0, 0, 0, 96, 64, 64, 124, 66, 66, 66, 66, 98, 220, 0, 0], [0, 0, 0, 0, 0, 0, 0, 60, 66, 66, 126, 2, 66, 60, 0, 0],
    [0, 0, 0, 0, 48, 72, 8, 62, 8, 8, 8, 8, 8, 62, 0, 0], [0, 0, 0, 0, 0, 0, 0, 124, 34, 34, 28, 2, 60, 66, 66, 60],
    [0, 0, 0, 0, 3, 2, 2, 58, 70, 66, 66, 66, 66, 231, 0, 0], [0, 0, 0, 12, 12, 0, 0, 14, 8, 8, 8, 8, 8, 62, 0, 0],
    [0, 0, 0, 48, 48, 0, 0, 56, 32, 32, 32, 32, 32, 32, 34, 30], [0, 0, 0, 0, 3, 2, 2, 114, 18, 10, 14, 18, 34, 119, 0, 0],
    [0, 0, 0, 8, 14, 8, 8, 8, 8, 8, 8, 8, 8, 62, 0, 0], [0, 0, 0, 0, 0, 0, 0, 127, 146, 146, 146, 146, 146, 183, 0, 0],
    [0, 0, 0, 0, 0, 0, 0, 59, 70, 66, 66, 66, 66, 231, 0, 0], [0, 0, 0, 0, 0, 0, 0, 60, 66, 66, 66, 66, 66, 60, 0, 0],
    [0, 0, 0, 0, 0, 0, 0, 27, 38, 66, 66, 66, 38, 26, 2, 7], [0, 0, 0, 0, 0, 0, 0, 88, 100, 66, 66, 66, 100, 88, 64, 224],
    [0, 0, 0, 0, 0, 0, 0, 119, 76, 4, 4, 4, 4, 31, 0, 0], [0, 0, 0, 0, 0, 0, 0, 124, 66, 2, 60, 64, 66, 62, 0, 0],
    [0, 0, 0, 0, 0, 8, 8, 62, 8, 8, 8, 8, 72, 48, 0, 0], [0, 0, 0, 0, 0, 0, 0, 99, 66, 66, 66, 66, 98, 220, 0, 0],
    [0, 0, 0, 0, 0, 0, 0, 119, 34, 34, 20, 20, 8, 8, 0, 0], [0, 0, 0, 0, 0, 0, 0, 219, 145, 82, 90, 42, 36, 36, 0, 0],
    [0, 0, 0, 0, 0, 0, 0, 110, 36, 24, 24, 24, 36, 118, 0, 0], [0, 0, 0, 0, 0, 0, 0, 231, 66, 36, 36, 24, 24, 8, 8, 6],
    [0, 0, 0, 0, 0, 0, 0, 126, 34, 16, 8, 8, 68, 126, 0, 0],
    [0, 192, 32, 32, 32, 32, 32, 32, 16, 32, 32, 32, 32, 32, 192, 0],
    [16, 16, 16, 16, 16, 16, 16, 16, 16, 16, 16, 16, 16, 16, 16, 16], [0, 3, 4, 4, 4, 4, 4, 4, 8, 4, 4, 4, 4, 4, 3, 0],
    [4, 90, 32, 0, 0, 0, 0, 0, 0, 0, 0, 0, 0, 0, 0, 0]]"

end
