(* ===== verification/Lcd.thy ===== *)
theory Lcd
  imports Printf LcdFont
begin

text \<open>
  The display driver \<open>SEEKFREE_18TFT.c\<close> in the direction its header chooses (3: 160 columns by 128 rows).  What a
  function does is what it sends: a byte over the SPI with the pin \<open>DC\<close> low is a command, with the pin high it is
  data.  The setup of the pins, the reset and the delays of \<open>lcd_init\<close> are left out.  An array that is
  read out of its bounds is a trap.
\<close>

section \<open>Bytes\<close>

datatype bus = Cmd int | Dat int

definition TFT_X_MAX :: int where "TFT_X_MAX = 160"
definition TFT_Y_MAX :: int where "TFT_Y_MAX = 128"
definition WHITE :: int where "WHITE = 65535"
definition BLACK :: int where "BLACK = 0"

text \<open>The two colours are global variables.\<close>

record tft =
  TFT_PENCOLOR :: int
  TFT_BGCOLOR :: int

definition lcd_writeIndex :: "int \<Rightarrow> bus list" where
  "lcd_writeIndex dat = [Cmd (u8 dat)]"

definition lcd_writeData :: "int \<Rightarrow> bus list" where
  "lcd_writeData dat = [Dat (u8 dat)]"

definition lcd_writedata_16bit :: "int \<Rightarrow> bus list" where
  "lcd_writedata_16bit dat = [Dat (u8 (u16 dat div 256)), Dat (u8 (u16 dat))]"

definition lcd_set_region :: "int \<Rightarrow> int \<Rightarrow> int \<Rightarrow> int \<Rightarrow> bus list" where
  "lcd_set_region x_start y_start x_end y_end =
     lcd_writeIndex 42 @
     lcd_writeData 0 @ lcd_writeData (u32 (x_start + 1)) @
     lcd_writeData 0 @ lcd_writeData (u32 (x_end + 1)) @
     lcd_writeIndex 43 @
     lcd_writeData 0 @ lcd_writeData (u32 (y_start + 2)) @
     lcd_writeData 0 @ lcd_writeData (u32 (y_end + 2)) @
     lcd_writeIndex 44"

text \<open>\<open>for (i = 0; i < n; i++)\<close> around something that is sent.\<close>

definition send_loop :: "int \<Rightarrow> (int \<Rightarrow> bus list) \<Rightarrow> bus list" where
  "send_loop n f = concat (map f [0..n - 1])"

definition lcd_clear :: "int \<Rightarrow> bus list" where
  "lcd_clear color = lcd_set_region 0 0 (TFT_X_MAX - 1) (TFT_Y_MAX - 1)
     @ send_loop TFT_Y_MAX (\<lambda>i. send_loop TFT_X_MAX (\<lambda>j. lcd_writedata_16bit color))"

definition command :: "int \<Rightarrow> int list \<Rightarrow> bus list" where
  "command c ds = lcd_writeIndex c @ concat (map lcd_writeData ds)"

definition lcd_init :: "bus list" where
  "lcd_init =
     command 0x11 [] @
     command 0xB1 [0x01, 0x2C, 0x2D] @
     command 0xB2 [0x01, 0x2C, 0x2D] @
     command 0xB3 [0x01, 0x2C, 0x2D, 0x01, 0x2C, 0x2D] @
     command 0xB4 [0x07] @
     command 0xC0 [0xA2, 0x02, 0x84] @
     command 0xC1 [0xC5] @
     command 0xC2 [0x0A, 0x00] @
     command 0xC3 [0x8A, 0x2A] @
     command 0xC4 [0x8A, 0xEE] @
     command 0xC5 [0x0E] @
     command 0x36 [0 * 128 + 1 * 64 + 1 * 32] @
     command 0xE0 [0x0F, 0x1A, 0x0F, 0x18, 0x2F, 0x28, 0x20, 0x22, 0x1F, 0x1B, 0x23, 0x37, 0x00, 0x07, 0x02, 0x10] @
     command 0xE1 [0x0F, 0x1B, 0x0F, 0x17, 0x33, 0x2C, 0x29, 0x2E, 0x30, 0x30, 0x39, 0x3F, 0x00, 0x07, 0x03, 0x10] @
     command 0x2A [0x00, 0x00 + 2, 0x00, 0x80 + 2] @
     command 0x2B [0x00, 0x00 + 3, 0x00, 0x80 + 3] @
     command 0xF0 [0x01] @
     command 0xF6 [0x00] @
     command 0x3A [0x05] @
     command 0x29 [] @
     lcd_clear WHITE"

section \<open>Figures\<close>

definition lcd_drawpoint :: "int \<Rightarrow> int \<Rightarrow> int \<Rightarrow> bus list" where
  "lcd_drawpoint x y color = lcd_set_region (u16 x) (u16 y) (u16 x) (u16 y) @ lcd_writedata_16bit color"

definition lcd_fill :: "int \<Rightarrow> int \<Rightarrow> int \<Rightarrow> int \<Rightarrow> int \<Rightarrow> bus list" where
  "lcd_fill sx sy ex ey color = (
     let width = u16 (ex - sx + 1); height = u16 (ey - sy + 1) in
     lcd_set_region sx sy ex ey
     @ send_loop height (\<lambda>i. send_loop width (\<lambda>j. lcd_writedata_16bit color))
     @ lcd_set_region 0 0 (TFT_X_MAX - 1) (TFT_Y_MAX - 1))"

text \<open>The direction and the length of a coordinate's way.\<close>

definition way :: "int \<Rightarrow> int \<times> int" where
  "way delta = (if delta > 0 then (1, delta) else if delta = 0 then (0, delta) else (- 1, - delta))"

text \<open>The 16 bit counter is compared with an \<open>int\<close>: a distance above 65533 is never left.\<close>

partial_function (option) line_loop ::
    "int \<Rightarrow> int \<Rightarrow> int \<Rightarrow> int \<Rightarrow> int \<Rightarrow> int \<Rightarrow> int \<Rightarrow> int \<Rightarrow> int \<Rightarrow> int \<Rightarrow> int \<Rightarrow> bus list \<Rightarrow> bus list option" where
  "line_loop distance delta_x delta_y incx incy color t uRow uCol xerr yerr out =
     (if t \<le> distance + 1 then
        let xerr = xerr + delta_x; yerr = yerr + delta_y in
        line_loop distance delta_x delta_y incx incy color (u16 (t + 1))
          (if xerr > distance then uRow + incx else uRow) (if yerr > distance then uCol + incy else uCol)
          (if xerr > distance then xerr - distance else xerr) (if yerr > distance then yerr - distance else yerr)
          (out @ lcd_drawpoint uRow uCol color)
      else Some out)"

definition lcd_drawline :: "int \<Rightarrow> int \<Rightarrow> int \<Rightarrow> int \<Rightarrow> int \<Rightarrow> bus list option" where
  "lcd_drawline x1 y1 x2 y2 color = (
     let (incx, delta_x) = way (x2 - x1); (incy, delta_y) = way (y2 - y1);
         distance = (if delta_x > delta_y then delta_x else delta_y) in
     line_loop distance delta_x delta_y incx incy color 0 x1 y1 0 0 [])"

definition draw_circle_8 :: "int \<Rightarrow> int \<Rightarrow> int \<Rightarrow> int \<Rightarrow> int \<Rightarrow> bus list" where
  "draw_circle_8 xc yc x y c =
     lcd_drawpoint (xc + x) (yc + y) c @ lcd_drawpoint (xc - x) (yc + y) c
     @ lcd_drawpoint (xc + x) (yc - y) c @ lcd_drawpoint (xc - x) (yc - y) c
     @ lcd_drawpoint (xc + y) (yc + x) c @ lcd_drawpoint (xc - y) (yc + x) c
     @ lcd_drawpoint (xc + y) (yc - x) c @ lcd_drawpoint (xc - y) (yc - x) c"

text \<open>One step of a circle: what is drawn at \<open>(x, y)\<close>, the decision, the next point.\<close>

function circle_loop :: "int \<Rightarrow> int \<Rightarrow> int \<Rightarrow> int \<Rightarrow> int \<Rightarrow> int \<Rightarrow> int \<Rightarrow> bus list" where
  "circle_loop xc yc c fill x y d =
     (if x \<le> y then
        (if fill \<noteq> 0 then concat (map (\<lambda>yi. draw_circle_8 xc yc x yi c) [x..y]) else draw_circle_8 xc yc x y c)
        @ (if d < 0 then circle_loop xc yc c fill (x + 1) y (d + 4 * x + 6)
           else circle_loop xc yc c fill (x + 1) (y - 1) (d + 4 * (x - y) + 10))
      else [])"
  by pat_completeness auto
termination
  by (relation "measure (\<lambda>(xc, yc, c, fill, x, y, d). nat (y - x + 1))") auto

definition gui_circle :: "int \<Rightarrow> int \<Rightarrow> int \<Rightarrow> int \<Rightarrow> int \<Rightarrow> bus list" where
  "gui_circle xc yc c r fill = circle_loop xc yc c fill 0 r (3 - 2 * r)"

declare circle_loop.simps [simp del]

section \<open>Characters\<close>

text \<open>A loop whose body reads arrays.\<close>

fun send_all :: "(int \<Rightarrow> bus list option) \<Rightarrow> int list \<Rightarrow> bus list option" where
  "send_all f [] = Some []"
| "send_all f (i # is) = do { a \<leftarrow> f i; b \<leftarrow> send_all f is; Some (a @ b) }"

text \<open>\<open>n\<close> pixels from the low bits of \<open>temp\<close>.\<close>

fun glyph_row :: "nat \<Rightarrow> int \<Rightarrow> int \<Rightarrow> int \<Rightarrow> bus list" where
  "glyph_row 0 temp fc bc = []"
| "glyph_row (Suc n) temp fc bc = lcd_writedata_16bit (if temp mod 2 = 1 then fc else bc) @ glyph_row n (temp div 2) fc bc"

definition lcd_showchar :: "tft \<Rightarrow> int \<Rightarrow> int \<Rightarrow> int \<Rightarrow> bus list option" where
  "lcd_showchar g x y dat = send_all (\<lambda>i. do {
     row \<leftarrow> c_get tft_ascii (dat - 32);
     temp \<leftarrow> c_get row i;
     Some (lcd_set_region x (y + i) (x + 7) (y + i) @ glyph_row 8 temp (TFT_PENCOLOR g) (TFT_BGCOLOR g)) }) [0..15]"

definition font_byte :: "int \<Rightarrow> int \<Rightarrow> int \<Rightarrow> int option" where
  "font_byte sz num pos = do {
     row \<leftarrow> (if sz = 12 then c_get asc2_1206 num else c_get asc2_1608 num);
     c_get row pos }"

text \<open>The pen takes the colour while drawing over the picture and gets its old one, as 16 bits, at the end.\<close>

definition lcd_flexchar :: "tft \<Rightarrow> int \<Rightarrow> int \<Rightarrow> int \<Rightarrow> int \<Rightarrow> int \<Rightarrow> int \<Rightarrow> int \<Rightarrow> (bus list \<times> tft) option" where
  "lcd_flexchar g x y fc bc num sz mode = do {
     let colortemp = u16 (TFT_PENCOLOR g);
     let num = u8 (num - 32);
     let region = lcd_set_region x y (x + sz div 2 - 1) (y + sz - 1);
     body \<leftarrow> (if mode = 0 then send_all (\<lambda>pos. do {
                temp \<leftarrow> font_byte sz num pos;
                Some (glyph_row (nat (sz div 2)) temp fc bc) }) [0..sz - 1]
              else send_all (\<lambda>pos. do {
                temp \<leftarrow> font_byte sz num pos;
                Some (send_loop (sz div 2) (\<lambda>t. if temp div 2 ^ nat t mod 2 = 1 then lcd_drawpoint (x + t) (y + pos) fc else [])) }) [0..sz - 1]);
     Some (region @ body @ lcd_set_region 0 0 (TFT_X_MAX - 1) (TFT_Y_MAX - 1), g\<lparr>TFT_PENCOLOR := colortemp\<rparr>) }"

partial_function (option) showstr_loop :: "tft \<Rightarrow> int \<Rightarrow> int \<Rightarrow> int list \<Rightarrow> int \<Rightarrow> bus list \<Rightarrow> bus list option" where
  "showstr_loop g x y dat j out = Option.bind (c_get dat j) (\<lambda>c.
     if c \<noteq> 0 then Option.bind (lcd_showchar g (u16 (x + 8 * j)) (u16 (y * 16)) c) (\<lambda>a.
       showstr_loop g x y dat (u16 (j + 1)) (out @ a))
     else Some out)"

definition lcd_showstr :: "tft \<Rightarrow> int \<Rightarrow> int \<Rightarrow> int list \<Rightarrow> bus list option" where
  "lcd_showstr g x y dat = showstr_loop g x y dat 0 []"

section \<open>Numbers\<close>

text \<open>The digits of an array as characters, from the column \<open>x + 8 * k\<close> on.\<close>

definition show_digits :: "tft \<Rightarrow> int \<Rightarrow> int \<Rightarrow> int \<Rightarrow> int list \<Rightarrow> bus list option" where
  "show_digits g x y k a = send_all (\<lambda>i. do {
     d \<leftarrow> c_get a i;
     lcd_showchar g (u16 (x + 8 * (i + k))) (u16 (y * 16)) (i8 (48 + d)) }) [0..int (length a) - 1]"

definition digits3 :: "int \<Rightarrow> int list" where
  "digits3 dat = map u8 [dat sdiv 100, dat sdiv 10 smod 10, dat smod 10]"

definition digits5 :: "int \<Rightarrow> int list" where
  "digits5 dat = map u8 [dat sdiv 10000, dat sdiv 1000 smod 10, dat sdiv 100 smod 10, dat sdiv 10 smod 10, dat smod 10]"

text \<open>The negation is stored into the narrow argument again.\<close>

definition lcd_showint8 :: "tft \<Rightarrow> int \<Rightarrow> int \<Rightarrow> int \<Rightarrow> bus list option" where
  "lcd_showint8 g x y dat = do {
     s \<leftarrow> lcd_showchar g x (u16 (y * 16)) (if dat < 0 then 45 else 32);
     let dat = (if dat < 0 then i8 (- dat) else dat);
     ds \<leftarrow> show_digits g x y 1 (digits3 dat);
     Some (s @ ds) }"

definition lcd_showuint8 :: "tft \<Rightarrow> int \<Rightarrow> int \<Rightarrow> int \<Rightarrow> bus list option" where
  "lcd_showuint8 g x y dat = show_digits g x y 0 (digits3 dat)"

definition lcd_showint16 :: "tft \<Rightarrow> int \<Rightarrow> int \<Rightarrow> int \<Rightarrow> bus list option" where
  "lcd_showint16 g x y dat = do {
     s \<leftarrow> lcd_showchar g x (u16 (y * 16)) (if dat < 0 then 45 else 32);
     let dat = (if dat < 0 then i16 (- dat) else dat);
     ds \<leftarrow> show_digits g x y 1 (digits5 dat);
     Some (s @ ds) }"

definition lcd_showuint16 :: "tft \<Rightarrow> int \<Rightarrow> int \<Rightarrow> int \<Rightarrow> bus list option" where
  "lcd_showuint16 g x y dat = show_digits g x y 0 (digits5 dat)"

text \<open>The buffer of 34 characters is a list; \<open>zf_sprintf\<close> writes it as a memory.\<close>

definition sprintf_buff :: "int list \<Rightarrow> int list \<Rightarrow> int \<Rightarrow> int list \<Rightarrow> va list \<Rightarrow> (int list \<times> int) option" where
  "sprintf_buff stk buf k format as = do {
     (m, len) \<leftarrow> zf_sprintf stk k format as (\<lambda>a. if 0 \<le> a \<and> a < 34 then buf ! nat a else 0);
     if k + len \<le> 34 then Some (map m [0..33], u8 len) else None }"

definition lcd_showint32 :: "tft \<Rightarrow> int list \<Rightarrow> int list \<Rightarrow> int \<Rightarrow> int \<Rightarrow> int \<Rightarrow> int \<Rightarrow> bus list option" where
  "lcd_showint32 g stk buf x y dat num = do {
     let num = u8 ((if 10 < num then 10 else num) + 1);
     (buf, len) \<leftarrow> (if 0 > dat then sprintf_buff stk buf 0 [37, 100, 0] [VInt dat]
       else do {
         buf \<leftarrow> c_put buf 0 32;
         (buf, len) \<leftarrow> sprintf_buff stk buf 1 [37, 100, 0] [VInt dat];
         Some (buf, u8 (len + 1)) });
     buf \<leftarrow> for_up (\<lambda>i buf. do { buf \<leftarrow> c_put buf i 32; Some (Next buf) }) len num buf;
     buf \<leftarrow> c_put buf num 0;
     lcd_showstr g x y buf }"

text \<open>What is shown starts at the first cell, which is never written for a number that is not negative and whose
  whole part fills the width.\<close>

definition lcd_showfloat :: "tft \<Rightarrow> int list \<Rightarrow> int list \<Rightarrow> int \<Rightarrow> int \<Rightarrow> fl \<Rightarrow> int \<Rightarrow> int \<Rightarrow> bus list option" where
  "lcd_showfloat g stk buf x y dat num pointnum = do {
     let pointnum = (if 6 < pointnum then 6 else pointnum);
     let num = (if 10 < num then 10 else num);
     (buf, len) \<leftarrow> (if fl_lt dat (Fin 0) then sprintf_buff stk buf 0 [37, 102, 0] [VDouble dat]
       else do {
         (buf, len) \<leftarrow> sprintf_buff stk buf 1 [37, 102, 0] [VDouble dat];
         Some (buf, u8 (len + 1)) });
     let point = i8 (len - 7);
     let start = i8 (point - num - 1);
     let fin = i8 (point + pointnum + 1);
     buf \<leftarrow> for_up (\<lambda>i buf. do { buf \<leftarrow> c_put buf (fin + (i - start)) 32; Some (Next buf) }) start 0 buf;
     let fin = (if start < 0 then fin - start else fin);
     let start = max start 0;
     buf \<leftarrow> c_put buf start (if fl_lt dat (Fin 0) then 45 else 32);
     buf \<leftarrow> c_put buf fin 0;
     lcd_showstr g x y buf }"

section \<open>Pictures\<close>

text \<open>A byte of grey as a 16 bit colour.\<close>

definition gray565 :: "int \<Rightarrow> int" where
  "gray565 temp = (temp div 8 mod 32) * 2048 + (temp div 4 mod 64) * 32 + temp div 8 mod 32"

text \<open>The picture is a memory; the bytes are read where the loops compute.\<close>

definition lcd_displayimage032 :: "(int \<Rightarrow> int) \<Rightarrow> int \<Rightarrow> int \<Rightarrow> bus list" where
  "lcd_displayimage032 p width height = (
     let coord_x = (if width > TFT_X_MAX then TFT_X_MAX else width);
         coord_y = (if height > TFT_Y_MAX then TFT_Y_MAX else height) in
     lcd_set_region 0 0 (coord_x - 1) (coord_y - 1)
     @ send_loop coord_y (\<lambda>j. send_loop coord_x (\<lambda>i.
         lcd_writedata_16bit (gray565 (p (j * width + i * width div coord_x))))))"

definition lcd_displayimage032_zoom :: "(int \<Rightarrow> int) \<Rightarrow> int \<Rightarrow> int \<Rightarrow> int \<Rightarrow> int \<Rightarrow> bus list" where
  "lcd_displayimage032_zoom p width height dis_width dis_height =
     lcd_set_region 0 0 (dis_width - 1) (dis_height - 1)
     @ send_loop dis_height (\<lambda>j. send_loop dis_width (\<lambda>i.
         lcd_writedata_16bit (gray565 (p (j * height div dis_height * width + i * width div dis_width)))))"

definition lcd_displayimage8660_zoom :: "(int \<Rightarrow> int) \<Rightarrow> int \<Rightarrow> int \<Rightarrow> int \<Rightarrow> int \<Rightarrow> bus list" where
  "lcd_displayimage8660_zoom p width height dis_width dis_height =
     lcd_set_region 0 0 (dis_width - 1) (dis_height - 1)
     @ send_loop dis_height (\<lambda>j. send_loop dis_width (\<lambda>i.
         let color = p (j * height div dis_height * width + i * width div dis_width) in
         lcd_writedata_16bit (color mod 256 * 256 + color div 256)))"

definition lcd_displayimage7725 :: "(int \<Rightarrow> int) \<Rightarrow> int \<Rightarrow> int \<Rightarrow> bus list" where
  "lcd_displayimage7725 p width height =
     lcd_set_region 0 0 (width - 1) (height - 1)
     @ send_loop (height * (width div 8)) (\<lambda>i. send_loop 8 (\<lambda>j.
         lcd_writedata_16bit (if p i * 2 ^ nat j div 128 mod 2 = 1 then WHITE else BLACK)))"

definition showimage :: "(int \<Rightarrow> int) \<Rightarrow> bus list" where
  "showimage p = lcd_clear WHITE
     @ send_loop 4 (\<lambda>k. send_loop 3 (\<lambda>j.
         lcd_set_region (40 * j) (40 * k) (40 * j + 39) (40 * k + 39)
         @ send_loop (40 * 40) (\<lambda>i. lcd_writedata_16bit (p (i * 2 + 1) * 256 + p (i * 2)))))"

definition lcd_display_chinese :: "tft \<Rightarrow> int \<Rightarrow> int \<Rightarrow> int \<Rightarrow> (int \<Rightarrow> int) \<Rightarrow> int \<Rightarrow> int \<Rightarrow> bus list" where
  "lcd_display_chinese g x y sz p number color = (
     let temp2 = sz div 8 in
     lcd_set_region x y (number * sz - 1 + x) (y + sz - 1)
     @ send_loop sz (\<lambda>i. send_loop number (\<lambda>n. send_loop temp2 (\<lambda>k. send_loop 8 (\<lambda>j.
         lcd_writedata_16bit (if p (i * temp2 + n * (temp2 * sz) + k) div 2 ^ nat (7 - j) mod 2 = 1 then color else TFT_BGCOLOR g))))))"

end
