(* ===== verification/Display.thy ===== *)
theory Display
  imports Lcd
begin

text \<open>
  What the display shows.  The panel takes the bytes of the bus as its controller is documented: the commands 42 and
  43 set a window of columns and rows from four bytes, 44 starts writing at the window's first cell, and every two
  bytes behind it fill a cell and go on row by row; other commands do not touch the picture.  The window's
  first column on the glass has the address 1, its first row the address 2.
\<close>

section \<open>The panel\<close>

record glass =
  cmd :: int
  args :: "int list"
  col0 :: int
  col1 :: int
  row0 :: int
  row1 :: int
  col :: int
  row :: int
  ram :: "int \<Rightarrow> int \<Rightarrow> int"

definition put_pixel :: "int \<Rightarrow> glass \<Rightarrow> glass" where
  "put_pixel v s = s\<lparr>args := [],
     ram := (ram s)(col s := (ram s (col s))(row s := v)),
     col := (if col s = col1 s then col0 s else col s + 1),
     row := (if col s = col1 s then if row s = row1 s then row0 s else row s + 1 else row s)\<rparr>"

fun recv :: "bus \<Rightarrow> glass \<Rightarrow> glass" where
  "recv (Cmd c) s = (if c = 44 then s\<lparr>cmd := c, args := [], col := col0 s, row := row0 s\<rparr> else s\<lparr>cmd := c, args := []\<rparr>)"
| "recv (Dat d) s =
     (if cmd s = 42 then
        (case args s of [_, a, _] \<Rightarrow> s\<lparr>args := [], col0 := 256 * (args s ! 0) + a, col1 := 256 * (args s ! 2) + d\<rparr>
         | as \<Rightarrow> s\<lparr>args := as @ [d]\<rparr>)
      else if cmd s = 43 then
        (case args s of [_, a, _] \<Rightarrow> s\<lparr>args := [], row0 := 256 * (args s ! 0) + a, row1 := 256 * (args s ! 2) + d\<rparr>
         | as \<Rightarrow> s\<lparr>args := as @ [d]\<rparr>)
      else if cmd s = 44 then (case args s of [] \<Rightarrow> s\<lparr>args := [d]\<rparr> | h # _ \<Rightarrow> put_pixel (256 * h + d) s)
      else s)"

definition send :: "bus list \<Rightarrow> glass \<Rightarrow> glass" where
  "send bs s = fold recv bs s"

lemma send_append [simp]: "send (as @ bs) s = send bs (send as s)"
  by (simp add: send_def)

lemma send_Nil [simp]: "send [] s = s"
  by (simp add: send_def)

definition pixel :: "glass \<Rightarrow> int \<Rightarrow> int \<Rightarrow> int" where
  "pixel s x y = ram s (x + 1) (y + 2)"

lemma send_region:
  "send (lcd_set_region x0 y0 x1 y1) s = s\<lparr>cmd := 44, args := [], col0 := u8 (x0 + 1), col1 := u8 (x1 + 1),
     row0 := u8 (y0 + 2), row1 := u8 (y1 + 2), col := u8 (x0 + 1), row := u8 (y0 + 2)\<rparr>"
proof -
  have "u8 (u32 x) = u8 x" for x by (simp add: u8_def u32_def mod_mod_cancel)
  then show ?thesis
    by (simp add: send_def lcd_set_region_def lcd_writeIndex_def lcd_writeData_def)
qed

text \<open>A panel that is taking pixels.\<close>

definition taking :: "glass \<Rightarrow> bool" where
  "taking s \<longleftrightarrow> cmd s = 44 \<and> args s = []"

lemma taking_put_pixel [simp]: "taking s \<Longrightarrow> taking (put_pixel v s)"
  by (simp add: taking_def put_pixel_def)

lemma send_16bit: "taking s \<Longrightarrow> send (lcd_writedata_16bit c) s = put_pixel (u16 c) s"
proof -
  have "256 * u8 (u16 c div 256) + u8 (u16 c) = u16 c"
  proof -
    have "u16 c div 256 < 256" "0 \<le> u16 c div 256" by (simp_all add: u16_def pos_imp_zdiv_nonneg_iff)
    then have "u8 (u16 c div 256) = u16 c div 256" by simp
    then show ?thesis using mult_div_mod_eq [of 256 "u16 c"] by (simp add: u8_def)
  qed
  then show "taking s \<Longrightarrow> send (lcd_writedata_16bit c) s = put_pixel (u16 c) s"
    by (simp add: taking_def send_def lcd_writedata_16bit_def put_pixel_def)
qed

lemma send_pixels:
  "taking s \<Longrightarrow> send (concat (map lcd_writedata_16bit cs)) s = fold put_pixel (map u16 cs) s"
  by (induction cs arbitrary: s) (simp_all add: send_16bit)

text \<open>The cells a run of pixels fills.\<close>

lemma cell_index:
  assumes "0 < (w :: int)" "0 \<le> a" "a < w"
  shows "b * w + a = n \<longleftrightarrow> a = n mod w \<and> b = n div w"
  using assms by (auto simp: mult.commute)

lemma fold_put_pixel:
  assumes "col0 s \<le> col1 s" "row0 s \<le> row1 s" "col s = col0 s" "row s = row0 s"
    and "w = col1 s - col0 s + 1" "int (length vs) \<le> w * (row1 s - row0 s + 1)"
  shows "ram (fold put_pixel vs s) c r =
      (if col0 s \<le> c \<and> c \<le> col1 s \<and> row0 s \<le> r \<and> r \<le> row1 s \<and> (r - row0 s) * w + (c - col0 s) < int (length vs)
       then vs ! nat ((r - row0 s) * w + (c - col0 s)) else ram s c r)"
proof -
  let ?n = "\<lambda>vs. int (length vs)"
  have "col0 (fold put_pixel vs s) = col0 s \<and> col1 (fold put_pixel vs s) = col1 s
    \<and> row0 (fold put_pixel vs s) = row0 s \<and> row1 (fold put_pixel vs s) = row1 s
    \<and> col (fold put_pixel vs s) = col0 s + ?n vs mod w
    \<and> (?n vs < w * (row1 s - row0 s + 1) \<longrightarrow> row (fold put_pixel vs s) = row0 s + ?n vs div w)
    \<and> (\<forall>c r. ram (fold put_pixel vs s) c r =
      (if col0 s \<le> c \<and> c \<le> col1 s \<and> row0 s \<le> r \<and> r \<le> row1 s \<and> (r - row0 s) * w + (c - col0 s) < ?n vs
       then vs ! nat ((r - row0 s) * w + (c - col0 s)) else ram s c r))"
    using assms(6)
  proof (induction vs rule: rev_induct)
    case Nil
    have "\<not> (r - row0 s) * w + (c - col0 s) < 0" if "col0 s \<le> c" "row0 s \<le> r" for c r
    proof -
      have "0 \<le> (r - row0 s) * w" using that assms(1,5) by (intro mult_nonneg_nonneg) simp_all
      then show ?thesis using that by simp
    qed
    then show ?case using assms(3,4) by auto
  next
    case (snoc v vs)
    define t where "t = fold put_pixel vs s"
    define n where "n = ?n vs"
    have w: "0 < w" using assms(1,5) by simp
    have n: "0 \<le> n" "n < w * (row1 s - row0 s + 1)" "n mod w < w" "0 \<le> n mod w" "n = w * (n div w) + n mod w"
      using snoc.prems w by (simp_all add: n_def)
    have I: "col0 t = col0 s" "col1 t = col1 s" "row0 t = row0 s" "row1 t = row1 s"
      "col t = col0 s + n mod w" "row t = row0 s + n div w"
      and R: "\<And>c r. ram t c r = (if col0 s \<le> c \<and> c \<le> col1 s \<and> row0 s \<le> r \<and> r \<le> row1 s \<and> (r - row0 s) * w + (c - col0 s) < n
       then vs ! nat ((r - row0 s) * w + (c - col0 s)) else ram s c r)"
      using snoc n by (simp_all add: t_def n_def)
    have q: "0 \<le> n div w" "n div w < row1 s - row0 s + 1"
    proof -
      show "0 \<le> n div w" using n(1) w by (simp add: pos_imp_zdiv_nonneg_iff)
      have "w * (n div w) < w * (row1 s - row0 s + 1)" using n by linarith
      then show "n div w < row1 s - row0 s + 1" using w by simp
    qed
    have last: "n mod w = w - 1 \<Longrightarrow> (n + 1) mod w = 0 \<and> (n + 1) div w = n div w + 1"
      using cell_index [of w 0 "n div w + 1" "n + 1"] w n(5) by (auto simp: algebra_simps)
    have inner: "n mod w \<noteq> w - 1 \<Longrightarrow> (n + 1) mod w = n mod w + 1 \<and> (n + 1) div w = n div w"
      using cell_index [of w "n mod w + 1" "n div w" "n + 1"] w n by (auto simp: algebra_simps)
    have C: "col (put_pixel v t) = col0 s + (n + 1) mod w"
      using last inner I assms(5) by (auto simp: put_pixel_def)
    have W: "row (put_pixel v t) = row0 s + (n + 1) div w" if "n + 1 < w * (row1 s - row0 s + 1)"
    proof (cases "n mod w = w - 1")
      case True
      then have "n + 1 = w * (n div w) + w" using n(5) by linarith
      then have "n + 1 = w * (n div w + 1)" by (simp add: distrib_left)
      then have "n div w + 1 < row1 s - row0 s + 1" using that w by simp
      then show ?thesis using True last I assms(5) by (simp add: put_pixel_def)
    next
      case False
      then show ?thesis using inner I assms(5) by (simp add: put_pixel_def)
    qed
    have "ram (put_pixel v t) c r = (if col0 s \<le> c \<and> c \<le> col1 s \<and> row0 s \<le> r \<and> r \<le> row1 s \<and> (r - row0 s) * w + (c - col0 s) < n + 1
       then (vs @ [v]) ! nat ((r - row0 s) * w + (c - col0 s)) else ram s c r)" for c r
    proof (cases "col0 s \<le> c \<and> c \<le> col1 s \<and> row0 s \<le> r \<and> r \<le> row1 s")
      case True
      have i: "(r - row0 s) * w + (c - col0 s) = n \<longleftrightarrow> c = col t \<and> r = row t"
        using cell_index [of w "c - col0 s" "r - row0 s" n] w True assms(5) I by auto
      have z: "0 \<le> (r - row0 s) * w + (c - col0 s)" using True w by simp
      have l: "nat n = length vs" by (simp add: n_def)
      consider "(r - row0 s) * w + (c - col0 s) = n" | "(r - row0 s) * w + (c - col0 s) < n" | "n < (r - row0 s) * w + (c - col0 s)"
        by linarith
      then show ?thesis
      proof cases
        case 1
        then have "c = col t" "r = row t" using i by simp_all
        then show ?thesis using True 1 l by (simp add: put_pixel_def)
      next
        case 2
        then have "\<not> (c = col t \<and> r = row t)" using i by simp
        moreover have "nat ((r - row0 s) * w + (c - col0 s)) < length vs" using 2 z by (simp add: n_def)
        ultimately show ?thesis using True 2 R [of c r] by (auto simp: put_pixel_def nth_append)
      next
        case 3
        then have "\<not> (c = col t \<and> r = row t)" using i by simp
        then show ?thesis using True 3 R [of c r] by (auto simp: put_pixel_def)
      qed
    next
      case False
      have "col0 s \<le> col t" "col t \<le> col1 s" "row0 s \<le> row t" "row t \<le> row1 s" using I n q assms(5) by simp_all
      then have "\<not> (c = col t \<and> r = row t)" using False by blast
      then show ?thesis using False R [of c r] by (auto simp: put_pixel_def)
    qed
    then have A: "\<forall>c r. ram (put_pixel v t) c r = (if col0 s \<le> c \<and> c \<le> col1 s \<and> row0 s \<le> r \<and> r \<le> row1 s \<and> (r - row0 s) * w + (c - col0 s) < n + 1
       then (vs @ [v]) ! nat ((r - row0 s) * w + (c - col0 s)) else ram s c r)" by blast
    have e: "fold put_pixel (vs @ [v]) s = put_pixel v t" "?n (vs @ [v]) = n + 1" by (simp_all add: t_def n_def)
    have "col0 (put_pixel v t) = col0 s" "col1 (put_pixel v t) = col1 s" "row0 (put_pixel v t) = row0 s" "row1 (put_pixel v t) = row1 s"
      using I by (simp_all add: put_pixel_def)
    then show ?case unfolding e using A C W by blast
  qed
  then show ?thesis by blast
qed

section \<open>Rectangles\<close>

text \<open>Two nested loops fill a rectangle row by row.\<close>

lemma send_loop_pixels: "send_loop n (\<lambda>i. lcd_writedata_16bit (f i)) = concat (map lcd_writedata_16bit (map f [0..n - 1]))"
  by (simp add: send_loop_def comp_def)

definition raster :: "int \<Rightarrow> int \<Rightarrow> (int \<Rightarrow> int \<Rightarrow> int) \<Rightarrow> int list" where
  "raster w h f = concat (map (\<lambda>j. map (\<lambda>i. f i j) [0..w - 1]) [0..h - 1])"

lemma concat_map_concat: "concat (map (\<lambda>j. concat (map g (ff j))) js) = concat (map g (concat (map ff js)))"
  by (induction js) simp_all

lemma nested_pixels:
  "send_loop h (\<lambda>j. send_loop w (\<lambda>i. lcd_writedata_16bit (f i j))) = concat (map lcd_writedata_16bit (raster w h f))"
  unfolding send_loop_pixels unfolding send_loop_def raster_def by (rule concat_map_concat)

lemma raster_Suc: "raster w (int (Suc n)) f = raster w (int n) f @ map (\<lambda>i. f i (int n)) [0..w - 1]"
proof -
  have "[0..int (Suc n) - 1] = [0..int n - 1] @ [int n]" using upto_rec2 [of 0 "int n"] by simp
  then show ?thesis by (simp add: raster_def)
qed

lemma length_raster: "0 \<le> w \<Longrightarrow> length (raster w (int n) f) = nat w * n"
  by (induction n) (simp_all only: raster_Suc, simp_all add: raster_def)

lemma nth_raster:
  assumes "0 \<le> i" "i < w" "0 \<le> j" "j < int n"
  shows "raster w (int n) f ! nat (j * w + i) = f i j"
  using assms
proof (induction n)
  case (Suc n)
  have z: "nat (j * w + i) = nat j * nat w + nat i" using assms by (simp add: nat_add_distrib nat_mult_distrib)
  have l: "length (raster w (int n) f) = n * nat w" using assms by (simp add: length_raster mult.commute)
  show ?case
  proof (cases "j < int n")
    case True
    have "Suc (nat j) * nat w \<le> n * nat w" using True Suc.prems(3) by (intro mult_right_mono) auto
    then have "nat j * nat w + nat i < n * nat w" using Suc.prems(1,2) by simp
    then show ?thesis using Suc.IH [OF Suc.prems(1-3) True] l by (simp add: raster_Suc z nth_append del: of_nat_Suc)
  next
    case False
    then have "j = int n" using Suc.prems(4) by simp
    then have "nat (j * w + i) = n * nat w + nat i" unfolding z by simp
    then show ?thesis using Suc.prems(1,2) \<open>j = int n\<close> by (simp add: raster_Suc nth_append l del: of_nat_Suc)
  qed
qed simp

lemma raster_shown:
  assumes "0 \<le> x0" "x0 \<le> x1" "x1 \<le> 254" "0 \<le> y0" "y0 \<le> y1" "y1 \<le> 253"
  shows "pixel (send (lcd_set_region x0 y0 x1 y1
        @ send_loop (y1 - y0 + 1) (\<lambda>j. send_loop (x1 - x0 + 1) (\<lambda>i. lcd_writedata_16bit (f i j)))) s) x y
    = (if x0 \<le> x \<and> x \<le> x1 \<and> y0 \<le> y \<and> y \<le> y1 then u16 (f (x - x0) (y - y0)) else pixel s x y)"
proof -
  define w where "w = x1 - x0 + 1"
  define n where "n = nat (y1 - y0 + 1)"
  define t where "t = send (lcd_set_region x0 y0 x1 y1) s"
  have n: "y1 - y0 + 1 = int n" "0 < w" "y0 + int n = y1 + 1" using assms by (simp_all add: n_def w_def)
  have t: "taking t" "col0 t = x0 + 1" "col1 t = x1 + 1" "row0 t = y0 + 2" "row1 t = y1 + 2" "col t = x0 + 1" "row t = y0 + 2" "ram t = ram s"
    using assms by (simp_all add: t_def send_region taking_def)
  define vs where "vs = map u16 (raster w (int n) f)"
  have l: "length vs = nat w * n" using n by (simp add: vs_def length_raster)
  have "send (lcd_set_region x0 y0 x1 y1
      @ send_loop (y1 - y0 + 1) (\<lambda>j. send_loop (x1 - x0 + 1) (\<lambda>i. lcd_writedata_16bit (f i j)))) s
    = fold put_pixel vs t"
    using t(1) unfolding n(1) w_def [symmetric] nested_pixels by (simp add: send_pixels vs_def flip: t_def)
  moreover have "ram (fold put_pixel vs t) (x + 1) (y + 2) = (if x0 \<le> x \<and> x \<le> x1 \<and> y0 \<le> y \<and> y \<le> y1
      then vs ! nat ((y - y0) * w + (x - x0)) else ram s (x + 1) (y + 2))"
  proof -
    have "(y - y0) * w + (x - x0) < int (length vs)" if "x0 \<le> x" "x \<le> x1" "y0 \<le> y" "y \<le> y1"
    proof -
      have "(y - y0) * w + (x - x0) < (y - y0) * w + w" using that by (simp add: w_def)
      also have "\<dots> = (y - y0 + 1) * w" by (simp add: distrib_right)
      also have "\<dots> \<le> int n * w" using that n by (intro mult_right_mono) simp_all
      finally show ?thesis using n by (simp add: l mult.commute)
    qed
    then show ?thesis
      using fold_put_pixel [of t w vs "x + 1" "y + 2"] t l assms n by (auto simp: w_def mult.commute)
  qed
  moreover have "vs ! nat ((y - y0) * w + (x - x0)) = u16 (f (x - x0) (y - y0))" if "x0 \<le> x" "x \<le> x1" "y0 \<le> y" "y \<le> y1"
  proof -
    have r: "0 \<le> x - x0" "x - x0 < w" "0 \<le> y - y0" "y - y0 < int n" using that n by (simp_all add: w_def)
    have "nat ((y - y0) * w + (x - x0)) < length (raster w (int n) f)"
    proof -
      have "(y - y0) * w + (x - x0) < (y - y0 + 1) * w" using r by (simp add: distrib_right)
      also have "\<dots> \<le> int n * w" using r n by (intro mult_right_mono) simp_all
      finally show ?thesis using n r by (simp add: length_raster nat_less_iff mult.commute)
    qed
    then show ?thesis using nth_raster [OF r] by (simp add: vs_def)
  qed
  ultimately show ?thesis by (auto simp: pixel_def)
qed

text \<open>A point: wherever its coordinates are, exactly one cell changes.\<close>

lemma point_shown:
  "pixel (send (lcd_drawpoint x y c) s) x' y'
    = (if x' + 1 = (x + 1) mod 256 \<and> y' + 2 = (y + 2) mod 256 then u16 c else pixel s x' y')"
proof -
  have m: "u8 (u16 x + 1) = (x + 1) mod 256" "u8 (u16 y + 2) = (y + 2) mod 256"
    by (simp_all add: u8_def u16_def mod_simps mod_mod_cancel flip: mod_add_left_eq [of "_ mod 65536"])
  have t: "taking (send (lcd_set_region (u16 x) (u16 y) (u16 x) (u16 y)) s)" by (simp add: send_region taking_def)
  show ?thesis
    by (simp add: lcd_drawpoint_def send_16bit [OF t]) (simp add: send_region put_pixel_def pixel_def m)
qed

lemma point_on_screen:
  assumes "0 \<le> x'" "x' < 160" "0 \<le> y" "y < 128" "0 \<le> y'" "y' < 128"
  shows "pixel (send (lcd_drawpoint x y c) s) x' y' = (if x mod 256 = x' \<and> y' = y then u16 c else pixel s x' y')"
proof -
  have "x' + 1 = (x + 1) mod 256 \<longleftrightarrow> x mod 256 = x'"
  proof
    assume "x' + 1 = (x + 1) mod 256"
    then have "(x' + 1 - 1) mod 256 = (x + 1 - 1) mod 256" by (metis mod_diff_left_eq)
    then show "x mod 256 = x'" using assms(1,2) by simp
  next
    assume "x mod 256 = x'"
    then have "(x' + 1) mod 256 = (x + 1) mod 256" by (metis mod_add_left_eq)
    then show "x' + 1 = (x + 1) mod 256" using assms(1,2) by simp
  qed
  moreover have "y' + 2 = (y + 2) mod 256 \<longleftrightarrow> y' = y" using assms by auto
  ultimately show ?thesis unfolding point_shown by simp
qed

section \<open>Pictures and rectangles\<close>

lemma clear_shown:
  assumes "0 \<le> x" "x < 160" "0 \<le> y" "y < 128"
  shows "pixel (send (lcd_clear c) s) x y = u16 c"
  using raster_shown [of 0 159 0 127 "\<lambda>i j. c" s x y] assms by (simp add: lcd_clear_def TFT_X_MAX_def TFT_Y_MAX_def)

lemma gray565_range: "0 \<le> gray565 v" "gray565 v \<le> 65535"
proof -
  have "0 \<le> v div 8 mod 32" "v div 8 mod 32 \<le> 31" "0 \<le> v div 4 mod 64" "v div 4 mod 64 \<le> 63" by simp_all
  then show "0 \<le> gray565 v" "gray565 v \<le> 65535" unfolding gray565_def by linarith+
qed

lemma picture_shown:
  assumes "0 < w" "0 < h"
  shows "pixel (send (lcd_displayimage032 p w h) s) x y
    = (if 0 \<le> x \<and> x < min w 160 \<and> 0 \<le> y \<and> y < min h 128 then gray565 (p (y * w + x * w div min w 160)) else pixel s x y)"
proof -
  define cx where "cx = min w 160"
  define cy where "cy = min h 128"
  have c: "(if w > TFT_X_MAX then TFT_X_MAX else w) = cx" "(if h > TFT_Y_MAX then TFT_Y_MAX else h) = cy"
    by (simp_all add: TFT_X_MAX_def TFT_Y_MAX_def cx_def cy_def)
  have b: "0 \<le> cx - 1" "cx - 1 \<le> 254" "0 \<le> cy - 1" "cy - 1 \<le> 253" "cx - 1 - 0 + 1 = cx" "cy - 1 - 0 + 1 = cy"
    using assms by (simp_all add: cx_def cy_def)
  have "pixel (send (lcd_displayimage032 p w h) s) x y
      = (if 0 \<le> x \<and> x \<le> cx - 1 \<and> 0 \<le> y \<and> y \<le> cy - 1 then u16 (gray565 (p ((y - 0) * w + (x - 0) * w div cx))) else pixel s x y)"
    unfolding lcd_displayimage032_def Let_def c
    using raster_shown [OF order_refl b(1,2) order_refl b(3,4), of "\<lambda>i j. gray565 (p (j * w + i * w div cx))" s x y]
    unfolding b(5,6) .
  then show ?thesis using gray565_range by (simp add: cx_def [symmetric] cy_def [symmetric])
qed

end
