(* ===== verification/DisplayFacts.thy ===== *)
theory DisplayFacts
  imports Display CarSafe
begin

text \<open>The main loop's picture with the points of the lines, carried down to the bytes of the bus and up to the glass.\<close>

section \<open>A frame\<close>

text \<open>The calls \<open>show_tft_img\<close> makes.\<close>

definition point_bytes :: "int \<times> int \<times> int \<Rightarrow> bus list" where
  "point_bytes q = (case q of (x, y, c) \<Rightarrow> lcd_drawpoint x y c)"

definition frame_bytes :: "image option \<times> (int \<times> int \<times> int) list \<Rightarrow> bus list" where
  "frame_bytes sc = (case fst sc of None \<Rightarrow> [] | Some im \<Rightarrow> lcd_displayimage032 (\<lambda>a. uint (im a)) 160 120)
     @ concat (map point_bytes (snd sc))"

definition row_points :: "lines \<Rightarrow> int \<Rightarrow> (int \<times> int \<times> int) list" where
  "row_points s i = [(u16 (leftline (f1 s) ! nat i), i, RED), (u16 (midline (f1 s) ! nat i), i, BLUE),
     (u16 (rightline (f1 s) ! nat i), i, GREEN)]"

lemma draw_row_Some: "draw_row s i ps = Some r \<Longrightarrow> 0 \<le> i \<and> r = Next (ps @ row_points s i)"
  by (auto simp: draw_row_def row_points_def cell_def c_get_def bind_eq_Some_conv split: if_splits)

lemma draw_rows:
  assumes "for_up (draw_row s) lo 120 ps = Some qs"
  shows "qs = ps @ concat (map (row_points s) [lo..119]) \<and> (lo < 120 \<longrightarrow> 0 \<le> lo)"
  using assms
proof (induction "nat (120 - lo)" arbitrary: lo ps)
  case 0
  then show ?case by (simp add: for_up_done)
next
  case (Suc n)
  then have lt: "lo < 120" and n: "n = nat (120 - (lo + 1))" by linarith+
  obtain r where r: "draw_row s lo ps = Some r"
    using Suc.prems lt by (subst (asm) for_up.simps) (auto split: option.splits)
  then have z: "0 \<le> lo" "r = Next (ps @ row_points s lo)" using draw_row_Some by blast+
  then have "for_up (draw_row s) (lo + 1) 120 (ps @ row_points s lo) = Some qs"
    using Suc.prems r lt by (simp add: for_up_next)
  from Suc.hyps(1) [OF n this] show ?case using z lt by (simp add: upto_rec1 [of lo 119])
qed

text \<open>The colour the points of a row give a column, the last one drawn on top.\<close>

definition line_colour :: "lines \<Rightarrow> int \<Rightarrow> int \<Rightarrow> int \<Rightarrow> int" where
  "line_colour s x y ground =
     (if rightline (f1 s) ! nat y mod 256 = x then GREEN
      else if midline (f1 s) ! nat y mod 256 = x then BLUE
      else if leftline (f1 s) ! nat y mod 256 = x then RED
      else ground)"

lemma row_shown:
  assumes "0 \<le> x" "x < 160" "0 \<le> y" "y < 128" "0 \<le> i" "i < 128"
  shows "pixel (send (concat (map point_bytes (row_points s i))) t) x y
    = (if y = i then line_colour s x y (pixel t x y) else pixel t x y)"
proof -
  have m: "u16 v mod 256 = v mod 256" for v by (simp add: u16_def mod_mod_cancel)
  show ?thesis
    using assms by (simp add: row_points_def point_bytes_def point_on_screen m line_colour_def RED_def GREEN_def BLUE_def)
qed

lemma rows_shown:
  assumes "0 \<le> x" "x < 160" "0 \<le> y" "y < 120" "lo < 120 \<longrightarrow> 0 \<le> lo"
  shows "pixel (send (concat (map point_bytes (concat (map (row_points s) [lo..119])))) t) x y
    = (if lo \<le> y then line_colour s x y (pixel t x y) else pixel t x y)"
  using assms(5)
proof (induction "nat (120 - lo)" arbitrary: lo t)
  case 0
  then show ?case using assms(4) by simp
next
  case (Suc n)
  then have lt: "lo < 120" and n: "n = nat (120 - (lo + 1))" by linarith+
  with Suc.prems have "0 \<le> lo" by simp
  have e: "concat (map point_bytes (concat (map (row_points s) [lo..119])))
      = concat (map point_bytes (row_points s lo)) @ concat (map point_bytes (concat (map (row_points s) [lo + 1..119])))"
    using lt by (simp add: upto_rec1 [of lo 119])
  show ?case
    unfolding e using Suc.hyps(1) [OF n] row_shown [of x y lo s t] assms(1-4) lt \<open>0 \<le> lo\<close> by auto
qed

section \<open>Property\<close>

text \<open>The grey of a byte in 5 bits of red, 6 of green and 5 of blue.\<close>

definition grey :: "int \<Rightarrow> int" where
  "grey v = 2048 * (v div 8) + 32 * (v div 4) + v div 8"

lemma gray565_grey: "gray565 (uint v) = grey (uint v)" for v :: "8 word"
proof -
  obtain k where k: "k = uint v" "0 \<le> k" "k < 256" using uint_lt2p [of v] by simp
  then have "0 \<le> k div 8" "k div 8 < 32" "0 \<le> k div 4" "k div 4 < 64" by linarith+
  then have "gray565 k = grey k" by (simp add: gray565_def grey_def)
  then show ?thesis by (simp add: k(1))
qed


definition picture :: "car \<Rightarrow> image option" where
  "picture c = (if disp_pic_type (ui c) = 0 then Some (bin_image (ui c))
     else if disp_pic_type (ui c) = 1 then Some (FilterImage c)
     else if disp_pic_type (ui c) = 2 then Some (csi_image (ui c)) else None)"

text \<open>A panel that shows nothing.\<close>

definition blank :: glass where
  "blank = \<lparr>cmd = 0, args = [], col0 = 0, col1 = 0, row0 = 0, row1 = 0, col = 0, row = 0, ram = \<lambda>_ _. 0\<rparr>"

lemma pixel_blank: "pixel blank x y = 0"
  by (simp add: pixel_def blank_def)

lemma show_frame:
  assumes "show_tft_img c = Some c'" "0 \<le> x" "x < 160" "0 \<le> y" "y < 120"
  shows "pixel (send (frame_bytes (screen c')) s) x y =
    (let ground = (case picture c' of None \<Rightarrow> pixel s x y | Some im \<Rightarrow> grey (px im y x)) in
     if vtop (lns c') \<le> y then line_colour (lns c') x y ground else ground)"
proof -
  obtain ps where ps: "for_up (draw_row (lns c)) (vtop (lns c)) 120 [] = Some ps" and c': "c' = c\<lparr>screen := (picture c, ps)\<rparr>"
    using assms(1) by (auto simp: show_tft_img_def picture_def bind_eq_Some_conv)
  from draw_rows [OF ps] have p: "ps = concat (map (row_points (lns c)) [vtop (lns c)..119])"
    and v: "vtop (lns c) < 120 \<longrightarrow> 0 \<le> vtop (lns c)" by simp_all
  define t where "t = send (case picture c of None \<Rightarrow> [] | Some im \<Rightarrow> lcd_displayimage032 (\<lambda>a. uint (im a)) 160 120) s"
  have "pixel t x y = (case picture c of None \<Rightarrow> pixel s x y | Some im \<Rightarrow> grey (px im y x))"
    using assms(2-5) by (cases "picture c") (simp_all add: t_def picture_shown gray565_grey px_def)
  moreover have "send (frame_bytes (screen c')) s = send (concat (map point_bytes (concat (map (row_points (lns c)) [vtop (lns c)..119])))) t"
    by (simp add: frame_bytes_def c' p t_def)
  moreover have "picture c' = picture c" "lns c' = lns c" by (simp_all add: c' picture_def)
  ultimately show ?thesis
    using rows_shown [OF assms(2-5) v, of "lns c" t] by (simp add: Let_def)
qed

text \<open>
  C7: After a round of the main loop every pixel of the first 120 rows of the glass shows the brightness of the chosen
  picture at the same place as a 16 bit colour, except in the rows from the vertex down, where the right edge is green, the
  middle line blue and the left edge red in the column that is the coordinate modulo 256: a coordinate outside the
  picture can come back into it.
\<close>

theorem frame_on_screen:
  assumes "main_round e c = Some c'" "0 \<le> x" "x < 160" "0 \<le> y" "y < 120"
  shows "pixel (send (frame_bytes (screen c')) s) x y =
    (let ground = (case picture c' of None \<Rightarrow> pixel s x y | Some im \<Rightarrow> grey (px im y x)) in
     if vtop (lns c') \<le> y then line_colour (lns c') x y ground else ground)"
proof -
  from assms(1) obtain c1 where "show_tft_img c1 = Some c'"
    unfolding main_round_def Let_def case_prod_unfold bind_eq_Some_conv by blast
  then show ?thesis by (rule show_frame [OF _ assms(2-5)])
qed

lemma frame_on_screen_witness:
  "\<exists>c s c'. main_start (Some pos_memory) (car_init (\<lambda>_. 1) panel_start (Some 0) (Some 0) (\<lambda>_. 90)) = Some c
    \<and> chassis_start (memory_of (Fin 0)) (chs c) = Some s \<and> main_round demo_frame (c\<lparr>chs := s\<rparr>) = Some c'
    \<and> pixel (send (frame_bytes (screen c')) blank) 80 100
      = (let ground = (case picture c' of None \<Rightarrow> 0 | Some im \<Rightarrow> grey (px im 100 80)) in
         if vtop (lns c') \<le> 100 then line_colour (lns c') 80 100 ground else ground)"
proof -
  obtain c s where c: "main_start (Some pos_memory) (car_init (\<lambda>_. 1) panel_start (Some 0) (Some 0) (\<lambda>_. 90)) = Some c"
    "chassis_start (memory_of (Fin 0)) (chs c) = Some s" "car_film c [] (c\<lparr>chs := s\<rparr>)" "speeds_ok (speed_now s)"
    by (rule car_with_wheels [of "Fin 0"]) (simp add: below_iff)
  have "car_ok c" using main_start_ok [OF panel_start_ok, of pos_memory "\<lambda>_. 1" 0 0 "\<lambda>_. 90"] c(1) by simp
  then have "car_ok (c\<lparr>chs := s\<rparr>)" using car_run_inv [OF car_film_run [OF c(3)]] by blast
  from main_round_ok [OF this, of demo_frame] c(4) obtain c' where "main_round demo_frame (c\<lparr>chs := s\<rparr>) = Some c'" by (auto elim: runsE)
  moreover note frame_on_screen [OF calculation, of 80 100 blank, unfolded pixel_blank, simplified] c(1,2)
  ultimately show ?thesis by (intro exI conjI) simp_all
qed

end
