(* ===== verification/Spec2Isabelle.thy ===== *)
theory Spec2Isabelle
  imports FindLinesInv CarSafe ServoExact Interrupts SelfTests CameraSerial Gpio PwmDriver DisplayFacts
begin

text \<open>
  Verification of the smart car's control program (\<open>src/Project/src\<close>, with the parts of
  \<open>src/Libraries\<close> it rests on most directly).

  The program.  A camera looks at the track; for every frame the main loop (\<open>main.c\<close>) smooths and
  binarises the image, finds the edges and the middle line of the track row by row, recognises and
  repairs bends, crossings and rings, computes a steering error and a speed, looks for the finish line, and
  commands the steering servo and the set speed of the two wheels.  A second thread
  (\<open>chassisThread.c\<close>) measures the wheels and drives the motors through PID controllers, a third one
  blinks the LEDs and the beeper (\<open>easyblink.c\<close>), a fourth one debounces four buttons
  (\<open>agile_button.c\<close>, \<open>buttonThread.c\<close>).  Interrupts deliver frames.

  Theories and code.
  \<^item> \<open>Prelude\<close>: C integer conversions, arrays with a trap, the counted loops and their rule.
  \<^item> \<open>FloatModel\<close>, \<open>FloatSqrt\<close>: single and double precision as rationals with a rounding after every
    operation, infinities and NaN; the square root.
  \<^item> \<open>FindLines\<close>, \<open>FindLinesJudge\<close>, \<open>FindLines2\<close>: \<open>findLines.c\<close>, one definition per function or
    section of a long function; \<open>FindLinesInv\<close>, \<open>MidlineBounds\<close>, \<open>MidlineRepair\<close>: no index leaves its array and no
    cell its range, over any number of frames.
  \<^item> \<open>ImageProcess\<close>: \<open>imageProcess.c\<close>; \<open>Util\<close> and \<open>Upload\<close>: \<open>util.c\<close>.
  \<^item> \<open>Actuators\<close>, \<open>ServoExact\<close>: \<open>servo.c\<close> and \<open>motor.c\<close>; \<open>Pid\<close>: the two controllers and the dispatch of
    \<open>controller.c\<close>; \<open>Chassis\<close>: \<open>encoder.c\<close>, \<open>wheel.c\<close>, \<open>chassisThread.c\<close>.
  \<^item> \<open>Distinguish\<close>, \<open>DistinguishFacts\<close>: \<open>distinguish.c\<close>.
  \<^item> \<open>EasyBlink\<close>: \<open>easyblink.c\<close> and its daemon as a state machine; \<open>EasyBlinkSafe\<close>: what holds however late the daemon
    runs; \<open>EasyBlinkFacts\<close>, \<open>EasyBlinkSpec\<close>: with a punctual daemon, the ideal scheduler it refines and the times of the blinks.
  \<^item> \<open>Buttons\<close>, \<open>ButtonFacts\<close>, \<open>PanelFacts\<close>: \<open>agile_button.c\<close> and \<open>buttonThread.c\<close>.
  \<^item> \<open>Camera\<close>, \<open>CameraFacts\<close>: the frame queue of \<open>fsl_csi.c\<close>, \<open>zf_csi.c\<close> and the callback of
    \<open>SEEKFREE_MT9V03X_CSI.c\<close>; \<open>CameraSerial\<close>: the exchange over the serial line that configures the sensor.
  \<^item> \<open>Pads\<close>: the pin multiplexer, \<open>zf_iomuxc.c\<close>, with the pin choices of \<open>zf_pwm.c\<close> and \<open>zf_qtimer.c\<close>;
    \<open>Gpio\<close>: \<open>zf_gpio.c\<close> and \<open>fsl_gpio.c\<close> on 32 bit registers; \<open>PwmDriver\<close>: \<open>zf_pwm.c\<close> and \<open>fsl_pwm.c\<close> on 16 bit
    registers, and the commands of \<open>Actuators\<close> carried down to them.
  \<^item> \<open>Printf\<close>: the formatter \<open>SEEKFREE_PRINTF.c\<close>; \<open>LcdFont\<close>, \<open>Lcd\<close>: the display driver
    \<open>SEEKFREE_18TFT.c\<close> with its fonts, as the bytes it sends; \<open>Display\<close>, \<open>DisplayFacts\<close>: the panel that receives them,
    and the picture of the main loop on the glass.
  \<^item> \<open>Interrupts\<close>: \<open>interrupt.c\<close> with the nesting counter of RT-Thread's \<open>irq.c\<close>.
  \<^item> \<open>SelfTests\<close>: the shell's tests in \<open>test.c\<close> and \<open>filesManage.c\<close>.
  \<^item> \<open>MainLoop\<close>, \<open>MainLoopFacts\<close>, \<open>CarInv\<close>, \<open>CarSafe\<close>: \<open>main.c\<close> over the state of all the components, and the car
    as a whole under every interleaving of its threads.

  How the code is written here.  A struct or the globals of a file are a \<open>record\<close> with the source's names; a
  function is a definition of the source's name.  A C integer is an \<open>int\<close>, and every store into a narrower object goes
  through that type's conversion (\<open>i16\<close>, \<open>u8\<close>, ...); \<open>ck32\<close> traps where signed overflow is
  undefined and reachable.  A computation that can index out of its array, convert an unrepresentable
  float, follow a null pointer or fail an assertion is an \<open>option\<close>, with \<open>None\<close> the trap; \<open>runs m Q\<close> says that
  \<open>m\<close> does not trap and its result satisfies \<open>Q\<close>.  In three places the source writes one element past an array:
  \<open>stop_car[20]\<close>, \<open>road_type[200]\<close> and, in the wheels, \<open>speed_now[5]\<close>.  What lies there is an \<open>option\<close> of the state:
  \<open>None\<close>, another object, makes the function trap; \<open>Some w\<close> is a word \<open>w\<close> that nothing else uses.  The theorems about these
  functions say which of the two they assume, and what happens in the other.
  Memory from the allocator and uninitialised variables (the controllers' blocks, \<open>lose_cnt\<close>) are arguments, so a
  theorem holds for every content.  Images are flat memories of bytes, 160 to a row.

  What the lemmas show.  Each component has an invariant that its operations keep
  (\<open>lines_ok\<close>, \<open>mid_ok\<close>, \<open>track_inv\<close>, \<open>chassis_inv\<close>, \<open>pos_inv\<close>, \<open>eb_safe\<close>, \<open>eb_inv\<close>, \<open>panel_ok\<close>, \<open>steady\<close>, \<open>irq_inv\<close>), which gives the absence of
  traps; \<open>car_inv\<close> joins them.  The functional properties are stated against definitions that do not follow the code: the
  nearest edge in a row, the mean of a neighbourhood, the exact mean of the image, a majority of frames, an ideal blink
  scheduler, words of button events, the digits of a number, a picture's pixels, integer arithmetic.  The properties C1, C2, ... stand in their theories.

  Bounds.  The loops of the source are counted, so the models terminate by a measure on the counter; the
  searches of \<open>csi_init\<close> have no such bound and are partial functions, shown to end.  The car's invariant holds for
  speed parameters from 0 to 512, basic and largest steering gains up to 512 in absolute value, a quadratic gain of at
  most 1/16 and integral and differential gains up to 1024; the commands of a run are restricted to these.
  Ticks are unbounded numbers read modulo 2 to the 32.  The whole car is also assumed to find, in the heap, bounded numbers in the
  targets of the wheels' controllers and a free word behind each wheel (\<open>chassis_memory_ok\<close>), and a free word behind \<open>stop_car\<close> and
  \<open>road_type\<close>, and a frame to see plausible speeds (\<open>speeds_ok\<close>); the properties of the chassis, the finish line and
  the speed show what happens otherwise.  Only the refinement and the times of the blinks
  (\<open>eb_run\<close>) assume that a ready daemon runs before the next tick and is not called while it switches.

  Assumptions.  Floating point operations are rounded one by one (no contraction), and the sign of zero is not
  kept.  A round of the main loop, a round of the chassis thread, a pass over the buttons, a step of the
  blinker's daemon and a call into a component are atomic.  PWM outputs are recorded as frequency and duty of a channel,
  which \<open>PwmDriver\<close> relates to the registers; the main loop records the picture and the points it draws, which
  \<open>DisplayFacts\<close> turns into the driver's calls; the panel follows its controller's documentation; writing a bit of \<open>CLDOK\<close> clears that bit of \<open>LDOK\<close> as documented,
  while the write lock of the values under \<open>LDOK\<close> and its clearing by the hardware are left out; \<open>1 << 31\<close> in the masks of the pins is taken as bit 31;
  counters, pins, the tick and the camera's pictures come from outside and are arbitrary.

  Not modelled.  The RT-Thread kernel, the NXP and seekfree drivers other than those of camera, pins, PWM and display (they set
  registers; of \<open>lcd_init\<close> the pins, the reset and the delays are left out), and the vendored network, file system and USB stacks, which the car does not use.
\<close>

end
